(* ===== verification/Prelude.thy ===== *)
theory Prelude
  imports Main "HOL-Library.List_Lexorder" "HOL-Library.Word"
begin

text \<open>
  The shared vocabulary of the development: Rust strings as lists of Unicode scalar values,
  the \<open>BTreeSet\<close> operations the code performs on them, the result type of fallible code, and
  the generic lemmas on lists and options that the components share.

  A Rust \<open>String\<close> is a list of code points (natural numbers). The order of such lists
  (theory \<open>List_Lexorder\<close>) is the order of the UTF-8 bytes, because UTF-8 preserves it.
  \<open>L ''abc''\<close> is the string literal \<open>"abc"\<close>.
\<close>

named_theorems btree_simps \<open>what the BTreeSet operations compute\<close>
named_theorems str_simps \<open>evaluation of string literals and string helpers\<close>

type_synonym str = "nat list"

text \<open>A fallible computation: \<open>Inl\<close> is the error, \<open>Inr\<close> the value (Rust's \<open>Result\<close>).\<close>

type_synonym ('e, 'a) result = "'e + 'a"

subsection \<open>Strings\<close>

definition L :: "string \<Rightarrow> str" where
  "L s = map of_char s"

lemma L_simps [str_simps, simp]:
  "L [] = []"
  "L (c # cs) = of_char c # L cs"
  by (simp_all add: L_def)

lemma of_char_nat_inj [simp]: "(of_char c :: nat) = of_char d \<longleftrightarrow> c = d"
  by (metis char_of_char)

lemma L_inj [simp]: "L s = L t \<longleftrightarrow> s = t"
  by (simp add: L_def inj_map_eq_map inj_def)

definition starts_with :: "str \<Rightarrow> str \<Rightarrow> bool" where
  "starts_with s p \<longleftrightarrow> take (length p) s = p"

lemma starts_with_Nil [simp]: "starts_with s []"
  by (simp add: starts_with_def)

lemma starts_with_append [simp]: "starts_with (p @ s) p"
  by (simp add: starts_with_def)

lemma starts_with_Cons [simp]:
  "starts_with (c # s) (d # p) \<longleftrightarrow> c = d \<and> starts_with s p"
  "\<not> starts_with [] (d # p)"
  by (auto simp: starts_with_def)

subsection \<open>BTreeSet: collecting, inserting, removing\<close>

text \<open>
  A \<open>BTreeSet\<close> is a finite set; reading it back into a \<open>Vec\<close> lists it in increasing order.
\<close>

definition bt_collect :: "('a::linorder) set \<Rightarrow> 'a list" where
  "bt_collect s = sorted_list_of_set s"

definition bt_insert_all :: "'a list \<Rightarrow> 'a set \<Rightarrow> 'a set" where
  "bt_insert_all xs s = fold insert xs s"

definition bt_remove_all :: "'a list \<Rightarrow> 'a set \<Rightarrow> 'a set" where
  "bt_remove_all xs s = fold Set.remove xs s"

lemma bt_insert_all_eq [simp, btree_simps]: "bt_insert_all xs s = set xs \<union> s"
  by (simp add: bt_insert_all_def union_set_fold)

lemma bt_remove_all_eq [simp, btree_simps]: "bt_remove_all xs s = s - set xs"
  by (simp add: bt_remove_all_def minus_set_fold)

lemma set_bt_collect [simp, btree_simps]: "finite s \<Longrightarrow> set (bt_collect s) = s"
  by (simp add: bt_collect_def)

lemma sorted_bt_collect [simp]: "sorted (bt_collect s)"
  by (simp add: bt_collect_def)

lemma distinct_bt_collect [simp]: "distinct (bt_collect s)"
  by (simp add: bt_collect_def)

lemma bt_collect_empty_iff [simp]: "finite s \<Longrightarrow> bt_collect s = [] \<longleftrightarrow> s = {}"
  by (simp add: bt_collect_def)

lemma bt_collect_set [code_unfold]: "bt_collect (set xs) = sort (remdups xs)"
  by (simp add: bt_collect_def sorted_list_of_set_sort_remdups)

subsection \<open>Lists\<close>

lemma filter_filter_sub:
  "(\<And>x. P x \<Longrightarrow> Q x) \<Longrightarrow> filter P (filter Q xs) = filter P xs"
  by (auto intro: filter_cong)

lemma find_Some_iff_mem: "List.find P xs = Some x \<Longrightarrow> x \<in> set xs \<and> P x"
  by (auto simp: find_Some_iff)

lemma find_None_iff_all: "List.find P xs = None \<longleftrightarrow> (\<forall>x\<in>set xs. \<not> P x)"
  by (auto simp: find_None_iff)

lemma distinct_map_filterI: "distinct (map f xs) \<Longrightarrow> distinct (map f (filter P xs))"
  by (induction xs) auto

lemma takeWhile_dropWhile_length:
  "length (takeWhile P xs) + length (dropWhile P xs) = length xs"
  by (metis length_append takeWhile_dropWhile_id)

subsection \<open>Fallible steps on a state\<close>

text \<open>The \<open>?\<close> operator over a threaded state: an error keeps the state reached so far.\<close>

definition and_then ::
  "('e, 'a) result \<times> 's \<Rightarrow> ('a \<Rightarrow> 's \<Rightarrow> ('e, 'b) result \<times> 's) \<Rightarrow> ('e, 'b) result \<times> 's" where
  "and_then r k = (case r of (Inl e, s) \<Rightarrow> (Inl e, s) | (Inr x, s) \<Rightarrow> k x s)"

lemma and_then_simps [simp]:
  "and_then (Inl e, s) k = (Inl e, s)"
  "and_then (Inr x, s) k = k x s"
  by (simp_all add: and_then_def)

lemma and_then_split:
  "P (and_then r k) \<longleftrightarrow>
     (\<forall>e s. r = (Inl e, s) \<longrightarrow> P (Inl e, s)) \<and> (\<forall>x s. r = (Inr x, s) \<longrightarrow> P (k x s))"
  by (cases r; cases "fst r") auto

lemma and_then_InrE:
  assumes "and_then r k = (Inr y, s')"
  obtains x s where "r = (Inr x, s)" "k x s = (Inr y, s')"
  using assms by (cases r; cases "fst r") auto

subsection \<open>Running fallible computations in order\<close>

fun sequence :: "('e, 'a) result list \<Rightarrow> ('e, 'a list) result" where
  "sequence [] = Inr []"
| "sequence (r # rs) = (case r of
     Inl e \<Rightarrow> Inl e
   | Inr x \<Rightarrow> (case sequence rs of Inl e \<Rightarrow> Inl e | Inr xs \<Rightarrow> Inr (x # xs)))"

lemma sequence_Inr_length: "sequence rs = Inr xs \<Longrightarrow> length xs = length rs"
  by (induction rs arbitrary: xs) (auto split: sum.splits)

lemma sequence_map_mem: "sequence (map f xs) = Inr ys \<Longrightarrow> y \<in> set ys \<Longrightarrow> \<exists>x \<in> set xs. f x = Inr y"
  by (induction xs arbitrary: ys) (auto split: sum.splits)

lemma sequence_Inr_mem: "sequence rs = Inr xs \<Longrightarrow> x \<in> set xs \<Longrightarrow> Inr x \<in> set rs"
  by (induction rs arbitrary: xs) (auto split: sum.splits)

end
