(* ===== verification/MessageFold.thy ===== *)
theory MessageFold
  imports Prelude
begin

text \<open>
  The message predictor of \<open>crates/posthaste-replica-core/src/message.rs\<close>: the foldable state of
  a message (its keywords and its mailbox membership), the assertions a mutation makes about it,
  the fold that replays assertions over a confirmed base, the invertible change-diff of undo and
  redo, and the coalescer of pending assertions.
\<close>

subsection \<open>Data\<close>

record MessageFoldState =
  fs_keywords :: "str list"
  fs_mailbox_ids :: "str list"

record KeywordDelta =
  kd_added :: "str list"
  kd_removed :: "str list"

record MessageChangeDiff =
  cd_keywords :: KeywordDelta
  cd_mailboxes :: KeywordDelta

datatype MessageAssertion =
    SetKeywords (sk_add: "str list") (sk_remove: "str list")
  | ReplaceMailboxes (rm_mailbox_ids: "str list")
  | Destroy
  | ApplyDiff (ad_diff: MessageChangeDiff)

datatype 's Outcome = Present 's | Removed

type_synonym MessageOutcome = "MessageFoldState Outcome"

text \<open>The hand-written \<open>PartialEq\<close>: fold states are compared as sets.\<close>

definition fold_state_eq :: "MessageFoldState \<Rightarrow> MessageFoldState \<Rightarrow> bool" where
  "fold_state_eq s t \<longleftrightarrow>
     set (fs_keywords s) = set (fs_keywords t) \<and> set (fs_mailbox_ids s) = set (fs_mailbox_ids t)"

text \<open>The derived \<open>PartialEq\<close> of \<open>Outcome\<close>, over the equality of its states.\<close>

fun outcome_eq :: "('s \<Rightarrow> 's \<Rightarrow> bool) \<Rightarrow> 's Outcome \<Rightarrow> 's Outcome \<Rightarrow> bool" where
  "outcome_eq eq (Present s) (Present t) = eq s t"
| "outcome_eq eq Removed Removed = True"
| "outcome_eq eq _ _ = False"

subsection \<open>Deltas and diffs\<close>

definition delta_inverse :: "KeywordDelta \<Rightarrow> KeywordDelta" where
  "delta_inverse d = \<lparr>kd_added = kd_removed d, kd_removed = kd_added d\<rparr>"

definition delta_is_empty :: "KeywordDelta \<Rightarrow> bool" where
  "delta_is_empty d \<longleftrightarrow> kd_added d = [] \<and> kd_removed d = []"

definition diff_inverse :: "MessageChangeDiff \<Rightarrow> MessageChangeDiff" where
  "diff_inverse d =
     \<lparr>cd_keywords = delta_inverse (cd_keywords d), cd_mailboxes = delta_inverse (cd_mailboxes d)\<rparr>"

definition diff_is_empty :: "MessageChangeDiff \<Rightarrow> bool" where
  "diff_is_empty d \<longleftrightarrow> delta_is_empty (cd_keywords d) \<and> delta_is_empty (cd_mailboxes d)"

definition delta :: "str list \<Rightarrow> str list \<Rightarrow> KeywordDelta" where
  "delta prev cur =
     \<lparr>kd_added = bt_collect (set cur - set prev), kd_removed = bt_collect (set prev - set cur)\<rparr>"

definition from_before_after :: "MessageFoldState \<Rightarrow> MessageFoldState \<Rightarrow> MessageChangeDiff" where
  "from_before_after prev cur =
     \<lparr>cd_keywords = delta (fs_keywords prev) (fs_keywords cur),
      cd_mailboxes = delta (fs_mailbox_ids prev) (fs_mailbox_ids cur)\<rparr>"

subsection \<open>The fold\<close>

fun apply_message_assertion :: "MessageFoldState \<Rightarrow> MessageAssertion \<Rightarrow> MessageOutcome" where
  "apply_message_assertion state (SetKeywords add remove) =
     (let keywords = set (fs_keywords state);
          keywords = bt_insert_all add keywords;
          keywords = bt_remove_all remove keywords
      in Present (state\<lparr>fs_keywords := bt_collect keywords\<rparr>))"
| "apply_message_assertion state (ReplaceMailboxes mailbox_ids) =
     Present (state\<lparr>fs_mailbox_ids := mailbox_ids\<rparr>)"
| "apply_message_assertion state (ApplyDiff diff) =
     (let keywords = set (fs_keywords state);
          keywords = bt_insert_all (kd_added (cd_keywords diff)) keywords;
          keywords = bt_remove_all (kd_removed (cd_keywords diff)) keywords;
          mailboxes = set (fs_mailbox_ids state);
          mailboxes = bt_insert_all (kd_added (cd_mailboxes diff)) mailboxes;
          mailboxes = bt_remove_all (kd_removed (cd_mailboxes diff)) mailboxes
      in Present (state\<lparr>fs_keywords := bt_collect keywords,
                        fs_mailbox_ids := bt_collect mailboxes\<rparr>))"
| "apply_message_assertion state Destroy = Removed"

text \<open>The loop of \<open>replay_message\<close>, with its early return on a removed message.\<close>

fun replay_from :: "MessageOutcome \<Rightarrow> MessageAssertion list \<Rightarrow> MessageOutcome" where
  "replay_from outcome [] = outcome"
| "replay_from (Present state) (a # rest) = replay_from (apply_message_assertion state a) rest"
| "replay_from Removed (a # rest) = Removed"

definition replay_message :: "MessageFoldState \<Rightarrow> MessageAssertion list \<Rightarrow> MessageOutcome" where
  "replay_message base assertions = replay_from (Present base) assertions"

subsection \<open>Coalescing\<close>

text \<open>
  \<open>toggle\<close> moves a keyword to one list and drops it from the other. The accumulator of the
  loop is the four local variables of the code; \<open>None\<close> is the \<open>unreachable!\<close> panic.
\<close>

definition toggle :: "str list \<Rightarrow> str list \<Rightarrow> str \<Rightarrow> str list \<times> str list" where
  "toggle list other keyword =
     (if keyword \<in> set list then list else list @ [keyword],
      filter (\<lambda>existing. existing \<noteq> keyword) other)"

record Coalescing =
  co_added :: "str list"
  co_removed :: "str list"
  co_mailboxes :: "str list option"
  co_saw_keywords :: bool

fun toggle_adds :: "str list \<Rightarrow> str list \<times> str list \<Rightarrow> str list \<times> str list" where
  "toggle_adds [] acc = acc"
| "toggle_adds (k # ks) (added, removed) = toggle_adds ks (toggle added removed k)"

fun toggle_removes :: "str list \<Rightarrow> str list \<times> str list \<Rightarrow> str list \<times> str list" where
  "toggle_removes [] acc = acc"
| "toggle_removes (k # ks) (added, removed) =
     (case toggle removed added k of (removed', added') \<Rightarrow> toggle_removes ks (added', removed'))"

fun coalesce_step :: "Coalescing \<Rightarrow> MessageAssertion \<Rightarrow> Coalescing option" where
  "coalesce_step c (SetKeywords add remove) =
     (case toggle_removes remove (toggle_adds add (co_added c, co_removed c)) of
        (added, removed) \<Rightarrow>
          Some (c\<lparr>co_added := added, co_removed := removed, co_saw_keywords := True\<rparr>))"
| "coalesce_step c (ReplaceMailboxes mailbox_ids) = Some (c\<lparr>co_mailboxes := Some mailbox_ids\<rparr>)"
| "coalesce_step c Destroy = None"
| "coalesce_step c (ApplyDiff diff) = None"

fun coalesce_loop :: "Coalescing \<Rightarrow> MessageAssertion list \<Rightarrow> Coalescing option" where
  "coalesce_loop c [] = Some c"
| "coalesce_loop c (a # rest) =
     (case coalesce_step c a of None \<Rightarrow> None | Some c' \<Rightarrow> coalesce_loop c' rest)"

definition coalesce_emit :: "Coalescing \<Rightarrow> MessageAssertion list" where
  "coalesce_emit c =
     (if co_saw_keywords c \<and> (co_added c \<noteq> [] \<or> co_removed c \<noteq> [])
      then [SetKeywords (co_added c) (co_removed c)] else []) @
     (case co_mailboxes c of Some mailbox_ids \<Rightarrow> [ReplaceMailboxes mailbox_ids] | None \<Rightarrow> [])"

definition is_apply_diff :: "MessageAssertion \<Rightarrow> bool" where
  "is_apply_diff a \<longleftrightarrow> (case a of ApplyDiff _ \<Rightarrow> True | _ \<Rightarrow> False)"

definition coalesce_message_assertions :: "MessageAssertion list \<Rightarrow> MessageAssertion list option" where
  "coalesce_message_assertions assertions =
     (if Destroy \<in> set assertions then Some [Destroy]
      else if list_ex is_apply_diff assertions then Some assertions
      else map_option coalesce_emit
             (coalesce_loop \<lparr>co_added = [], co_removed = [], co_mailboxes = None,
                             co_saw_keywords = False\<rparr> assertions))"

subsection \<open>The abstract specification: a keyword set and a mailbox set\<close>

text \<open>
  What the fold promises, independent of list order: a message is a pair of sets, an assertion a
  partial function on such pairs (\<open>None\<close> once the message is destroyed), a replay their Kleisli
  composition in order.
\<close>

type_synonym spec_state = "str set \<times> str set"

definition fold_abs :: "MessageFoldState \<Rightarrow> spec_state" where
  "fold_abs s = (set (fs_keywords s), set (fs_mailbox_ids s))"

fun outcome_abs :: "MessageOutcome \<Rightarrow> spec_state option" where
  "outcome_abs (Present s) = Some (fold_abs s)"
| "outcome_abs Removed = None"

fun assertion_spec :: "MessageAssertion \<Rightarrow> spec_state \<Rightarrow> spec_state option" where
  "assertion_spec (SetKeywords a r) (K, M) = Some ((K \<union> set a) - set r, M)"
| "assertion_spec (ReplaceMailboxes ms) (K, M) = Some (K, set ms)"
| "assertion_spec (ApplyDiff d) (K, M) =
     Some ((K \<union> set (kd_added (cd_keywords d))) - set (kd_removed (cd_keywords d)),
           (M \<union> set (kd_added (cd_mailboxes d))) - set (kd_removed (cd_mailboxes d)))"
| "assertion_spec Destroy (K, M) = None"

fun replay_spec :: "MessageAssertion list \<Rightarrow> spec_state \<Rightarrow> spec_state option" where
  "replay_spec [] p = Some p"
| "replay_spec (a # rest) p = Option.bind (assertion_spec a p) (replay_spec rest)"

subsection \<open>Refinement\<close>

lemma fold_state_eq_abs: "fold_state_eq s t \<longleftrightarrow> fold_abs s = fold_abs t"
  by (simp add: fold_state_eq_def fold_abs_def)

lemma outcome_eq_abs: "outcome_eq fold_state_eq x y \<longleftrightarrow> outcome_abs x = outcome_abs y"
  by (cases x; cases y) (simp_all add: fold_state_eq_abs)

lemma apply_message_assertion_refines:
  "outcome_abs (apply_message_assertion s a) = assertion_spec a (fold_abs s)"
  by (cases a) (simp_all add: fold_abs_def Let_def Un_commute)

lemma replay_from_Removed [simp]: "replay_from Removed as = Removed"
  by (cases as) simp_all

lemma replay_from_refines:
  "outcome_abs (replay_from x as) = Option.bind (outcome_abs x) (replay_spec as)"
proof (induction x as rule: replay_from.induct)
  case (1 x)
  show ?case by (cases "outcome_abs x") simp_all
next
  case (2 s a rest)
  then show ?case by (simp add: apply_message_assertion_refines)
next
  case (3 a rest)
  show ?case by simp
qed

lemma replay_message_refines:
  "outcome_abs (replay_message s as) = replay_spec as (fold_abs s)"
  by (simp add: replay_message_def replay_from_refines)

lemma replay_from_append: "replay_from x (as @ bs) = replay_from (replay_from x as) bs"
  by (induction x as rule: replay_from.induct) simp_all

lemma replay_spec_append:
  "replay_spec (as @ bs) p = Option.bind (replay_spec as p) (replay_spec bs)"
proof (induction as arbitrary: p)
  case (Cons a as)
  then show ?case by (cases "assertion_spec a p") simp_all
qed simp

lemma assertion_spec_idem:
  "Option.bind (assertion_spec a p) (assertion_spec a) = assertion_spec a p"
  by (cases a; cases p) auto

lemma replay_spec_Destroy: "Destroy \<in> set as \<Longrightarrow> replay_spec as p = None"
proof (induction as arbitrary: p)
  case (Cons a as)
  show ?case
  proof (cases "a = Destroy")
    case True
    then show ?thesis by (cases p) simp
  next
    case False
    with Cons show ?thesis by (cases "assertion_spec a p") simp_all
  qed
qed simp

lemma finite_diff_set [simp]: "finite (set xs - A)"
  by (rule finite_Diff) simp

text \<open>Folding keywords always lists them in increasing order, without duplicates.\<close>

lemma apply_keywords_canonical:
  "apply_message_assertion s (SetKeywords a r) = Present t \<Longrightarrow>
     sorted (fs_keywords t) \<and> distinct (fs_keywords t) \<and> fs_mailbox_ids t = fs_mailbox_ids s"
  by (auto simp: Let_def)

subsection \<open>Undo and redo\<close>

lemma diff_inverse_involutive [simp]: "diff_inverse (diff_inverse d) = d"
  by (simp add: diff_inverse_def delta_inverse_def)

lemma diff_forward:
  "assertion_spec (ApplyDiff (from_before_after prev cur)) (fold_abs prev) = Some (fold_abs cur)"
  by (auto simp: from_before_after_def delta_def fold_abs_def)

lemma diff_inverse_swaps: "diff_inverse (from_before_after prev cur) = from_before_after cur prev"
  by (simp add: diff_inverse_def delta_inverse_def from_before_after_def delta_def)

lemma diff_is_empty_iff:
  "diff_is_empty (from_before_after prev cur) \<longleftrightarrow> fold_state_eq prev cur"
  by (auto simp: diff_is_empty_def delta_is_empty_def from_before_after_def delta_def
      fold_state_eq_def)

subsection \<open>Coalescing preserves the replay\<close>

definition kw_effect :: "str list \<times> str list \<Rightarrow> str set \<Rightarrow> str set" where
  "kw_effect ar K = (K \<union> set (fst ar)) - set (snd ar)"

lemma kw_effect_toggle_adds:
  "kw_effect (toggle_adds ks ar) K = kw_effect ar K \<union> set ks"
proof (induction ks ar rule: toggle_adds.induct)
  case (2 k ks added removed)
  then show ?case by (auto simp: toggle_def kw_effect_def)
qed simp

lemma kw_effect_toggle_removes:
  "kw_effect (toggle_removes ks ar) K = kw_effect ar K - set ks"
proof (induction ks ar rule: toggle_removes.induct)
  case (2 k ks added removed)
  then show ?case by (auto simp: toggle_def kw_effect_def)
qed simp

definition coalescing_effect :: "Coalescing \<Rightarrow> spec_state \<Rightarrow> spec_state" where
  "coalescing_effect c p =
     (kw_effect (co_added c, co_removed c) (fst p),
      (case co_mailboxes c of Some ms \<Rightarrow> set ms | None \<Rightarrow> snd p))"

definition coalescing_wf :: "Coalescing \<Rightarrow> bool" where
  "coalescing_wf c \<longleftrightarrow> co_saw_keywords c \<or> (co_added c = [] \<and> co_removed c = [])"

lemma coalesce_step_SetKeywords:
  "coalesce_step c (SetKeywords add remove) =
     (let ar = toggle_removes remove (toggle_adds add (co_added c, co_removed c))
      in Some (c\<lparr>co_added := fst ar, co_removed := snd ar, co_saw_keywords := True\<rparr>))"
  by (simp add: Let_def split: prod.split)

lemma coalesce_step_effect:
  assumes "coalesce_step c a = Some c'"
  shows "assertion_spec a (coalescing_effect c p) = Some (coalescing_effect c' p)"
proof (cases a)
  case (SetKeywords add remove)
  let ?ar = "toggle_removes remove (toggle_adds add (co_added c, co_removed c))"
  have c': "c' = c\<lparr>co_added := fst ?ar, co_removed := snd ?ar, co_saw_keywords := True\<rparr>"
    using assms by (simp add: SetKeywords coalesce_step_SetKeywords Let_def del: coalesce_step.simps)
  show ?thesis
    unfolding c' SetKeywords
    by (simp add: coalescing_effect_def kw_effect_toggle_adds kw_effect_toggle_removes)
qed (use assms in \<open>auto simp: coalescing_effect_def\<close>)

lemma coalesce_step_wf:
  "coalesce_step c a = Some c' \<Longrightarrow> coalescing_wf c \<Longrightarrow> coalescing_wf c'"
  by (cases a) (auto simp: coalescing_wf_def coalesce_step_SetKeywords Let_def
      simp del: coalesce_step.simps(1))

lemma coalesce_loop_effect:
  "coalesce_loop c as = Some c' \<Longrightarrow>
     replay_spec as (coalescing_effect c p) = Some (coalescing_effect c' p)"
proof (induction as arbitrary: c)
  case (Cons a as)
  from Cons.prems obtain d where d: "coalesce_step c a = Some d" "coalesce_loop d as = Some c'"
    by (auto split: option.splits)
  show ?case using coalesce_step_effect [OF d(1), of p] Cons.IH [OF d(2)] by simp
qed simp

lemma coalesce_loop_wf: "coalesce_loop c as = Some c' \<Longrightarrow> coalescing_wf c \<Longrightarrow> coalescing_wf c'"
proof (induction as arbitrary: c)
  case (Cons a as)
  from Cons.prems obtain d where d: "coalesce_step c a = Some d" "coalesce_loop d as = Some c'"
    by (auto split: option.splits)
  show ?case by (rule Cons.IH [OF d(2) coalesce_step_wf [OF d(1) Cons.prems(2)]])
qed simp

lemma coalesce_loop_total:
  "Destroy \<notin> set as \<Longrightarrow> \<not> list_ex is_apply_diff as \<Longrightarrow> \<exists>c'. coalesce_loop c as = Some c'"
proof (induction as arbitrary: c)
  case (Cons a as)
  then obtain d where d: "coalesce_step c a = Some d"
    by (cases a) (auto simp: is_apply_diff_def coalesce_step_SetKeywords Let_def
        simp del: coalesce_step.simps(1))
  from Cons.prems have "Destroy \<notin> set as" "\<not> list_ex is_apply_diff as" by simp_all
  then show ?case using Cons.IH [of d] d by simp
qed simp

lemma coalesce_emit_effect:
  "coalescing_wf c \<Longrightarrow> replay_spec (coalesce_emit c) p = Some (coalescing_effect c p)"
  by (cases p) (auto simp: coalesce_emit_def coalescing_effect_def coalescing_wf_def kw_effect_def
      split: option.splits)

lemma assertion_spec_Destroy [simp]: "assertion_spec Destroy p = None"
  by (cases p) simp

lemma coalesce_emit_length: "length (coalesce_emit c) \<le> 2"
  by (simp add: coalesce_emit_def split: option.splits)

text \<open>
  C14. Coalescing is total (the two \<open>unreachable!\<close> arms are unreachable) and the coalesced
  sequence folds to the same outcome as the input, from every base.
\<close>

theorem coalesce_preserves_replay:
  "\<exists>coalesced. coalesce_message_assertions assertions = Some coalesced \<and>
     outcome_eq fold_state_eq (replay_message base coalesced) (replay_message base assertions)"
proof -
  consider (destroy) "Destroy \<in> set assertions"
    | (diff) "Destroy \<notin> set assertions" "list_ex is_apply_diff assertions"
    | (plain) "Destroy \<notin> set assertions" "\<not> list_ex is_apply_diff assertions" by blast
  then show ?thesis
  proof cases
    case destroy
    then show ?thesis
      by (simp add: coalesce_message_assertions_def outcome_eq_abs replay_message_refines
          replay_spec_Destroy)
  next
    case diff
    then show ?thesis by (simp add: coalesce_message_assertions_def outcome_eq_abs)
  next
    case plain
    let ?c0 = "\<lparr>co_added = [], co_removed = [], co_mailboxes = None, co_saw_keywords = False\<rparr>"
    obtain c where c: "coalesce_loop ?c0 assertions = Some c"
      using coalesce_loop_total [OF plain] by blast
    have start: "coalescing_effect ?c0 p = p" for p
      by (simp add: coalescing_effect_def kw_effect_def)
    have "coalescing_wf c" using coalesce_loop_wf [OF c] by (simp add: coalescing_wf_def)
    with plain c show ?thesis
      using coalesce_loop_effect [OF c, of "fold_abs base"]
      by (simp add: coalesce_message_assertions_def outcome_eq_abs replay_message_refines
          coalesce_emit_effect start)
  qed
qed

text \<open>
  Undo and redo: the diff captured between two states replayed over the first gives the
  second, and its inverse replayed over the second gives back the first.
\<close>

lemma diff_undo_redo:
  "outcome_eq fold_state_eq
     (replay_message prev [ApplyDiff (from_before_after prev cur)]) (Present cur) \<and>
   outcome_eq fold_state_eq
     (replay_message cur [ApplyDiff (diff_inverse (from_before_after prev cur))]) (Present prev)"
  by (simp add: outcome_eq_abs replay_message_refines diff_forward diff_inverse_swaps
      del: assertion_spec.simps)

text \<open>
  Every assertion is idempotent: applying it twice is the same as applying it once, which is
  what makes a pending assertion that the base already carries invisible.
\<close>

lemma assertion_idempotent:
  "outcome_eq fold_state_eq (replay_message s [a, a]) (replay_message s [a])"
proof -
  have "replay_spec [a, a] p = replay_spec [a] p" for p
    using assertion_spec_idem [of a p] by (cases "assertion_spec a p") simp_all
  then show ?thesis by (simp add: outcome_eq_abs replay_message_refines)
qed

end
