(* ===== verification/Replica.thy ===== *)
theory Replica
  imports MessageFold
begin

text \<open>
  The convergence engine of \<open>crates/posthaste-replica-core/src/convergence.rs\<close>: a confirmed base
  and an ordered outbox of pending mutations, generic over a foldable entity kind. The trait
  \<open>Convergence\<close> is the record of its fold and of its state equality, passed to the operations
  that use it; its laws are the locale \<open>convergence\<close>, interpreted on the message fold.
\<close>

named_theorems replica_simps \<open>how the operations update the fields of a replica\<close>

subsection \<open>Data\<close>

record ('s, 'e) Convergence =
  cv_fold :: "'s \<Rightarrow> 'e list \<Rightarrow> 's Outcome"
  cv_eq :: "'s \<Rightarrow> 's \<Rightarrow> bool"

record ('k, 'e) PendingMutation =
  pm_id :: str
  pm_key :: 'k
  pm_effect :: 'e

datatype SettlementOutcome = Confirmed | Failed

record SettlementResult =
  sr_retired :: bool
  sr_reverted :: bool

definition settlement_default :: SettlementResult where
  "settlement_default = \<lparr>sr_retired = False, sr_reverted = False\<rparr>"

record ('k, 's, 'e) Replica =
  rp_base :: "'k \<Rightarrow> 's option"
  rp_pending :: "('k, 'e) PendingMutation list"
  rp_confirmed :: "str set"
  rp_accepted_at :: "str \<Rightarrow> nat option"

definition replica_new :: "('k, 's, 'e) Replica" where
  "replica_new =
     \<lparr>rp_base = Map.empty, rp_pending = [], rp_confirmed = {}, rp_accepted_at = Map.empty\<rparr>"

subsection \<open>Operations\<close>

definition set_base :: "'k \<Rightarrow> 's \<Rightarrow> ('k, 's, 'e) Replica \<Rightarrow> ('k, 's, 'e) Replica" where
  "set_base key state r = r\<lparr>rp_base := (rp_base r)(key \<mapsto> state)\<rparr>"

definition remove_base :: "'k \<Rightarrow> ('k, 's, 'e) Replica \<Rightarrow> ('k, 's, 'e) Replica" where
  "remove_base key r = r\<lparr>rp_base := (rp_base r)(key := None)\<rparr>"

text \<open>\<open>pending.retain\<close> on the ids, and clearing a list of ids from the two side tables.\<close>

definition retain_ids :: "str list \<Rightarrow> ('k, 's, 'e) Replica \<Rightarrow> ('k, 's, 'e) Replica" where
  "retain_ids gone r = r\<lparr>rp_pending := filter (\<lambda>held. pm_id held \<notin> set gone) (rp_pending r)\<rparr>"

definition unconfirm :: "str list \<Rightarrow> ('k, 's, 'e) Replica \<Rightarrow> ('k, 's, 'e) Replica" where
  "unconfirm ids r = r\<lparr>rp_confirmed := rp_confirmed r - set ids\<rparr>"

definition unversion :: "str list \<Rightarrow> ('k, 's, 'e) Replica \<Rightarrow> ('k, 's, 'e) Replica" where
  "unversion ids r = r\<lparr>rp_accepted_at := (\<lambda>i. if i \<in> set ids then None else rp_accepted_at r i)\<rparr>"

lemma field_updates [simp, replica_simps]:
  "rp_base (retain_ids gone r) = rp_base r"
  "rp_base (unconfirm gone r) = rp_base r"
  "rp_base (unversion gone r) = rp_base r"
  "rp_pending (retain_ids gone r) = filter (\<lambda>held. pm_id held \<notin> set gone) (rp_pending r)"
  "rp_pending (unconfirm gone r) = rp_pending r"
  "rp_pending (unversion gone r) = rp_pending r"
  "rp_confirmed (retain_ids gone r) = rp_confirmed r"
  "rp_confirmed (unconfirm gone r) = rp_confirmed r - set gone"
  "rp_confirmed (unversion gone r) = rp_confirmed r"
  "rp_accepted_at (retain_ids gone r) = rp_accepted_at r"
  "rp_accepted_at (unconfirm gone r) = rp_accepted_at r"
  "rp_accepted_at (unversion gone r) = (\<lambda>i. if i \<in> set gone then None else rp_accepted_at r i)"
  by (simp_all add: retain_ids_def unconfirm_def unversion_def)

definition remove_pending :: "'k \<Rightarrow> ('k, 's, 'e) Replica \<Rightarrow> bool \<times> ('k, 's, 'e) Replica" where
  "remove_pending key r =
     (let remove = map pm_id (filter (\<lambda>held. pm_key held = key) (rp_pending r))
      in if remove = [] then (False, r)
         else (True, unversion remove (unconfirm remove (retain_ids remove r))))"

definition drop_pending :: "str \<Rightarrow> ('k, 's, 'e) Replica \<Rightarrow> bool \<times> ('k, 's, 'e) Replica" where
  "drop_pending i r =
     (let r' = unversion [i] (unconfirm [i] (retain_ids [i] r))
      in (length (rp_pending r') \<noteq> length (rp_pending r), r'))"

definition accept :: "('k, 'e) PendingMutation \<Rightarrow> ('k, 's, 'e) Replica \<Rightarrow> ('k, 's, 'e) Replica" where
  "accept mutation r =
     (if \<exists>held \<in> set (rp_pending r). pm_id held = pm_id mutation then r
      else r\<lparr>rp_pending := rp_pending r @ [mutation]\<rparr>)"

definition accept_at ::
  "('k, 'e) PendingMutation \<Rightarrow> nat option \<Rightarrow> ('k, 's, 'e) Replica \<Rightarrow> ('k, 's, 'e) Replica" where
  "accept_at mutation version r =
     accept mutation
       (case version of
          Some v \<Rightarrow> r\<lparr>rp_accepted_at := (rp_accepted_at r)(pm_id mutation \<mapsto> v)\<rparr>
        | None \<Rightarrow> r)"

definition mark_confirmed :: "str \<Rightarrow> ('k, 's, 'e) Replica \<Rightarrow> ('k, 's, 'e) Replica" where
  "mark_confirmed i r = r\<lparr>rp_confirmed := insert i (rp_confirmed r)\<rparr>"

text \<open>
  The first pass of \<open>retire_absorbed_if\<close>: walk the key's ops in order, collecting those that are
  confirmed, pass the gate and are absorbed at their position; an effective op advances the
  running state, one that would remove the entity does not.
\<close>

fun retire_walk :: "('s, 'e) Convergence \<Rightarrow> str set \<Rightarrow> (str \<Rightarrow> bool) \<Rightarrow> 's \<Rightarrow>
    ('k, 'e) PendingMutation list \<Rightarrow> str list" where
  "retire_walk C conf can_retire running [] = []"
| "retire_walk C conf can_retire running (held # rest) =
     (case cv_fold C running [pm_effect held] of
        Present next \<Rightarrow>
          if cv_eq C next running
          then (if pm_id held \<in> conf \<and> can_retire (pm_id held)
                then pm_id held # retire_walk C conf can_retire running rest
                else retire_walk C conf can_retire running rest)
          else retire_walk C conf can_retire next rest
      | Removed \<Rightarrow> retire_walk C conf can_retire running rest)"

definition ops_on :: "'k \<Rightarrow> ('k, 's, 'e) Replica \<Rightarrow> ('k, 'e) PendingMutation list" where
  "ops_on key r = filter (\<lambda>held. pm_key held = key) (rp_pending r)"

definition retire_absorbed_if ::
  "('s, 'e) Convergence \<Rightarrow> 'k \<Rightarrow> (str \<Rightarrow> bool) \<Rightarrow> ('k, 's, 'e) Replica \<Rightarrow>
     str list \<times> ('k, 's, 'e) Replica" where
  "retire_absorbed_if C key can_retire r =
     (let retire =
        (case rp_base r key of
           None \<Rightarrow>
             map pm_id (filter (\<lambda>held. pm_key held = key \<and> pm_id held \<in> rp_confirmed r \<and>
                                       can_retire (pm_id held)) (rp_pending r))
         | Some b \<Rightarrow> retire_walk C (rp_confirmed r) can_retire b (ops_on key r))
      in if retire = [] then ([], r) else (retire, unconfirm retire (retain_ids retire r)))"

definition version_gate :: "nat option \<Rightarrow> nat option \<Rightarrow> bool" where
  "version_gate accepted current =
     (case accepted of
        None \<Rightarrow> True
      | Some at \<Rightarrow> (case current of Some cur \<Rightarrow> cur > at | None \<Rightarrow> False))"

definition retire_absorbed_at ::
  "('s, 'e) Convergence \<Rightarrow> 'k \<Rightarrow> nat option \<Rightarrow> ('k, 's, 'e) Replica \<Rightarrow>
     str list \<times> ('k, 's, 'e) Replica" where
  "retire_absorbed_at C key current_version r =
     (let can_retire =
        set (map pm_id (filter (\<lambda>held. version_gate (rp_accepted_at r (pm_id held)) current_version)
                               (ops_on key r)))
      in case retire_absorbed_if C key (\<lambda>i. i \<in> can_retire) r of
           (retired, r') \<Rightarrow> (retired, unversion retired r'))"

definition retire_absorbed ::
  "('s, 'e) Convergence \<Rightarrow> 'k \<Rightarrow> ('k, 's, 'e) Replica \<Rightarrow> str list \<times> ('k, 's, 'e) Replica" where
  "retire_absorbed C key r = retire_absorbed_at C key None r"

definition settle ::
  "('s, 'e) Convergence \<Rightarrow> str \<Rightarrow> SettlementOutcome \<Rightarrow> ('k, 's, 'e) Replica \<Rightarrow>
     SettlementResult \<times> ('k, 's, 'e) Replica" where
  "settle C i outcome r =
     (case outcome of
        Confirmed \<Rightarrow>
          (case List.find (\<lambda>held. pm_id held = i) (rp_pending r) of
             None \<Rightarrow> (settlement_default, r)
           | Some held \<Rightarrow>
               (case retire_absorbed C (pm_key held) (mark_confirmed i r) of
                  (retired_ids, r') \<Rightarrow>
                    (\<lparr>sr_retired = retired_ids \<noteq> [], sr_reverted = False\<rparr>, r')))
      | Failed \<Rightarrow>
          (case drop_pending i r of
             (retired, r') \<Rightarrow> (\<lparr>sr_retired = retired, sr_reverted = retired\<rparr>, r')))"

definition project :: "('s, 'e) Convergence \<Rightarrow> 'k \<Rightarrow> ('k, 's, 'e) Replica \<Rightarrow> 's Outcome option" where
  "project C key r =
     (case rp_base r key of
        None \<Rightarrow> None
      | Some b \<Rightarrow> Some (cv_fold C b (map pm_effect (ops_on key r))))"

definition has_pending :: "('k, 's, 'e) Replica \<Rightarrow> bool" where
  "has_pending r \<longleftrightarrow> rp_pending r \<noteq> []"

text \<open>The one foldable entity kind today.\<close>

definition MessageConvergence :: "(MessageFoldState, MessageAssertion) Convergence" where
  "MessageConvergence = \<lparr>cv_fold = replay_message, cv_eq = fold_state_eq\<rparr>"

type_synonym MessageReplica = "(str, MessageFoldState, MessageAssertion) Replica"

subsection \<open>Well-formedness and its preservation\<close>

text \<open>
  The outbox holds every mutation id at most once, and the version table only knows ids that are
  pending: it does not leak across the outbox lifecycle.
\<close>

definition replica_inv :: "('k, 's, 'e) Replica \<Rightarrow> bool" where
  "replica_inv r \<longleftrightarrow>
     distinct (map pm_id (rp_pending r)) \<and> dom (rp_accepted_at r) \<subseteq> pm_id ` set (rp_pending r)"

lemma replica_inv_new [simp]: "replica_inv replica_new"
  by (simp add: replica_inv_def replica_new_def)

lemma set_base_pending [simp]:
  "rp_pending (set_base k s r) = rp_pending r" "rp_accepted_at (set_base k s r) = rp_accepted_at r"
  "rp_confirmed (set_base k s r) = rp_confirmed r"
  "rp_pending (remove_base k r) = rp_pending r" "rp_accepted_at (remove_base k r) = rp_accepted_at r"
  "rp_confirmed (remove_base k r) = rp_confirmed r"
  "rp_pending (mark_confirmed i r) = rp_pending r"
  "rp_accepted_at (mark_confirmed i r) = rp_accepted_at r"
  "rp_base (mark_confirmed i r) = rp_base r"
  "rp_confirmed (mark_confirmed i r) = insert i (rp_confirmed r)"
  by (simp_all add: set_base_def remove_base_def mark_confirmed_def)

lemma replica_inv_cong:
  "rp_pending r' = rp_pending r \<Longrightarrow> rp_accepted_at r' = rp_accepted_at r \<Longrightarrow>
     replica_inv r' = replica_inv r"
  by (simp add: replica_inv_def)

lemma replica_inv_mark [simp]:
  "replica_inv (set_base k s r) = replica_inv r"
  "replica_inv (remove_base k r) = replica_inv r"
  "replica_inv (mark_confirmed i r) = replica_inv r"
  by (rule replica_inv_cong; simp)+

lemma replica_inv_forget:
  "replica_inv r \<Longrightarrow> replica_inv (unversion ids (unconfirm ids' (retain_ids ids r)))"
  by (auto simp: replica_inv_def dom_def distinct_map_filterI split: if_splits)

lemma replica_inv_forget': "replica_inv r \<Longrightarrow> replica_inv (unversion ids (retain_ids ids r))"
  by (auto simp: replica_inv_def dom_def distinct_map_filterI split: if_splits)

lemma replica_inv_accept: "replica_inv r \<Longrightarrow> replica_inv (accept m r)"
  by (auto simp: replica_inv_def accept_def)

lemma accept_at_inv: "replica_inv r \<Longrightarrow> replica_inv (accept_at m v r)"
  by (cases v) (auto simp: accept_at_def accept_def replica_inv_def, metis image_eqI)

lemma remove_pending_inv: "replica_inv r \<Longrightarrow> replica_inv (snd (remove_pending k r))"
  by (simp add: remove_pending_def Let_def replica_inv_forget)

lemma drop_pending_inv: "replica_inv r \<Longrightarrow> replica_inv (snd (drop_pending i r))"
  by (simp add: drop_pending_def Let_def replica_inv_forget)

lemma retire_absorbed_at_shape:
  "\<exists>retired. fst (retire_absorbed_at C k v r) = retired \<and>
     snd (retire_absorbed_at C k v r) = unversion retired (unconfirm retired (retain_ids retired r))"
proof -
  have empty: "unversion [] (unconfirm [] (retain_ids [] r)) = r"
    by (simp add: unversion_def unconfirm_def retain_ids_def)
  have empty': "unversion [] r = r" by (simp add: unversion_def)
  show ?thesis
    by (simp add: retire_absorbed_at_def retire_absorbed_if_def Let_def empty empty'
        split: prod.splits)
qed

lemma retire_absorbed_at_inv: "replica_inv r \<Longrightarrow> replica_inv (snd (retire_absorbed_at C k v r))"
  using retire_absorbed_at_shape [of C k v r] by (auto simp: replica_inv_forget)

lemma settle_inv: "replica_inv r \<Longrightarrow> replica_inv (snd (settle C i out r))"
  by (auto simp: settle_def retire_absorbed_def drop_pending_inv
      split: SettlementOutcome.split option.split prod.split
      dest: arg_cong [where f = snd])
    (metis drop_pending_inv retire_absorbed_at_inv replica_inv_mark(3) snd_conv)+

lemmas replica_invs = replica_inv_accept accept_at_inv remove_pending_inv drop_pending_inv
  retire_absorbed_at_inv settle_inv

subsection \<open>What a retirement removes\<close>

lemma retire_walk_sound:
  "i \<in> set (retire_walk C conf gate s ops) \<Longrightarrow> i \<in> conf \<and> gate i \<and> i \<in> pm_id ` set ops"
  by (induction C conf gate s ops rule: retire_walk.induct)
    (auto split: Outcome.splits if_splits)

lemma retire_absorbed_at_sound:
  assumes "i \<in> set (fst (retire_absorbed_at C k v r))"
  shows "i \<in> rp_confirmed r \<and>
    (\<exists>held \<in> set (rp_pending r). pm_id held = i \<and> pm_key held = k \<and>
       version_gate (rp_accepted_at r i) v)"
proof -
  let ?can = "pm_id ` {held \<in> set (rp_pending r).
      pm_key held = k \<and> version_gate (rp_accepted_at r (pm_id held)) v}"
  have "i \<in> set (fst (retire_absorbed_if C k (\<lambda>i. i \<in> ?can) r))"
    using assms by (simp add: retire_absorbed_at_def ops_on_def conj_commute split: prod.splits)
  then have "i \<in> rp_confirmed r \<and> i \<in> ?can"
    by (auto simp: retire_absorbed_if_def Let_def dest!: retire_walk_sound
        split: option.splits if_splits)
  then show ?thesis by auto
qed

subsection \<open>The laws of a convergence, and what they give the engine\<close>

text \<open>
  The contract a \<open>Convergence\<close> implementation owes the engine: its state equality is an
  equivalence, folding a list is folding its elements one at a time with removal terminal, and
  the fold cannot tell equal states apart.
\<close>

locale convergence =
  fixes C :: "('s, 'e) Convergence"
  assumes eq_refl: "cv_eq C s s"
    and eq_sym: "cv_eq C s t \<Longrightarrow> cv_eq C t s"
    and eq_trans: "cv_eq C s t \<Longrightarrow> cv_eq C t u \<Longrightarrow> cv_eq C s u"
    and fold_Nil: "cv_fold C s [] = Present s"
    and fold_Cons: "cv_fold C s (e # es) =
      (case cv_fold C s [e] of Present t \<Rightarrow> cv_fold C t es | Removed \<Rightarrow> Removed)"
    and fold_cong: "cv_eq C s t \<Longrightarrow> outcome_eq (cv_eq C) (cv_fold C s es) (cv_fold C t es)"
begin

abbreviation out_eq :: "'s Outcome \<Rightarrow> 's Outcome \<Rightarrow> bool" where
  "out_eq \<equiv> outcome_eq (cv_eq C)"

lemma out_refl: "out_eq x x"
  by (cases x) (simp_all add: eq_refl)

lemma out_sym: "out_eq x y \<Longrightarrow> out_eq y x"
  by (cases x; cases y) (auto intro: eq_sym)

lemma out_trans: "out_eq x y \<Longrightarrow> out_eq y z \<Longrightarrow> out_eq x z"
  by (cases x; cases y; cases z) (auto intro: eq_trans)

text \<open>One fold step followed by the rest, seen through the state equality.\<close>

lemma fold_step_Present:
  "cv_fold C s [e] = Present t \<Longrightarrow> cv_fold C s (e # es) = cv_fold C t es"
  by (subst fold_Cons) simp

lemma fold_step_Removed: "cv_fold C s [e] = Removed \<Longrightarrow> cv_fold C s (e # es) = Removed"
  by (subst fold_Cons) simp

lemma step_cong_Present:
  assumes "cv_eq C s s'" and "cv_fold C s [e] = Present t"
  obtains t' where "cv_fold C s' [e] = Present t'" and "cv_eq C t t'"
  using fold_cong [OF assms(1), of "[e]"] assms(2)
  by (cases "cv_fold C s' [e]") auto

lemma step_cong_Removed:
  "cv_eq C s s' \<Longrightarrow> cv_fold C s [e] = Removed \<Longrightarrow> cv_fold C s' [e] = Removed"
  using fold_cong [of s s' "[e]"] by (cases "cv_fold C s' [e]") auto

text \<open>
  Dropping the ops a walk collects does not change the fold of the rest. The kept ops start from
  a state equal to the walk's running state, which is the generalisation the induction needs.
\<close>

lemma walk_keeps_fold:
  assumes "distinct (map pm_id ops)" and "cv_eq C running kept_state"
  shows "out_eq
    (cv_fold C kept_state (map pm_effect
       (filter (\<lambda>held. pm_id held \<notin> set (retire_walk C conf gate running ops)) ops)))
    (cv_fold C running (map pm_effect ops))"
  using assms
proof (induction ops arbitrary: running kept_state)
  case Nil
  then show ?case by (simp add: fold_Nil eq_sym)
next
  case (Cons held rest)
  let ?e = "pm_effect held"
  let ?keep = "\<lambda>running ops. filter (\<lambda>h. pm_id h \<notin> set (retire_walk C conf gate running ops)) ops"
  have fresh: "pm_id held \<notin> pm_id ` set rest" and dist: "distinct (map pm_id rest)"
    using Cons.prems(1) by auto
  have unseen: "pm_id held \<notin> set (retire_walk C conf gate s rest)" for s
    using fresh retire_walk_sound [of "pm_id held" C conf gate s rest] by blast
  show ?case
  proof (cases "cv_fold C running [?e]")
    case Removed
    have kept: "cv_fold C kept_state [?e] = Removed"
      using step_cong_Removed [OF Cons.prems(2) Removed] .
    show ?thesis using Removed unseen
      by (simp add: fold_step_Removed [OF Removed] fold_step_Removed [OF kept])
  next
    case (Present new)
    obtain new' where new': "cv_fold C kept_state [?e] = Present new'" "cv_eq C new new'"
      using step_cong_Present [OF Cons.prems(2) Present] .
    note steps = fold_step_Present [OF Present] fold_step_Present [OF new'(1)]
    show ?thesis
    proof (cases "cv_eq C new running")
      case False
      then show ?thesis using Present unseen Cons.IH [OF dist new'(2)] by (simp add: steps)
    next
      case True
      have rest: "out_eq (cv_fold C x (map pm_effect (?keep running rest)))
          (cv_fold C new (map pm_effect rest))" if "cv_eq C running x" for x
        using out_trans [OF Cons.IH [OF dist that] fold_cong [OF eq_sym [OF True]]] .
      show ?thesis
      proof (cases "pm_id held \<in> conf \<and> gate (pm_id held)")
        case retired: True
        have tail: "filter (\<lambda>h. pm_id h \<noteq> pm_id held \<and>
            pm_id h \<notin> set (retire_walk C conf gate running rest)) rest = ?keep running rest"
          by (rule filter_cong [OF refl]) (use fresh in \<open>force simp: image_iff\<close>)
        show ?thesis using Present True retired rest [OF Cons.prems(2)] tail
          by (simp add: steps)
      next
        case kept: False
        have "cv_eq C running new'" using True new'(2) by (blast intro: eq_sym eq_trans)
        then have IH: "out_eq (cv_fold C new' (map pm_effect (?keep running rest)))
            (cv_fold C new (map pm_effect rest))" by (rule rest)
        have "retire_walk C conf gate running (held # rest) = retire_walk C conf gate running rest"
          using Present True kept by simp
        then show ?thesis using IH unseen [of running] by (simp add: steps del: retire_walk.simps)
      qed
    qed
  qed
qed

text \<open>What is seen of an entity, compared with the engine's equality.\<close>

abbreviation seen_eq :: "'s Outcome option \<Rightarrow> 's Outcome option \<Rightarrow> bool" where
  "seen_eq \<equiv> rel_option out_eq"

lemma seen_refl: "seen_eq x x"
  by (cases x) (simp_all add: out_refl)

lemma distinct_ops_on: "replica_inv r \<Longrightarrow> distinct (map pm_id (ops_on k r))"
  by (simp add: replica_inv_def ops_on_def distinct_map_filterI)

text \<open>A retirement is a visual no-op, on the key it retires and on every other.\<close>

lemma retire_invisible:
  assumes "replica_inv r"
  shows "seen_eq (project C k (snd (retire_absorbed_at C key v r))) (project C k r)"
proof -
  let ?can = "\<lambda>i. i \<in> pm_id ` set (filter
      (\<lambda>held. version_gate (rp_accepted_at r (pm_id held)) v) (ops_on key r))"
  let ?retired = "fst (retire_absorbed_at C key v r)"
  let ?r' = "snd (retire_absorbed_at C key v r)"
  have r': "?r' = unversion ?retired (unconfirm ?retired (retain_ids ?retired r))"
    using retire_absorbed_at_shape [of C key v r] by auto
  have base: "rp_base ?r' = rp_base r" by (subst r') simp
  have ops: "ops_on j ?r' = filter (\<lambda>h. pm_id h \<notin> set ?retired) (ops_on j r)" for j
    by (subst r') (simp add: ops_on_def conj_commute)
  show ?thesis
  proof (cases "rp_base r k")
    case None
    then show ?thesis by (simp add: project_def base)
  next
    case (Some b)
    show ?thesis
    proof (cases "k = key")
      case True
      have "?retired = retire_walk C (rp_confirmed r) ?can b (ops_on key r)"
        using Some True
        by (simp add: retire_absorbed_at_def retire_absorbed_if_def Let_def split: prod.split)
      then show ?thesis
        using Some True walk_keeps_fold [OF distinct_ops_on [OF assms] eq_refl]
        by (simp add: project_def base ops)
    next
      case False
      have "pm_id h \<notin> set ?retired" if h: "h \<in> set (ops_on k r)" for h
      proof
        assume "pm_id h \<in> set ?retired"
        then obtain g where "g \<in> set (rp_pending r)" "pm_id g = pm_id h" "pm_key g = key"
          using retire_absorbed_at_sound [of "pm_id h" C key v r] by blast
        with h assms False show False
          by (auto simp: replica_inv_def ops_on_def distinct_map dest: inj_onD)
      qed
      then have "ops_on k ?r' = ops_on k r" by (simp add: ops filter_id_conv)
      then show ?thesis by (simp add: project_def base Some out_refl)
    qed
  qed
qed

lemma settle_confirmed_invisible:
  assumes "replica_inv r"
  shows "seen_eq (project C k (snd (settle C i Confirmed r))) (project C k r)"
proof (cases "List.find (\<lambda>held. pm_id held = i) (rp_pending r)")
  case None
  then show ?thesis by (simp add: settle_def seen_refl)
next
  case (Some held)
  have mark: "project C k (mark_confirmed i r) = project C k r"
    by (simp add: project_def ops_on_def split: option.split)
  show ?thesis
    using retire_invisible [of "mark_confirmed i r" k "pm_key held" None] assms
    by (cases "retire_absorbed_at C (pm_key held) None (mark_confirmed i r)")
      (simp add: settle_def Some retire_absorbed_def mark)
qed

text \<open>
  An op leaves: once every op of a key is confirmed, passes its version gate and is absorbed by
  the base, one version-gated retire empties the key.
\<close>

lemma walk_retires_all:
  assumes "\<forall>held \<in> set ops. pm_id held \<in> conf \<and> gate (pm_id held)"
    and "\<forall>held \<in> set ops. out_eq (cv_fold C s [pm_effect held]) (Present s)"
  shows "retire_walk C conf gate s ops = map pm_id ops"
  using assms
proof (induction ops)
  case (Cons held rest)
  then show ?case by (cases "cv_fold C s [pm_effect held]") auto
qed simp

lemma retire_empties:
  assumes "rp_base r key = Some b"
    and "\<forall>held \<in> set (ops_on key r). pm_id held \<in> rp_confirmed r \<and>
           version_gate (rp_accepted_at r (pm_id held)) v \<and>
           out_eq (cv_fold C b [pm_effect held]) (Present b)"
  shows "ops_on key (snd (retire_absorbed_at C key v r)) = []"
proof -
  let ?can = "\<lambda>i. i \<in> pm_id ` set (filter
      (\<lambda>held. version_gate (rp_accepted_at r (pm_id held)) v) (ops_on key r))"
  have "fst (retire_absorbed_at C key v r) = retire_walk C (rp_confirmed r) ?can b (ops_on key r)"
    using assms(1)
    by (simp add: retire_absorbed_at_def retire_absorbed_if_def Let_def split: prod.split)
  also have "\<dots> = map pm_id (ops_on key r)"
    by (rule walk_retires_all) (use assms(2) in auto)
  finally have "fst (retire_absorbed_at C key v r) = map pm_id (ops_on key r)" .
  then show ?thesis
    using retire_absorbed_at_shape [of C key v r]
    by (auto simp: ops_on_def filter_empty_conv)
qed

end

subsection \<open>The message convergence satisfies the laws\<close>

lemma MessageConvergence_simps [simp]:
  "cv_fold MessageConvergence = replay_message" "cv_eq MessageConvergence = fold_state_eq"
  by (simp_all add: MessageConvergence_def)

lemma replay_message_Cons:
  "replay_message s (a # as) =
     (case replay_message s [a] of Present t \<Rightarrow> replay_message t as | Removed \<Rightarrow> Removed)"
  by (cases "apply_message_assertion s a") (simp_all add: replay_message_def)

interpretation msg: convergence MessageConvergence
proof unfold_locales
  show "cv_fold MessageConvergence s (e # es) =
      (case cv_fold MessageConvergence s [e] of
         Present t \<Rightarrow> cv_fold MessageConvergence t es | Removed \<Rightarrow> Removed)" for s e es
    by (simp add: replay_message_Cons [of s e es] cong: Outcome.case_cong)
  show "outcome_eq (cv_eq MessageConvergence) (cv_fold MessageConvergence s es)
      (cv_fold MessageConvergence t es)" if "cv_eq MessageConvergence s t" for s t es
    using that by (simp add: outcome_eq_abs replay_message_refines fold_state_eq_abs)
qed (simp_all add: fold_state_eq_abs replay_message_def)

subsection \<open>Every run of the engine\<close>

text \<open>The calls a node makes on its replica, as steps; the results are not looked at.\<close>

inductive replica_step :: "('s, 'e) Convergence \<Rightarrow> ('k, 's, 'e) Replica \<Rightarrow> ('k, 's, 'e) Replica \<Rightarrow> bool"
  for C :: "('s, 'e) Convergence" where
  step_set_base: "replica_step C r (set_base k s r)"
| step_remove_base: "replica_step C r (remove_base k r)"
| step_accept: "replica_step C r (accept m r)"
| step_accept_at: "replica_step C r (accept_at m v r)"
| step_mark: "replica_step C r (mark_confirmed i r)"
| step_settle: "replica_step C r (snd (settle C i out r))"
| step_retire: "replica_step C r (snd (retire_absorbed_at C k v r))"
| step_drop: "replica_step C r (snd (drop_pending i r))"
| step_remove_pending: "replica_step C r (snd (remove_pending k r))"

inductive replica_reachable :: "('s, 'e) Convergence \<Rightarrow> ('k, 's, 'e) Replica \<Rightarrow> bool"
  for C :: "('s, 'e) Convergence" where
  reach_new: "replica_reachable C replica_new"
| reach_step: "replica_reachable C r \<Longrightarrow> replica_step C r r' \<Longrightarrow> replica_reachable C r'"

lemma replica_step_inv: "replica_step C r r' \<Longrightarrow> replica_inv r \<Longrightarrow> replica_inv r'"
  by (induction rule: replica_step.induct) (simp_all add: replica_invs)

text \<open>
  C16. In every reachable replica the outbox holds each mutation id at most once and the version
  table holds no id that has left the outbox.
\<close>

theorem replica_reachable_inv:
  assumes "replica_reachable C r"
  shows "distinct (map pm_id (rp_pending r)) \<and>
    (\<forall>i. rp_accepted_at r i \<noteq> None \<longrightarrow> i \<in> pm_id ` set (rp_pending r))"
proof -
  from assms have "replica_inv r"
    by (induction rule: replica_reachable.induct) (auto intro: replica_step_inv)
  then show ?thesis by (auto simp: replica_inv_def dom_def)
qed

theorem replica_reachable_inv_witness:
  "distinct (map pm_id (rp_pending (accept_at
      \<lparr>pm_id = L ''op1'', pm_key = L ''m1'', pm_effect = Destroy\<rparr> (Some 5)
      (replica_new :: MessageReplica))))"
proof -
  have "replica_reachable MessageConvergence (accept_at
      \<lparr>pm_id = L ''op1'', pm_key = L ''m1'', pm_effect = Destroy\<rparr> (Some 5) replica_new)"
    by (rule reach_step [OF reach_new step_accept_at])
  from replica_reachable_inv [OF this] show ?thesis by blast
qed

text \<open>
  Settling a mutation as confirmed is a visual no-op: whatever it retires, the projection of
  every message is unchanged (as keyword and mailbox sets).
\<close>

lemma settle_confirmed_visual_noop:
  assumes "replica_inv (r :: MessageReplica)"
  shows "rel_option (outcome_eq fold_state_eq)
    (project MessageConvergence k (snd (settle MessageConvergence i Confirmed r)))
    (project MessageConvergence k r)"
  using msg.settle_confirmed_invisible [OF assms] by simp

definition flag_op :: "str \<Rightarrow> str \<Rightarrow> (str, MessageAssertion) PendingMutation" where
  "flag_op i k = \<lparr>pm_id = i, pm_key = k, pm_effect = SetKeywords [L ''$flagged''] []\<rparr>"

definition example_replica :: "nat option \<Rightarrow> MessageReplica" where
  "example_replica v =
     accept_at (flag_op (L ''op1'') (L ''m1'')) v
       (set_base (L ''m1'') \<lparr>fs_keywords = [L ''$flagged''], fs_mailbox_ids = [L ''inbox'']\<rparr>
          replica_new)"

lemma example_replica_inv [simp]: "replica_inv (example_replica v)"
  by (simp add: example_replica_def accept_at_inv)

lemma settle_confirmed_visual_noop_example:
  "rel_option (outcome_eq fold_state_eq)
    (project MessageConvergence (L ''m1'')
       (snd (settle MessageConvergence (L ''op1'') Confirmed (example_replica None))))
    (project MessageConvergence (L ''m1'') (example_replica None))"
  by (rule settle_confirmed_visual_noop [OF example_replica_inv])

text \<open>
  No retire path bypasses the gates: an op that a version-gated retire removes was confirmed,
  was pending on that key, and was accepted with no version or with one strictly lower than the
  current version; and nothing else leaves the outbox.
\<close>

lemma retire_respects_gates:
  assumes "held \<in> set (rp_pending r)"
    and "held \<notin> set (rp_pending (snd (retire_absorbed_at C key v r)))"
  shows "pm_id held \<in> rp_confirmed r \<and>
    (\<exists>twin \<in> set (rp_pending r). pm_id twin = pm_id held \<and> pm_key twin = key) \<and>
    (rp_accepted_at r (pm_id held) = None \<or>
     (\<exists>at cur. rp_accepted_at r (pm_id held) = Some at \<and> v = Some cur \<and> at < cur))"
proof -
  have "pm_id held \<in> set (fst (retire_absorbed_at C key v r))"
    using assms retire_absorbed_at_shape [of C key v r] by auto
  from retire_absorbed_at_sound [OF this] show ?thesis
    by (auto simp: version_gate_def split: option.splits)
qed

lemma example_retires:
  "rp_pending (snd (retire_absorbed_at MessageConvergence (L ''m1'') (Some 6)
      (mark_confirmed (L ''op1'') (example_replica (Some 5))))) = []"
proof -
  let ?r = "mark_confirmed (L ''op1'') (example_replica (Some 5))"
  have pend: "rp_pending ?r = [flag_op (L ''op1'') (L ''m1'')]"
    by (simp add: example_replica_def accept_at_def accept_def set_base_def replica_new_def)
  have "ops_on (L ''m1'') (snd (retire_absorbed_at MessageConvergence (L ''m1'') (Some 6) ?r)) = []"
    by (rule msg.retire_empties)
      (auto simp: example_replica_def accept_at_def accept_def set_base_def replica_new_def
        ops_on_def flag_op_def version_gate_def mark_confirmed_def replay_message_def
        fold_state_eq_def)
  then show ?thesis
    using retire_absorbed_at_shape [of MessageConvergence "L ''m1''" "Some 6" ?r] pend
    by (auto simp: ops_on_def flag_op_def filter_empty_conv split: if_splits)
qed

lemma retire_respects_gates_example:
  "L ''op1'' \<in> rp_confirmed (mark_confirmed (L ''op1'') (example_replica (Some 5)))"
proof -
  let ?r = "mark_confirmed (L ''op1'') (example_replica (Some 5))"
  have "flag_op (L ''op1'') (L ''m1'') \<in> set (rp_pending ?r)"
    by (simp add: example_replica_def accept_at_def accept_def set_base_def replica_new_def)
  from retire_respects_gates [OF this, of MessageConvergence "L ''m1''" "Some 6"]
  show ?thesis by (simp add: example_retires flag_op_def del: L_simps)
qed

text \<open>
  C15. Retirement happens: when every op pending on a message is confirmed, passes its version gate
  and is already carried by the base, one retire call leaves none of them.
\<close>

theorem retire_absorbed_completes:
  assumes "rp_base (r :: MessageReplica) key = Some b"
    and "\<forall>held \<in> set (rp_pending r). pm_key held = key \<longrightarrow>
           pm_id held \<in> rp_confirmed r \<and> version_gate (rp_accepted_at r (pm_id held)) v \<and>
           outcome_eq fold_state_eq (replay_message b [pm_effect held]) (Present b)"
  shows "\<forall>held \<in> set (rp_pending (snd (retire_absorbed_at MessageConvergence key v r))).
           pm_key held \<noteq> key"
proof -
  have "ops_on key (snd (retire_absorbed_at MessageConvergence key v r)) = []"
    by (rule msg.retire_empties [OF assms(1)]) (use assms(2) in \<open>auto simp: ops_on_def\<close>)
  then show ?thesis by (auto simp: ops_on_def filter_empty_conv)
qed

theorem retire_absorbed_completes_witness:
  "filter (\<lambda>held. pm_key held = L ''m1'')
     (rp_pending (snd (retire_absorbed_at MessageConvergence (L ''m1'') (Some 6)
        (mark_confirmed (L ''op1'') (example_replica (Some 5)))))) = []"
  unfolding filter_empty_conv
  by (rule retire_absorbed_completes)
    (auto simp: example_replica_def accept_at_def accept_def set_base_def replica_new_def
      flag_op_def version_gate_def mark_confirmed_def replay_message_def fold_state_eq_def)

subsection \<open>Two divergences between the engine and its documentation\<close>

text \<open>
  \<open>SettlementResult.retired\<close> is documented as "whether a pending mutation with that id was found
  and removed". The code reports whether any op on the key was retired: here \<open>op2\<close> is settled,
  \<open>op1\<close> (confirmed earlier, and now carried by the base) leaves, \<open>op2\<close> stays, and the result says
  retired.
\<close>

definition two_op_replica :: MessageReplica where
  "two_op_replica =
     mark_confirmed (L ''op1'')
       (accept \<lparr>pm_id = L ''op2'', pm_key = L ''m1'', pm_effect = SetKeywords [L ''$seen''] []\<rparr>
         (example_replica None))"

lemma settle_reports_another_op:
  "sr_retired (fst (settle MessageConvergence (L ''op2'') Confirmed two_op_replica)) \<and>
   map pm_id (rp_pending (snd (settle MessageConvergence (L ''op2'') Confirmed two_op_replica))) =
     [L ''op2'']"
  by (simp add: two_op_replica_def example_replica_def accept_at_def accept_def set_base_def
      replica_new_def flag_op_def mark_confirmed_def settle_def retire_absorbed_def
      retire_absorbed_at_def retire_absorbed_if_def ops_on_def version_gate_def Let_def
      replay_message_def fold_state_eq_def retain_ids_def unconfirm_def unversion_def)

text \<open>
  Accepting is documented as idempotent on the mutation id. \<open>accept_at\<close> of an id already held
  leaves the outbox alone but overwrites the version its retirement is gated on.
\<close>

lemma accept_at_overwrites_version:
  "rp_pending (accept_at (flag_op (L ''op1'') (L ''m1'')) (Some 9) (example_replica (Some 5))) =
     rp_pending (example_replica (Some 5)) \<and>
   rp_accepted_at (accept_at (flag_op (L ''op1'') (L ''m1'')) (Some 9) (example_replica (Some 5)))
     (L ''op1'') = Some 9 \<and>
   rp_accepted_at (example_replica (Some 5)) (L ''op1'') = Some 5"
  by (simp add: example_replica_def accept_at_def accept_def set_base_def replica_new_def flag_op_def)

end
