(* ===== verification/TextLib.thy ===== *)
theory TextLib
  imports Prelude
begin

text \<open>
  The string functions of Rust's standard library that the modelled code uses, on strings as
  lists of Unicode scalar values: the White\_Space property, trimming and splitting on
  whitespace, ASCII lower-casing, the UTF-8 length, and splitting once at a character.
\<close>

subsection \<open>Whitespace\<close>

text \<open>\<open>char::is_whitespace\<close>: the code points with the Unicode property White\_Space.\<close>

definition is_whitespace :: "nat \<Rightarrow> bool" where
  "is_whitespace c \<longleftrightarrow>
     (9 \<le> c \<and> c \<le> 13) \<or> c = 32 \<or> c = 133 \<or> c = 160 \<or> c = 5760 \<or>
     (8192 \<le> c \<and> c \<le> 8202) \<or> c = 8232 \<or> c = 8233 \<or> c = 8239 \<or> c = 8287 \<or> c = 12288"

definition trim_start :: "str \<Rightarrow> str" where
  "trim_start s = dropWhile is_whitespace s"

definition trim_end :: "str \<Rightarrow> str" where
  "trim_end s = rev (dropWhile is_whitespace (rev s))"

definition trim :: "str \<Rightarrow> str" where
  "trim s = trim_end (trim_start s)"

text \<open>\<open>str::split_whitespace\<close>: the maximal runs of non-whitespace characters.\<close>

fun split_ws_aux :: "str \<Rightarrow> str \<Rightarrow> str list" where
  "split_ws_aux cur [] = (if cur = [] then [] else [cur])"
| "split_ws_aux cur (c # cs) =
     (if is_whitespace c
      then (if cur = [] then split_ws_aux [] cs else cur # split_ws_aux [] cs)
      else split_ws_aux (cur @ [c]) cs)"

definition split_whitespace :: "str \<Rightarrow> str list" where
  "split_whitespace s = split_ws_aux [] s"

subsection \<open>ASCII case, UTF-8 length, splitting\<close>

definition ascii_lower :: "nat \<Rightarrow> nat" where
  "ascii_lower c = (if 65 \<le> c \<and> c \<le> 90 then c + 32 else c)"

definition to_ascii_lowercase :: "str \<Rightarrow> str" where
  "to_ascii_lowercase s = map ascii_lower s"

definition is_ascii_alphanumeric :: "nat \<Rightarrow> bool" where
  "is_ascii_alphanumeric c \<longleftrightarrow>
     (48 \<le> c \<and> c \<le> 57) \<or> (65 \<le> c \<and> c \<le> 90) \<or> (97 \<le> c \<and> c \<le> 122)"

definition utf8_width :: "nat \<Rightarrow> nat" where
  "utf8_width c = (if c < 128 then 1 else if c < 2048 then 2 else if c < 65536 then 3 else 4)"

text \<open>\<open>str::len\<close>, the length in bytes.\<close>

definition utf8_len :: "str \<Rightarrow> nat" where
  "utf8_len s = sum_list (map utf8_width s)"

text \<open>\<open>str::rsplit_once\<close> at one character: \<open>None\<close> if it does not occur.\<close>

definition rsplit_once :: "nat \<Rightarrow> str \<Rightarrow> (str \<times> str) option" where
  "rsplit_once c s =
     (if c \<in> set s
      then Some (rev (tl (dropWhile (\<lambda>x. x \<noteq> c) (rev s))), rev (takeWhile (\<lambda>x. x \<noteq> c) (rev s)))
      else None)"

definition eq_ignore_ascii_case :: "str \<Rightarrow> str \<Rightarrow> bool" where
  "eq_ignore_ascii_case s t \<longleftrightarrow> to_ascii_lowercase s = to_ascii_lowercase t"

text \<open>
  \<open>&s[..n]\<close> at a byte index: \<open>None\<close> is the panic of an index that is no character boundary or past
  the end.
\<close>

fun byte_prefix :: "nat \<Rightarrow> str \<Rightarrow> str option" where
  "byte_prefix n cs = (if n = 0 then Some [] else case cs of
     [] \<Rightarrow> None
   | c # rest \<Rightarrow> (if n < utf8_width c then None
                  else map_option (\<lambda>p. c # p) (byte_prefix (n - utf8_width c) rest)))"

text \<open>\<open>str::split_once\<close> and \<open>str::split\<close> at one character.\<close>

definition split_once :: "nat \<Rightarrow> str \<Rightarrow> (str \<times> str) option" where
  "split_once c s =
     (if c \<in> set s then Some (takeWhile (\<lambda>x. x \<noteq> c) s, tl (dropWhile (\<lambda>x. x \<noteq> c) s)) else None)"

fun split_on :: "nat \<Rightarrow> str \<Rightarrow> str list" where
  "split_on c [] = [[]]"
| "split_on c (x # xs) =
     (if x = c then [] # split_on c xs
      else (case split_on c xs of [] \<Rightarrow> [[x]] | w # ws \<Rightarrow> (x # w) # ws))"

subsection \<open>Facts\<close>

lemma ws_space [simp]: "is_whitespace 32"
  by (simp add: is_whitespace_def)

lemma trim_start_id: "s = [] \<or> \<not> is_whitespace (hd s) \<Longrightarrow> trim_start s = s"
  by (cases s) (auto simp: trim_start_def)

lemma trim_end_id: "s = [] \<or> \<not> is_whitespace (last s) \<Longrightarrow> trim_end s = s"
  by (cases s rule: rev_cases) (auto simp: trim_end_def)

lemma trim_id:
  assumes "\<forall>c \<in> set s. \<not> is_whitespace c"
  shows "trim s = s"
proof (cases s)
  case (Cons c cs)
  with assms have "trim_start s = s" by (intro trim_start_id) simp
  moreover have "trim_end s = s" using assms Cons by (intro trim_end_id) simp
  ultimately show ?thesis by (simp add: trim_def)
qed (simp add: trim_def trim_start_def trim_end_def)

lemma set_trim_subset: "set (trim s) \<subseteq> set s"
  by (auto simp: trim_def trim_end_def trim_start_def dest!: set_dropWhileD)

lemma trim_Nil [simp]: "trim [] = []"
  by (simp add: trim_def trim_start_def trim_end_def)

lemma trim_end_trim_end [simp]: "trim_end (trim_end s) = trim_end s"
  by (simp add: trim_end_def)

lemma hd_trim_end:
  assumes "trim_end s \<noteq> []" shows "hd (trim_end s) = hd s"
proof -
  have "s = trim_end s @ rev (takeWhile is_whitespace (rev s))"
    by (metis rev_append rev_rev_ident takeWhile_dropWhile_id trim_end_def)
  with assms show ?thesis by (metis hd_append2)
qed

lemma trim_idem [simp]: "trim (trim s) = trim s"
proof -
  have "trim_start (trim s) = trim s"
  proof (cases "trim s = []")
    case False
    then have nonempty: "trim_start s \<noteq> []"
      by (auto simp: trim_def trim_end_def)
    then have "\<not> is_whitespace (hd (trim_start s))"
      using hd_dropWhile by (metis trim_start_def)
    then show ?thesis
      using False by (intro trim_start_id) (simp add: trim_def hd_trim_end)
  qed (simp add: trim_start_def)
  then show ?thesis by (simp add: trim_def)
qed

lemma to_ascii_lowercase_idem [simp]:
  "to_ascii_lowercase (to_ascii_lowercase s) = to_ascii_lowercase s"
  by (simp add: to_ascii_lowercase_def ascii_lower_def)

lemma utf8_len_Nil [simp]: "utf8_len [] = 0"
  by (simp add: utf8_len_def)

lemma utf8_len_Cons [simp]: "utf8_len (c # s) = utf8_width c + utf8_len s"
  by (simp add: utf8_len_def)

lemma utf8_len_append [simp]: "utf8_len (s @ t) = utf8_len s + utf8_len t"
  by (simp add: utf8_len_def)

lemma utf8_width_pos: "1 \<le> utf8_width c \<and> utf8_width c \<le> 4"
  by (simp add: utf8_width_def)

lemma utf8_len_ge_length: "length s \<le> utf8_len s"
proof (induction s)
  case (Cons c s)
  then show ?case using utf8_width_pos [of c] by simp
qed simp

definition ws_free :: "str \<Rightarrow> bool" where
  "ws_free w \<longleftrightarrow> (\<forall>c \<in> set w. \<not> is_whitespace c)"

lemma split_ws_aux_words:
  "ws_free cur \<Longrightarrow> w \<in> set (split_ws_aux cur s) \<Longrightarrow> w \<noteq> [] \<and> ws_free w"
proof (induction s arbitrary: cur)
  case Nil
  then show ?case by (cases "cur = []") simp_all
next
  case (Cons c cs)
  have nil: "ws_free []" by (simp add: ws_free_def)
  show ?case
  proof (cases "is_whitespace c")
    case True
    with Cons.prems have "(cur \<noteq> [] \<and> w = cur) \<or> w \<in> set (split_ws_aux [] cs)"
      by (cases "cur = []") auto
    then show ?thesis using Cons.IH [OF nil] Cons.prems(1) by blast
  next
    case False
    then have "ws_free (cur @ [c])" using Cons.prems(1) by (simp add: ws_free_def)
    moreover have "w \<in> set (split_ws_aux (cur @ [c]) cs)" using Cons.prems(2) False by simp
    ultimately show ?thesis by (rule Cons.IH)
  qed
qed

lemma split_whitespace_words: "w \<in> set (split_whitespace s) \<Longrightarrow> w \<noteq> [] \<and> ws_free w"
  by (rule split_ws_aux_words [of "[]"]) (simp_all add: split_whitespace_def ws_free_def)

text \<open>Substring search (\<open>str::contains\<close>) and decimal display of integers.\<close>

fun contains_sub :: "str \<Rightarrow> str \<Rightarrow> bool" where
  "contains_sub [] p = (p = [])"
| "contains_sub (c # s) p = (starts_with (c # s) p \<or> contains_sub s p)"

fun show_nat :: "nat \<Rightarrow> str" where
  "show_nat n = (if n < 10 then [48 + n] else show_nat (n div 10) @ [48 + n mod 10])"

declare show_nat.simps [simp del]

definition show_int :: "int \<Rightarrow> str" where
  "show_int i = (if i < 0 then L ''-'' @ show_nat (nat (- i)) else show_nat (nat i))"

lemma show_nat_digits: "\<forall>c \<in> set (show_nat n). 48 \<le> c \<and> c \<le> 57"
proof (induction n rule: show_nat.induct)
  case (1 n)
  then show ?case by (subst show_nat.simps) auto
qed

lemma show_nat_nonempty [simp]: "show_nat n \<noteq> []"
  by (subst show_nat.simps) simp

lemma contains_sub_append: "contains_sub (xs @ p @ ys) p"
proof (induction xs)
  case Nil
  have "contains_sub s p" if "starts_with s p" for s
    using that by (cases s) (auto simp: starts_with_def)
  then show ?case by simp
qed simp

lemma contains_sub_iff: "contains_sub s p \<longleftrightarrow> (\<exists>xs ys. s = xs @ p @ ys)"
proof
  show "contains_sub s p \<Longrightarrow> \<exists>xs ys. s = xs @ p @ ys"
  proof (induction s)
    case (Cons c s)
    show ?case
    proof (cases "starts_with (c # s) p")
      case True
      then have "c # s = [] @ p @ drop (length p) (c # s)"
        by (metis append_Nil append_take_drop_id starts_with_def)
      then show ?thesis by blast
    next
      case False
      with Cons obtain xs ys where "s = xs @ p @ ys" by auto
      then have "c # s = (c # xs) @ p @ ys" by simp
      then show ?thesis by blast
    qed
  qed auto
qed (auto simp: contains_sub_append)

subsection \<open>Parsing an \<open>i64\<close>\<close>

text \<open>\<open>str::parse::<i64>\<close>: an optional sign, at least one ASCII digit, and the range.\<close>

definition is_digit :: "nat \<Rightarrow> bool" where
  "is_digit c \<longleftrightarrow> 48 \<le> c \<and> c \<le> 57"

definition digits_value :: "str \<Rightarrow> int" where
  "digits_value ds = foldl (\<lambda>acc d. 10 * acc + (int d - 48)) 0 ds"

definition parse_i64 :: "str \<Rightarrow> int option" where
  "parse_i64 s =
     (let signed = s \<noteq> [] \<and> (hd s = 43 \<or> hd s = 45);
          ds = (if signed then tl s else s);
          v = (if signed \<and> hd s = 45 then - digits_value ds else digits_value ds)
      in if ds \<noteq> [] \<and> list_all is_digit ds \<and> -(2 ^ 63) \<le> v \<and> v < 2 ^ 63 then Some v else None)"

subsection \<open>Slices and splits\<close>

declare byte_prefix.simps [simp del]

lemma byte_prefix_0 [simp]: "byte_prefix 0 s = Some []"
  by (subst byte_prefix.simps) simp

lemma byte_prefix_rec [simp]:
  "n \<noteq> 0 \<Longrightarrow> byte_prefix n [] = None"
  "n \<noteq> 0 \<Longrightarrow> byte_prefix n (c # s) =
     (if n < utf8_width c then None else map_option (\<lambda>p. c # p) (byte_prefix (n - utf8_width c) s))"
  by (subst byte_prefix.simps, simp)+

lemma byte_prefix_Some:
  "byte_prefix n s = Some p \<Longrightarrow> \<exists>t. s = p @ t \<and> utf8_len p = n"
proof (induction s arbitrary: n p)
  case (Cons c s)
  then show ?case
    by (cases "n = 0") (auto split: if_splits)
qed (case_tac "n = 0", auto)

lemma byte_prefix_append: "utf8_len p = n \<Longrightarrow> byte_prefix n (p @ t) = Some p"
proof (induction p arbitrary: n)
  case (Cons c p)
  have "1 \<le> utf8_width c" using utf8_width_pos [of c] by simp
  with Cons show ?case by auto
qed simp

lemma split_once_Some:
  "split_once c s = Some (a, b) \<longleftrightarrow> s = a @ c # b \<and> c \<notin> set a"
proof
  assume "split_once c s = Some (a, b)"
  then have c: "c \<in> set s" and a: "a = takeWhile (\<lambda>x. x \<noteq> c) s" and b: "b = tl (dropWhile (\<lambda>x. x \<noteq> c) s)"
    by (auto simp: split_once_def split: if_splits)
  from c have ne: "dropWhile (\<lambda>x. x \<noteq> c) s \<noteq> []" by (auto simp: dropWhile_eq_Nil_conv)
  with hd_dropWhile [OF this] have "dropWhile (\<lambda>x. x \<noteq> c) s = c # b" using b by (cases "dropWhile (\<lambda>x. x \<noteq> c) s") auto
  with a have "s = a @ c # b" using takeWhile_dropWhile_id [of "\<lambda>x. x \<noteq> c" s] by simp
  moreover have "c \<notin> set a" using a by (auto dest: set_takeWhileD)
  ultimately show "s = a @ c # b \<and> c \<notin> set a" by simp
next
  assume "s = a @ c # b \<and> c \<notin> set a"
  moreover then have "\<forall>x \<in> set a. x \<noteq> c" by auto
  ultimately show "split_once c s = Some (a, b)"
    by (simp add: split_once_def takeWhile_append dropWhile_append2)
qed

lemma split_once_None: "split_once c s = None \<longleftrightarrow> c \<notin> set s"
  by (simp add: split_once_def)

end
