(* ===== verification/OutboxModel.thy ===== *)
theory OutboxModel
  imports TextLib MessageFold
begin

text \<open>
  The outbox data model of \<open>crates/posthaste-domain-model/src/model/outbox.rs\<close> and the records it
  carries (\<open>commands.rs\<close>, \<open>records.rs\<close>, \<open>sync.rs\<close>): operation kinds and lifecycle states, the
  operation envelope, the typed intent and its one decode boundary, and the send identity.

  A stored JSON payload is represented by the document shapes the code writes; \<open>JOther\<close> is any
  document that decodes as none of them. Decoding with \<open>serde_json\<close> succeeds exactly on the
  document written for the requested type.
\<close>

subsection \<open>Kinds and states\<close>

datatype OperationKind =
  KSetKeywords | KReplaceMailboxes | KDestroy | KDraftCreate | KDraftUpdate | KDraftDelete | KSend

datatype OperationState = Pending | Inflight | Applied | FailedState | DispatchUncertain

definition is_terminal :: "OperationState \<Rightarrow> bool" where
  "is_terminal s \<longleftrightarrow> s = FailedState \<or> s = DispatchUncertain"

definition is_dispatch_uncertain :: "OperationState \<Rightarrow> bool" where
  "is_dispatch_uncertain s \<longleftrightarrow> s = DispatchUncertain"

definition is_flushable :: "OperationState \<Rightarrow> bool" where
  "is_flushable s \<longleftrightarrow> s = Pending \<or> s = Inflight"

fun can_transition_to :: "OperationState \<Rightarrow> OperationState \<Rightarrow> bool" where
  "can_transition_to Pending Inflight = True"
| "can_transition_to Inflight Applied = True"
| "can_transition_to Inflight FailedState = True"
| "can_transition_to Inflight Pending = True"
| "can_transition_to Inflight DispatchUncertain = True"
| "can_transition_to FailedState Pending = True"
| "can_transition_to DispatchUncertain Pending = True"
| "can_transition_to s next = (s = next)"

definition creates_entity :: "OperationKind \<Rightarrow> bool" where
  "creates_entity k \<longleftrightarrow> k = KDraftCreate"

definition is_state_assertion :: "OperationKind \<Rightarrow> bool" where
  "is_state_assertion k \<longleftrightarrow> k = KSetKeywords \<or> k = KReplaceMailboxes \<or> k = KDestroy"

definition is_draft_save :: "OperationKind \<Rightarrow> bool" where
  "is_draft_save k \<longleftrightarrow> k = KDraftCreate \<or> k = KDraftUpdate"

definition CONTENT_KINDS :: "OperationKind list" where
  "CONTENT_KINDS = [KDraftCreate, KDraftUpdate, KSend]"

definition is_content_kind :: "OperationKind \<Rightarrow> bool" where
  "is_content_kind k \<longleftrightarrow> k \<in> set CONTENT_KINDS"

datatype OperationEntityKind = EMessage | EDraft

record OperationEntity =
  en_kind :: OperationEntityKind
  en_id :: str

subsection \<open>Commands, requests, message records\<close>

record Recipient =
  rc_name :: "str option"
  rc_email :: str

record SetKeywordsCommand =
  skc_add :: "str list"
  skc_remove :: "str list"

record ReplaceMailboxesCommand =
  rmc_mailbox_ids :: "str list"

record SendMessageAttachment =
  at_filename :: str
  at_mime_type :: str
  at_content_base64 :: str

record SendMessageRequest =
  rq_from :: "Recipient option"
  rq_to :: "Recipient list"
  rq_cc :: "Recipient list"
  rq_bcc :: "Recipient list"
  rq_subject :: str
  rq_body :: str
  rq_in_reply_to :: "str option"
  rq_references :: "str option"
  rq_attachments :: "SendMessageAttachment list"
  rq_draft_id :: "str option"
  rq_send_at :: "str option"
  rq_undo_window_seconds :: "32 word option"

text \<open>Unsubscribe targets (\<open>unsubscribe.rs\<close>): the fold and the outbox only carry them.\<close>

record ListUnsubscribe =
  lu_https :: "str option"
  lu_mailto :: "str option"
  lu_one_click :: bool

record MessageRecord =
  mr_id :: str
  mr_source_thread_id :: str
  mr_remote_blob_id :: "str option"
  mr_subject :: "str option"
  mr_from_name :: "str option"
  mr_from_email :: "str option"
  mr_to :: "Recipient list"
  mr_cc :: "Recipient list"
  mr_bcc :: "Recipient list"
  mr_reply_to :: "Recipient list"
  mr_preview :: "str option"
  mr_received_at :: str
  mr_has_attachment :: bool
  mr_size :: int
  mr_mailbox_ids :: "str list"
  mr_keywords :: "str list"
  mr_body_html :: "str option"
  mr_body_text :: "str option"
  mr_raw_mime :: "str option"
  mr_rfc_message_id :: "str option"
  mr_in_reply_to :: "str option"
  mr_references :: "str list"
  mr_draft_id :: "str option"
  mr_list_unsubscribe :: "ListUnsubscribe option"

datatype SyncObject = SMailbox | SMessage

record SyncCursor =
  cu_object_type :: SyncObject
  cu_state :: str
  cu_updated_at :: str

datatype MessageReadback = RbPresent MessageRecord | RbRemoved

record MutationOutcome =
  mo_cursor :: "SyncCursor option"
  mo_message :: "MessageReadback option"

subsection \<open>Operations and their typed intents\<close>

datatype Payload =
    JSetKeywords SetKeywordsCommand
  | JReplaceMailboxes ReplaceMailboxesCommand
  | JRequest SendMessageRequest
  | JDiscard bool
  | JOther

record Operation =
  op_id :: str
  op_account_id :: str
  op_entity :: OperationEntity
  op_kind :: OperationKind
  op_payload :: Payload
  op_payload_version :: int
  op_state :: OperationState
  op_attempts :: nat
  op_last_error :: "str option"
  op_send_at :: "str option"
  op_hold_until_mono :: "int option"
  op_created_at :: str
  op_updated_at :: str

record SettledOperation =
  so_operation :: Operation
  so_settled_at_mono :: "int option"
  so_watermark :: "str option"

datatype SendFiling = Filed | PendingFiling

datatype OperationOutcome = OutApplied | OutFailed

record OperationSettlement =
  os_id :: str
  os_outcome :: OperationOutcome
  os_assigned_entity_id :: "str option"
  os_error :: "str option"
  os_send_filing :: "SendFiling option"

datatype MailIntent =
    ISetKeywords SetKeywordsCommand
  | IReplaceMailboxes ReplaceMailboxesCommand
  | IDestroy
  | ISaveDraft bool SendMessageRequest
  | IDiscardDraft bool
  | ISend SendMessageRequest

text \<open>The decode boundary. The text of the serde error is not modelled: it is a fixed message.\<close>

definition decode_error :: "OperationKind \<Rightarrow> str" where
  "decode_error k = L ''invalid payload''"

definition version_error :: str where
  "version_error = L ''unknown outbox payload envelope version''"

definition decode_request :: "OperationKind \<Rightarrow> Payload \<Rightarrow> (str, SendMessageRequest) result" where
  "decode_request k p = (case p of JRequest r \<Rightarrow> Inr r | _ \<Rightarrow> Inl (decode_error k))"

definition map_result :: "('a \<Rightarrow> 'b) \<Rightarrow> ('e, 'a) result \<Rightarrow> ('e, 'b) result" where
  "map_result f r = (case r of Inl e \<Rightarrow> Inl e | Inr x \<Rightarrow> Inr (f x))"

definition from_parts :: "OperationKind \<Rightarrow> int \<Rightarrow> Payload \<Rightarrow> (str, MailIntent) result" where
  "from_parts kind version payload =
     (if version \<noteq> 1 then Inl version_error
      else case kind of
        KSetKeywords \<Rightarrow>
          (case payload of JSetKeywords c \<Rightarrow> Inr (ISetKeywords c) | _ \<Rightarrow> Inl (decode_error kind))
      | KReplaceMailboxes \<Rightarrow>
          (case payload of JReplaceMailboxes c \<Rightarrow> Inr (IReplaceMailboxes c)
           | _ \<Rightarrow> Inl (decode_error kind))
      | KDestroy \<Rightarrow> Inr IDestroy
      | KDraftCreate \<Rightarrow> map_result (ISaveDraft True) (decode_request kind payload)
      | KDraftUpdate \<Rightarrow> map_result (ISaveDraft False) (decode_request kind payload)
      | KDraftDelete \<Rightarrow> Inr (IDiscardDraft (case payload of JDiscard b \<Rightarrow> b | _ \<Rightarrow> False))
      | KSend \<Rightarrow> map_result ISend (decode_request kind payload))"

fun intent_kind :: "MailIntent \<Rightarrow> OperationKind" where
  "intent_kind (ISetKeywords _) = KSetKeywords"
| "intent_kind (IReplaceMailboxes _) = KReplaceMailboxes"
| "intent_kind IDestroy = KDestroy"
| "intent_kind (ISaveDraft True _) = KDraftCreate"
| "intent_kind (ISaveDraft False _) = KDraftUpdate"
| "intent_kind (IDiscardDraft _) = KDraftDelete"
| "intent_kind (ISend _) = KSend"

definition op_intent :: "Operation \<Rightarrow> (str, MailIntent) result" where
  "op_intent op = from_parts (op_kind op) (op_payload_version op) (op_payload op)"

subsection \<open>The send identity\<close>

definition send_identity_token :: "str \<Rightarrow> str" where
  "send_identity_token operation_id =
     L ''phsend-'' @
     filter (\<lambda>c. is_ascii_alphanumeric c \<or> c = of_char CHR ''-'' \<or> c = of_char CHR ''_'') operation_id"

definition send_identity_prefix :: "str \<Rightarrow> str" where
  "send_identity_prefix operation_id = send_identity_token operation_id @ L ''@''"

definition SEND_ENTITY_ID_PREFIX :: str where
  "SEND_ENTITY_ID_PREFIX = L ''send-''"

definition is_provisional_sent_id :: "str \<Rightarrow> bool" where
  "is_provisional_sent_id i \<longleftrightarrow> starts_with i SEND_ENTITY_ID_PREFIX"

subsection \<open>Lemmas\<close>

lemmas state_class_defs = is_terminal_def is_dispatch_uncertain_def is_flushable_def
lemmas kind_class_defs = is_state_assertion_def is_draft_save_def is_content_kind_def
  CONTENT_KINDS_def creates_entity_def

lemma map_result_simps [simp]:
  "map_result f (Inl e) = Inl e" "map_result f (Inr x) = Inr (f x)"
  by (simp_all add: map_result_def)

lemma map_result_Inr_iff: "map_result f r = Inr y \<longleftrightarrow> (\<exists>x. r = Inr x \<and> y = f x)"
  by (cases r) auto

lemma from_parts_kind: "from_parts k v p = Inr i \<Longrightarrow> intent_kind i = k"
  by (auto simp: from_parts_def map_result_Inr_iff split: OperationKind.splits Payload.splits if_splits)

lemma from_parts_version: "v \<noteq> 1 \<Longrightarrow> from_parts k v p = Inl version_error"
  by (simp add: from_parts_def)

text \<open>Encoding an intent and decoding it again: the payload the code writes for each intent.\<close>

fun intent_payload :: "MailIntent \<Rightarrow> Payload" where
  "intent_payload (ISetKeywords c) = JSetKeywords c"
| "intent_payload (IReplaceMailboxes c) = JReplaceMailboxes c"
| "intent_payload IDestroy = JOther"
| "intent_payload (ISaveDraft _ r) = JRequest r"
| "intent_payload (IDiscardDraft b) = JDiscard b"
| "intent_payload (ISend r) = JRequest r"

lemma from_parts_roundtrip: "from_parts (intent_kind i) 1 (intent_payload i) = Inr i"
proof (cases i)
  case (ISaveDraft b r)
  then show ?thesis by (cases b) (simp_all add: from_parts_def decode_request_def)
qed (simp_all add: from_parts_def decode_request_def)

text \<open>Content kinds, draft deletions and state assertions partition the kinds.\<close>

lemma kind_partition:
  "is_content_kind k \<noteq> (is_state_assertion k \<or> k = KDraftDelete)"
  by (cases k) (simp_all add: kind_class_defs)

lemma content_kind_iff: "is_content_kind k \<longleftrightarrow> is_draft_save k \<or> k = KSend"
  by (cases k) (simp_all add: kind_class_defs)

lemma send_identity_prefix_last: "last (send_identity_prefix i) = of_char CHR ''@''"
  by (simp add: send_identity_prefix_def)

text \<open>The token never contains the separator, so the prefix determines the sanitised id.\<close>

lemma send_identity_token_no_at: "of_char CHR ''@'' \<notin> set (send_identity_token i)"
  by (auto simp: send_identity_token_def is_ascii_alphanumeric_def)

text \<open>A sample operation, for the witnesses.\<close>

definition example_op :: "str \<Rightarrow> OperationKind \<Rightarrow> Payload \<Rightarrow> OperationState \<Rightarrow> Operation" where
  "example_op i k p s =
     \<lparr>op_id = i, op_account_id = L ''a'', op_entity = \<lparr>en_kind = EMessage, en_id = L ''m1''\<rparr>,
      op_kind = k, op_payload = p, op_payload_version = 1, op_state = s, op_attempts = 0,
      op_last_error = None, op_send_at = None, op_hold_until_mono = None,
      op_created_at = [], op_updated_at = []\<rparr>"

end
