(* ===== verification/OutboxStore.thy ===== *)
theory OutboxStore
  imports OutboxModel
begin

text \<open>
  The durable outbox of \<open>crates/posthaste-store/src/outbox.rs\<close>: the table \<open>outbox_operation\<close> as
  the list of its rows in \<open>rowid\<close> order, each SQL statement as a function on it, and the two
  alias tables. A row is an operation with its two truncation markers. Every write is one
  transaction; SQL failures are not modelled. The clock value \<open>now_iso8601()\<close> a statement stamps
  is the argument \<open>now\<close>.
\<close>

type_synonym outbox = "SettledOperation list"

abbreviation row_op :: "SettledOperation \<Rightarrow> Operation" where
  "row_op \<equiv> so_operation"

definition row_id :: "SettledOperation \<Rightarrow> str" where
  "row_id r = op_id (row_op r)"

definition new_row :: "Operation \<Rightarrow> SettledOperation" where
  "new_row op = \<lparr>so_operation = op, so_settled_at_mono = None, so_watermark = None\<rparr>"

definition map_op :: "(Operation \<Rightarrow> Operation) \<Rightarrow> SettledOperation \<Rightarrow> SettledOperation" where
  "map_op f r = r\<lparr>so_operation := f (row_op r)\<rparr>"

text \<open>\<open>UPDATE ... WHERE p\<close>.\<close>

definition update_where ::
  "(SettledOperation \<Rightarrow> bool) \<Rightarrow> (SettledOperation \<Rightarrow> SettledOperation) \<Rightarrow> outbox \<Rightarrow> outbox" where
  "update_where p f tbl = map (\<lambda>r. if p r then f r else r) tbl"

subsection \<open>Column encodings\<close>

definition operation_state_str :: "OperationState \<Rightarrow> str" where
  "operation_state_str s = (case s of
     Pending \<Rightarrow> L ''pending'' | Inflight \<Rightarrow> L ''inflight'' | Applied \<Rightarrow> L ''applied''
   | FailedState \<Rightarrow> L ''failed'' | DispatchUncertain \<Rightarrow> L ''dispatchUncertain'')"

definition parse_operation_state :: "str \<Rightarrow> (str, OperationState) result" where
  "parse_operation_state v =
     (if v = L ''pending'' then Inr Pending
      else if v = L ''inflight'' then Inr Inflight
      else if v = L ''applied'' then Inr Applied
      else if v = L ''failed'' then Inr FailedState
      else if v = L ''dispatchUncertain'' then Inr DispatchUncertain
      else Inl (L ''unknown outbox operation state: '' @ v))"

definition operation_kind_str :: "OperationKind \<Rightarrow> str" where
  "operation_kind_str k = (case k of
     KSetKeywords \<Rightarrow> L ''setKeywords'' | KReplaceMailboxes \<Rightarrow> L ''replaceMailboxes''
   | KDestroy \<Rightarrow> L ''destroy'' | KDraftCreate \<Rightarrow> L ''draftCreate''
   | KDraftUpdate \<Rightarrow> L ''draftUpdate'' | KDraftDelete \<Rightarrow> L ''draftDelete'' | KSend \<Rightarrow> L ''send'')"

definition parse_operation_kind :: "str \<Rightarrow> (str, OperationKind) result" where
  "parse_operation_kind v =
     (if v = L ''setKeywords'' then Inr KSetKeywords
      else if v = L ''replaceMailboxes'' then Inr KReplaceMailboxes
      else if v = L ''destroy'' then Inr KDestroy
      else if v = L ''draftCreate'' then Inr KDraftCreate
      else if v = L ''draftUpdate'' then Inr KDraftUpdate
      else if v = L ''draftDelete'' then Inr KDraftDelete
      else if v = L ''send'' then Inr KSend
      else Inl (L ''unknown outbox operation kind: '' @ v))"

definition entity_kind_str :: "OperationEntityKind \<Rightarrow> str" where
  "entity_kind_str k = (case k of EMessage \<Rightarrow> L ''message'' | EDraft \<Rightarrow> L ''draft'')"

definition parse_entity_kind :: "str \<Rightarrow> (str, OperationEntityKind) result" where
  "parse_entity_kind v =
     (if v = L ''message'' then Inr EMessage
      else if v = L ''draft'' then Inr EDraft
      else Inl (L ''unknown outbox entity kind: '' @ v))"

text \<open>\<open>kind IN (...)\<close> over the fragment built from \<open>CONTENT_KINDS\<close>.\<close>

definition content_op_kinds_in_sql :: "str list" where
  "content_op_kinds_in_sql = map operation_kind_str CONTENT_KINDS"

subsection \<open>Reads\<close>

definition OUTBOX_FLUSH_BATCH_LIMIT :: nat where
  "OUTBOX_FLUSH_BATCH_LIMIT = 200"

definition ops_where :: "(Operation \<Rightarrow> bool) \<Rightarrow> outbox \<Rightarrow> Operation list" where
  "ops_where p tbl = filter p (map row_op tbl)"

text \<open>The two readiness gates: \<open>column IS NULL OR column <= now\<close>.\<close>

definition gate_open :: "'a::linorder option \<Rightarrow> 'a \<Rightarrow> bool" where
  "gate_open held now = (case held of None \<Rightarrow> True | Some at \<Rightarrow> at \<le> now)"

definition flushable_row :: "str \<Rightarrow> str \<Rightarrow> int \<Rightarrow> Operation \<Rightarrow> bool" where
  "flushable_row account_id wall_now mono_now op \<longleftrightarrow>
     op_account_id op = account_id \<and> (op_state op = Pending \<or> op_state op = Inflight) \<and>
     gate_open (op_send_at op) wall_now \<and> gate_open (op_hold_until_mono op) mono_now"

definition list_flushable_operations :: "str \<Rightarrow> str \<Rightarrow> int \<Rightarrow> outbox \<Rightarrow> Operation list" where
  "list_flushable_operations account_id wall_now mono_now tbl =
     take OUTBOX_FLUSH_BATCH_LIMIT (ops_where (flushable_row account_id wall_now mono_now) tbl)"

definition count_due_scheduled_sends :: "str \<Rightarrow> str \<Rightarrow> int \<Rightarrow> outbox \<Rightarrow> nat" where
  "count_due_scheduled_sends account_id wall_now mono_now tbl =
     length (ops_where (\<lambda>op. op_account_id op = account_id \<and>
        ((case op_send_at op of Some at \<Rightarrow> at \<le> wall_now | None \<Rightarrow> False) \<or>
         (case op_hold_until_mono op of Some at \<Rightarrow> at \<le> mono_now | None \<Rightarrow> False)) \<and>
        (op_state op = Pending \<or> op_state op = Inflight)) tbl)"

definition list_pending_operations :: "str \<Rightarrow> outbox \<Rightarrow> Operation list" where
  "list_pending_operations account_id tbl =
     ops_where (\<lambda>op. op_account_id op = account_id \<and> op_state op \<noteq> Applied) tbl"

definition unsettled_row :: "str \<Rightarrow> Operation \<Rightarrow> bool" where
  "unsettled_row account_id op \<longleftrightarrow>
     op_account_id op = account_id \<and>
     (op_state op \<noteq> FailedState \<or>
      operation_kind_str (op_kind op) \<in> set content_op_kinds_in_sql)"

definition list_unsettled_operations :: "str \<Rightarrow> outbox \<Rightarrow> Operation list" where
  "list_unsettled_operations account_id tbl = ops_where (unsettled_row account_id) tbl"

definition get_operation :: "outbox \<Rightarrow> str \<Rightarrow> Operation option" where
  "get_operation tbl i = List.find (\<lambda>op. op_id op = i) (map row_op tbl)"

definition list_settled_operations :: "str \<Rightarrow> outbox \<Rightarrow> SettledOperation list" where
  "list_settled_operations account_id tbl =
     filter (\<lambda>r. op_account_id (row_op r) = account_id \<and> op_state (row_op r) = Applied) tbl"

definition find_operation_by_entity_id :: "str \<Rightarrow> str \<Rightarrow> OperationKind \<Rightarrow> outbox \<Rightarrow> Operation option" where
  "find_operation_by_entity_id account_id entity_id kind tbl =
     List.find (\<lambda>op. op_account_id op = account_id \<and> en_id (op_entity op) = entity_id \<and>
                     op_kind op = kind) (map row_op tbl)"

subsection \<open>Writes\<close>

text \<open>\<open>INSERT OR IGNORE\<close>, then the stored row is read back.\<close>

definition enqueue_operation :: "Operation \<Rightarrow> outbox \<Rightarrow> (str, Operation) result \<times> outbox" where
  "enqueue_operation op tbl =
     (let tbl' = (if op_id op \<in> row_id ` set tbl then tbl else tbl @ [new_row op])
      in (case get_operation tbl' (op_id op) of
            Some stored \<Rightarrow> Inr stored
          | None \<Rightarrow> Inl (L ''outbox operation was not persisted''), tbl'))"

definition update_operation_state ::
  "str \<Rightarrow> str \<Rightarrow> OperationState \<Rightarrow> nat \<Rightarrow> str option \<Rightarrow> outbox \<Rightarrow> outbox" where
  "update_operation_state now i state attempts last_error tbl =
     update_where (\<lambda>r. row_id r = i)
       (map_op (\<lambda>op. op\<lparr>op_state := state, op_attempts := attempts, op_last_error := last_error,
                        op_updated_at := now\<rparr>)) tbl"

definition replace_operation_payload :: "str \<Rightarrow> str \<Rightarrow> Payload \<Rightarrow> outbox \<Rightarrow> bool \<times> outbox" where
  "replace_operation_payload now i payload tbl =
     (let p = (\<lambda>r. row_id r = i \<and> op_state (row_op r) = Pending)
      in (list_ex p tbl,
          update_where p (map_op (\<lambda>op. op\<lparr>op_payload := payload, op_attempts := 0,
                                          op_last_error := None, op_updated_at := now\<rparr>)) tbl))"

definition reconcile_operation_entity_id :: "str \<Rightarrow> str \<Rightarrow> str \<Rightarrow> str \<Rightarrow> outbox \<Rightarrow> outbox" where
  "reconcile_operation_entity_id now account_id from_id to_id tbl =
     update_where (\<lambda>r. op_account_id (row_op r) = account_id \<and> en_id (op_entity (row_op r)) = from_id)
       (map_op (\<lambda>op. op\<lparr>op_entity := (op_entity op)\<lparr>en_id := to_id\<rparr>, op_updated_at := now\<rparr>)) tbl"

definition mark_operation_settled :: "str \<Rightarrow> str \<Rightarrow> int \<Rightarrow> str option \<Rightarrow> outbox \<Rightarrow> outbox" where
  "mark_operation_settled now i settled_at watermark tbl =
     update_where (\<lambda>r. row_id r = i)
       (\<lambda>r. (map_op (\<lambda>op. op\<lparr>op_state := Applied, op_updated_at := now\<rparr>) r)
              \<lparr>so_settled_at_mono := Some settled_at, so_watermark := watermark\<rparr>) tbl"

definition remove_operation :: "str \<Rightarrow> outbox \<Rightarrow> outbox" where
  "remove_operation i tbl = filter (\<lambda>r. row_id r \<noteq> i) tbl"

definition claim_operation_for_flush :: "str \<Rightarrow> str \<Rightarrow> outbox \<Rightarrow> bool \<times> outbox" where
  "claim_operation_for_flush now i tbl =
     (let p = (\<lambda>r. row_id r = i \<and> (op_state (row_op r) = Pending \<or> op_state (row_op r) = Inflight))
      in (list_ex p tbl,
          update_where p (map_op (\<lambda>op. op\<lparr>op_state := Inflight, op_updated_at := now\<rparr>)) tbl))"

definition remove_operation_unless_inflight :: "str \<Rightarrow> outbox \<Rightarrow> bool \<times> outbox" where
  "remove_operation_unless_inflight i tbl =
     (let p = (\<lambda>r. row_id r = i \<and> op_state (row_op r) \<noteq> Inflight \<and> op_state (row_op r) \<noteq> Applied)
      in (list_ex p tbl, filter (\<lambda>r. \<not> p r) tbl))"

subsection \<open>The alias tables\<close>

type_synonym alias_table = "str \<times> str \<Rightarrow> str option"

definition resolve_draft_entity :: "alias_table \<Rightarrow> str \<Rightarrow> str \<Rightarrow> str option" where
  "resolve_draft_entity al account_id draft_key = al (account_id, draft_key)"

definition set_draft_alias :: "str \<Rightarrow> str \<Rightarrow> str \<Rightarrow> alias_table \<Rightarrow> alias_table" where
  "set_draft_alias account_id draft_key entity_id al = al((account_id, draft_key) \<mapsto> entity_id)"

definition remove_draft_alias :: "str \<Rightarrow> str \<Rightarrow> alias_table \<Rightarrow> alias_table" where
  "remove_draft_alias account_id draft_key al = al((account_id, draft_key) := None)"

definition resolve_send_alias :: "alias_table \<Rightarrow> str \<Rightarrow> str \<Rightarrow> str option" where
  "resolve_send_alias al account_id send_entity_id = al (account_id, send_entity_id)"

definition set_send_alias :: "str \<Rightarrow> str \<Rightarrow> str \<Rightarrow> alias_table \<Rightarrow> alias_table" where
  "set_send_alias account_id send_entity_id adopted al = al((account_id, send_entity_id) \<mapsto> adopted)"

subsection \<open>Encodings round-trip\<close>

lemma operation_state_roundtrip [simp]: "parse_operation_state (operation_state_str s) = Inr s"
  by (cases s) (simp_all add: operation_state_str_def parse_operation_state_def)

lemma operation_kind_roundtrip [simp]: "parse_operation_kind (operation_kind_str k) = Inr k"
  by (cases k) (simp_all add: operation_kind_str_def parse_operation_kind_def)

lemma entity_kind_roundtrip [simp]: "parse_entity_kind (entity_kind_str k) = Inr k"
  by (cases k) (simp_all add: entity_kind_str_def parse_entity_kind_def)

lemma parse_operation_state_sound: "parse_operation_state v = Inr s \<Longrightarrow> v = operation_state_str s"
  by (auto simp: parse_operation_state_def operation_state_str_def simp del: L_simps split: if_splits)

lemma parse_operation_kind_sound: "parse_operation_kind v = Inr k \<Longrightarrow> v = operation_kind_str k"
  by (auto simp: parse_operation_kind_def operation_kind_str_def simp del: L_simps split: if_splits)

lemma operation_kind_str_inj [simp]: "operation_kind_str k = operation_kind_str k' \<longleftrightarrow> k = k'"
  by (metis operation_kind_roundtrip sum.inject(2))

text \<open>The SQL fragment and the Rust predicate select the same kinds.\<close>

lemma content_sql_iff [simp]:
  "operation_kind_str k \<in> set content_op_kinds_in_sql \<longleftrightarrow> is_content_kind k"
  by (auto simp: content_op_kinds_in_sql_def is_content_kind_def)

subsection \<open>The table invariant\<close>

text \<open>\<open>id\<close> is the primary key of the table.\<close>

definition outbox_inv :: "outbox \<Rightarrow> bool" where
  "outbox_inv tbl \<longleftrightarrow> distinct (map row_id tbl)"

lemma row_id_map_op [simp]: "(\<And>op. op_id (f op) = op_id op) \<Longrightarrow> row_id (map_op f r) = row_id r"
  by (simp add: row_id_def map_op_def)

lemma row_op_map_op [simp]: "row_op (map_op f r) = f (row_op r)"
  by (simp add: map_op_def)

lemma row_id_markers [simp]:
  "row_id (r\<lparr>so_settled_at_mono := a\<rparr>) = row_id r" "row_id (r\<lparr>so_watermark := w\<rparr>) = row_id r"
  by (simp_all add: row_id_def)

lemma update_where_ids:
  "(\<And>r. row_id (f r) = row_id r) \<Longrightarrow> map row_id (update_where p f tbl) = map row_id tbl"
  by (simp add: update_where_def)

lemma update_where_inv:
  "(\<And>r. row_id (f r) = row_id r) \<Longrightarrow> outbox_inv (update_where p f tbl) = outbox_inv tbl"
  by (simp add: outbox_inv_def update_where_ids)

lemma outbox_inv_Nil [simp]: "outbox_inv []"
  by (simp add: outbox_inv_def)

lemma enqueue_inv: "outbox_inv tbl \<Longrightarrow> outbox_inv (snd (enqueue_operation op tbl))"
  by (auto simp: enqueue_operation_def outbox_inv_def Let_def new_row_def row_id_def)

lemma update_state_inv [simp]:
  "outbox_inv (update_operation_state now i s a e tbl) = outbox_inv tbl"
  by (simp add: update_operation_state_def update_where_inv)

lemma replace_payload_inv [simp]:
  "outbox_inv (snd (replace_operation_payload now i p tbl)) = outbox_inv tbl"
  by (simp add: replace_operation_payload_def Let_def update_where_inv)

lemma mark_settled_inv [simp]: "outbox_inv (mark_operation_settled now i m w tbl) = outbox_inv tbl"
  by (simp add: mark_operation_settled_def update_where_inv)

lemma claim_row_inv [simp]: "outbox_inv (snd (claim_operation_for_flush now i tbl)) = outbox_inv tbl"
  by (simp add: claim_operation_for_flush_def Let_def update_where_inv)

lemma filter_inv: "outbox_inv tbl \<Longrightarrow> outbox_inv (filter p tbl)"
  by (simp add: outbox_inv_def distinct_map_filterI)

lemma remove_inv: "outbox_inv tbl \<Longrightarrow> outbox_inv (remove_operation i tbl)"
  by (simp add: remove_operation_def filter_inv)

lemma cancel_row_inv: "outbox_inv tbl \<Longrightarrow> outbox_inv (snd (remove_operation_unless_inflight i tbl))"
  by (simp add: remove_operation_unless_inflight_def Let_def filter_inv)

subsection \<open>Looking an operation up\<close>

lemma get_operation_Nil [simp]: "get_operation [] i = None"
  by (simp add: get_operation_def)

lemma get_operation_Cons [simp]:
  "get_operation (r # tbl) i = (if row_id r = i then Some (row_op r) else get_operation tbl i)"
  by (simp add: get_operation_def row_id_def)

lemma get_operation_None_iff: "get_operation tbl i = None \<longleftrightarrow> i \<notin> row_id ` set tbl"
  by (induction tbl) auto

lemma get_operation_mem:
  "get_operation tbl i = Some op \<Longrightarrow> \<exists>r \<in> set tbl. row_op r = op \<and> row_id r = i"
  by (induction tbl) (auto split: if_splits)

lemma get_operation_id: "get_operation tbl i = Some op \<Longrightarrow> op_id op = i"
  using get_operation_mem [of tbl i op] by (auto simp: row_id_def)

lemma get_operation_row:
  "outbox_inv tbl \<Longrightarrow> r \<in> set tbl \<Longrightarrow> get_operation tbl (row_id r) = Some (row_op r)"
  by (induction tbl) (auto simp: outbox_inv_def)

lemma get_update_where:
  assumes "outbox_inv tbl" and "\<And>r. row_id (f r) = row_id r"
  shows "get_operation (update_where p f tbl) i =
    (case List.find (\<lambda>r. row_id r = i) tbl of
       None \<Rightarrow> None | Some r \<Rightarrow> Some (row_op (if p r then f r else r)))"
  using assms by (induction tbl) (auto simp: update_where_def outbox_inv_def)

lemma find_row: "map_option row_op (List.find (\<lambda>r. row_id r = i) tbl) = get_operation tbl i"
  by (induction tbl) auto

lemma find_row_cases:
  assumes "outbox_inv tbl"
  obtains (none) "List.find (\<lambda>r. row_id r = i) tbl = None" "get_operation tbl i = None"
    | (some) r where "List.find (\<lambda>r. row_id r = i) tbl = Some r" "r \<in> set tbl" "row_id r = i"
        "get_operation tbl i = Some (row_op r)"
proof (cases "List.find (\<lambda>r. row_id r = i) tbl")
  case None
  then show ?thesis using none find_row [of i tbl] by simp
next
  case (Some r)
  then show ?thesis using some find_row [of i tbl] find_Some_iff_mem [OF Some] by auto
qed

lemma get_update_state:
  assumes "outbox_inv tbl"
  shows "get_operation (update_operation_state now i s a e tbl) j =
    (if j = i then map_option (\<lambda>op. op\<lparr>op_state := s, op_attempts := a, op_last_error := e,
       op_updated_at := now\<rparr>) (get_operation tbl i) else get_operation tbl j)"
  by (rule find_row_cases [OF assms, of j])
    (auto simp: update_operation_state_def get_update_where [OF assms])

lemma get_mark_settled:
  assumes "outbox_inv tbl"
  shows "get_operation (mark_operation_settled now i m w tbl) j =
    (if j = i then map_option (\<lambda>op. op\<lparr>op_state := Applied, op_updated_at := now\<rparr>)
       (get_operation tbl i) else get_operation tbl j)"
  by (rule find_row_cases [OF assms, of j])
    (auto simp: mark_operation_settled_def get_update_where [OF assms])

lemma get_remove [simp]:
  "get_operation (remove_operation i tbl) j = (if j = i then None else get_operation tbl j)"
  by (induction tbl) (auto simp: remove_operation_def)

lemma enqueue_get:
  "fst (enqueue_operation op tbl) =
     (case get_operation tbl (op_id op) of Some stored \<Rightarrow> Inr stored | None \<Rightarrow> Inr op)"
proof (cases "op_id op \<in> row_id ` set tbl")
  case True
  then obtain stored where "get_operation tbl (op_id op) = Some stored"
    using get_operation_None_iff [of tbl "op_id op"] by (cases "get_operation tbl (op_id op)") auto
  with True show ?thesis by (simp add: enqueue_operation_def)
next
  case False
  then have none: "get_operation tbl (op_id op) = None" by (simp add: get_operation_None_iff)
  have "get_operation (tbl @ [new_row op]) (op_id op) = Some op"
    using none by (induction tbl) (auto simp: new_row_def row_id_def split: if_splits)
  with False none show ?thesis by (simp add: enqueue_operation_def)
qed

subsection \<open>Claiming and cancelling\<close>

lemma list_ex_row:
  assumes "outbox_inv tbl"
  shows "list_ex (\<lambda>r. row_id r = i \<and> p (row_op r)) tbl \<longleftrightarrow>
    (case get_operation tbl i of Some op \<Rightarrow> p op | None \<Rightarrow> False)"
proof (cases "get_operation tbl i")
  case None
  then show ?thesis using get_operation_None_iff [of tbl i] by (auto simp: list_ex_iff)
next
  case (Some op)
  obtain r where r: "r \<in> set tbl" "row_op r = op" "row_id r = i"
    using get_operation_mem [OF Some] by blast
  have only: "row_op r' = op" if "r' \<in> set tbl" "row_id r' = i" for r'
    using get_operation_row [OF assms that(1)] that(2) Some by simp
  have "list_ex (\<lambda>r. row_id r = i \<and> p (row_op r)) tbl = p op"
  proof
    assume "list_ex (\<lambda>r. row_id r = i \<and> p (row_op r)) tbl"
    then obtain r' where "r' \<in> set tbl" "row_id r' = i" "p (row_op r')"
      by (auto simp: list_ex_iff)
    then show "p op" using only by simp
  next
    assume "p op"
    then show "list_ex (\<lambda>r. row_id r = i \<and> p (row_op r)) tbl"
      unfolding list_ex_iff by (intro bexI [OF _ r(1)]) (simp add: r)
  qed
  with Some show ?thesis by simp
qed

lemma claim_wins:
  assumes "outbox_inv tbl"
  shows "fst (claim_operation_for_flush now i tbl) \<longleftrightarrow>
    (case get_operation tbl i of Some op \<Rightarrow> is_flushable (op_state op) | None \<Rightarrow> False)"
  using list_ex_row [OF assms, of i "\<lambda>op. op_state op = Pending \<or> op_state op = Inflight"]
  by (simp add: claim_operation_for_flush_def Let_def is_flushable_def split: option.splits)

lemma get_claim:
  assumes "outbox_inv tbl"
  shows "get_operation (snd (claim_operation_for_flush now i tbl)) j =
    (if j = i then map_option (\<lambda>op. if is_flushable (op_state op)
         then op\<lparr>op_state := Inflight, op_updated_at := now\<rparr> else op) (get_operation tbl i)
     else get_operation tbl j)"
  by (rule find_row_cases [OF assms, of j])
    (auto simp: claim_operation_for_flush_def Let_def get_update_where [OF assms] is_flushable_def)

lemma cancel_wins:
  assumes "outbox_inv tbl"
  shows "fst (remove_operation_unless_inflight i tbl) \<longleftrightarrow>
    (case get_operation tbl i of
       Some op \<Rightarrow> op_state op \<noteq> Inflight \<and> op_state op \<noteq> Applied | None \<Rightarrow> False)"
  using list_ex_row [OF assms, of i "\<lambda>op. op_state op \<noteq> Inflight \<and> op_state op \<noteq> Applied"]
  by (simp add: remove_operation_unless_inflight_def Let_def)

lemma get_filter:
  assumes "outbox_inv tbl"
  shows "get_operation (filter (\<lambda>r. q (row_id r) (row_op r)) tbl) j =
    (case get_operation tbl j of Some op \<Rightarrow> if q j op then Some op else None | None \<Rightarrow> None)"
  using assms
proof (induction tbl)
  case (Cons r tbl)
  have "get_operation (filter (\<lambda>r. q (row_id r) (row_op r)) tbl) (row_id r) = None"
    using Cons.prems by (auto simp: get_operation_None_iff outbox_inv_def)
  with Cons show ?case by (auto simp: outbox_inv_def)
qed simp

lemma get_cancel:
  assumes "outbox_inv tbl"
  shows "get_operation (snd (remove_operation_unless_inflight i tbl)) j =
    (if j = i \<and> fst (remove_operation_unless_inflight i tbl) then None else get_operation tbl j)"
  using get_filter [OF assms, of "\<lambda>k op. \<not> (k = i \<and> op_state op \<noteq> Inflight \<and> op_state op \<noteq> Applied)" j]
    cancel_wins [OF assms, of i]
  by (auto simp: remove_operation_unless_inflight_def Let_def split: option.splits)

subsection \<open>The cancel-versus-flush race\<close>

text \<open>
  The flusher's claims and the users' cancels, in the order the store serialises them. The
  contract both sides rely on is the locale: a claim needs a flushable operation and leaves it in
  flight; a cancel needs one that is neither in flight nor applied and leaves nothing.
\<close>

datatype race_move = Claim str | Cancel str

fun race_run :: "(str \<Rightarrow> 't \<Rightarrow> bool \<times> 't) \<Rightarrow> (str \<Rightarrow> 't \<Rightarrow> bool \<times> 't) \<Rightarrow> race_move list \<Rightarrow> 't \<Rightarrow>
    (race_move \<times> bool) list" where
  "race_run claim cancel [] t = []"
| "race_run claim cancel (Claim i # ms) t =
     (case claim i t of (won, t') \<Rightarrow> (Claim i, won) # race_run claim cancel ms t')"
| "race_run claim cancel (Cancel i # ms) t =
     (case cancel i t of (won, t') \<Rightarrow> (Cancel i, won) # race_run claim cancel ms t')"

locale operation_outbox =
  fixes get :: "'t \<Rightarrow> str \<Rightarrow> Operation option"
    and claim :: "str \<Rightarrow> 't \<Rightarrow> bool \<times> 't"
    and cancel :: "str \<Rightarrow> 't \<Rightarrow> bool \<times> 't"
    and inv :: "'t \<Rightarrow> bool"
  assumes claim_inv: "inv t \<Longrightarrow> inv (snd (claim i t))"
    and cancel_inv: "inv t \<Longrightarrow> inv (snd (cancel i t))"
    and claim_state: "inv t \<Longrightarrow> fst (claim i t) \<Longrightarrow>
      \<exists>op. get t i = Some op \<and> is_flushable (op_state op) \<and>
           map_option op_state (get (snd (claim i t)) i) = Some Inflight"
    and claim_lost: "inv t \<Longrightarrow> \<not> fst (claim i t) \<Longrightarrow>
      map_option op_state (get (snd (claim i t)) i) = map_option op_state (get t i)"
    and claim_other: "inv t \<Longrightarrow> j \<noteq> i \<Longrightarrow>
      map_option op_state (get (snd (claim i t)) j) = map_option op_state (get t j)"
    and cancel_state: "inv t \<Longrightarrow> fst (cancel i t) \<Longrightarrow>
      \<exists>op. get t i = Some op \<and> op_state op \<noteq> Inflight \<and> get (snd (cancel i t)) i = None"
    and cancel_lost: "inv t \<Longrightarrow> \<not> fst (cancel i t) \<Longrightarrow>
      map_option op_state (get (snd (cancel i t)) i) = map_option op_state (get t i)"
    and cancel_other: "inv t \<Longrightarrow> j \<noteq> i \<Longrightarrow>
      map_option op_state (get (snd (cancel i t)) j) = map_option op_state (get t j)"
begin

abbreviation state_of :: "'t \<Rightarrow> str \<Rightarrow> OperationState option" where
  "state_of t i \<equiv> map_option op_state (get t i)"

lemma claimed_stays:
  "inv t \<Longrightarrow> state_of t i = Some Inflight \<Longrightarrow> state_of (snd (claim j t)) i = Some Inflight"
  using claim_state [of t i] claim_lost [of t i] claim_other [of t i j]
  by (cases "j = i"; cases "fst (claim i t)") auto

lemma claimed_not_cancelled:
  assumes "inv t" and "state_of t i = Some Inflight"
  shows "\<not> fst (cancel i t) \<and> state_of (snd (cancel j t)) i = Some Inflight"
proof -
  have no: "\<not> fst (cancel i t)" using assms cancel_state [of t i] by auto
  then show ?thesis
    using assms cancel_lost [of t i] cancel_other [of t i j] by (cases "j = i") auto
qed

lemma gone_stays:
  assumes "inv t" and "get t i = None"
  shows "\<not> fst (claim i t) \<and> \<not> fst (cancel i t) \<and>
    get (snd (claim j t)) i = None \<and> get (snd (cancel j t)) i = None"
proof -
  have no: "\<not> fst (claim i t)" "\<not> fst (cancel i t)"
    using assms claim_state [of t i] cancel_state [of t i] by auto
  then show ?thesis
    using assms claim_lost [of t i] claim_other [of t i j] cancel_lost [of t i] cancel_other [of t i j]
    by (cases "j = i") auto
qed

lemma claimed_never_cancelled:
  "inv t \<Longrightarrow> state_of t i = Some Inflight \<Longrightarrow> (Cancel i, True) \<notin> set (race_run claim cancel ms t)"
proof (induction ms arbitrary: t)
  case (Cons m ms)
  show ?case
  proof (cases m)
    case (Claim j)
    then show ?thesis
      using Cons.IH [OF claim_inv [OF Cons.prems(1), of j] claimed_stays [OF Cons.prems]]
      by (simp split: prod.split) (metis snd_conv)
  next
    case (Cancel j)
    then show ?thesis
      using Cons.IH [OF cancel_inv [OF Cons.prems(1), of j]]
        claimed_not_cancelled [OF Cons.prems, of j]
      by (cases "cancel j t") auto
  qed
qed simp

lemma gone_never_claimed:
  "inv t \<Longrightarrow> get t i = None \<Longrightarrow>
     (Claim i, True) \<notin> set (race_run claim cancel ms t) \<and>
     (Cancel i, True) \<notin> set (race_run claim cancel ms t)"
proof (induction ms arbitrary: t)
  case (Cons m ms)
  note here = gone_stays [OF Cons.prems]
  show ?case
  proof (cases m)
    case (Claim j)
    then show ?thesis
      using Cons.IH [OF claim_inv [OF Cons.prems(1), of j]] here [of j]
      by (cases "claim j t") auto
  next
    case (Cancel j)
    then show ?thesis
      using Cons.IH [OF cancel_inv [OF Cons.prems(1), of j]] here [of j]
      by (cases "cancel j t") auto
  qed
qed simp

lemma one_winner:
  "inv t \<Longrightarrow> \<not> ((Claim i, True) \<in> set (race_run claim cancel ms t) \<and>
                (Cancel i, True) \<in> set (race_run claim cancel ms t))"
proof (induction ms arbitrary: t)
  case (Cons m ms)
  show ?case
  proof (cases m)
    case (Claim j)
    obtain won t' where c: "claim j t = (won, t')" by (cases "claim j t")
    have inv': "inv t'" using claim_inv [OF Cons.prems, of j] c by simp
    show ?thesis
    proof (cases "j = i \<and> won")
      case True
      then have "state_of t' i = Some Inflight" using claim_state [OF Cons.prems, of i] c by auto
      from claimed_never_cancelled [OF inv' this] show ?thesis using Claim c by simp
    qed (use Cons.IH [OF inv'] Claim c in auto)
  next
    case (Cancel j)
    obtain won t' where c: "cancel j t = (won, t')" by (cases "cancel j t")
    have inv': "inv t'" using cancel_inv [OF Cons.prems, of j] c by simp
    show ?thesis
    proof (cases "j = i \<and> won")
      case True
      then have "get t' i = None" using cancel_state [OF Cons.prems, of i] c by auto
      from gone_never_claimed [OF inv' this] show ?thesis using Cancel c by simp
    qed (use Cons.IH [OF inv'] Cancel c in auto)
  qed
qed simp

end

interpretation table: operation_outbox get_operation "claim_operation_for_flush now"
  remove_operation_unless_inflight outbox_inv for now
proof unfold_locales
  fix t i assume "outbox_inv t"
  then show "outbox_inv (snd (claim_operation_for_flush now i t))" by simp
next
  fix t i assume "outbox_inv t"
  then show "outbox_inv (snd (remove_operation_unless_inflight i t))" by (rule cancel_row_inv)
qed (auto simp: claim_wins get_claim cancel_wins get_cancel is_flushable_def split: option.splits)

text \<open>
  C3. Cancel versus flush has exactly one winner: in every order in which the store serialises
  claims and cancels, no operation is both claimed for a push and cancelled.
\<close>

theorem cancel_versus_flush_one_winner:
  assumes "outbox_inv tbl"
  shows "\<not> ((Claim i, True) \<in> set (race_run (claim_operation_for_flush now)
               remove_operation_unless_inflight ms tbl) \<and>
           (Cancel i, True) \<in> set (race_run (claim_operation_for_flush now)
               remove_operation_unless_inflight ms tbl))"
  by (rule table.one_winner [OF assms])

theorem cancel_versus_flush_one_winner_witness:
  "\<not> ((Claim (L ''o''), True) \<in> set (race_run (claim_operation_for_flush [])
         remove_operation_unless_inflight [Claim (L ''o''), Cancel (L ''o'')]
         [new_row (example_op (L ''o'') KDestroy JOther Pending)]) \<and>
      (Cancel (L ''o''), True) \<in> set (race_run (claim_operation_for_flush [])
         remove_operation_unless_inflight [Claim (L ''o''), Cancel (L ''o'')]
         [new_row (example_op (L ''o'') KDestroy JOther Pending)]))"
  by (rule cancel_versus_flush_one_winner) (simp add: outbox_inv_def)

end
