(* ===== verification/Errors.thy ===== *)
theory Errors
  imports TextLib
begin

text \<open>
  The typed errors of \<open>crates/posthaste-domain-model/src/model/errors.rs\<close>, their wire codes and
  their user-facing presentation. \<open>Display\<close> (the \<open>#[error]\<close> formats) is \<open>*_display\<close>. The readback
  a rejected mutation carries is the type parameter \<open>'r\<close>.
\<close>

subsection \<open>The errors\<close>

datatype Terminality = Transient | Permanent

definition is_transient :: "Terminality \<Rightarrow> bool" where
  "is_transient t \<longleftrightarrow> t = Transient"

definition is_permanent :: "Terminality \<Rightarrow> bool" where
  "is_permanent t \<longleftrightarrow> t = Permanent"

datatype 'r GatewayError =
    Unavailable str
  | Auth
  | Network str
  | SendDispatchUncertain str
  | StateMismatch
  | CannotCalculateChanges
  | Rejected str
  | Corruption str
  | Internal str
  | MutationRejected 'r str
  | MailboxNotEmpty int

datatype StoreError = StNotFound str | StConflict str | StFailure str | StCorruption str

datatype SecretStoreError = SecUnavailable str | SecUnsupported str

datatype ConfigError = CfNotFound str | CfConflict str | CfValidation str | CfIo str | CfParse str

datatype 'r ServiceError =
    SGateway "'r GatewayError"
  | SSecret SecretStoreError
  | SStore StoreError
  | SConfig ConfigError

datatype ServiceErrorKind =
    KGatewayUnavailable | KAuthError | KNetworkError | KStateMismatch | KCannotCalculateChanges
  | KGatewayRejected | KSecretUnavailable | KSecretUnsupported | KNotFound | KConflict
  | KMailboxNotEmpty | KStorageFailure | KStorageCorrupted | KConfigValidation | KConfigIo
  | KConfigParse | KInternal

definition kind_code :: "ServiceErrorKind \<Rightarrow> str" where
  "kind_code k = (case k of
     KInternal \<Rightarrow> L ''internal''
   | KGatewayUnavailable \<Rightarrow> L ''gateway_unavailable''
   | KAuthError \<Rightarrow> L ''auth_error''
   | KNetworkError \<Rightarrow> L ''network_error''
   | KStateMismatch \<Rightarrow> L ''state_mismatch''
   | KCannotCalculateChanges \<Rightarrow> L ''cannot_calculate_changes''
   | KGatewayRejected \<Rightarrow> L ''gateway_rejected''
   | KSecretUnavailable \<Rightarrow> L ''secret_unavailable''
   | KSecretUnsupported \<Rightarrow> L ''secret_unsupported''
   | KNotFound \<Rightarrow> L ''not_found''
   | KConflict \<Rightarrow> L ''conflict''
   | KMailboxNotEmpty \<Rightarrow> L ''mailbox_not_empty''
   | KStorageFailure \<Rightarrow> L ''storage_failure''
   | KStorageCorrupted \<Rightarrow> L ''storage_corrupted''
   | KConfigValidation \<Rightarrow> L ''config_validation''
   | KConfigIo \<Rightarrow> L ''config_io''
   | KConfigParse \<Rightarrow> L ''config_parse'')"

fun error_kind :: "'r ServiceError \<Rightarrow> ServiceErrorKind" where
  "error_kind (SGateway (Unavailable _)) = KGatewayUnavailable"
| "error_kind (SGateway Auth) = KAuthError"
| "error_kind (SGateway (Network _)) = KNetworkError"
| "error_kind (SGateway (SendDispatchUncertain _)) = KNetworkError"
| "error_kind (SGateway StateMismatch) = KStateMismatch"
| "error_kind (SGateway CannotCalculateChanges) = KCannotCalculateChanges"
| "error_kind (SGateway (Rejected _)) = KGatewayRejected"
| "error_kind (SGateway (MutationRejected _ _)) = KGatewayRejected"
| "error_kind (SGateway (MailboxNotEmpty _)) = KMailboxNotEmpty"
| "error_kind (SGateway (Corruption _)) = KStorageCorrupted"
| "error_kind (SGateway (Internal _)) = KInternal"
| "error_kind (SSecret (SecUnavailable _)) = KSecretUnavailable"
| "error_kind (SSecret (SecUnsupported _)) = KSecretUnsupported"
| "error_kind (SStore (StNotFound _)) = KNotFound"
| "error_kind (SConfig (CfNotFound _)) = KNotFound"
| "error_kind (SStore (StConflict _)) = KConflict"
| "error_kind (SConfig (CfConflict _)) = KConflict"
| "error_kind (SStore (StFailure _)) = KStorageFailure"
| "error_kind (SStore (StCorruption _)) = KStorageCorrupted"
| "error_kind (SConfig (CfValidation _)) = KConfigValidation"
| "error_kind (SConfig (CfIo _)) = KConfigIo"
| "error_kind (SConfig (CfParse _)) = KConfigParse"

definition error_code :: "'r ServiceError \<Rightarrow> str" where
  "error_code e = kind_code (error_kind e)"

subsection \<open>Display\<close>

fun gateway_display :: "'r GatewayError \<Rightarrow> str" where
  "gateway_display (Unavailable a) = L ''gateway unavailable for account '' @ a"
| "gateway_display Auth = L ''authentication failed''"
| "gateway_display (Network m) = L ''network error: '' @ m"
| "gateway_display (SendDispatchUncertain m) = L ''send dispatch uncertain: '' @ m"
| "gateway_display StateMismatch = L ''state mismatch''"
| "gateway_display CannotCalculateChanges = L ''cannot calculate changes''"
| "gateway_display (Rejected m) = L ''gateway rejected the request: '' @ m"
| "gateway_display (Corruption m) = L ''gateway hit a corrupt local store: '' @ m"
| "gateway_display (Internal m) = L ''internal gateway codec error: '' @ m"
| "gateway_display (MutationRejected _ r) = L ''gateway rejected the mutation: '' @ r"
| "gateway_display (MailboxNotEmpty n) =
     L ''mailbox is not empty: '' @ show_int n @ L '' message(s) would be deleted''"

fun store_display :: "StoreError \<Rightarrow> str" where
  "store_display (StNotFound m) = L ''not found: '' @ m"
| "store_display (StConflict m) = L ''conflict: '' @ m"
| "store_display (StFailure m) = L ''storage failure: '' @ m"
| "store_display (StCorruption m) = L ''database corrupted: '' @ m"

fun secret_display :: "SecretStoreError \<Rightarrow> str" where
  "secret_display (SecUnavailable m) = L ''secret unavailable: '' @ m"
| "secret_display (SecUnsupported m) = L ''secret store does not support operation: '' @ m"

fun config_display :: "ConfigError \<Rightarrow> str" where
  "config_display (CfNotFound m) = L ''not found: '' @ m"
| "config_display (CfConflict m) = L ''conflict: '' @ m"
| "config_display (CfValidation m) = L ''validation error: '' @ m"
| "config_display (CfIo m) = L ''io error: '' @ m"
| "config_display (CfParse m) = L ''parse error: '' @ m"

fun service_display :: "'r ServiceError \<Rightarrow> str" where
  "service_display (SGateway e) = gateway_display e"
| "service_display (SSecret e) = secret_display e"
| "service_display (SStore e) = store_display e"
| "service_display (SConfig e) = config_display e"

subsection \<open>Presentation\<close>

datatype AccountErrorCategory = CNetwork | CAuth | CRateLimited | CConfig | CStorage | CInternal

definition is_auto_retrying :: "AccountErrorCategory \<Rightarrow> bool" where
  "is_auto_retrying c \<longleftrightarrow> c = CNetwork \<or> c = CRateLimited \<or> c = CInternal"

record UserFacingError =
  uf_category :: AccountErrorCategory
  uf_message :: str
  uf_code :: str

definition looks_rate_limited :: "str \<Rightarrow> bool" where
  "looks_rate_limited detail =
     (let detail = to_ascii_lowercase detail
      in contains_sub detail (L ''rate limit'')
       \<or> contains_sub detail (L ''ratelimit'')
       \<or> contains_sub detail (L ''throttl'')
       \<or> contains_sub detail (L ''too many requests'')
       \<or> contains_sub detail (L ''429''))"

text \<open>The dash of the messages is U+2014.\<close>

definition dash :: str where
  "dash = [8212]"

definition user_facing :: "'r ServiceError \<Rightarrow> UserFacingError" where
  "user_facing e = (let kind = error_kind e in
     if kind = KNetworkError \<or> kind = KGatewayUnavailable then
       (if looks_rate_limited (service_display e)
        then \<lparr>uf_category = CRateLimited,
              uf_message = L ''The mail provider is throttling requests '' @ dash @
                           L '' retrying shortly.'',
              uf_code = L ''rate_limited''\<rparr>
        else \<lparr>uf_category = CNetwork,
              uf_message = L ''Couldn't reach the mail server '' @ dash @
                           L '' check your connection. Retrying automatically.'',
              uf_code = kind_code kind\<rparr>)
     else if kind = KAuthError then
       \<lparr>uf_category = CAuth,
        uf_message = L ''Sign-in expired '' @ dash @ L '' reconnect your account.'',
        uf_code = kind_code kind\<rparr>
     else if kind = KSecretUnavailable \<or> kind = KSecretUnsupported then
       \<lparr>uf_category = CAuth,
        uf_message = L ''This account's saved credentials are unavailable '' @ dash @
                     L '' reconnect your account.'',
        uf_code = kind_code kind\<rparr>
     else if kind = KStorageCorrupted then
       \<lparr>uf_category = CStorage,
        uf_message = L ''The local mail database is damaged '' @ dash @
                     L '' a repair may be needed.'',
        uf_code = kind_code kind\<rparr>
     else if kind = KStorageFailure then
       \<lparr>uf_category = CStorage,
        uf_message = L ''Couldn't read the local mail database '' @ dash @ L '' retrying.'',
        uf_code = kind_code kind\<rparr>
     else if kind = KGatewayRejected \<or> kind = KStateMismatch \<or> kind = KCannotCalculateChanges \<or>
             kind = KConfigValidation \<or> kind = KConfigParse then
       \<lparr>uf_category = CConfig,
        uf_message = L ''The mail server settings look wrong '' @ dash @
                     L '' check this account's configuration.'',
        uf_code = kind_code kind\<rparr>
     else
       \<lparr>uf_category = CInternal,
        uf_message = L ''Something went wrong syncing this account '' @ dash @ L '' retrying.'',
        uf_code = kind_code kind\<rparr>)"

subsection \<open>What a message can show\<close>

text \<open>The presentation without the error: only the kind and the throttling flag remain.\<close>

lemma kind_code_inj: "kind_code k = kind_code k' \<longleftrightarrow> k = k'"
  by (cases k; cases k') (simp_all add: kind_code_def)

lemma user_facing_by_kind:
  "error_kind e = error_kind e' \<Longrightarrow>
   looks_rate_limited (service_display e) = looks_rate_limited (service_display e') \<Longrightarrow>
   user_facing e = user_facing e'"
  unfolding user_facing_def Let_def by (simp only:)

lemma user_facing_code:
  "uf_code (user_facing e) = error_code e \<or> uf_code (user_facing e) = L ''rate_limited''"
  by (simp add: user_facing_def error_code_def Let_def)

lemma uf_code_cases:
  "uf_code (user_facing e) =
     (if (error_kind e = KNetworkError \<or> error_kind e = KGatewayUnavailable) \<and>
         looks_rate_limited (service_display e)
      then L ''rate_limited'' else kind_code (error_kind e))"
  by (simp add: user_facing_def Let_def)

lemma kind_code_not_rate_limited: "kind_code k \<noteq> L ''rate_limited''"
  by (cases k) (simp_all add: kind_code_def)

text \<open>
  The stable code is enough to re-classify an error: two errors presented under one code are
  presented alike, in category and message, so nothing of the provider's or library's text reaches
  the message, and throttling never hides under another error's code.
\<close>

lemma code_determines_presentation:
  assumes "uf_code (user_facing e) = uf_code (user_facing e')"
  shows "user_facing e = user_facing e'"
proof (cases "uf_code (user_facing e) = L ''rate_limited''")
  case True
  have "(error_kind d = KNetworkError \<or> error_kind d = KGatewayUnavailable) \<and>
      looks_rate_limited (service_display d)" if "uf_code (user_facing d) = L ''rate_limited''" for d
    using that kind_code_not_rate_limited by (auto simp: uf_code_cases split: if_splits)
  from this [OF True] this [of e'] show ?thesis
    using True assms by (auto simp: user_facing_def)
next
  case False
  then have "error_kind e = error_kind e'" "uf_code (user_facing e) = kind_code (error_kind e)"
      "uf_code (user_facing e') = kind_code (error_kind e')"
    using assms by (auto simp: uf_code_cases kind_code_inj split: if_splits)
  then show ?thesis
    using False assms by (auto simp: user_facing_def Let_def)
qed

text \<open>A refused TCP connection and a broken TLS session: one code, one message.\<close>

lemma code_determines_presentation_example:
  "user_facing (SGateway (Network (L ''cannot connect to TCP stream''))) =
   user_facing (SGateway (Network (L ''tls handshake eof'')))"
  by (rule code_determines_presentation) code_simp

end
