(* ===== verification/Replay.thy ===== *)
theory Replay
  imports OutboxModel Errors
begin

text \<open>
  The replay engine of \<open>crates/posthaste-domain-service/src/service/replay.rs\<close>: the visible row of
  a message as a fold of the log over its base row, with the effect interpreter and the record
  projection of \<open>service/message_queries.rs\<close>. Everything here is the pure part of the engine: a
  function of one snapshot. The store side of it is theory \<open>Overlay\<close>.
\<close>

type_synonym svc_error = "MessageReadback ServiceError"

subsection \<open>The effect of an intent\<close>

datatype FoldEffect =
    Assert MessageAssertion
  | UpsertDraft SendMessageRequest
  | TombstoneDraft
  | SendEffects "str option" SendMessageRequest

text \<open>\<open>draft_id.as_deref().map(str::trim).filter(|key| !key.is_empty())\<close>.\<close>

definition compose_key :: "SendMessageRequest \<Rightarrow> str option" where
  "compose_key request = (case rq_draft_id request of
     None \<Rightarrow> None
   | Some key \<Rightarrow> (if trim key = [] then None else Some (trim key)))"

definition intent_fold_effect :: "Operation \<Rightarrow> (svc_error, FoldEffect option) result" where
  "intent_fold_effect operation =
     (case op_intent operation of
        Inl error \<Rightarrow> Inl (SGateway (Internal error))
      | Inr intent \<Rightarrow> Inr (case intent of
          ISetKeywords command \<Rightarrow>
            Some (Assert (SetKeywords (skc_add command) (skc_remove command)))
        | IReplaceMailboxes command \<Rightarrow>
            Some (Assert (ReplaceMailboxes (rmc_mailbox_ids command)))
        | IDestroy \<Rightarrow> Some (Assert Destroy)
        | ISaveDraft create request \<Rightarrow> Some (UpsertDraft request)
        | IDiscardDraft idempotent \<Rightarrow> Some TombstoneDraft
        | ISend request \<Rightarrow> Some (SendEffects (compose_key request) request)))"

fun assertions_of :: "Operation list \<Rightarrow> (svc_error, MessageAssertion list) result" where
  "assertions_of [] = Inr []"
| "assertions_of (operation # rest) =
     (case intent_fold_effect operation of
        Inl error \<Rightarrow> Inl error
      | Inr (Some (Assert assertion)) \<Rightarrow>
          map_result (\<lambda>assertions. assertion # assertions) (assertions_of rest)
      | Inr _ \<Rightarrow> assertions_of rest)"

definition message_assertions ::
  "Operation list \<Rightarrow> str \<Rightarrow> (svc_error, MessageAssertion list) result" where
  "message_assertions operations message_id =
     assertions_of (filter (\<lambda>operation. en_id (op_entity operation) = message_id) operations)"

definition project_record ::
  "MessageRecord \<Rightarrow> Operation list \<Rightarrow> (svc_error, MessageRecord option) result" where
  "project_record record remaining_ops =
     (case message_assertions remaining_ops (mr_id record) of
        Inl error \<Rightarrow> Inl error
      | Inr assertions \<Rightarrow>
          Inr (case replay_message \<lparr>fs_keywords = mr_keywords record,
                                    fs_mailbox_ids = mr_mailbox_ids record\<rparr> assertions of
                 Removed \<Rightarrow> None
               | Present state \<Rightarrow>
                   Some (record\<lparr>mr_keywords := fs_keywords state,
                                mr_mailbox_ids := fs_mailbox_ids state\<rparr>)))"

subsection \<open>Authored rows\<close>

definition PREVIEW_CHARS :: nat where
  "PREVIEW_CHARS = 180"

definition request_preview :: "SendMessageRequest \<Rightarrow> str" where
  "request_preview request = take PREVIEW_CHARS (trim (rq_body request))"

definition request_subject :: "SendMessageRequest \<Rightarrow> str option" where
  "request_subject request =
     (let subject = trim (rq_subject request) in if subject = [] then None else Some subject)"

definition request_references :: "SendMessageRequest \<Rightarrow> str list" where
  "request_references request =
     (case rq_references request of None \<Rightarrow> [] | Some references \<Rightarrow> split_whitespace references)"

definition some_text :: "str \<Rightarrow> str option" where
  "some_text s = (if s = [] then None else Some s)"

definition sender_domain :: "SendMessageRequest \<Rightarrow> str" where
  "sender_domain request =
     (case Option.bind (rq_from request) (\<lambda>recipient. rsplit_once (of_char CHR ''@'') (rc_email recipient)) of
        Some (_, domain) \<Rightarrow> (if domain = [] then L ''posthaste.local'' else domain)
      | None \<Rightarrow> L ''posthaste.local'')"

definition synthesize_sent_record ::
  "SendMessageRequest \<Rightarrow> Operation \<Rightarrow> str option \<Rightarrow> str \<Rightarrow> MessageRecord" where
  "synthesize_sent_record request operation sent_mailbox row_id =
     \<lparr>mr_id = row_id,
      mr_source_thread_id = row_id,
      mr_remote_blob_id = None,
      mr_subject = request_subject request,
      mr_from_name = Option.bind (rq_from request) rc_name,
      mr_from_email = map_option rc_email (rq_from request),
      mr_to = rq_to request,
      mr_cc = rq_cc request,
      mr_bcc = rq_bcc request,
      mr_reply_to = [],
      mr_preview = some_text (request_preview request),
      mr_received_at = op_updated_at operation,
      mr_has_attachment = (rq_attachments request \<noteq> []),
      mr_size = int (utf8_len (rq_body request)),
      mr_mailbox_ids = (case sent_mailbox of Some mailbox_id \<Rightarrow> [mailbox_id] | None \<Rightarrow> []),
      mr_keywords = [L ''$seen''],
      mr_body_html = None,
      mr_body_text = None,
      mr_raw_mime = None,
      mr_rfc_message_id =
        Some (send_identity_token (op_id operation) @ L ''@'' @ sender_domain request),
      mr_in_reply_to = rq_in_reply_to request,
      mr_references = request_references request,
      mr_draft_id = None,
      mr_list_unsubscribe = None\<rparr>"

definition synthesize_draft_record ::
  "MessageRecord option \<Rightarrow> SendMessageRequest \<Rightarrow> Operation \<Rightarrow> str option \<Rightarrow> str \<Rightarrow> str \<Rightarrow> MessageRecord"
where
  "synthesize_draft_record prior request operation drafts_mailbox live_id stable_key =
     \<lparr>mr_id = live_id,
      mr_source_thread_id =
        (case prior of Some record \<Rightarrow> mr_source_thread_id record | None \<Rightarrow> live_id),
      mr_remote_blob_id = None,
      mr_subject = request_subject request,
      mr_from_name = Option.bind (rq_from request) rc_name,
      mr_from_email = map_option rc_email (rq_from request),
      mr_to = rq_to request,
      mr_cc = rq_cc request,
      mr_bcc = rq_bcc request,
      mr_reply_to = [],
      mr_preview = some_text (request_preview request),
      mr_received_at = op_updated_at operation,
      mr_has_attachment = (rq_attachments request \<noteq> []),
      mr_size = int (utf8_len (rq_body request)),
      mr_mailbox_ids =
        (case drafts_mailbox of
           Some mailbox_id \<Rightarrow> [mailbox_id]
         | None \<Rightarrow> (case prior of Some record \<Rightarrow> mr_mailbox_ids record | None \<Rightarrow> [])),
      mr_keywords = [L ''$draft'', L ''$seen''],
      mr_body_html = None,
      mr_body_text = None,
      mr_raw_mime = None,
      mr_rfc_message_id = None,
      mr_in_reply_to = rq_in_reply_to request,
      mr_references = request_references request,
      mr_draft_id = Some stable_key,
      mr_list_unsubscribe = None\<rparr>"

subsection \<open>Which operations fold, and into which rows\<close>

definition is_content_op :: "Operation \<Rightarrow> bool" where
  "is_content_op op = is_content_kind (op_kind op)"

definition is_replayable :: "Operation \<Rightarrow> bool" where
  "is_replayable op = (case op_state op of
     Pending \<Rightarrow> True | Inflight \<Rightarrow> True | Applied \<Rightarrow> True
   | FailedState \<Rightarrow> is_content_op op
   | DispatchUncertain \<Rightarrow> is_content_op op)"

fun to_store :: "svc_error \<Rightarrow> StoreError" where
  "to_store (SStore store) = store"
| "to_store other = StFailure (service_display other)"

datatype EntityFoldRole = DraftKey | SendRow | SendConsumedDraft

datatype OpRowRole = RAssertion | REntity EntityFoldRole

definition op_row_touches_with ::
  "Operation \<Rightarrow> (str \<Rightarrow> (StoreError, str option) result) \<Rightarrow>
   (StoreError, (str \<times> OpRowRole) list) result" where
  "op_row_touches_with op resolve =
     (let own = en_id (op_entity op) in
      case en_kind (op_entity op) of
        EMessage \<Rightarrow>
          (if op_kind op = KSend then
             (case intent_fold_effect op of
                Inr (Some (SendEffects (Some key) _)) \<Rightarrow>
                  (case resolve key of
                     Inl error \<Rightarrow> Inl error
                   | Inr live \<Rightarrow>
                       (let consumed_live = (case live of Some l \<Rightarrow> l | None \<Rightarrow> key) in
                        Inr ((own, REntity SendRow) #
                             (if consumed_live \<noteq> own
                              then [(consumed_live, REntity SendConsumedDraft)] else []))))
              | _ \<Rightarrow> Inr [(own, REntity SendRow)])
           else if is_state_assertion (op_kind op) then Inr [(own, RAssertion)]
           else Inr [])
      | EDraft \<Rightarrow>
          (case resolve own of
             Inl error \<Rightarrow> Inl error
           | Inr live \<Rightarrow> Inr [(case live of Some l \<Rightarrow> l | None \<Rightarrow> own, REntity DraftKey)]))"

subsection \<open>The fold of one row\<close>

record DeriveSnapshot =
  sn_base :: "MessageRecord option"
  sn_overlay :: "MessageRecord option option"
  sn_ops :: "Operation list"
  sn_draft_keys :: "str \<Rightarrow> str option"
  sn_drafts_mailbox :: "str option"
  sn_sent_mailbox :: "str option"

datatype OverlayMutation = Upsert MessageRecord | Tombstone | Remove | Keep

definition snapshot_resolve :: "DeriveSnapshot \<Rightarrow> str \<Rightarrow> (StoreError, str option) result" where
  "snapshot_resolve snapshot key = Inr (sn_draft_keys snapshot key)"

text \<open>The two lists of operations that touch the row, in log order.\<close>

fun collect_touches ::
  "str \<Rightarrow> Operation \<Rightarrow> (str \<times> OpRowRole) list \<Rightarrow>
   Operation list \<times> (Operation \<times> EntityFoldRole) list \<Rightarrow>
   Operation list \<times> (Operation \<times> EntityFoldRole) list" where
  "collect_touches message_id op [] acc = acc"
| "collect_touches message_id op ((row_id, role) # rest) (message_ops, entity_ops) =
     (if row_id \<noteq> message_id then collect_touches message_id op rest (message_ops, entity_ops)
      else case role of
        RAssertion \<Rightarrow> collect_touches message_id op rest (message_ops @ [op], entity_ops)
      | REntity entity_role \<Rightarrow>
          collect_touches message_id op rest (message_ops, entity_ops @ [(op, entity_role)]))"

fun collect_ops ::
  "(str \<Rightarrow> (StoreError, str option) result) \<Rightarrow> str \<Rightarrow> Operation list \<Rightarrow>
   Operation list \<times> (Operation \<times> EntityFoldRole) list \<Rightarrow>
   (StoreError, Operation list \<times> (Operation \<times> EntityFoldRole) list) result" where
  "collect_ops resolve message_id [] acc = Inr acc"
| "collect_ops resolve message_id (op # rest) acc =
     (if \<not> is_replayable op then collect_ops resolve message_id rest acc
      else case op_row_touches_with op resolve of
        Inl error \<Rightarrow> Inl error
      | Inr touches \<Rightarrow> collect_ops resolve message_id rest (collect_touches message_id op touches acc))"

definition send_is_held :: "Operation \<Rightarrow> bool" where
  "send_is_held op \<longleftrightarrow>
     op_state op = Pending \<and> op_attempts op = 0 \<and>
     (op_send_at op \<noteq> None \<or> op_hold_until_mono op \<noteq> None)"

text \<open>One step of the entity fold on the row and the \<open>discarded_by_draft_op\<close> flag.\<close>

fun entity_fold_step ::
  "DeriveSnapshot \<Rightarrow> str \<Rightarrow> MessageRecord option \<times> bool \<Rightarrow> Operation \<Rightarrow> EntityFoldRole \<Rightarrow>
   FoldEffect option \<Rightarrow> MessageRecord option \<times> bool" where
  "entity_fold_step snapshot message_id (state, discarded) op DraftKey (Some (UpsertDraft request)) =
     (Some (synthesize_draft_record state request op (sn_drafts_mailbox snapshot) message_id
              (en_id (op_entity op))), False)"
| "entity_fold_step snapshot message_id (state, discarded) op DraftKey (Some TombstoneDraft) =
     (None, True)"
| "entity_fold_step snapshot message_id (state, discarded) op SendRow (Some (SendEffects key request)) =
     (if send_is_held op then (state, discarded)
      else (Some (synthesize_sent_record request op (sn_sent_mailbox snapshot) message_id), False))"
| "entity_fold_step snapshot message_id (state, discarded) op SendConsumedDraft
     (Some (SendEffects key request)) =
     (if send_is_held op
      then (Some (synthesize_draft_record state request op (sn_drafts_mailbox snapshot) message_id
                    (case key of Some k \<Rightarrow> k | None \<Rightarrow> [])), False)
      else (None, True))"
| "entity_fold_step snapshot message_id acc op role effect = acc"

fun entity_fold ::
  "DeriveSnapshot \<Rightarrow> str \<Rightarrow> MessageRecord option \<times> bool \<Rightarrow> (Operation \<times> EntityFoldRole) list \<Rightarrow>
   (StoreError, MessageRecord option \<times> bool) result" where
  "entity_fold snapshot message_id acc [] = Inr acc"
| "entity_fold snapshot message_id acc ((op, role) # rest) =
     (case intent_fold_effect op of
        Inl error \<Rightarrow> Inl (to_store error)
      | Inr effect \<Rightarrow>
          entity_fold snapshot message_id (entity_fold_step snapshot message_id acc op role effect) rest)"

text \<open>No replayable operation touches the row.\<close>

definition untouched_mutation :: "DeriveSnapshot \<Rightarrow> OverlayMutation" where
  "untouched_mutation snapshot = (case sn_overlay snapshot of
     Some None \<Rightarrow> (if sn_base snapshot \<noteq> None then Keep else Remove)
   | Some (Some _) \<Rightarrow> Remove
   | None \<Rightarrow> Keep)"

text \<open>The row after the entity fold, with the message assertions on top.\<close>

definition fold_verdict ::
  "DeriveSnapshot \<Rightarrow> Operation list \<Rightarrow> MessageRecord option \<times> bool \<Rightarrow>
   (StoreError, OverlayMutation) result" where
  "fold_verdict snapshot message_ops acc = (case acc of
     (Some record, _) \<Rightarrow>
       (case project_record record message_ops of
          Inl error \<Rightarrow> Inl (to_store error)
        | Inr (Some folded) \<Rightarrow> Inr (Upsert folded)
        | Inr None \<Rightarrow> Inr Tombstone)
   | (None, True) \<Rightarrow> Inr (if sn_base snapshot \<noteq> None then Tombstone else Remove)
   | (None, False) \<Rightarrow>
       (if list_ex (\<lambda>op. op_kind op = KDestroy) message_ops then Inr Tombstone
        else Inr (case sn_overlay snapshot of Some _ \<Rightarrow> Remove | None \<Rightarrow> Keep)))"

definition fold_touching ::
  "DeriveSnapshot \<Rightarrow> str \<Rightarrow> Operation list \<Rightarrow> (Operation \<times> EntityFoldRole) list \<Rightarrow>
   (StoreError, OverlayMutation) result" where
  "fold_touching snapshot message_id message_ops entity_ops =
     (if message_ops = [] \<and> entity_ops = [] then Inr (untouched_mutation snapshot)
      else case entity_fold snapshot message_id (sn_base snapshot, False) entity_ops of
        Inl error \<Rightarrow> Inl error
      | Inr acc \<Rightarrow> fold_verdict snapshot message_ops acc)"

definition fold_overlay_row :: "DeriveSnapshot \<Rightarrow> str \<Rightarrow> (StoreError, OverlayMutation) result" where
  "fold_overlay_row snapshot message_id =
     (case collect_ops (snapshot_resolve snapshot) message_id (sn_ops snapshot) ([], []) of
        Inl error \<Rightarrow> Inl error
      | Inr (message_ops, entity_ops) \<Rightarrow>
          fold_touching snapshot message_id message_ops entity_ops)"

subsection \<open>What the fold does not depend on\<close>

lemma collect_touches_append:
  "collect_touches m op ts (a @ a', b @ b') =
     (case collect_touches m op ts (a', b') of (x, y) \<Rightarrow> (a @ x, b @ y))"
  by (induction m op ts "(a', b')" arbitrary: a' b' rule: collect_touches.induct)
    (auto split: OpRowRole.splits)

lemma collect_ops_filter:
  "collect_ops resolve m (filter is_replayable ops) acc = collect_ops resolve m ops acc"
  by (induction ops arbitrary: acc) (auto split: sum.split)

text \<open>The fold reads nothing but the fields of the snapshot, so a new log replaces the old.\<close>

lemma entity_fold_step_snapshot:
  "entity_fold_step (s\<lparr>sn_ops := ops, sn_overlay := ov\<rparr>) m acc op role effect =
   entity_fold_step s m acc op role effect"
  by (induction s m acc op role effect rule: entity_fold_step.induct) simp_all

lemma entity_fold_snapshot:
  "entity_fold (s\<lparr>sn_ops := ops, sn_overlay := ov\<rparr>) m acc es = entity_fold s m acc es"
  by (induction s m acc es rule: entity_fold.induct)
    (auto simp: entity_fold_step_snapshot split: sum.split)

lemma snapshot_ops_fields:
  "sn_base (s\<lparr>sn_ops := ops\<rparr>) = sn_base s" "sn_overlay (s\<lparr>sn_ops := ops\<rparr>) = sn_overlay s"
  "sn_draft_keys (s\<lparr>sn_ops := ops\<rparr>) = sn_draft_keys s" "sn_ops (s\<lparr>sn_ops := ops\<rparr>) = ops"
  by simp_all

lemma entity_fold_snapshot_ops:
  "entity_fold (s\<lparr>sn_ops := ops\<rparr>) m acc es = entity_fold s m acc es"
  using entity_fold_snapshot [where s = s and ops = ops and ov = "sn_overlay s"] by simp

lemma fold_touching_ops: "fold_touching (s\<lparr>sn_ops := ops\<rparr>) m a b = fold_touching s m a b"
  unfolding fold_touching_def fold_verdict_def untouched_mutation_def
    entity_fold_snapshot_ops snapshot_ops_fields by (rule refl)

lemma fold_with_ops:
  "fold_overlay_row (s\<lparr>sn_ops := ops\<rparr>) m =
     (case collect_ops (snapshot_resolve s) m ops ([], []) of
        Inl error \<Rightarrow> Inl error | Inr (a, b) \<Rightarrow> fold_touching s m a b)"
  unfolding fold_overlay_row_def snapshot_resolve_def fold_touching_ops snapshot_ops_fields
  by (rule refl)

lemma fold_filter_replayable:
  "fold_overlay_row (s\<lparr>sn_ops := filter is_replayable (sn_ops s)\<rparr>) m = fold_overlay_row s m"
  unfolding fold_with_ops collect_ops_filter by (simp add: fold_overlay_row_def)

text \<open>An intent that failed or was parked folds into no row.\<close>

lemma failed_intent_not_replayable:
  "is_terminal (op_state op) \<Longrightarrow> \<not> is_content_op op \<Longrightarrow> \<not> is_replayable op"
  by (auto simp: is_terminal_def is_replayable_def)

lemma filter_drop_unreplayable:
  "\<not> is_replayable op \<Longrightarrow>
   filter is_replayable (pre @ op # post) = filter is_replayable (pre @ post)"
  by simp

text \<open>
  Base wins over a failed intent: a flag, move or delete that failed or was parked changes no
  visible row; the fold is the one of the log without it.
\<close>

lemma failed_intent_reverts:
  assumes "is_terminal (op_state op)" and "\<not> is_content_op op"
  shows "fold_overlay_row (s\<lparr>sn_ops := pre @ op # post\<rparr>) m =
         fold_overlay_row (s\<lparr>sn_ops := pre @ post\<rparr>) m"
proof -
  have "collect_ops r m (pre @ op # post) acc = collect_ops r m (pre @ post) acc" for r acc
    using filter_drop_unreplayable [OF failed_intent_not_replayable [OF assms], of pre post]
    by (metis collect_ops_filter)
  then show ?thesis by (simp add: fold_with_ops)
qed

definition example_record :: "str \<Rightarrow> MessageRecord" where
  "example_record i =
     \<lparr>mr_id = i, mr_source_thread_id = i, mr_remote_blob_id = None, mr_subject = None,
      mr_from_name = None, mr_from_email = None, mr_to = [], mr_cc = [], mr_bcc = [],
      mr_reply_to = [], mr_preview = None, mr_received_at = [], mr_has_attachment = False,
      mr_size = 0, mr_mailbox_ids = [L ''inbox''], mr_keywords = [], mr_body_html = None,
      mr_body_text = None, mr_raw_mime = None, mr_rfc_message_id = None,
      mr_in_reply_to = None, mr_references = [], mr_draft_id = None,
      mr_list_unsubscribe = None\<rparr>"

definition example_snapshot :: "Operation list \<Rightarrow> DeriveSnapshot" where
  "example_snapshot ops =
     \<lparr>sn_base = Some (example_record (L ''m1'')), sn_overlay = None, sn_ops = ops,
      sn_draft_keys = Map.empty, sn_drafts_mailbox = None, sn_sent_mailbox = None\<rparr>"

lemma failed_intent_reverts_example:
  "fold_overlay_row ((example_snapshot [])\<lparr>sn_ops :=
       [] @ example_op (L ''o'') KDestroy JOther FailedState # []\<rparr>) (L ''m1'') =
   fold_overlay_row ((example_snapshot [])\<lparr>sn_ops := [] @ []\<rparr>) (L ''m1'')"
  by (rule failed_intent_reverts)
    (simp_all add: example_op_def is_terminal_def is_content_op_def kind_class_defs)

subsection \<open>The id of the folded row\<close>

lemma entity_fold_step_id:
  "(\<And>r. fst acc = Some r \<Longrightarrow> mr_id r = m) \<Longrightarrow>
   fst (entity_fold_step s m acc op role effect) = Some r \<Longrightarrow> mr_id r = m"
  by (induction s m acc op role effect rule: entity_fold_step.induct)
    (auto simp: synthesize_draft_record_def synthesize_sent_record_def split: if_splits)

lemma entity_fold_id:
  "entity_fold s m acc ops = Inr acc' \<Longrightarrow> (\<And>r. fst acc = Some r \<Longrightarrow> mr_id r = m) \<Longrightarrow>
   fst acc' = Some r \<Longrightarrow> mr_id r = m"
proof (induction ops arbitrary: acc)
  case (Cons e ops)
  obtain op role where e: "e = (op, role)" by (cases e)
  from Cons.prems(1) obtain effect where eff: "intent_fold_effect op = Inr effect"
    by (auto simp: e split: sum.splits)
  show ?case
  proof (rule Cons.IH)
    show "entity_fold s m (entity_fold_step s m acc op role effect) ops = Inr acc'"
      using Cons.prems(1) eff by (simp add: e)
    show "mr_id r = m" if "fst (entity_fold_step s m acc op role effect) = Some r" for r
      using entity_fold_step_id [OF _ that] Cons.prems(2) by blast
  qed (rule Cons.prems(3))
qed simp

lemma entity_fold_step_none:
  "entity_fold_step s m acc op role effect = (None, False) \<Longrightarrow> acc = (None, False)"
  by (induction s m acc op role effect rule: entity_fold_step.induct) (auto split: if_splits)

lemma entity_fold_none:
  "entity_fold s m acc ops = Inr (None, False) \<Longrightarrow> acc = (None, False)"
proof (induction ops arbitrary: acc)
  case (Cons e ops)
  obtain op role where e: "e = (op, role)" by (cases e)
  from Cons.prems obtain effect where eff: "intent_fold_effect op = Inr effect"
    by (auto simp: e split: sum.splits)
  then have "entity_fold_step s m acc op role effect = (None, False)"
    using Cons by (simp add: e)
  then show ?case by (rule entity_fold_step_none)
qed simp

lemma project_record_id: "project_record r ops = Inr (Some r') \<Longrightarrow> mr_id r' = mr_id r"
  by (auto simp: project_record_def split: sum.splits Outcome.splits)

lemma fold_upsert_id:
  assumes "fold_overlay_row s m = Inr (Upsert r)" and "\<And>b. sn_base s = Some b \<Longrightarrow> mr_id b = m"
  shows "mr_id r = m"
proof -
  obtain a b where "fold_touching s m a b = Inr (Upsert r)"
    using assms(1) by (auto simp: fold_overlay_row_def split: sum.splits)
  then obtain acc where fold: "entity_fold s m (sn_base s, False) b = Inr acc"
    and verdict: "fold_verdict s a acc = Inr (Upsert r)"
    by (auto simp: fold_touching_def untouched_mutation_def
        split: if_splits sum.splits option.splits)
  obtain q d where acc: "acc = (q, d)" by (cases acc)
  obtain r0 where q: "q = Some r0" and p: "project_record r0 a = Inr (Some r)"
    using verdict by (cases q; cases d) (auto simp: acc fold_verdict_def split: sum.splits option.splits if_splits)
  have "mr_id r0 = m" using entity_fold_id [OF fold, of r0] assms(2) by (simp add: acc q)
  then show ?thesis using project_record_id [OF p] by simp
qed

subsection \<open>The overlay entry decides only between keeping and removing\<close>

definition mutation_shape :: "OverlayMutation \<Rightarrow> OverlayMutation" where
  "mutation_shape mutation = (case mutation of Remove \<Rightarrow> Keep | other \<Rightarrow> other)"

lemma mutation_shape_simps [simp]:
  "mutation_shape (Upsert r) = Upsert r" "mutation_shape Tombstone = Tombstone"
  "mutation_shape Remove = Keep" "mutation_shape Keep = Keep"
  by (simp_all add: mutation_shape_def)

lemma snapshot_overlay_fields:
  "sn_base (s\<lparr>sn_overlay := ov\<rparr>) = sn_base s" "sn_overlay (s\<lparr>sn_overlay := ov\<rparr>) = ov"
  "sn_draft_keys (s\<lparr>sn_overlay := ov\<rparr>) = sn_draft_keys s" "sn_ops (s\<lparr>sn_overlay := ov\<rparr>) = sn_ops s"
  by simp_all

lemma entity_fold_overlay:
  "entity_fold (s\<lparr>sn_overlay := ov\<rparr>) m acc es = entity_fold s m acc es"
  using entity_fold_snapshot [where s = s and ops = "sn_ops s" and ov = ov] by simp

lemma untouched_shape: "mutation_shape (untouched_mutation s) = Keep"
  by (simp add: untouched_mutation_def split: option.split)

lemma fold_verdict_shape:
  "map_result mutation_shape (fold_verdict (s\<lparr>sn_overlay := ov\<rparr>) a acc) =
   map_result mutation_shape (fold_verdict s a acc)"
proof -
  obtain q d where acc: "acc = (q, d)" by (cases acc)
  show ?thesis
    by (cases q; cases d) (auto simp: acc fold_verdict_def split: option.split sum.split)
qed

lemma fold_touching_shape:
  "map_result mutation_shape (fold_touching (s\<lparr>sn_overlay := ov\<rparr>) m a b) =
   map_result mutation_shape (fold_touching s m a b)"
  using fold_verdict_shape [where s = s and ov = ov and a = a]
  by (auto simp: fold_touching_def entity_fold_overlay untouched_shape split: sum.split)

lemma fold_overlay_shape:
  "map_result mutation_shape (fold_overlay_row (s\<lparr>sn_overlay := ov\<rparr>) m) =
   map_result mutation_shape (fold_overlay_row s m)"
  unfolding fold_overlay_row_def snapshot_resolve_def snapshot_overlay_fields
  by (auto simp: fold_touching_shape split: sum.split)

text \<open>An entry is kept only when there is none, or when it is a tombstone over a base row.\<close>

lemma fold_keep:
  assumes "fold_overlay_row s m = Inr Keep"
  shows "sn_overlay s = None \<or> (sn_overlay s = Some None \<and> sn_base s \<noteq> None)"
proof -
  obtain a b where t: "fold_touching s m a b = Inr Keep"
    using assms by (auto simp: fold_overlay_row_def split: sum.splits)
  show ?thesis
  proof (cases "a = [] \<and> b = []")
    case True
    then show ?thesis using t
      by (auto simp: fold_touching_def untouched_mutation_def split: option.splits if_splits)
  next
    case False
    then obtain q d where "fold_verdict s a (q, d) = Inr Keep"
      using t by (auto simp: fold_touching_def split: sum.splits)
    then show ?thesis
      by (cases q; cases d) (auto simp: fold_verdict_def split: if_splits sum.splits option.splits)
  qed
qed

text \<open>A row is removed or kept for the sake of its base row: a fold that leaves nothing has none.\<close>

lemma fold_remove_base:
  assumes "fold_overlay_row s m = Inr mutation" and "mutation_shape mutation = Keep"
  shows "sn_base s = None \<or>
    collect_ops (snapshot_resolve s) m (sn_ops s) ([], []) = Inr ([], [])"
proof -
  obtain a b where c: "collect_ops (snapshot_resolve s) m (sn_ops s) ([], []) = Inr (a, b)"
    and t: "fold_touching s m a b = Inr mutation"
    using assms(1) by (auto simp: fold_overlay_row_def split: sum.splits)
  show ?thesis
  proof (cases "a = [] \<and> b = []")
    case False
    then obtain q d where f: "entity_fold s m (sn_base s, False) b = Inr (q, d)"
      and v: "fold_verdict s a (q, d) = Inr mutation"
      using t by (auto simp: fold_touching_def split: sum.splits)
    show ?thesis
    proof (cases "(q, d) = (None, False)")
      case True
      then show ?thesis using entity_fold_none [of s m _ b] f by auto
    next
      case False
      then show ?thesis using v assms(2)
        by (cases q; cases d; cases mutation)
          (auto simp: fold_verdict_def split: if_splits sum.splits option.splits)
    qed
  qed (use c in simp)
qed

subsection \<open>The fold is total on a log that decodes\<close>

definition decodes :: "Operation \<Rightarrow> bool" where
  "decodes op = (case op_intent op of Inl _ \<Rightarrow> False | Inr _ \<Rightarrow> True)"

lemma decodes_effect: "decodes op \<Longrightarrow> \<exists>effect. intent_fold_effect op = Inr effect"
  by (auto simp: decodes_def intent_fold_effect_def split: sum.splits)

lemma touches_total:
  assumes "\<forall>key. \<exists>live. resolve key = Inr live"
  shows "\<exists>ts. op_row_touches_with op resolve = Inr ts"
proof -
  have "op_row_touches_with op resolve \<noteq> Inl e" for e
    using assms unfolding op_row_touches_with_def Let_def
    by (auto split: OperationEntityKind.splits sum.splits option.splits FoldEffect.splits)
      (metis sum.distinct(1))+
  then show ?thesis by (cases "op_row_touches_with op resolve") auto
qed

lemma collect_touches_set:
  "collect_touches m op ts (a, b) = (a', b') \<Longrightarrow>
   set a' \<subseteq> insert op (set a) \<and> fst ` set b' \<subseteq> insert op (fst ` set b)"
proof (induction ts arbitrary: a b)
  case (Cons t ts)
  obtain row role where t: "t = (row, role)" by (cases t)
  show ?case
  proof (cases "row = m")
    case True
    then show ?thesis
      using Cons.prems Cons.IH [of "a @ [op]" b] Cons.IH [of a "b @ [(op, x)]" for x]
      by (cases role) (auto simp: t)
  next
    case False
    then show ?thesis using Cons.prems Cons.IH [of a b] by (simp add: t)
  qed
qed auto

lemma subset_grow: "x \<subseteq> y \<union> r \<Longrightarrow> y \<subseteq> insert e z \<Longrightarrow> x \<subseteq> z \<union> insert e r"
  by blast

lemma collect_ops_total:
  assumes "\<forall>key. \<exists>live. resolve key = Inr live"
  shows "\<exists>a' b'. collect_ops resolve m ops (a, b) = Inr (a', b') \<and>
     set a' \<subseteq> set a \<union> set (filter is_replayable ops) \<and>
     fst ` set b' \<subseteq> fst ` set b \<union> set (filter is_replayable ops)"
proof (induction ops arbitrary: a b)
  case (Cons op ops)
  obtain ts where ts: "op_row_touches_with op resolve = Inr ts"
    using touches_total [OF assms] by blast
  obtain a1 b1 where c: "collect_touches m op ts (a, b) = (a1, b1)"
    by (cases "collect_touches m op ts (a, b)")
  show ?case
  proof (cases "is_replayable op")
    case True
    obtain a' b' where r: "collect_ops resolve m ops (a1, b1) = Inr (a', b')"
      and a': "set a' \<subseteq> set a1 \<union> set (filter is_replayable ops)"
      and b': "fst ` set b' \<subseteq> fst ` set b1 \<union> set (filter is_replayable ops)"
      using Cons.IH [of a1 b1] by blast
    have more: "set (filter is_replayable (op # ops)) = insert op (set (filter is_replayable ops))"
      using True by simp
    have grown: "set a' \<subseteq> set a \<union> set (filter is_replayable (op # ops))"
      "fst ` set b' \<subseteq> fst ` set b \<union> set (filter is_replayable (op # ops))"
      unfolding more using subset_grow [OF a'] subset_grow [OF b'] collect_touches_set [OF c]
      by simp_all
    with r True ts c show ?thesis by (intro exI conjI) (simp, rule grown, rule grown)
  next
    case False
    then show ?thesis using Cons.IH [of a b] by simp
  qed
qed simp

lemma entity_fold_total:
  "\<forall>op \<in> fst ` set es. decodes op \<Longrightarrow> \<exists>acc'. entity_fold s m acc es = Inr acc'"
proof (induction es arbitrary: acc)
  case (Cons e es)
  obtain op role where e: "e = (op, role)" by (cases e)
  obtain effect where "intent_fold_effect op = Inr effect"
    using Cons.prems decodes_effect by (auto simp: e)
  then show ?case using Cons by (simp add: e)
qed simp

lemma assertions_total:
  "\<forall>op \<in> set ops. decodes op \<Longrightarrow> \<exists>as. assertions_of ops = Inr as"
proof (induction ops)
  case (Cons op ops)
  obtain effect where eff: "intent_fold_effect op = Inr effect"
    using Cons.prems decodes_effect by auto
  obtain as where as: "assertions_of ops = Inr as" using Cons by auto
  show ?case
    by (cases effect; cases "the effect") (auto simp: eff as)
qed simp

lemma project_total:
  assumes "\<forall>op \<in> set ops. decodes op"
  shows "\<exists>r'. project_record r ops = Inr r'"
proof -
  have "\<forall>op \<in> set (filter (\<lambda>op. en_id (op_entity op) = mr_id r) ops). decodes op"
    using assms by simp
  from assertions_total [OF this] obtain as where
    "assertions_of (filter (\<lambda>op. en_id (op_entity op) = mr_id r) ops) = Inr as" by blast
  then show ?thesis by (simp add: project_record_def message_assertions_def)
qed

lemma fold_total:
  assumes "\<forall>op \<in> set (filter is_replayable (sn_ops s)). decodes op"
  shows "\<exists>mutation. fold_overlay_row s m = Inr mutation"
proof -
  have "\<forall>key. \<exists>live. snapshot_resolve s key = Inr live" by (simp add: snapshot_resolve_def)
  from collect_ops_total [OF this, of m "sn_ops s" "[]" "[]"]
  obtain a b where c: "collect_ops (snapshot_resolve s) m (sn_ops s) ([], []) = Inr (a, b)"
    and da: "\<forall>op \<in> set a. decodes op" and db: "\<forall>op \<in> fst ` set b. decodes op"
    using assms by auto blast
  obtain q d where f: "entity_fold s m (sn_base s, False) b = Inr (q, d)"
    using entity_fold_total [OF db, of s m "(sn_base s, False)"] by auto
  have "\<exists>mutation. fold_verdict s a (q, d) = Inr mutation"
  proof (cases q)
    case (Some r)
    obtain r' where "project_record r a = Inr r'" using project_total [OF da] by blast
    then show ?thesis using Some by (cases r') (simp_all add: fold_verdict_def)
  qed (cases d; simp add: fold_verdict_def)
  then show ?thesis using c f by (auto simp: fold_overlay_row_def fold_touching_def)
qed

end
