(* ===== verification/Overlay.thy ===== *)
theory Overlay
  imports Replay OutboxStore "HOL-Library.AList"
begin

text \<open>
  The overlay plane of the store, \<open>crates/posthaste-store/src/overlay.rs\<close>, with the
  \<open>*_effective\<close> views of \<open>db/schema/sql.rs\<close> that merge it over the base plane. The database is a
  record of its tables; a table that is only looked up by its key is a map, one that is enumerated
  (base, overlay) the association list of its rows. The column \<open>conversation_id\<close> and the derived read and flagged
  columns of an overlay row are not modelled. The membership and keyword tables of a row are kept
  in the row as ordered lists without duplicates, which is what their primary keys and
  \<open>ORDER BY\<close> give every reader.
\<close>

subsection \<open>The database\<close>

record OverlayRow =
  ov_tombstone :: bool
  ov_record :: MessageRecord

datatype SyncTrigger = Startup | Poll | Push | Manual

datatype SyncMode = Incremental | FullMetadata

text \<open>The \<open>resources\<close> of the completed event are functions of the account and the mode.\<close>

record SyncCompleted =
  sy_mailbox_count :: nat
  sy_message_count :: nat
  sy_deleted_imap_location_count :: nat
  sy_deleted_message_count :: nat
  sy_automation_event_count :: nat
  sy_trigger :: SyncTrigger
  sy_mode :: SyncMode
  sy_post_commit_errors :: "str list"

datatype EventPayload =
    PDeleted str
  | PProjection str MessageRecord
  | PReverted str
  | PKeywords str "str list" MessageRecord
  | PMailboxes str "str list" "str list" MessageRecord
  | PSettled OperationSettlement
  | PUncertain str str
  | PSyncCompleted SyncCompleted
  | PSyncFailed str str SyncTrigger str

record DomainEvent =
  ev_seq :: nat
  ev_account_id :: str
  ev_topic :: str
  ev_occurred_at :: str
  ev_mailbox_id :: "str option"
  ev_message_id :: "str option"
  ev_payload :: EventPayload

record MailDb =
  db_outbox :: outbox
  db_draft_alias :: alias_table
  db_send_alias :: alias_table
  db_base :: "((str \<times> str) \<times> MessageRecord) list"
  db_overlay :: "((str \<times> str) \<times> OverlayRow) list"
  db_role_mailbox :: "str \<times> str \<Rightarrow> str option"
  db_cursors :: "str \<times> SyncObject \<Rightarrow> SyncCursor option"
  db_events :: "DomainEvent list"

definition default_record :: "str \<Rightarrow> MessageRecord" where
  "default_record i =
     \<lparr>mr_id = i, mr_source_thread_id = [], mr_remote_blob_id = None, mr_subject = None,
      mr_from_name = None, mr_from_email = None, mr_to = [], mr_cc = [], mr_bcc = [],
      mr_reply_to = [], mr_preview = None, mr_received_at = [], mr_has_attachment = False,
      mr_size = 0, mr_mailbox_ids = [], mr_keywords = [], mr_body_html = None,
      mr_body_text = None, mr_raw_mime = None, mr_rfc_message_id = None,
      mr_in_reply_to = None, mr_references = [], mr_draft_id = None,
      mr_list_unsubscribe = None\<rparr>"

subsection \<open>Writes to the overlay tables\<close>

text \<open>What a record keeps through the overlay tables: no bodies, and sets for the two lists.\<close>

definition overlay_columns :: "MessageRecord \<Rightarrow> MessageRecord" where
  "overlay_columns message =
     message\<lparr>mr_mailbox_ids := bt_collect (set (mr_mailbox_ids message)),
             mr_keywords := bt_collect (set (mr_keywords message)),
             mr_body_html := None, mr_body_text := None, mr_raw_mime := None\<rparr>"

definition upsert_overlay :: "str \<Rightarrow> MessageRecord \<Rightarrow> MailDb \<Rightarrow> MailDb" where
  "upsert_overlay account_id message db =
     db\<lparr>db_overlay := AList.update (account_id, mr_id message)
          \<lparr>ov_tombstone = False, ov_record = overlay_columns message\<rparr> (db_overlay db)\<rparr>"

text \<open>An existing row keeps its columns under the tombstone; its two sets are emptied.\<close>

definition tombstone_overlay :: "str \<Rightarrow> str \<Rightarrow> MailDb \<Rightarrow> MailDb" where
  "tombstone_overlay account_id message_id db =
     (let record = (case map_of (db_overlay db) (account_id, message_id) of
                      Some row \<Rightarrow> ov_record row | None \<Rightarrow> default_record message_id)
      in db\<lparr>db_overlay := AList.update (account_id, message_id)
              \<lparr>ov_tombstone = True,
               ov_record = record\<lparr>mr_mailbox_ids := [], mr_keywords := []\<rparr>\<rparr> (db_overlay db)\<rparr>)"

definition remove_overlay :: "str \<Rightarrow> str \<Rightarrow> MailDb \<Rightarrow> MailDb" where
  "remove_overlay account_id message_id db =
     db\<lparr>db_overlay := AList.delete (account_id, message_id) (db_overlay db)\<rparr>"

subsection \<open>Reads\<close>

definition list_overlay_message_ids :: "str \<Rightarrow> MailDb \<Rightarrow> str list" where
  "list_overlay_message_ids account_id db =
     bt_collect (set (map snd (filter (\<lambda>key. fst key = account_id) (map fst (db_overlay db)))))"

text \<open>Only the columns the query selects; the rest is \<open>Default\<close>.\<close>

definition read_overlay :: "MailDb \<Rightarrow> str \<Rightarrow> str \<Rightarrow> MessageRecord option option" where
  "read_overlay db account_id message_id =
     (case map_of (db_overlay db) (account_id, message_id) of
        None \<Rightarrow> None
      | Some row \<Rightarrow>
          Some (if ov_tombstone row then None
                else let record = ov_record row in
                  Some ((default_record message_id)
                    \<lparr>mr_source_thread_id := mr_source_thread_id record,
                     mr_subject := mr_subject record,
                     mr_from_name := mr_from_name record,
                     mr_from_email := mr_from_email record,
                     mr_received_at := mr_received_at record,
                     mr_mailbox_ids := mr_mailbox_ids record,
                     mr_keywords := mr_keywords record,
                     mr_draft_id := mr_draft_id record,
                     mr_rfc_message_id := mr_rfc_message_id record\<rparr>)))"

text \<open>The base row as the fold reads it: the requested id, sorted sets, no bodies.\<close>

definition read_base :: "MailDb \<Rightarrow> str \<Rightarrow> str \<Rightarrow> MessageRecord option" where
  "read_base db account_id message_id =
     map_option (\<lambda>row. row\<lparr>mr_id := message_id,
                          mr_mailbox_ids := bt_collect (set (mr_mailbox_ids row)),
                          mr_keywords := bt_collect (set (mr_keywords row)),
                          mr_body_html := None, mr_body_text := None, mr_raw_mime := None\<rparr>)
       (map_of (db_base db) (account_id, message_id))"

definition read_draft_alias_map :: "MailDb \<Rightarrow> str \<Rightarrow> str \<Rightarrow> str option" where
  "read_draft_alias_map db account_id key = resolve_draft_entity (db_draft_alias db) account_id key"

definition read_mailbox_id_by_role :: "MailDb \<Rightarrow> str \<Rightarrow> str \<Rightarrow> str option" where
  "read_mailbox_id_by_role db account_id role = db_role_mailbox db (account_id, role)"

text \<open>\<open>message_effective\<close>: a non-tombstoned overlay row, else the base row unless it is overlaid.\<close>

definition message_effective :: "MailDb \<Rightarrow> str \<Rightarrow> str \<Rightarrow> MessageRecord option" where
  "message_effective db account_id message_id =
     (case map_of (db_overlay db) (account_id, message_id) of
        Some row \<Rightarrow> (if ov_tombstone row then None else Some (ov_record row))
      | None \<Rightarrow> read_base db account_id message_id)"

definition message_mailbox_effective :: "MailDb \<Rightarrow> str \<Rightarrow> str \<Rightarrow> str list" where
  "message_mailbox_effective db account_id message_id =
     (case map_of (db_overlay db) (account_id, message_id) of
        Some row \<Rightarrow> mr_mailbox_ids (ov_record row)
      | None \<Rightarrow> (case read_base db account_id message_id of
                  Some record \<Rightarrow> mr_mailbox_ids record | None \<Rightarrow> []))"

definition overlay_effective_visible :: "'a option option \<Rightarrow> bool \<Rightarrow> bool" where
  "overlay_effective_visible overlay base_present = (case overlay of
     Some (Some _) \<Rightarrow> True
   | Some None \<Rightarrow> False
   | None \<Rightarrow> base_present)"

subsection \<open>Deriving a row\<close>

record DeriveDiff =
  df_was_visible :: bool
  df_now_visible :: bool
  df_was_effective :: bool
  df_now_effective :: bool

definition retired :: "DeriveDiff \<Rightarrow> bool" where
  "retired diff \<longleftrightarrow> df_was_visible diff \<and> \<not> df_now_visible diff"

definition effectively_retired :: "DeriveDiff \<Rightarrow> bool" where
  "effectively_retired diff \<longleftrightarrow> df_was_effective diff \<and> \<not> df_now_effective diff"

definition apply_overlay_mutation ::
  "str \<Rightarrow> str \<Rightarrow> OverlayMutation \<Rightarrow> bool \<Rightarrow> bool \<Rightarrow> bool \<Rightarrow> MailDb \<Rightarrow> (bool \<times> bool) \<times> MailDb" where
  "apply_overlay_mutation account_id message_id mutation was_visible was_effective base_present db =
     (case mutation of
        Upsert record \<Rightarrow> ((True, True), upsert_overlay account_id record db)
      | Tombstone \<Rightarrow> ((False, False), tombstone_overlay account_id message_id db)
      | Remove \<Rightarrow> ((False, base_present), remove_overlay account_id message_id db)
      | Keep \<Rightarrow> ((was_visible, was_effective), db))"

definition derive_snapshot :: "MailDb \<Rightarrow> str \<Rightarrow> str \<Rightarrow> DeriveSnapshot" where
  "derive_snapshot db account_id message_id =
     \<lparr>sn_base = read_base db account_id message_id,
      sn_overlay = read_overlay db account_id message_id,
      sn_ops = list_unsettled_operations account_id (db_outbox db),
      sn_draft_keys = read_draft_alias_map db account_id,
      sn_drafts_mailbox = read_mailbox_id_by_role db account_id (L ''drafts''),
      sn_sent_mailbox = read_mailbox_id_by_role db account_id (L ''sent'')\<rparr>"

text \<open>One write transaction: an error of the fold rolls it back.\<close>

definition derive_overlay ::
  "str \<Rightarrow> str \<Rightarrow> (DeriveSnapshot \<Rightarrow> (StoreError, OverlayMutation) result) \<Rightarrow> MailDb \<Rightarrow>
   (StoreError, DeriveDiff) result \<times> MailDb" where
  "derive_overlay account_id message_id fold_row db =
     (let snapshot = derive_snapshot db account_id message_id;
          base_present = (sn_base snapshot \<noteq> None);
          was_visible = (case sn_overlay snapshot of Some entry \<Rightarrow> entry \<noteq> None | None \<Rightarrow> False);
          was_effective = overlay_effective_visible (sn_overlay snapshot) base_present
      in case fold_row snapshot of
           Inl error \<Rightarrow> (Inl error, db)
         | Inr mutation \<Rightarrow>
             (case apply_overlay_mutation account_id message_id mutation
                     was_visible was_effective base_present db of
                ((now_visible, now_effective), db') \<Rightarrow>
                  (Inr \<lparr>df_was_visible = was_visible, df_now_visible = now_visible,
                        df_was_effective = was_effective, df_now_effective = now_effective\<rparr>,
                   db')))"

text \<open>
  The loop over the touched rows. The code reads the log, the draft keys and the role mailboxes
  once before the loop; no iteration writes them, so each derivation reads the same values.
\<close>

fun derive_rows ::
  "str \<Rightarrow> (str \<Rightarrow> DeriveSnapshot \<Rightarrow> (StoreError, OverlayMutation) result) \<Rightarrow> str list \<Rightarrow>
   MailDb \<Rightarrow> (StoreError, DeriveDiff list) result \<times> MailDb" where
  "derive_rows account_id fold_row [] db = (Inr [], db)"
| "derive_rows account_id fold_row (message_id # rest) db =
     (case derive_overlay account_id message_id (fold_row message_id) db of
        (Inl error, db') \<Rightarrow> (Inl error, db')
      | (Inr diff, db') \<Rightarrow>
          (case derive_rows account_id fold_row rest db' of
             (Inl error, db'') \<Rightarrow> (Inl error, db'')
           | (Inr diffs, db'') \<Rightarrow> (Inr (diff # diffs), db'')))"

definition remove_op_and_derive ::
  "str \<Rightarrow> str \<Rightarrow> str list \<Rightarrow>
   (str \<Rightarrow> DeriveSnapshot \<Rightarrow> (StoreError, OverlayMutation) result) \<Rightarrow> MailDb \<Rightarrow>
   (StoreError, DeriveDiff list) result \<times> MailDb" where
  "remove_op_and_derive account_id operation_id row_ids fold_row db =
     (case derive_rows account_id fold_row row_ids
             (db\<lparr>db_outbox := remove_operation operation_id (db_outbox db)\<rparr>) of
        (Inl error, _) \<Rightarrow> (Inl error, db)
      | (Inr diffs, db') \<Rightarrow> (Inr diffs, db'))"

definition refresh_message_overlay ::
  "str \<Rightarrow> str \<Rightarrow> MailDb \<Rightarrow> (StoreError, DeriveDiff) result \<times> MailDb" where
  "refresh_message_overlay account_id message_id db =
     derive_overlay account_id message_id (\<lambda>snapshot. fold_overlay_row snapshot message_id) db"

subsection \<open>The full rebuild\<close>

text \<open>
  \<open>op_touched_row_ids\<close>, \<open>replay_inventory\<close> and \<open>replay_account_overrides\<close> of \<open>replay.rs\<close>: every row
  the replayable log touches and every overlaid row, refreshed one by one; the first error stops.
\<close>

definition registry_resolve :: "MailDb \<Rightarrow> str \<Rightarrow> str \<Rightarrow> (StoreError, str option) result" where
  "registry_resolve db account_id key = Inr (resolve_draft_entity (db_draft_alias db) account_id key)"

definition op_touched_row_ids :: "MailDb \<Rightarrow> str \<Rightarrow> Operation \<Rightarrow> (StoreError, str list) result" where
  "op_touched_row_ids db account_id op =
     map_result (map fst) (op_row_touches_with op (registry_resolve db account_id))"

fun touched_rows :: "MailDb \<Rightarrow> str \<Rightarrow> Operation list \<Rightarrow> (StoreError, str list) result" where
  "touched_rows db account_id [] = Inr []"
| "touched_rows db account_id (op # rest) =
     (case op_touched_row_ids db account_id op of
        Inl error \<Rightarrow> Inl error
      | Inr ids \<Rightarrow> map_result (\<lambda>more. ids @ more) (touched_rows db account_id rest))"

definition replay_inventory :: "MailDb \<Rightarrow> str \<Rightarrow> (StoreError, str list) result" where
  "replay_inventory db account_id =
     map_result (\<lambda>ids. bt_collect (set ids \<union> set (list_overlay_message_ids account_id db)))
       (touched_rows db account_id
          (filter is_replayable (list_unsettled_operations account_id (db_outbox db))))"

fun refresh_rows :: "str \<Rightarrow> str list \<Rightarrow> MailDb \<Rightarrow> (StoreError, unit) result \<times> MailDb" where
  "refresh_rows account_id [] db = (Inr (), db)"
| "refresh_rows account_id (message_id # rest) db =
     (case refresh_message_overlay account_id message_id db of
        (Inl error, db') \<Rightarrow> (Inl error, db')
      | (Inr _, db') \<Rightarrow> refresh_rows account_id rest db')"

definition replay_account_overrides :: "str \<Rightarrow> MailDb \<Rightarrow> (StoreError, unit) result \<times> MailDb" where
  "replay_account_overrides account_id db =
     (case replay_inventory db account_id of
        Inl error \<Rightarrow> (Inl error, db)
      | Inr ids \<Rightarrow> refresh_rows account_id ids db)"

text \<open>\<open>replay_base_write\<close>: only the inventory rows that were written.\<close>

definition replay_base_write ::
  "str \<Rightarrow> str set \<Rightarrow> MailDb \<Rightarrow> (StoreError, unit) result \<times> MailDb" where
  "replay_base_write account_id written_rows db =
     (if written_rows = {} then (Inr (), db)
      else case replay_inventory db account_id of
        Inl error \<Rightarrow> (Inl error, db)
      | Inr ids \<Rightarrow> refresh_rows account_id (filter (\<lambda>m. m \<in> written_rows) ids) db)"

subsection \<open>What each write does to the visible rows\<close>

lemma map_of_update_overlay [simp]:
  "map_of (AList.update k v al) k' = (if k' = k then Some v else map_of al k')"
  by (simp add: update_conv')

lemma map_of_delete_overlay [simp]:
  "map_of (AList.delete k al) k' = (if k' = k then None else map_of al k')"
  by (simp add: delete_conv')

lemma read_base_overlay [simp]: "read_base (db\<lparr>db_overlay := x\<rparr>) = read_base db"
  by (rule ext, rule ext) (simp add: read_base_def)

lemma effective_upsert:
  "message_effective (upsert_overlay a r db) a' m' =
     (if a' = a \<and> m' = mr_id r then Some (overlay_columns r) else message_effective db a' m')"
  by (auto simp: message_effective_def upsert_overlay_def split: option.split)

lemma effective_tombstone:
  "message_effective (tombstone_overlay a m db) a' m' =
     (if a' = a \<and> m' = m then None else message_effective db a' m')"
  by (auto simp: message_effective_def tombstone_overlay_def Let_def split: option.split)

lemma effective_remove:
  "message_effective (remove_overlay a m db) a' m' =
     (if a' = a \<and> m' = m then read_base db a m else message_effective db a' m')"
  by (auto simp: message_effective_def remove_overlay_def split: option.split)

lemma read_overlay_cases:
  "read_overlay db a m = None \<Longrightarrow> message_effective db a m = read_base db a m"
  "read_overlay db a m = Some None \<Longrightarrow> message_effective db a m = None"
  "read_overlay db a m = Some (Some r) \<Longrightarrow> message_effective db a m \<noteq> None"
  by (auto simp: read_overlay_def message_effective_def Let_def split: option.splits if_splits)

lemma read_base_id: "read_base db a m = Some b \<Longrightarrow> mr_id b = m"
  by (auto simp: read_base_def)

lemma overlay_visible_effective:
  "overlay_effective_visible (read_overlay db a m) (read_base db a m \<noteq> None) =
   (message_effective db a m \<noteq> None)"
  by (cases "read_overlay db a m"; cases "the (read_overlay db a m)")
    (auto simp: overlay_effective_visible_def dest: read_overlay_cases)

lemma derive_snapshot_fields [simp]:
  "sn_base (derive_snapshot db a m) = read_base db a m"
  "sn_overlay (derive_snapshot db a m) = read_overlay db a m"
  "sn_ops (derive_snapshot db a m) = list_unsettled_operations a (db_outbox db)"
  "sn_draft_keys (derive_snapshot db a m) = read_draft_alias_map db a"
  by (simp_all add: derive_snapshot_def)

text \<open>The tables a refresh does not write.\<close>

lemma apply_mutation_frame:
  "apply_overlay_mutation a m mutation wv we bp db = (now, db') \<Longrightarrow>
   db_outbox db' = db_outbox db \<and> db_draft_alias db' = db_draft_alias db \<and>
   db_send_alias db' = db_send_alias db \<and> db_base db' = db_base db \<and>
   db_role_mailbox db' = db_role_mailbox db \<and> db_cursors db' = db_cursors db \<and>
   db_events db' = db_events db"
  by (cases mutation) (auto simp: apply_overlay_mutation_def upsert_overlay_def
      tombstone_overlay_def remove_overlay_def Let_def)

lemma refresh_cases:
  assumes "refresh_message_overlay a m db = (result, db')"
  obtains (error) e where "result = Inl e" "db' = db"
      "fold_overlay_row (derive_snapshot db a m) m = Inl e"
    | (derived) mutation now where
      "fold_overlay_row (derive_snapshot db a m) m = Inr mutation"
      "apply_overlay_mutation a m mutation
         (case read_overlay db a m of Some entry \<Rightarrow> entry \<noteq> None | None \<Rightarrow> False)
         (message_effective db a m \<noteq> None) (read_base db a m \<noteq> None) db = (now, db')"
      "\<exists>d. result = Inr d \<and> df_was_effective d = (message_effective db a m \<noteq> None) \<and>
           df_now_effective d = snd now"
proof (cases "fold_overlay_row (derive_snapshot db a m) m")
  case (Inl e)
  then show ?thesis using assms error
    by (auto simp: refresh_message_overlay_def derive_overlay_def Let_def)
next
  case (Inr mutation)
  then show ?thesis using assms derived [OF Inr]
    by (auto simp: refresh_message_overlay_def derive_overlay_def Let_def
        overlay_visible_effective simp del: not_None_eq split: prod.splits)
qed

lemma refresh_frame:
  assumes "refresh_message_overlay a m db = (result, db')"
  shows "db_outbox db' = db_outbox db" "db_draft_alias db' = db_draft_alias db"
    "db_send_alias db' = db_send_alias db" "db_base db' = db_base db"
    "db_role_mailbox db' = db_role_mailbox db" "db_cursors db' = db_cursors db"
    "db_events db' = db_events db"
  using assms by (rule refresh_cases; auto dest: apply_mutation_frame)+

text \<open>The visible row after a refresh, by the mutation the fold decided.\<close>

definition row_after ::
  "OverlayMutation \<Rightarrow> MessageRecord option \<Rightarrow> MessageRecord option \<Rightarrow> MessageRecord option" where
  "row_after mutation base before = (case mutation of
     Upsert r \<Rightarrow> Some (overlay_columns r) | Tombstone \<Rightarrow> None | Remove \<Rightarrow> base | Keep \<Rightarrow> before)"

lemma apply_mutation_effective:
  assumes "apply_overlay_mutation a m mutation wv we bp db = (now, db')"
    and "\<And>r. mutation = Upsert r \<Longrightarrow> mr_id r = m"
  shows "message_effective db' a m = row_after mutation (read_base db a m) (message_effective db a m)"
    and "(a', m') \<noteq> (a, m) \<Longrightarrow> message_effective db' a' m' = message_effective db a' m'"
  using assms by (cases mutation; auto simp: apply_overlay_mutation_def row_after_def
      effective_upsert effective_tombstone effective_remove)+

lemma refresh_effective:
  assumes "refresh_message_overlay a m db = (Inr d, db')"
  obtains mutation where
    "fold_overlay_row (derive_snapshot db a m) m = Inr mutation"
    "message_effective db' a m = row_after mutation (read_base db a m) (message_effective db a m)"
    "\<And>a' m'. (a', m') \<noteq> (a, m) \<Longrightarrow> message_effective db' a' m' = message_effective db a' m'"
proof (rule refresh_cases [OF assms])
  fix mutation now
  assume f: "fold_overlay_row (derive_snapshot db a m) m = Inr mutation"
    and ap: "apply_overlay_mutation a m mutation
         (case read_overlay db a m of Some entry \<Rightarrow> entry \<noteq> None | None \<Rightarrow> False)
         (message_effective db a m \<noteq> None) (read_base db a m \<noteq> None) db = (now, db')"
  have id: "mr_id r = m" if "mutation = Upsert r" for r
    using fold_upsert_id [of "derive_snapshot db a m" m r] f that read_base_id by simp
  show thesis
    by (rule that [OF f]) (use apply_mutation_effective [OF ap id] in auto)
qed simp

lemma apply_mutation_now:
  assumes "apply_overlay_mutation a m mutation wv (message_effective db a m \<noteq> None)
      (read_base db a m \<noteq> None) db = (now, db')"
  shows "snd now = (row_after mutation (read_base db a m) (message_effective db a m) \<noteq> None)"
  using assms by (cases mutation) (auto simp: apply_overlay_mutation_def row_after_def)

text \<open>
  The visibility diff a derivation returns is the truth about the merged view: its before and
  after flags say whether base or overlay served the row before and after, and no other row of the
  view changes. So an echo sent on \<open>effectively_retired\<close> is sent exactly when the row is gone.
\<close>

lemma derive_diff_truthful:
  assumes "refresh_message_overlay a m db = (Inr d, db')"
  shows "df_was_effective d = (message_effective db a m \<noteq> None) \<and>
         df_now_effective d = (message_effective db' a m \<noteq> None) \<and>
         (\<forall>a' m'. (a', m') = (a, m) \<or> message_effective db' a' m' = message_effective db a' m')"
proof (rule refresh_cases [OF assms])
  fix mutation now
  assume f: "fold_overlay_row (derive_snapshot db a m) m = Inr mutation"
    and ap: "apply_overlay_mutation a m mutation
         (case read_overlay db a m of Some entry \<Rightarrow> entry \<noteq> None | None \<Rightarrow> False)
         (message_effective db a m \<noteq> None) (read_base db a m \<noteq> None) db = (now, db')"
    and d: "\<exists>d'. Inr d = Inr d' \<and> df_was_effective d' = (message_effective db a m \<noteq> None) \<and>
         df_now_effective d' = snd now"
  have id: "mr_id r = m" if "mutation = Upsert r" for r
    using fold_upsert_id [of "derive_snapshot db a m" m r] f that read_base_id by simp
  have now: "df_now_effective d = (message_effective db' a m \<noteq> None)"
    using d apply_mutation_now [OF ap] apply_mutation_effective(1) [OF ap id] by auto
  have frame: "(a', m') = (a, m) \<or> message_effective db' a' m' = message_effective db a' m'"
    for a' m'
    using apply_mutation_effective(2) [OF ap id] by blast
  show ?thesis using d now frame by auto
qed simp

text \<open>
  What a derivation can depend on besides the log and base: a tombstone that survives over a base
  row which no replayable operation touches.
\<close>

definition hidden_base :: "MailDb \<Rightarrow> str \<Rightarrow> str \<Rightarrow> bool" where
  "hidden_base db a m \<longleftrightarrow> read_overlay db a m = Some None \<and> read_base db a m \<noteq> None"

lemma row_after_visible:
  assumes "fold_overlay_row (derive_snapshot db a m) m = Inr mutation" and "\<not> hidden_base db a m"
  shows "row_after mutation (read_base db a m) (message_effective db a m) =
         row_after (mutation_shape mutation) (read_base db a m) (read_base db a m)"
proof (cases mutation)
  case Keep
  then have "read_overlay db a m = None"
    using fold_keep [of "derive_snapshot db a m" m] assms by (auto simp: hidden_base_def)
  then show ?thesis using Keep by (simp add: read_overlay_cases(1))
qed (simp_all add: row_after_def)

text \<open>
  C4. The visible row is \<open>replay(log, base)\<close>: two databases that agree on the base row, the log,
  the draft keys and the role mailboxes show the same row after a refresh, whatever their overlays
  held before, as long as neither hides a base row behind a tombstone.
\<close>

theorem replay_of_log_and_base:
  assumes "refresh_message_overlay a m db = (Inr d, db')"
    and "refresh_message_overlay a m ob = (Inr e, ob')"
    and "derive_snapshot ob a m = (derive_snapshot db a m)\<lparr>sn_overlay := read_overlay ob a m\<rparr>"
    and "\<not> hidden_base db a m" and "\<not> hidden_base ob a m"
  shows "message_effective ob' a m = message_effective db' a m"
proof -
  obtain mu where mu: "fold_overlay_row (derive_snapshot db a m) m = Inr mu"
    and ro: "message_effective db' a m =
      row_after mu (read_base db a m) (message_effective db a m)"
    by (rule refresh_effective [OF assms(1)]) blast
  obtain nu where nu: "fold_overlay_row (derive_snapshot ob a m) m = Inr nu"
    and so: "message_effective ob' a m =
      row_after nu (read_base ob a m) (message_effective ob a m)"
    by (rule refresh_effective [OF assms(2)]) blast
  have shape: "mutation_shape nu = mutation_shape mu"
    using fold_overlay_shape [where s = "derive_snapshot db a m" and ov = "read_overlay ob a m"
        and m = m] mu nu by (simp add: assms(3) [symmetric])
  have "sn_base (derive_snapshot ob a m) = sn_base (derive_snapshot db a m)"
    by (simp only: assms(3) snapshot_overlay_fields)
  then have base: "read_base ob a m = read_base db a m" by simp
  show ?thesis
    using row_after_visible [OF mu assms(4)] row_after_visible [OF nu assms(5)]
    by (simp add: ro so shape base)
qed

subsection \<open>The rebuild reproduces every row\<close>

definition same_inputs :: "MailDb \<Rightarrow> MailDb \<Rightarrow> bool" where
  "same_inputs db ob \<longleftrightarrow>
     db_outbox ob = db_outbox db \<and> db_draft_alias ob = db_draft_alias db \<and>
     db_base ob = db_base db \<and> db_role_mailbox ob = db_role_mailbox db"

text \<open>The visible row as a function of the log and base alone.\<close>

definition derived_row :: "MailDb \<Rightarrow> str \<Rightarrow> str \<Rightarrow> MessageRecord option" where
  "derived_row db a m = (case fold_overlay_row (derive_snapshot db a m) m of
     Inl e \<Rightarrow> None
   | Inr mutation \<Rightarrow>
       row_after (mutation_shape mutation) (read_base db a m) (read_base db a m))"

lemma same_inputs_trans: "same_inputs db ob \<Longrightarrow> same_inputs ob pb \<Longrightarrow> same_inputs db pb"
  by (simp add: same_inputs_def)

lemma same_inputs_base: "same_inputs db ob \<Longrightarrow> read_base ob = read_base db"
  by (rule ext, rule ext) (simp add: same_inputs_def read_base_def)

lemma same_inputs_registry:
  assumes "same_inputs db ob"
  shows "read_draft_alias_map ob = read_draft_alias_map db"
    "read_mailbox_id_by_role ob = read_mailbox_id_by_role db"
    "registry_resolve ob = registry_resolve db"
  using assms by (auto intro!: ext simp: same_inputs_def read_draft_alias_map_def
      read_mailbox_id_by_role_def registry_resolve_def)

lemma same_inputs_snapshot:
  "same_inputs db ob \<Longrightarrow>
   derive_snapshot ob a m = (derive_snapshot db a m)\<lparr>sn_overlay := read_overlay ob a m\<rparr>"
  by (simp add: derive_snapshot_def same_inputs_base same_inputs_registry)
    (simp add: same_inputs_def)

lemma derived_row_inputs:
  assumes "same_inputs db ob" shows "derived_row ob a m = derived_row db a m"
  using fold_overlay_shape [where s = "derive_snapshot db a m" and ov = "read_overlay ob a m" and m = m]
  unfolding derived_row_def same_inputs_snapshot [OF assms, of a m] same_inputs_base [OF assms]
  by (auto simp: map_result_def split: sum.splits)

lemma refresh_derived:
  assumes "refresh_message_overlay a m db = (Inr d, db')" and "\<not> hidden_base db a m"
  shows "message_effective db' a m = derived_row db a m"
proof -
  obtain mu where mu: "fold_overlay_row (derive_snapshot db a m) m = Inr mu"
    and e: "message_effective db' a m =
      row_after mu (read_base db a m) (message_effective db a m)"
    by (rule refresh_effective [OF assms(1)]) blast
  then show ?thesis using row_after_visible [OF mu assms(2)] by (simp add: derived_row_def)
qed

lemma refresh_same_inputs:
  "refresh_message_overlay a m db = (result, db') \<Longrightarrow> same_inputs db db'"
  by (simp add: same_inputs_def refresh_frame)

lemma refresh_other_overlay:
  assumes "refresh_message_overlay a m db = (result, db')" and "m' \<noteq> m"
  shows "map_of (db_overlay db') (a, m') = map_of (db_overlay db) (a, m')"
proof (rule refresh_cases [OF assms(1)])
  fix mutation now
  assume f: "fold_overlay_row (derive_snapshot db a m) m = Inr mutation"
    and ap: "apply_overlay_mutation a m mutation
         (case read_overlay db a m of Some entry \<Rightarrow> entry \<noteq> None | None \<Rightarrow> False)
         (message_effective db a m \<noteq> None) (read_base db a m \<noteq> None) db = (now, db')"
  have id: "mr_id r = m" if "mutation = Upsert r" for r
    using fold_upsert_id [of "derive_snapshot db a m" m r] f that read_base_id by simp
  show ?thesis using ap assms(2) id
    by (cases mutation) (auto simp: apply_overlay_mutation_def upsert_overlay_def
        tombstone_overlay_def remove_overlay_def Let_def)
qed simp

lemma effective_by_overlay:
  "same_inputs db ob \<Longrightarrow> map_of (db_overlay ob) (a, m) = map_of (db_overlay db) (a, m) \<Longrightarrow>
   message_effective ob a m = message_effective db a m"
  by (cases "map_of (db_overlay db) (a, m)") (simp_all add: message_effective_def same_inputs_base)

lemma refresh_rows_rows:
  assumes "refresh_rows a ids db = (Inr (), db')" and "distinct ids"
    and "\<forall>m \<in> set ids. \<not> hidden_base db a m"
  shows "same_inputs db db' \<and>
    (\<forall>m. message_effective db' a m =
       (if m \<in> set ids then derived_row db a m else message_effective db a m))"
  using assms
proof (induction ids arbitrary: db)
  case Nil
  then show ?case by (simp add: same_inputs_def)
next
  case (Cons m ids)
  obtain d db1 where r: "refresh_message_overlay a m db = (Inr d, db1)"
    and rest: "refresh_rows a ids db1 = (Inr (), db')"
    using Cons.prems(1) by (auto split: prod.splits sum.splits)
  have same: "same_inputs db db1" by (rule refresh_same_inputs [OF r])
  have keep: "map_of (db_overlay db1) (a, m') = map_of (db_overlay db) (a, m')" if "m' \<noteq> m" for m'
    by (rule refresh_other_overlay [OF r that])
  have vis: "\<not> hidden_base db1 a m'" if "m' \<in> set ids" for m'
  proof -
    have "m' \<noteq> m" using that Cons.prems(2) by auto
    then have "read_overlay db1 a m' = read_overlay db a m'"
      by (simp add: read_overlay_def keep)
    then show ?thesis
      using Cons.prems(3) that same_inputs_base [OF same] by (simp add: hidden_base_def)
  qed
  have ih: "same_inputs db1 db'" "\<And>m'. message_effective db' a m' =
       (if m' \<in> set ids then derived_row db1 a m' else message_effective db1 a m')"
    using Cons.IH [OF rest] Cons.prems(2) vis by auto
  have "message_effective db1 a m = derived_row db a m"
    by (rule refresh_derived [OF r]) (use Cons.prems(3) in simp)
  moreover have "message_effective db1 a m' = message_effective db a m'" if "m' \<noteq> m" for m'
    using effective_by_overlay [OF same keep [OF that]] .
  ultimately show ?case
    using ih Cons.prems(2) same_inputs_trans [OF same ih(1)] derived_row_inputs [OF same]
    by auto
qed

lemma collect_touches_none:
  "m \<notin> set (map fst ts) \<Longrightarrow> collect_touches m op ts acc = acc"
  by (induction m op ts acc rule: collect_touches.induct) auto

lemma collect_ops_untouched:
  "touched_rows db a ops = Inr ids \<Longrightarrow> m \<notin> set ids \<Longrightarrow>
   collect_ops (registry_resolve db a) m ops acc = Inr acc"
proof (induction ops arbitrary: ids acc)
  case (Cons op ops)
  obtain ts more where ts: "op_row_touches_with op (registry_resolve db a) = Inr ts"
    and more: "touched_rows db a ops = Inr more" and ids: "ids = map fst ts @ more"
    using Cons.prems(1)
    by (auto simp: op_touched_row_ids_def map_result_def split: sum.splits)
  show ?case
    using Cons.IH [OF more] Cons.prems(2) ids ts by (simp add: collect_touches_none)
qed simp

lemma untouched_derived:
  assumes "replay_inventory db a = Inr ids" and "m \<notin> set ids"
  shows "derived_row db a m = read_base db a m"
proof -
  obtain touched where t: "touched_rows db a
      (filter is_replayable (list_unsettled_operations a (db_outbox db))) = Inr touched"
    and "m \<notin> set touched"
    using assms by (auto simp: replay_inventory_def map_result_def split: sum.splits)
  moreover have "registry_resolve db a = snapshot_resolve (derive_snapshot db a m)"
    by (rule ext)
      (simp add: registry_resolve_def snapshot_resolve_def read_draft_alias_map_def)
  ultimately have "collect_ops (snapshot_resolve (derive_snapshot db a m)) m
      (sn_ops (derive_snapshot db a m)) ([], []) = Inr ([], [])"
    using collect_ops_untouched [OF t] by (simp add: collect_ops_filter)
  then have "fold_overlay_row (derive_snapshot db a m) m =
      Inr (untouched_mutation (derive_snapshot db a m))"
    by (simp add: fold_overlay_row_def fold_touching_def)
  then show ?thesis by (simp add: derived_row_def untouched_shape row_after_def)
qed

definition wipe_overlay :: "str \<Rightarrow> MailDb \<Rightarrow> MailDb" where
  "wipe_overlay a db = db\<lparr>db_overlay := filter (\<lambda>entry. fst (fst entry) \<noteq> a) (db_overlay db)\<rparr>"

lemma wipe_lookup: "map_of (db_overlay (wipe_overlay a db)) (a, m) = None"
  by (simp add: wipe_overlay_def map_of_eq_None_iff) auto

lemma wipe_inputs: "same_inputs db (wipe_overlay a db)"
  by (simp add: same_inputs_def wipe_overlay_def)

subsection \<open>A log that decodes can always be replayed\<close>

definition log_decodes :: "MailDb \<Rightarrow> str \<Rightarrow> bool" where
  "log_decodes db a =
     list_all decodes (filter is_replayable (list_unsettled_operations a (db_outbox db)))"

lemma refresh_total:
  assumes "log_decodes db a"
  shows "\<exists>d db'. refresh_message_overlay a m db = (Inr d, db')"
proof -
  obtain mutation where "fold_overlay_row (derive_snapshot db a m) m = Inr mutation"
    using fold_total [of "derive_snapshot db a m" m] assms
    by (auto simp: log_decodes_def list_all_iff)
  then show ?thesis
    by (simp add: refresh_message_overlay_def derive_overlay_def Let_def split: prod.split)
qed

lemma refresh_rows_total:
  "log_decodes db a \<Longrightarrow> \<exists>db'. refresh_rows a ids db = (Inr (), db')"
proof (induction ids arbitrary: db)
  case (Cons m ids)
  obtain d db1 where r: "refresh_message_overlay a m db = (Inr d, db1)"
    using refresh_total [OF Cons.prems] by blast
  then have "log_decodes db1 a"
    using Cons.prems refresh_frame(1) [OF r] by (simp add: log_decodes_def)
  then show ?case using Cons.IH r by simp
qed simp

lemma touched_rows_total: "\<exists>ids. touched_rows db a ops = Inr ids"
proof (induction ops)
  case (Cons op ops)
  have "\<forall>key. \<exists>live. registry_resolve db a key = Inr live" by (simp add: registry_resolve_def)
  from touches_total [OF this] obtain ts where
    "op_row_touches_with op (registry_resolve db a) = Inr ts" by blast
  then show ?case using Cons by (auto simp: op_touched_row_ids_def)
qed simp

lemma inventory_total: "\<exists>ids. replay_inventory db a = Inr ids"
  using touched_rows_total [of db a
      "filter is_replayable (list_unsettled_operations a (db_outbox db))"]
  by (auto simp: replay_inventory_def)

text \<open>
  C13. The full rebuild reproduces the view: when the payload of every replayable operation of the
  account decodes and every visible row is the one replay derives, wiping the account's overlay and
  replaying the log over base succeeds and reproduces every row of the account, the drafts and the
  provisional sent rows included. The inventory is computed from the log alone. An undecodable
  payload is outside the claim.
\<close>

theorem wiped_view_is_rebuilt:
  assumes "log_decodes db a" and "\<forall>m. message_effective db a m = derived_row db a m"
  shows "\<exists>db'. replay_account_overrides a (wipe_overlay a db) = (Inr (), db') \<and>
    (\<forall>m. message_effective db' a m = message_effective db a m)"
proof -
  let ?w = "wipe_overlay a db"
  obtain ids where inv: "replay_inventory ?w a = Inr ids" using inventory_total by blast
  have "log_decodes ?w a" using assms(1) by (simp add: log_decodes_def wipe_overlay_def)
  then obtain db' where run: "refresh_rows a ids ?w = (Inr (), db')"
    using refresh_rows_total by blast
  have distinct: "distinct ids"
    using inv by (auto simp: replay_inventory_def map_result_def bt_collect_def split: sum.splits)
  have none: "read_overlay ?w a m' = None" for m'
    by (simp add: read_overlay_def wipe_lookup)
  have "message_effective db' a m = message_effective db a m" for m
  proof -
    have "message_effective db' a m =
        (if m \<in> set ids then derived_row ?w a m else message_effective ?w a m)"
      using refresh_rows_rows [OF run distinct] by (simp add: hidden_base_def none)
    also have "message_effective ?w a m = read_base ?w a m"
      by (rule read_overlay_cases(1) [OF none])
    also have "(if m \<in> set ids then derived_row ?w a m else read_base ?w a m) = derived_row ?w a m"
      using untouched_derived [OF inv] by simp
    also have "\<dots> = message_effective db a m"
      using derived_row_inputs [OF wipe_inputs] assms(2) by simp
    finally show ?thesis .
  qed
  then show ?thesis using inv run by (auto simp: replay_account_overrides_def)
qed

subsection \<open>A concrete database\<close>

declare L_simps [simp del]

definition example_db :: "Operation list \<Rightarrow> ((str \<times> str) \<times> OverlayRow) list \<Rightarrow> MailDb" where
  "example_db ops overlay =
     \<lparr>db_outbox = map new_row ops, db_draft_alias = Map.empty, db_send_alias = Map.empty,
      db_base = [((L ''a'', L ''m1''), example_record (L ''m1''))], db_overlay = overlay,
      db_role_mailbox = Map.empty, db_cursors = Map.empty, db_events = []\<rparr>"

abbreviation example_destroy :: Operation where
  "example_destroy \<equiv> example_op (L ''o'') KDestroy JOther Pending"

abbreviation example_tombstone :: "((str \<times> str) \<times> OverlayRow) list" where
  "example_tombstone \<equiv> [((L ''a'', L ''m1''),
     \<lparr>ov_tombstone = True, ov_record = default_record (L ''m1'')\<rparr>)]"

abbreviation example_shown :: "((str \<times> str) \<times> OverlayRow) list" where
  "example_shown \<equiv> [((L ''a'', L ''m1''),
     \<lparr>ov_tombstone = False, ov_record = default_record (L ''m1'')\<rparr>)]"

lemma example_intent [simp]: "op_intent example_destroy = Inr IDestroy"
  by (simp add: op_intent_def from_parts_def example_op_def)

lemma example_unsettled [simp]:
  "list_unsettled_operations (L ''a'') (map new_row [example_destroy]) = [example_destroy]"
  by (simp add: list_unsettled_operations_def ops_where_def unsettled_row_def new_row_def
      example_op_def)

lemma example_replayable [simp]: "is_replayable example_destroy"
  by (simp add: is_replayable_def example_op_def)

lemma example_decodes: "log_decodes (example_db [example_destroy] overlay) (L ''a'')"
  using example_unsettled by (simp add: log_decodes_def example_db_def decodes_def)

lemma derive_diff_truthful_example:
  "\<exists>d db'. refresh_message_overlay (L ''a'') (L ''m1'') (example_db [example_destroy] []) = (Inr d, db') \<and>
     df_was_effective d = (message_effective (example_db [example_destroy] []) (L ''a'') (L ''m1'') \<noteq> None) \<and>
     df_now_effective d = (message_effective db' (L ''a'') (L ''m1'') \<noteq> None)"
proof -
  obtain d db' where r:
    "refresh_message_overlay (L ''a'') (L ''m1'') (example_db [example_destroy] []) = (Inr d, db')"
    using refresh_total [OF example_decodes] by blast
  show ?thesis using r derive_diff_truthful [OF r] by blast
qed

theorem replay_of_log_and_base_witness:
  "\<exists>d db' e ob'.
     refresh_message_overlay (L ''a'') (L ''m1'') (example_db [example_destroy] []) = (Inr d, db') \<and>
     refresh_message_overlay (L ''a'') (L ''m1'') (example_db [example_destroy] example_shown)
       = (Inr e, ob') \<and>
     message_effective ob' (L ''a'') (L ''m1'') = message_effective db' (L ''a'') (L ''m1'')"
proof -
  obtain d db' where r:
    "refresh_message_overlay (L ''a'') (L ''m1'') (example_db [example_destroy] []) = (Inr d, db')"
    using refresh_total [OF example_decodes] by blast
  obtain e ob' where t:
    "refresh_message_overlay (L ''a'') (L ''m1'') (example_db [example_destroy] example_shown) = (Inr e, ob')"
    using refresh_total [OF example_decodes] by blast
  have "same_inputs (example_db [example_destroy] []) (example_db [example_destroy] example_shown)"
    by (simp add: same_inputs_def example_db_def)
  from replay_of_log_and_base [OF r t same_inputs_snapshot [OF this]] r t show ?thesis
    by (simp add: hidden_base_def read_overlay_def example_db_def)
qed

lemma example_collect:
  "collect_ops resolve m [example_destroy] ([], []) =
     Inr (if m = L ''m1'' then [example_destroy] else [], [])"
  by (simp add: op_row_touches_with_def Let_def)
    (simp add: example_op_def kind_class_defs)

lemma example_base: "read_base (example_db ops overlay) (L ''a'') m =
    (if m = L ''m1'' then Some (example_record (L ''m1'')) else None)"
  by (simp add: read_base_def example_db_def example_record_def bt_collect_def)

lemma example_derived:
  "derived_row (example_db [example_destroy] example_tombstone) (L ''a'') m = None"
proof -
  let ?s = "derive_snapshot (example_db [example_destroy] example_tombstone) (L ''a'') m"
  have ops: "sn_ops ?s = [example_destroy]"
    using example_unsettled by (simp add: example_db_def)
  have "intent_fold_effect example_destroy = Inr (Some (Assert Destroy))"
    by (simp add: intent_fold_effect_def)
  then have "fold_overlay_row ?s (L ''m1'') = Inr Tombstone" if "m = L ''m1''"
    using ops that example_collect [of "snapshot_resolve ?s" "L ''m1''"]
    by (simp add: fold_overlay_row_def fold_touching_def fold_verdict_def example_base
        project_record_def message_assertions_def replay_message_def example_record_def
        example_op_def)
  then show ?thesis
    using ops example_collect [of "snapshot_resolve ?s" m]
    by (cases "m = L ''m1''")
      (simp_all add: derived_row_def row_after_def example_base fold_overlay_row_def
        fold_touching_def untouched_shape split: sum.split)
qed

theorem wiped_view_is_rebuilt_witness:
  "\<exists>db'. replay_account_overrides (L ''a'')
       (wipe_overlay (L ''a'') (example_db [example_destroy] example_tombstone)) = (Inr (), db') \<and>
     (\<forall>m. message_effective db' (L ''a'') m =
        message_effective (example_db [example_destroy] example_tombstone) (L ''a'') m)"
proof (rule wiped_view_is_rebuilt [OF example_decodes])
  show "\<forall>m. message_effective (example_db [example_destroy] example_tombstone) (L ''a'') m =
      derived_row (example_db [example_destroy] example_tombstone) (L ''a'') m"
    unfolding example_derived message_effective_def example_base
    by (simp add: example_db_def)
qed

declare L_simps [simp]

end
