(* ===== verification/SyncStore.thy ===== *)
theory SyncStore
  imports Overlay
begin

text \<open>
  The message half of the sync write path, \<open>crates/posthaste-store/src/mutations/sync_batch.rs\<close>
  with \<open>message_apply.rs\<close> and \<open>projections/delete.rs\<close>: upserting and deleting base rows, the
  floor guards against a lying provider, the draft registry write-through and the cursors. The
  mailbox tables, the IMAP coordinates, the body cache, the conversation projections and the event
  payloads of the batch are not modelled.
\<close>

record SyncBatch =
  sb_messages :: "MessageRecord list"
  sb_deleted_message_ids :: "str list"
  sb_absence_deleted_message_ids :: "str list"
  sb_replace_all_messages :: bool
  sb_cursors :: "SyncCursor list"

record SyncReconciliation =
  rn_remote_message_ids :: "str list"
  rn_prune_messages :: bool
  rn_cursors :: "SyncCursor list"

subsection \<open>Rows\<close>

definition local_message_ids :: "str \<Rightarrow> MailDb \<Rightarrow> str set" where
  "local_message_ids account_id db =
     snd ` set (filter (\<lambda>key. fst key = account_id) (map fst (db_base db)))"

text \<open>
  The upsert of one row: unsubscribe targets and the three header lists keep a value an earlier
  parse found when the incoming record carries none. Bodies go to their own cache tables.
\<close>

definition merged_row :: "MessageRecord option \<Rightarrow> MessageRecord \<Rightarrow> MessageRecord" where
  "merged_row previous message = (case previous of
     None \<Rightarrow> message
   | Some old \<Rightarrow>
       message\<lparr>mr_list_unsubscribe :=
                 (case mr_list_unsubscribe message of Some l \<Rightarrow> Some l
                  | None \<Rightarrow> mr_list_unsubscribe old),
               mr_cc := (if mr_cc message = [] then mr_cc old else mr_cc message),
               mr_bcc := (if mr_bcc message = [] then mr_bcc old else mr_bcc message),
               mr_reply_to := (if mr_reply_to message = [] then mr_reply_to old
                               else mr_reply_to message)\<rparr>)"

definition apply_message_record :: "str \<Rightarrow> MessageRecord \<Rightarrow> MailDb \<Rightarrow> MailDb" where
  "apply_message_record account_id message db =
     (let key = (account_id, mr_id message)
      in db\<lparr>db_base := AList.update key (merged_row (map_of (db_base db) key) message) (db_base db)\<rparr>)"

definition delete_message :: "str \<Rightarrow> str \<Rightarrow> MailDb \<Rightarrow> MailDb" where
  "delete_message account_id message_id db =
     db\<lparr>db_base := AList.delete (account_id, message_id) (db_base db)\<rparr>"

subsection \<open>The draft registry write-through\<close>

definition registry_on_upsert :: "str \<Rightarrow> MessageRecord \<Rightarrow> MailDb \<Rightarrow> MailDb" where
  "registry_on_upsert account_id message db = (case mr_draft_id message of
     None \<Rightarrow> db
   | Some draft_key \<Rightarrow>
       db\<lparr>db_draft_alias := set_draft_alias account_id draft_key (mr_id message) (db_draft_alias db)\<rparr>)"

text \<open>Another base row with the same draft key: the successor of a rotation.\<close>

definition draft_survivor :: "str \<Rightarrow> str \<Rightarrow> MailDb \<Rightarrow> str option" where
  "draft_survivor account_id draft_key db =
     map_option (\<lambda>row. snd (fst row))
       (List.find (\<lambda>row. fst (fst row) = account_id \<and> mr_draft_id (snd row) = Some draft_key)
          (db_base db))"

definition registry_on_delete :: "str \<Rightarrow> str \<Rightarrow> MailDb \<Rightarrow> MailDb" where
  "registry_on_delete account_id message_id db =
     db\<lparr>db_draft_alias := (\<lambda>(owner, draft_key).
          if owner = account_id \<and> db_draft_alias db (owner, draft_key) = Some message_id
          then draft_survivor account_id draft_key db
          else db_draft_alias db (owner, draft_key))\<rparr>"

definition delete_and_write_through :: "str \<Rightarrow> str \<Rightarrow> MailDb \<Rightarrow> MailDb" where
  "delete_and_write_through account_id message_id db =
     registry_on_delete account_id message_id (delete_message account_id message_id db)"

definition apply_and_write_through :: "str \<Rightarrow> MessageRecord \<Rightarrow> MailDb \<Rightarrow> MailDb" where
  "apply_and_write_through account_id message db =
     registry_on_upsert account_id message (apply_message_record account_id message db)"

subsection \<open>The floor guards\<close>

text \<open>\<open>would_prune as f64 > local_count as f64 * 0.5\<close>, which is exact on the counts of a table.\<close>

definition over_floor :: "nat \<Rightarrow> nat \<Rightarrow> bool" where
  "over_floor would_prune local_count \<longleftrightarrow> 2 * would_prune > local_count"

definition prune_messages_absent_from_remote :: "str \<Rightarrow> str set \<Rightarrow> bool \<Rightarrow> MailDb \<Rightarrow> MailDb" where
  "prune_messages_absent_from_remote account_id remote force_full_prune db =
     (let local = local_message_ids account_id db;
          doomed = bt_collect (local - remote)
      in if \<not> force_full_prune \<and> card local > 0 \<and>
            (remote = {} \<or> over_floor (length doomed) (card local))
         then db
         else fold (delete_and_write_through account_id) doomed db)"

definition imap_absence_prune_allowed :: "str \<Rightarrow> nat \<Rightarrow> MailDb \<Rightarrow> bool" where
  "imap_absence_prune_allowed account_id absence_deleted db =
     (let local_count = card (local_message_ids account_id db)
      in absence_deleted \<le> 1 \<or> local_count = 0 \<or> \<not> over_floor absence_deleted local_count)"

subsection \<open>Batches\<close>

definition upsert_sync_cursor :: "str \<Rightarrow> SyncCursor \<Rightarrow> MailDb \<Rightarrow> MailDb" where
  "upsert_sync_cursor account_id cursor db =
     db\<lparr>db_cursors := (db_cursors db)((account_id, cu_object_type cursor) \<mapsto> cursor)\<rparr>"

definition batch_deletions :: "str \<Rightarrow> SyncBatch \<Rightarrow> MailDb \<Rightarrow> str set" where
  "batch_deletions account_id batch db =
     set (sb_deleted_message_ids batch) \<union>
     (if imap_absence_prune_allowed account_id (length (sb_absence_deleted_message_ids batch)) db
      then set (sb_absence_deleted_message_ids batch) else {})"

definition apply_sync_batch :: "str \<Rightarrow> SyncBatch \<Rightarrow> MailDb \<Rightarrow> MailDb" where
  "apply_sync_batch account_id batch db =
     (let db = (if sb_replace_all_messages batch
                then prune_messages_absent_from_remote account_id
                       (set (map mr_id (sb_messages batch))) False db
                else db);
          db = fold (delete_and_write_through account_id)
                 (bt_collect (batch_deletions account_id batch db)) db;
          db = fold (apply_and_write_through account_id) (sb_messages batch) db
      in fold (upsert_sync_cursor account_id) (sb_cursors batch) db)"

definition reconcile_sync :: "str \<Rightarrow> SyncReconciliation \<Rightarrow> MailDb \<Rightarrow> MailDb" where
  "reconcile_sync account_id reconciliation db =
     (let db = (if rn_prune_messages reconciliation
                then prune_messages_absent_from_remote account_id
                       (set (rn_remote_message_ids reconciliation)) False db
                else db)
      in fold (upsert_sync_cursor account_id) (rn_cursors reconciliation) db)"

definition upsert_message_batch :: "MessageRecord \<Rightarrow> SyncBatch" where
  "upsert_message_batch record =
     \<lparr>sb_messages = [record], sb_deleted_message_ids = [], sb_absence_deleted_message_ids = [],
      sb_replace_all_messages = False, sb_cursors = []\<rparr>"

definition delete_message_batch :: "str \<Rightarrow> SyncBatch" where
  "delete_message_batch message_id =
     \<lparr>sb_messages = [], sb_deleted_message_ids = [message_id],
      sb_absence_deleted_message_ids = [], sb_replace_all_messages = False, sb_cursors = []\<rparr>"

subsection \<open>Which rows a write leaves\<close>

lemma local_ids_iff: "m \<in> local_message_ids a db \<longleftrightarrow> map_of (db_base db) (a, m) \<noteq> None"
  by (force simp: local_message_ids_def map_of_eq_None_iff)

lemma local_ids_finite [simp]: "finite (local_message_ids a db)"
  by (simp add: local_message_ids_def)

lemma local_ids_alias [simp]:
  "local_message_ids a (db\<lparr>db_draft_alias := x\<rparr>) = local_message_ids a db"
  "local_message_ids a (db\<lparr>db_cursors := c\<rparr>) = local_message_ids a db"
  by (simp_all add: local_message_ids_def)

lemma local_ids_delete [simp]:
  "local_message_ids a (delete_and_write_through a m db) = local_message_ids a db - {m}"
  by (auto simp: delete_and_write_through_def registry_on_delete_def local_ids_iff
      delete_message_def split: if_splits)

lemma local_ids_apply [simp]:
  "local_message_ids a (apply_and_write_through a r db) = insert (mr_id r) (local_message_ids a db)"
  by (auto simp: apply_and_write_through_def registry_on_upsert_def local_ids_iff
      apply_message_record_def Let_def split: option.splits if_splits)

lemma local_ids_cursor [simp]:
  "local_message_ids a (upsert_sync_cursor a c db) = local_message_ids a db"
  by (simp add: upsert_sync_cursor_def)

lemma local_ids_fold_delete [simp]:
  "local_message_ids a (fold (delete_and_write_through a) ms db) = local_message_ids a db - set ms"
  by (induction ms arbitrary: db) auto

lemma local_ids_fold_apply [simp]:
  "local_message_ids a (fold (apply_and_write_through a) rs db) =
     mr_id ` set rs \<union> local_message_ids a db"
  by (induction rs arbitrary: db) auto

lemma local_ids_fold_cursor [simp]:
  "local_message_ids a (fold (upsert_sync_cursor a) cs db) = local_message_ids a db"
  by (induction cs arbitrary: db) auto

lemma bt_collect_length: "finite s \<Longrightarrow> length (bt_collect s) = card s"
  by (simp add: bt_collect_def)

lemma prune_cases:
  obtains (refused) "prune_messages_absent_from_remote a remote False db = db"
  | (pruned) "local_message_ids a (prune_messages_absent_from_remote a remote False db) =
        local_message_ids a db \<inter> remote"
      "2 * card (local_message_ids a db - remote) \<le> card (local_message_ids a db)"
      "remote \<noteq> {} \<or> local_message_ids a db = {}"
proof (cases "card (local_message_ids a db) > 0 \<and>
    (remote = {} \<or> over_floor (card (local_message_ids a db - remote)) (card (local_message_ids a db)))")
  case True
  show ?thesis
    by (rule refused)
      (use True in \<open>simp add: prune_messages_absent_from_remote_def Let_def bt_collect_length\<close>)
next
  case False
  then have "prune_messages_absent_from_remote a remote False db =
      fold (delete_and_write_through a) (bt_collect (local_message_ids a db - remote)) db"
    by (auto simp: prune_messages_absent_from_remote_def Let_def bt_collect_length)
  then show ?thesis
    using False by (intro pruned) (auto simp: over_floor_def card_gt_0_iff)
qed

text \<open>
  C6. The mail-loss floor: a prune by absence never empties the account. An empty remote listing
  changes nothing at all, and whatever the listing, at least half of the local messages stay and
  every message it names stays.
\<close>

theorem prune_never_wipes:
  "prune_messages_absent_from_remote a {} False db = db \<and>
   card (local_message_ids a db)
     \<le> 2 * card (local_message_ids a (prune_messages_absent_from_remote a remote False db)) \<and>
   local_message_ids a db \<inter> remote
     \<subseteq> local_message_ids a (prune_messages_absent_from_remote a remote False db)"
proof (intro conjI)
  show "prune_messages_absent_from_remote a {} False db = db"
    by (cases "local_message_ids a db = {}")
      (simp_all add: prune_messages_absent_from_remote_def Let_def bt_collect_def card_gt_0_iff)
next
  show "card (local_message_ids a db)
     \<le> 2 * card (local_message_ids a (prune_messages_absent_from_remote a remote False db))"
  proof (rule prune_cases [of a remote db])
    assume p: "local_message_ids a (prune_messages_absent_from_remote a remote False db) =
        local_message_ids a db \<inter> remote"
      and half: "2 * card (local_message_ids a db - remote) \<le> card (local_message_ids a db)"
    have "card (local_message_ids a db) =
        card (local_message_ids a db \<inter> remote) + card (local_message_ids a db - remote)"
      using card_Un_disjoint [of "local_message_ids a db \<inter> remote" "local_message_ids a db - remote"]
      by (simp add: Int_Diff_Un Int_Diff_disjoint)
    then show ?thesis using p half by simp
  qed simp
next
  show "local_message_ids a db \<inter> remote
     \<subseteq> local_message_ids a (prune_messages_absent_from_remote a remote False db)"
    by (rule prune_cases [of a remote db]) auto
qed

text \<open>
  Deletions a batch only infers from absence are bounded: besides the messages the server
  reported gone, an incremental batch loses at most one message or at most half of the local store.
\<close>

lemma inferred_deletions_bounded:
  "2 * card (local_message_ids a db
        - local_message_ids a (apply_sync_batch a (batch\<lparr>sb_replace_all_messages := False\<rparr>) db)
        - set (sb_deleted_message_ids batch))
     \<le> max 2 (card (local_message_ids a db))"
proof -
  let ?lost = "local_message_ids a db
        - local_message_ids a (apply_sync_batch a (batch\<lparr>sb_replace_all_messages := False\<rparr>) db)
        - set (sb_deleted_message_ids batch)"
  let ?absent = "sb_absence_deleted_message_ids batch"
  let ?allowed = "imap_absence_prune_allowed a (length ?absent) db"
  have lost: "?lost \<subseteq> (if ?allowed then set ?absent else {}) \<inter> local_message_ids a db"
    by (auto simp: apply_sync_batch_def batch_deletions_def split: if_splits)
  show ?thesis
  proof (cases ?allowed)
    case True
    have "card ?lost \<le> card (set ?absent \<inter> local_message_ids a db)"
      by (rule card_mono) (use lost True in auto)
    moreover have "card (set ?absent \<inter> local_message_ids a db) \<le> length ?absent"
      by (meson card_length card_mono finite_set inf_le1 le_trans)
    moreover have "card (set ?absent \<inter> local_message_ids a db) \<le> card (local_message_ids a db)"
      by (rule card_mono) auto
    ultimately show ?thesis
      using True by (auto simp: imap_absence_prune_allowed_def over_floor_def Let_def)
  next
    case False
    with lost have empty: "?lost = {}" by auto
    show ?thesis unfolding empty by simp
  qed
qed

subsection \<open>The registry follows the rows\<close>

definition points_at :: "MailDb \<Rightarrow> str \<Rightarrow> str \<Rightarrow> bool" where
  "points_at db a m \<longleftrightarrow> (\<exists>k. db_draft_alias db (a, k) = Some m)"

lemma survivor_local: "draft_survivor a k db = Some m \<Longrightarrow> m \<in> local_message_ids a db"
proof -
  assume "draft_survivor a k db = Some m"
  then obtain row where f: "List.find (\<lambda>row. fst (fst row) = a \<and> mr_draft_id (snd row) = Some k)
      (db_base db) = Some row" and m: "snd (fst row) = m"
    by (auto simp: draft_survivor_def)
  from find_Some_iff_mem [OF f] m show ?thesis
    by (force simp: local_message_ids_def)
qed

lemma delete_unpoints: "\<not> points_at (delete_and_write_through a m db) a m"
proof -
  have "m \<notin> local_message_ids a (delete_message a m db)"
    by (simp add: local_ids_iff delete_message_def)
  then show ?thesis
    using survivor_local [of a _ "delete_message a m db" m]
    by (auto simp: points_at_def delete_and_write_through_def registry_on_delete_def
        split: if_splits)
qed

lemma delete_keeps_unpointed:
  assumes "\<not> points_at db a m" and "m \<notin> local_message_ids a db"
  shows "\<not> points_at (delete_and_write_through a m' db) a m"
proof -
  have "m \<notin> local_message_ids a (delete_message a m' db)"
    using assms(2) by (simp add: local_ids_iff delete_message_def)
  then show ?thesis
    using survivor_local [of a _ "delete_message a m' db" m] assms(1)
    by (auto simp: points_at_def delete_and_write_through_def registry_on_delete_def
        delete_message_def split: if_splits)
qed

lemma fold_delete_unpoints:
  "m \<in> set ms \<or> (\<not> points_at db a m \<and> m \<notin> local_message_ids a db) \<Longrightarrow>
   \<not> points_at (fold (delete_and_write_through a) ms db) a m"
proof (induction ms arbitrary: db)
  case (Cons m' ms)
  show ?case
  proof (cases "m' = m")
    case True
    have "\<not> points_at (fold (delete_and_write_through a) ms (delete_and_write_through a m db)) a m"
      by (rule Cons.IH) (simp add: delete_unpoints)
    then show ?thesis by (simp add: True)
  next
    case False
    have "\<not> points_at (fold (delete_and_write_through a) ms (delete_and_write_through a m' db)) a m"
      by (rule Cons.IH) (use Cons.prems False delete_keeps_unpointed in auto)
    then show ?thesis by simp
  qed
qed simp

lemma fold_apply_unpointed:
  "\<not> points_at db a m \<Longrightarrow> m \<notin> mr_id ` set rs \<Longrightarrow>
   \<not> points_at (fold (apply_and_write_through a) rs db) a m"
proof (induction rs arbitrary: db)
  case (Cons r rs)
  have "\<not> points_at (apply_and_write_through a r db) a m"
    using Cons.prems
    by (auto simp: points_at_def apply_and_write_through_def registry_on_upsert_def
        apply_message_record_def set_draft_alias_def Let_def split: option.splits)
  then show ?case using Cons by simp
qed simp

lemma fold_cursor_alias [simp]:
  "db_draft_alias (fold (upsert_sync_cursor a) cs db) = db_draft_alias db"
  by (induction cs arbitrary: db) (simp_all add: upsert_sync_cursor_def)

text \<open>
  The draft registry never dangles after sync: when a batch reports a message gone and does not
  bring it back, no draft key of the account maps to it any more. The key of a rotated draft maps to
  the row that still carries it, the key of a destroyed draft is forgotten.
\<close>

lemma registry_never_dangles:
  assumes "m \<in> set (sb_deleted_message_ids batch)" and "m \<notin> mr_id ` set (sb_messages batch)"
  shows "db_draft_alias (apply_sync_batch a batch db) (a, k) \<noteq> Some m"
proof -
  have "m \<in> set (bt_collect (batch_deletions a batch d))" for d
    using assms(1) by (simp add: batch_deletions_def)
  then have "\<not> points_at (apply_sync_batch a batch db) a m"
    using assms(2) fold_apply_unpointed fold_delete_unpoints
    by (simp add: apply_sync_batch_def Let_def points_at_def)
  then show ?thesis by (simp add: points_at_def)
qed

lemma registry_never_dangles_example:
  "db_draft_alias (apply_sync_batch (L ''a'') (delete_message_batch (L ''m1''))
      ((example_db [] [])\<lparr>db_draft_alias := [(L ''a'', L ''k'') \<mapsto> L ''m1'']\<rparr>)) (L ''a'', L ''k'')
     \<noteq> Some (L ''m1'')"
  by (rule registry_never_dangles) (simp_all add: delete_message_batch_def)

end
