(* ===== verification/OutboxQueue.thy ===== *)
theory OutboxQueue
  imports SyncStore
begin

text \<open>
  Queueing, \<open>crates/posthaste-domain-service/src/service/outbox/queue.rs\<close> and \<open>draft.rs\<close>: building
  and enqueueing operations, coalescing pending assertions, retrying and discarding, local-first
  draft saves and discards, and the admission of sends. Clocks and freshly generated ids are
  arguments; the timestamp parser and formatter of the \<open>time\<close> crate are parameters.
\<close>

subsection \<open>Clocks, events\<close>

record Clock =
  ck_now :: str
  ck_wall :: str
  ck_mono :: int

definition EVENT_TOPIC_MESSAGE_UPDATED :: str where
  "EVENT_TOPIC_MESSAGE_UPDATED = L ''message.updated''"

definition append_event ::
  "Clock \<Rightarrow> str \<Rightarrow> str \<Rightarrow> str option \<Rightarrow> str option \<Rightarrow> EventPayload \<Rightarrow> MailDb \<Rightarrow> DomainEvent \<times> MailDb" where
  "append_event clock account_id topic mailbox_id message_id payload db =
     (let event = \<lparr>ev_seq = Suc (length (db_events db)), ev_account_id = account_id,
                   ev_topic = topic, ev_occurred_at = ck_now clock, ev_mailbox_id = mailbox_id,
                   ev_message_id = message_id, ev_payload = payload\<rparr>
      in (event, db\<lparr>db_events := db_events db @ [event]\<rparr>))"

definition first_of :: "'a list \<Rightarrow> 'a option" where
  "first_of xs = (case xs of [] \<Rightarrow> None | x # _ \<Rightarrow> Some x)"

text \<open>The \<open>deleted\<close> echo and the projection echo of the effective read.\<close>

definition deleted_echo :: "Clock \<Rightarrow> str \<Rightarrow> str \<Rightarrow> MailDb \<Rightarrow> DomainEvent list \<times> MailDb" where
  "deleted_echo clock account_id live_id db =
     (case append_event clock account_id EVENT_TOPIC_MESSAGE_UPDATED None (Some live_id)
             (PDeleted live_id) db of
        (event, db') \<Rightarrow> ([event], db'))"

definition projection_echo :: "Clock \<Rightarrow> str \<Rightarrow> str \<Rightarrow> MailDb \<Rightarrow> DomainEvent list \<times> MailDb" where
  "projection_echo clock account_id live_id db =
     (case message_effective db account_id live_id of
        None \<Rightarrow> ([], db)
      | Some summary \<Rightarrow>
          (case append_event clock account_id EVENT_TOPIC_MESSAGE_UPDATED
                  (first_of (message_mailbox_effective db account_id live_id)) (Some live_id)
                  (PProjection live_id summary) db of
             (event, db') \<Rightarrow> ([event], db')))"

subsection \<open>The timestamps of a held send\<close>

definition normalize_send_at ::
  "(str \<Rightarrow> (str, int \<times> nat) result) \<Rightarrow> (int \<Rightarrow> (str, str) result) \<Rightarrow> str \<Rightarrow> (str, str) result" where
  "normalize_send_at parse format raw =
     (case parse raw of
        Inl error \<Rightarrow> Inl (L ''invalid sendAt timestamp (want RFC 3339): '' @ error)
      | Inr (epoch, nanosecond) \<Rightarrow> format (if nanosecond > 0 then epoch + 1 else epoch))"

subsection \<open>Enqueueing\<close>

definition merge_set_keywords :: "Payload \<Rightarrow> Payload \<Rightarrow> (svc_error, Payload) result" where
  "merge_set_keywords older newer =
     (case (older, newer) of
        (JSetKeywords old, JSetKeywords new) \<Rightarrow>
          (let add = filter (\<lambda>keyword. keyword \<notin> set (skc_remove new)) (skc_add old @ skc_add new);
               remove = filter (\<lambda>keyword. keyword \<notin> set (skc_add new)) (skc_remove old @ skc_remove new)
           in Inr (JSetKeywords \<lparr>skc_add = bt_collect (set add), skc_remove = bt_collect (set remove)\<rparr>))
      | _ \<Rightarrow> Inl (SGateway (Internal (L ''setKeywords payload to coalesce''))))"

definition supersedes :: "OperationKind \<Rightarrow> OperationEntity \<Rightarrow> Operation \<Rightarrow> bool" where
  "supersedes kind entity existing \<longleftrightarrow>
     op_entity existing = entity \<and> is_state_assertion (op_kind existing) \<and>
     op_state existing = Pending \<and>
     (case kind of
        KDestroy \<Rightarrow> True
      | KReplaceMailboxes \<Rightarrow> op_kind existing = KReplaceMailboxes
      | KSetKeywords \<Rightarrow> op_kind existing = KSetKeywords
      | _ \<Rightarrow> False)"

fun coalesce_superseded ::
  "OperationKind \<Rightarrow> Operation list \<Rightarrow> Payload \<Rightarrow> MailDb \<Rightarrow> (svc_error, Payload) result \<times> MailDb" where
  "coalesce_superseded kind [] payload db = (Inr payload, db)"
| "coalesce_superseded kind (existing # rest) payload db =
     (case (if kind = KSetKeywords \<and> op_kind existing = KSetKeywords
            then merge_set_keywords (op_payload existing) payload else Inr payload) of
        Inl error \<Rightarrow> (Inl error, db)
      | Inr payload' \<Rightarrow>
          coalesce_superseded kind rest payload'
            (db\<lparr>db_outbox := remove_operation (op_id existing) (db_outbox db)\<rparr>))"

definition coalesce_pending_assertions ::
  "str \<Rightarrow> OperationEntity \<Rightarrow> OperationKind \<Rightarrow> Payload \<Rightarrow> MailDb \<Rightarrow> (svc_error, Payload) result \<times> MailDb" where
  "coalesce_pending_assertions account_id entity kind payload db =
     coalesce_superseded kind
       (filter (supersedes kind entity) (list_pending_operations account_id (db_outbox db)))
       payload db"

definition queue_operation_with_id ::
  "Clock \<Rightarrow> str \<Rightarrow> str \<Rightarrow> OperationEntity \<Rightarrow> OperationKind \<Rightarrow> Payload \<Rightarrow> str option \<Rightarrow> int option \<Rightarrow>
   MailDb \<Rightarrow> (svc_error, Operation) result \<times> MailDb" where
  "queue_operation_with_id clock operation_id account_id entity kind payload send_at hold_until_mono db =
     and_then
       (if is_state_assertion kind
        then coalesce_pending_assertions account_id entity kind payload db else (Inr payload, db))
       (\<lambda>payload db.
          case enqueue_operation
                 \<lparr>op_id = operation_id, op_account_id = account_id, op_entity = entity,
                  op_kind = kind, op_payload = payload, op_payload_version = 1,
                  op_state = Pending, op_attempts = 0, op_last_error = None,
                  op_send_at = send_at, op_hold_until_mono = hold_until_mono,
                  op_created_at = ck_now clock, op_updated_at = ck_now clock\<rparr> (db_outbox db) of
            (Inl error, tbl) \<Rightarrow> (Inl (SStore (StFailure error)), db\<lparr>db_outbox := tbl\<rparr>)
          | (Inr stored, tbl) \<Rightarrow> (Inr stored, db\<lparr>db_outbox := tbl\<rparr>))"

definition retry_operation ::
  "Clock \<Rightarrow> str \<Rightarrow> MailDb \<Rightarrow> (svc_error, bool) result \<times> MailDb" where
  "retry_operation clock operation_id db =
     (case get_operation (db_outbox db) operation_id of
        None \<Rightarrow> (Inr False, db)
      | Some operation \<Rightarrow>
          (if op_state operation \<noteq> FailedState \<and> op_state operation \<noteq> DispatchUncertain
           then (Inl (SGateway (Rejected
                   (L ''only failed or dispatch-uncertain operations can be retried''))), db)
           else (Inr True,
                 db\<lparr>db_outbox := update_operation_state (ck_now clock) operation_id Pending
                                  (op_attempts operation) None (db_outbox db)\<rparr>)))"

subsection \<open>Drafts\<close>

definition store_result :: "(StoreError, 'a) result \<times> 's \<Rightarrow> (svc_error, 'a) result \<times> 's" where
  "store_result r = (case r of (Inl e, s) \<Rightarrow> (Inl (SStore e), s) | (Inr x, s) \<Rightarrow> (Inr x, s))"

definition refresh :: "str \<Rightarrow> str \<Rightarrow> MailDb \<Rightarrow> (svc_error, DeriveDiff) result \<times> MailDb" where
  "refresh account_id message_id db = store_result (refresh_message_overlay account_id message_id db)"

definition with_echo ::
  "DomainEvent list \<times> MailDb \<Rightarrow> (svc_error, DomainEvent list) result \<times> MailDb" where
  "with_echo r = (case r of (events, db) \<Rightarrow> (Inr events, db))"

definition draft_entity :: "str \<Rightarrow> OperationEntity" where
  "draft_entity key = \<lparr>en_kind = EDraft, en_id = key\<rparr>"

definition live_draft_id :: "MailDb \<Rightarrow> str \<Rightarrow> str \<Rightarrow> str" where
  "live_draft_id db account_id draft_key =
     (case resolve_draft_entity (db_draft_alias db) account_id draft_key of
        Some live \<Rightarrow> live | None \<Rightarrow> draft_key)"

definition draft_message_exists :: "MailDb \<Rightarrow> str \<Rightarrow> str \<Rightarrow> bool" where
  "draft_message_exists db account_id draft_key \<longleftrightarrow>
     message_mailbox_effective db account_id draft_key \<noteq> []"

definition reserve_key :: "str \<Rightarrow> str \<Rightarrow> MailDb \<Rightarrow> MailDb" where
  "reserve_key account_id key db =
     db\<lparr>db_draft_alias := set_draft_alias account_id key key (db_draft_alias db)\<rparr>"

definition queued_save :: "str \<Rightarrow> Operation \<Rightarrow> bool" where
  "queued_save key existing \<longleftrightarrow>
     en_kind (op_entity existing) = EDraft \<and> en_id (op_entity existing) = key \<and>
     is_draft_save (op_kind existing) \<and> op_state existing = Pending"

text \<open>Replacing the payload of the last queued save of the key, if the swap still finds it pending.\<close>

definition coalesce_save :: "Clock \<Rightarrow> str \<Rightarrow> str \<Rightarrow> Payload \<Rightarrow> MailDb \<Rightarrow> Operation option \<times> MailDb" where
  "coalesce_save clock account_id key payload db =
     (case List.find (queued_save key) (rev (list_pending_operations account_id (db_outbox db))) of
        None \<Rightarrow> (None, db)
      | Some queued \<Rightarrow>
          (case replace_operation_payload (ck_now clock) (op_id queued) payload (db_outbox db) of
             (replaced, tbl) \<Rightarrow>
               (if replaced then get_operation tbl (op_id queued) else None,
                db\<lparr>db_outbox := tbl\<rparr>)))"

definition save_draft ::
  "Clock \<Rightarrow> str \<Rightarrow> str \<Rightarrow> str \<Rightarrow> SendMessageRequest \<Rightarrow> MailDb \<Rightarrow>
   (svc_error, Operation \<times> DomainEvent list) result \<times> MailDb" where
  "save_draft clock operation_id account_id key request db =
     (let request = request\<lparr>rq_draft_id := Some key\<rparr>;
          known = resolve_draft_entity (db_draft_alias db) account_id key \<noteq> None;
          db = (if known then db else reserve_key account_id key db);
          kind = (if known \<or> draft_message_exists db account_id key then KDraftUpdate else KDraftCreate);
          payload = JRequest request
      in case coalesce_save clock account_id key payload db of
           (coalesced, db) \<Rightarrow>
             and_then
               (case coalesced of
                  Some operation \<Rightarrow> (Inr operation, db)
                | None \<Rightarrow> queue_operation_with_id clock operation_id account_id (draft_entity key)
                            kind payload None None db)
               (\<lambda>operation db.
                  let live_id = live_draft_id db account_id key in
                  and_then (refresh account_id live_id db)
                    (\<lambda>_ db. and_then (with_echo (projection_echo clock account_id live_id db))
                      (\<lambda>events db. (Inr (operation, events), db)))))"

definition delete_draft ::
  "Clock \<Rightarrow> str \<Rightarrow> str \<Rightarrow> str \<Rightarrow> bool \<Rightarrow> MailDb \<Rightarrow>
   (svc_error, Operation \<times> DomainEvent list) result \<times> MailDb" where
  "delete_draft clock operation_id account_id key idempotent_redelivery db =
     (let db = (if resolve_draft_entity (db_draft_alias db) account_id key = None
                then reserve_key account_id key db else db);
          live_id = live_draft_id db account_id key;
          previous = message_effective db account_id live_id;
          scope = first_of (message_mailbox_effective db account_id live_id)
      in and_then
           (queue_operation_with_id clock operation_id account_id (draft_entity key) KDraftDelete
              (JDiscard idempotent_redelivery) None None db)
           (\<lambda>operation db. and_then (refresh account_id live_id db)
             (\<lambda>_ db.
                if previous = None then (Inr (operation, []), db)
                else case append_event clock account_id EVENT_TOPIC_MESSAGE_UPDATED scope
                            (Some live_id) (PDeleted live_id) db of
                       (event, db) \<Rightarrow> (Inr (operation, [event]), db))))"

text \<open>The loop that supersedes queued saves; the flag is \<open>save_may_have_reached_provider\<close>.\<close>

fun supersede_saves :: "str \<Rightarrow> Operation list \<Rightarrow> bool \<Rightarrow> outbox \<Rightarrow> bool \<times> outbox" where
  "supersede_saves key [] reached tbl = (reached, tbl)"
| "supersede_saves key (existing # rest) reached tbl =
     (if en_kind (op_entity existing) \<noteq> EDraft \<or> en_id (op_entity existing) \<noteq> key \<or>
         \<not> is_draft_save (op_kind existing)
      then supersede_saves key rest reached tbl
      else if op_state existing = Pending \<or> op_state existing = FailedState
      then (case remove_operation_unless_inflight (op_id existing) tbl of
              (removed, tbl') \<Rightarrow> supersede_saves key rest (reached \<or> \<not> removed) tbl')
      else supersede_saves key rest True tbl)"

definition discard_draft ::
  "Clock \<Rightarrow> str \<Rightarrow> str \<Rightarrow> str \<Rightarrow> MailDb \<Rightarrow> (svc_error, DomainEvent list) result \<times> MailDb" where
  "discard_draft clock operation_id account_id key db =
     (let resolved = resolve_draft_entity (db_draft_alias db) account_id key;
          live_id = (case resolved of Some live \<Rightarrow> live | None \<Rightarrow> key);
          summary = message_effective db account_id live_id;
          scope = first_of (message_mailbox_effective db account_id live_id)
      in if summary = None then (Inl (SStore (StNotFound (L ''draft:'' @ live_id))), db)
         else case supersede_saves key (list_pending_operations account_id (db_outbox db)) False
                     (db_outbox db) of
           (reached, tbl) \<Rightarrow>
             (let db = db\<lparr>db_outbox := tbl\<rparr>;
                  base_has_row = (read_base db account_id live_id \<noteq> None);
                  rotated = (case resolved of Some entity \<Rightarrow> entity \<noteq> key | None \<Rightarrow> False)
              in if base_has_row \<or> reached \<or> rotated
                 then and_then (delete_draft clock operation_id account_id key False db)
                        (\<lambda>(_, events) db. (Inr events, db))
                 else let db = db\<lparr>db_draft_alias :=
                                   remove_draft_alias account_id key (db_draft_alias db)\<rparr> in
                      and_then (refresh account_id live_id db)
                        (\<lambda>_ db. case append_event clock account_id EVENT_TOPIC_MESSAGE_UPDATED scope
                                        (Some live_id) (PDeleted live_id) db of
                                 (event, db) \<Rightarrow> (Inr [event], db))))"

subsection \<open>Discarding\<close>

definition send_request_of :: "Operation \<Rightarrow> SendMessageRequest option" where
  "send_request_of operation =
     (case op_intent operation of Inr (ISend request) \<Rightarrow> Some request | _ \<Rightarrow> None)"

definition refresh_with_retire_echo ::
  "Clock \<Rightarrow> str \<Rightarrow> str \<Rightarrow> MailDb \<Rightarrow> (svc_error, DomainEvent list) result \<times> MailDb" where
  "refresh_with_retire_echo clock account_id message_id db =
     and_then (refresh account_id message_id db)
       (\<lambda>diff db. if effectively_retired diff
                  then with_echo (deleted_echo clock account_id message_id db) else (Inr [], db))"

definition unwind_send_fold ::
  "Clock \<Rightarrow> Operation \<Rightarrow> MailDb \<Rightarrow> (svc_error, DomainEvent list) result \<times> MailDb" where
  "unwind_send_fold clock operation db =
     (let account_id = op_account_id operation;
          send_row_id = en_id (op_entity operation)
      in and_then (refresh_with_retire_echo clock account_id send_row_id db)
           (\<lambda>events db. case Option.bind (send_request_of operation) compose_key of
              None \<Rightarrow> (Inr events, db)
            | Some key \<Rightarrow>
                (let live_id = live_draft_id db account_id key in
                 and_then (refresh account_id live_id db)
                   (\<lambda>_ db. and_then (with_echo (projection_echo clock account_id live_id db))
                     (\<lambda>more db. (Inr (events @ more), db))))))"

definition discard_operation ::
  "Clock \<Rightarrow> str \<Rightarrow> str \<Rightarrow> MailDb \<Rightarrow> (svc_error, DomainEvent list option) result \<times> MailDb" where
  "discard_operation clock fresh_id operation_id db =
     (let snapshot = get_operation (db_outbox db) operation_id in
      case remove_operation_unless_inflight operation_id (db_outbox db) of
        (removed, tbl) \<Rightarrow>
          (let db = db\<lparr>db_outbox := tbl\<rparr> in
           if removed then
             (case snapshot of
                None \<Rightarrow> (Inr (Some []), db)
              | Some operation \<Rightarrow>
                  (if op_kind operation = KSend then
                     and_then (unwind_send_fold clock operation db)
                       (\<lambda>events db. case send_request_of operation of
                          None \<Rightarrow> (Inr (Some events), db)
                        | Some request \<Rightarrow>
                            (case compose_key request of
                               None \<Rightarrow> (Inr (Some events), db)
                             | Some key \<Rightarrow>
                                 and_then (save_draft clock fresh_id (op_account_id operation) key
                                             request db)
                                   (\<lambda>(_, save_events) db. (Inr (Some (events @ save_events)), db))))
                   else if is_draft_save (op_kind operation) then
                     and_then (refresh_with_retire_echo clock (op_account_id operation)
                                 (live_draft_id db (op_account_id operation)
                                    (en_id (op_entity operation))) db)
                       (\<lambda>events db. (Inr (Some events), db))
                   else (Inr (Some []), db)))
           else case get_operation tbl operation_id of
             Some operation \<Rightarrow>
               (if op_state operation = Inflight
                then (Inl (SGateway (Rejected (L ''cannot discard an in-flight operation''))), db)
                else (Inr None, db))
           | None \<Rightarrow> (Inr None, db)))"

subsection \<open>Admission of a send\<close>

record FreshIds =
  fi_operation :: str
  fi_entity :: str
  fi_key :: str

text \<open>
  The two holds: an undo window is a duration on the monotonic clock, a send-later date a
  normalized wall-clock target; never both.
\<close>

definition send_holds ::
  "(str \<Rightarrow> (str, str) result) \<Rightarrow> Clock \<Rightarrow> SendMessageRequest \<Rightarrow>
   (svc_error, str option \<times> int option) result" where
  "send_holds norm_at clock request = (case rq_undo_window_seconds request of
     Some window \<Rightarrow> Inr (None, Some (ck_mono clock + uint window))
   | None \<Rightarrow> (case rq_send_at request of
       None \<Rightarrow> Inr (None, None)
     | Some raw \<Rightarrow> (case norm_at raw of
         Inl error \<Rightarrow> Inl (SGateway (Rejected error))
       | Inr send_at \<Rightarrow> Inr (Some send_at, None))))"

text \<open>The materialized compose key of a send, and the registry after reserving it.\<close>

definition materialize_key ::
  "FreshIds \<Rightarrow> str \<Rightarrow> bool \<Rightarrow> str option \<Rightarrow> MailDb \<Rightarrow> str option \<times> MailDb" where
  "materialize_key fresh account_id held key db = (case key of
     Some key \<Rightarrow>
       (let registered = resolve_draft_entity (db_draft_alias db) account_id key \<noteq> None in
        if registered \<or> draft_message_exists db account_id key
        then (Some key, if registered then db else reserve_key account_id key db)
        else if held then (Some key, reserve_key account_id key db)
        else (None, db))
   | None \<Rightarrow>
       (if held
        then (let key = L ''draft-local-'' @ fi_key fresh
              in (Some key, reserve_key account_id key db))
        else (None, db)))"

definition enqueue_send_with_operation_id ::
  "(str \<Rightarrow> (str, str) result) \<Rightarrow> Clock \<Rightarrow> FreshIds \<Rightarrow> str \<Rightarrow> SendMessageRequest \<Rightarrow> MailDb \<Rightarrow>
   (svc_error, Operation \<times> DomainEvent list) result \<times> MailDb" where
  "enqueue_send_with_operation_id norm_at clock fresh account_id request db =
     (case send_holds norm_at clock request of
        Inl error \<Rightarrow> (Inl error, db)
      | Inr (send_at, hold_until_mono) \<Rightarrow>
          (case materialize_key fresh account_id (send_at \<noteq> None \<or> hold_until_mono \<noteq> None)
                  (compose_key request) db of
             (consumes_key, db) \<Rightarrow>
               and_then
                 (queue_operation_with_id clock (fi_operation fresh) account_id
                    \<lparr>en_kind = EMessage, en_id = SEND_ENTITY_ID_PREFIX @ fi_entity fresh\<rparr> KSend
                    (JRequest (request\<lparr>rq_undo_window_seconds := None, rq_send_at := None,
                                       rq_draft_id := consumes_key\<rparr>))
                    send_at hold_until_mono db)
                 (\<lambda>operation db.
                    let send_row_id = en_id (op_entity operation);
                        consumed_live = map_option (live_draft_id db account_id) consumes_key
                    in and_then (refresh account_id send_row_id db)
                      (\<lambda>_ db. and_then
                        (case consumed_live of
                           None \<Rightarrow> (Inr [], db)
                         | Some live_id \<Rightarrow>
                             and_then (refresh account_id live_id db)
                               (\<lambda>diff db. if effectively_retired diff
                                 then with_echo (deleted_echo clock account_id live_id db)
                                 else with_echo (projection_echo clock account_id live_id db)))
                        (\<lambda>events db. and_then
                          (with_echo (projection_echo clock account_id send_row_id db))
                          (\<lambda>more db. (Inr (operation, events @ more), db)))))))"

definition has_due_scheduled_sends :: "Clock \<Rightarrow> str \<Rightarrow> MailDb \<Rightarrow> bool" where
  "has_due_scheduled_sends clock account_id db \<longleftrightarrow>
     count_due_scheduled_sends account_id (ck_wall clock) (ck_mono clock) (db_outbox db) > 0"

subsection \<open>The steps that leave the outbox table as it is\<close>

named_theorems outbox_frame \<open>operations that leave the outbox table as it is\<close>

lemma refresh_outbox [outbox_frame]: "db_outbox (snd (refresh a m db)) = db_outbox db"
  by (cases "refresh_message_overlay a m db"; cases "fst (refresh_message_overlay a m db)")
    (auto simp: refresh_def store_result_def dest: refresh_frame(1))

lemma append_event_outbox [outbox_frame]:
  "db_outbox (snd (append_event ck a topic mb m p db)) = db_outbox db"
  by (simp add: append_event_def Let_def)

lemma deleted_echo_outbox [outbox_frame]: "db_outbox (snd (deleted_echo ck a m db)) = db_outbox db"
  by (simp add: deleted_echo_def append_event_def Let_def)

lemma projection_echo_outbox [outbox_frame]:
  "db_outbox (snd (projection_echo ck a m db)) = db_outbox db"
  by (simp add: projection_echo_def append_event_def Let_def split: option.split)

lemma with_echo_outbox: "db_outbox (snd (with_echo r)) = db_outbox (snd r)"
  by (simp add: with_echo_def split: prod.split)

lemma and_then_outbox:
  assumes "db_outbox (snd r) = t" and "\<And>x d. db_outbox d = t \<Longrightarrow> db_outbox (snd (k x d)) = t"
  shows "db_outbox (snd (and_then r k)) = t"
  using assms by (cases r; cases "fst r") (auto simp: and_then_def)

lemma retire_echo_outbox [outbox_frame]:
  "db_outbox (snd (refresh_with_retire_echo ck a m db)) = db_outbox db"
  unfolding refresh_with_retire_echo_def
  by (rule and_then_outbox) (auto simp: outbox_frame with_echo_outbox)

subsection \<open>Coalescing assertions\<close>

lemma merge_set_keywords_result:
  "merge_set_keywords (JSetKeywords older) (JSetKeywords newer) =
     Inr (JSetKeywords
       \<lparr>skc_add = bt_collect ((set (skc_add older) \<union> set (skc_add newer)) - set (skc_remove newer)),
        skc_remove = bt_collect ((set (skc_remove older) \<union> set (skc_remove newer)) - set (skc_add newer))\<rparr>)"
  by (simp add: merge_set_keywords_def Let_def)
    (auto intro!: arg_cong [where f = bt_collect])

text \<open>
  Superseding one pending \<open>setKeywords\<close> loses nothing: the merged assertion has on every
  message the effect of replaying the older and then the newer one, provided the newer one does not
  both add and remove the same keyword.
\<close>

lemma merge_is_replay:
  assumes "set (skc_add newer) \<inter> set (skc_remove newer) = {}"
  shows "\<exists>merged. merge_set_keywords (JSetKeywords older) (JSetKeywords newer) = Inr (JSetKeywords merged) \<and>
    outcome_eq fold_state_eq
      (replay_message base [SetKeywords (skc_add merged) (skc_remove merged)])
      (replay_message base [SetKeywords (skc_add older) (skc_remove older),
                            SetKeywords (skc_add newer) (skc_remove newer)])"
  using assms
  by (auto simp: merge_set_keywords_result replay_message_def fold_state_eq_def Let_def)

lemma merge_is_replay_example:
  "\<exists>merged. merge_set_keywords (JSetKeywords \<lparr>skc_add = [L ''x''], skc_remove = []\<rparr>)
        (JSetKeywords \<lparr>skc_add = [], skc_remove = [L ''x'']\<rparr>) = Inr (JSetKeywords merged) \<and>
    outcome_eq fold_state_eq
      (replay_message \<lparr>fs_keywords = [], fs_mailbox_ids = []\<rparr>
         [SetKeywords (skc_add merged) (skc_remove merged)])
      (replay_message \<lparr>fs_keywords = [], fs_mailbox_ids = []\<rparr>
         [SetKeywords (skc_add \<lparr>skc_add = [L ''x''], skc_remove = []\<rparr>)
            (skc_remove \<lparr>skc_add = [L ''x''], skc_remove = []\<rparr>),
          SetKeywords (skc_add \<lparr>skc_add = [], skc_remove = [L ''x'']\<rparr>)
            (skc_remove \<lparr>skc_add = [], skc_remove = [L ''x'']\<rparr>)])"
  by (rule merge_is_replay) simp

definition keyword_op :: "str \<Rightarrow> str list \<Rightarrow> str list \<Rightarrow> Operation" where
  "keyword_op i add remove =
     example_op i KSetKeywords (JSetKeywords \<lparr>skc_add = add, skc_remove = remove\<rparr>) Pending"

text \<open>
  With two pending \<open>setKeywords\<close> of one message (the older flagged, the newer unflagged it)
  coalescing a third is not replay: the merged assertion flags the message again, because the loop
  merges the oldest first and each merge lets the payload win. Two such operations are pending
  together when the older one was in flight while the newer one was queued and then fell back.
\<close>

lemma coalescing_two_pending_reorders:
  "fst (coalesce_superseded KSetKeywords [keyword_op (L ''1'') [L ''f''] [], keyword_op (L ''2'') [] [L ''f'']]
      (JSetKeywords \<lparr>skc_add = [L ''s''], skc_remove = []\<rparr>) db) =
     Inr (JSetKeywords \<lparr>skc_add = [L ''f'', L ''s''], skc_remove = []\<rparr>) \<and>
   \<not> outcome_eq fold_state_eq
      (replay_message \<lparr>fs_keywords = [], fs_mailbox_ids = []\<rparr> [SetKeywords [L ''f'', L ''s''] []])
      (replay_message \<lparr>fs_keywords = [], fs_mailbox_ids = []\<rparr>
         [SetKeywords [L ''f''] [], SetKeywords [] [L ''f''], SetKeywords [L ''s''] []])"
proof -
  have kind: "op_kind (keyword_op i a r) = KSetKeywords"
    and payload: "op_payload (keyword_op i a r) = JSetKeywords \<lparr>skc_add = a, skc_remove = r\<rparr>" for i a r
    by (simp_all add: keyword_op_def example_op_def)
  have "bt_collect {L ''f'', L ''s''} = [L ''f'', L ''s'']"
    by (simp add: bt_collect_def)
  then show ?thesis
    by (auto simp: kind payload merge_set_keywords_result bt_collect_def replay_message_def
        fold_state_eq_def)
qed

subsection \<open>Draft saves\<close>

lemma queue_draft_table:
  assumes "\<not> is_state_assertion kind"
  shows "db_outbox (snd (queue_operation_with_id ck i a e kind p sa hm db)) =
    (if i \<in> row_id ` set (db_outbox db) then db_outbox db
     else db_outbox db @ [new_row
       \<lparr>op_id = i, op_account_id = a, op_entity = e, op_kind = kind, op_payload = p,
        op_payload_version = 1, op_state = Pending, op_attempts = 0, op_last_error = None,
        op_send_at = sa, op_hold_until_mono = hm, op_created_at = ck_now ck,
        op_updated_at = ck_now ck\<rparr>])"
  using assms
  by (auto simp: queue_operation_with_id_def enqueue_operation_def Let_def split: option.split)

lemma replace_payload_table:
  "replace_operation_payload now i p tbl = (won, tbl') \<Longrightarrow>
   tbl' = update_where (\<lambda>r. row_id r = i \<and> op_state (row_op r) = Pending)
     (map_op (\<lambda>op. op\<lparr>op_payload := p, op_attempts := 0, op_last_error := None,
                      op_updated_at := now\<rparr>)) tbl"
  by (auto simp: replace_operation_payload_def Let_def)

lemma replace_payload_ids:
  "replace_operation_payload now i p tbl = (won, tbl') \<Longrightarrow> map row_id tbl' = map row_id tbl"
  using replace_payload_table [of now i p tbl won tbl'] by (simp add: update_where_ids)

lemma replace_payload_get:
  assumes "outbox_inv tbl" and "replace_operation_payload now i p tbl = (won, tbl')"
  shows "get_operation tbl' j = (if j = i
      then map_option (\<lambda>op. if op_state op = Pending
        then op\<lparr>op_payload := p, op_attempts := 0, op_last_error := None, op_updated_at := now\<rparr>
        else op) (get_operation tbl i)
      else get_operation tbl j)"
  unfolding replace_payload_table [OF assms(2)]
  by (rule find_row_cases [OF assms(1), of j]) (auto simp: get_update_where [OF assms(1)])

lemma replace_payload_won:
  assumes "outbox_inv tbl" and "get_operation tbl i = Some op" and "op_state op = Pending"
  shows "fst (replace_operation_payload now i p tbl)"
  using list_ex_row [OF assms(1), of i "\<lambda>op. op_state op = Pending"] assms(2,3)
  by (simp add: replace_operation_payload_def Let_def)

lemma pending_get:
  assumes "outbox_inv tbl" and "op \<in> set (list_pending_operations a tbl)"
  shows "get_operation tbl (op_id op) = Some op"
proof -
  obtain r where "r \<in> set tbl" "row_op r = op"
    using assms(2) by (auto simp: list_pending_operations_def ops_where_def)
  then show ?thesis using get_operation_row [OF assms(1), of r] by (simp add: row_id_def)
qed

lemma reserve_key_outbox [simp]: "db_outbox (reserve_key a k db) = db_outbox db"
  by (simp add: reserve_key_def)

definition stamped :: "str \<Rightarrow> SendMessageRequest \<Rightarrow> Payload" where
  "stamped key request = JRequest (request\<lparr>rq_draft_id := Some key\<rparr>)"

text \<open>The table a save leaves: the coalesced one, or the old one with the new operation.\<close>

lemma save_draft_table:
  "\<exists>kind db0. is_draft_save kind \<and> db_outbox db0 = db_outbox db \<and>
    db_outbox (snd (save_draft ck i a key request db)) =
      (case coalesce_save ck a key (stamped key request) db0 of
         (Some _, db1) \<Rightarrow> db_outbox db1
       | (None, db1) \<Rightarrow> db_outbox (snd (queue_operation_with_id ck i a (draft_entity key) kind
                           (stamped key request) None None db1)))"
proof -
  define db0 where "db0 = (if resolve_draft_entity (db_draft_alias db) a key \<noteq> None then db
      else reserve_key a key db)"
  define kind where "kind = (if resolve_draft_entity (db_draft_alias db) a key \<noteq> None \<or>
      draft_message_exists db0 a key then KDraftUpdate else KDraftCreate)"
  have save: "is_draft_save kind" by (simp add: kind_def is_draft_save_def)
  have db0: "db_outbox db0 = db_outbox db" by (simp add: db0_def)
  obtain c db1 where c: "coalesce_save ck a key (stamped key request) db0 = (c, db1)"
    by (cases "coalesce_save ck a key (stamped key request) db0")
  have tail: "db_outbox (snd (and_then r (\<lambda>operation db.
      let live_id = live_draft_id db a key in
      and_then (refresh a live_id db)
        (\<lambda>_ db. and_then (with_echo (projection_echo ck a live_id db))
          (\<lambda>events db. (Inr (operation, events), db)))))) = db_outbox (snd r)" for r
    by (auto simp: Let_def intro!: and_then_outbox simp: outbox_frame with_echo_outbox)
  have "db_outbox (snd (save_draft ck i a key request db)) =
      db_outbox (snd (case c of Some operation \<Rightarrow> (Inr operation, db1)
        | None \<Rightarrow> queue_operation_with_id ck i a (draft_entity key) kind (stamped key request)
            None None db1))"
    unfolding save_draft_def Let_def [of "request\<lparr>rq_draft_id := Some key\<rparr>"]
      Let_def [of "resolve_draft_entity (db_draft_alias db) a key \<noteq> None"]
    by (simp only: db0_def [symmetric] kind_def [symmetric] stamped_def [symmetric] Let_def [of db0]
        Let_def [of kind] Let_def [of "stamped key request"] c prod.case tail)
  then show ?thesis using save db0 c
    by (intro exI [where x = kind] exI [where x = db0]) (simp split: option.split)
qed

abbreviation last_queued_save :: "MailDb \<Rightarrow> str \<Rightarrow> str \<Rightarrow> Operation option" where
  "last_queued_save db a key \<equiv>
     List.find (queued_save key) (rev (list_pending_operations a (db_outbox db)))"

definition resaved :: "Clock \<Rightarrow> Payload \<Rightarrow> Operation \<Rightarrow> Operation" where
  "resaved ck payload op = op\<lparr>op_payload := payload, op_attempts := 0, op_last_error := None,
                            op_updated_at := ck_now ck\<rparr>"

lemma coalesce_save_some:
  assumes "outbox_inv (db_outbox db)" and "last_queued_save db a key = Some queued"
  shows "\<exists>op db1. coalesce_save ck a key p db = (Some op, db1) \<and>
    map row_id (db_outbox db1) = map row_id (db_outbox db) \<and>
    (\<forall>j. get_operation (db_outbox db1) j =
       (if j = op_id queued then Some (resaved ck p queued) else get_operation (db_outbox db) j))"
proof -
  have q: "queued_save key queued" "queued \<in> set (list_pending_operations a (db_outbox db))"
    using find_Some_iff_mem [OF assms(2)] by auto
  have get: "get_operation (db_outbox db) (op_id queued) = Some queued"
    by (rule pending_get [OF assms(1) q(2)])
  have pending: "op_state queued = Pending" using q(1) by (simp add: queued_save_def)
  obtain won tbl where r: "replace_operation_payload (ck_now ck) (op_id queued) p (db_outbox db) = (won, tbl)"
    by (cases "replace_operation_payload (ck_now ck) (op_id queued) p (db_outbox db)")
  have won: "won"
    using replace_payload_won [OF assms(1) get pending, of "ck_now ck" p] r by simp
  have table: "get_operation tbl j =
      (if j = op_id queued then Some (resaved ck p queued) else get_operation (db_outbox db) j)" for j
    using replace_payload_get [OF assms(1) r, of j] get pending by (simp add: resaved_def)
  show ?thesis
    using assms(2) r won table replace_payload_ids [OF r] by (simp add: coalesce_save_def)
qed

lemma coalesce_save_none:
  "last_queued_save db a key = None \<Longrightarrow> coalesce_save ck a key p db = (None, db)"
  by (simp add: coalesce_save_def)

lemma save_coalesces_in_place_aux:
  assumes "outbox_inv (db_outbox db)" and "last_queued_save db a key = Some queued"
  shows "map row_id (db_outbox (snd (save_draft ck i a key request db))) = map row_id (db_outbox db) \<and>
    (\<forall>j. get_operation (db_outbox (snd (save_draft ck i a key request db))) j =
       (if j = op_id queued then Some (resaved ck (stamped key request) queued)
        else get_operation (db_outbox db) j))"
proof -
  obtain kind db0 where db0: "db_outbox db0 = db_outbox db"
    and s: "db_outbox (snd (save_draft ck i a key request db)) =
      (case coalesce_save ck a key (stamped key request) db0 of
         (Some _, db1) \<Rightarrow> db_outbox db1
       | (None, db1) \<Rightarrow> db_outbox (snd (queue_operation_with_id ck i a (draft_entity key) kind
                           (stamped key request) None None db1)))"
    using save_draft_table [of db ck i a key request] by (elim exE conjE)
  obtain op db1 where "coalesce_save ck a key (stamped key request) db0 = (Some op, db1)"
    "map row_id (db_outbox db1) = map row_id (db_outbox db)"
    "\<forall>j. get_operation (db_outbox db1) j =
       (if j = op_id queued then Some (resaved ck (stamped key request) queued)
        else get_operation (db_outbox db) j)"
    using coalesce_save_some [where db = db0 and a = a and key = key and queued = queued and ck = ck
        and p = "stamped key request"] assms db0 by auto
  then show ?thesis using s by simp
qed

text \<open>
  One queued save per compose session: saving a draft whose key still has a queued save
  replaces that operation's payload in place. No row is added or removed, the operation keeps its id
  (the create identity) and its kind, and no other operation changes.
\<close>

lemma save_coalesces_in_place:
  assumes "outbox_inv (db_outbox db)" and "last_queued_save db a key = Some queued"
  shows "map row_id (db_outbox (snd (save_draft ck i a key request db))) = map row_id (db_outbox db) \<and>
    (\<forall>j. get_operation (db_outbox (snd (save_draft ck i a key request db))) j =
       (if j = op_id queued then Some (resaved ck (stamped key request) queued)
        else get_operation (db_outbox db) j))"
  by (rule save_coalesces_in_place_aux [OF assms])

text \<open>After a save the log holds a pending save of the key with exactly the saved content.\<close>

lemma save_draft_queued:
  assumes "outbox_inv (db_outbox db)" and "i \<notin> row_id ` set (db_outbox db)"
  shows "\<exists>op. get_operation (db_outbox (snd (save_draft ck i a key request db))) (op_id op) = Some op \<and>
      queued_save key op \<and> op_account_id op = a \<and> op_payload op = stamped key request"
    and "j \<noteq> i \<Longrightarrow> get_operation (db_outbox db) j = None \<Longrightarrow>
      get_operation (db_outbox (snd (save_draft ck i a key request db))) j = None"
proof -
  obtain kind db0 where kind: "is_draft_save kind" and db0: "db_outbox db0 = db_outbox db"
    and s: "db_outbox (snd (save_draft ck i a key request db)) =
      (case coalesce_save ck a key (stamped key request) db0 of
         (Some _, db1) \<Rightarrow> db_outbox db1
       | (None, db1) \<Rightarrow> db_outbox (snd (queue_operation_with_id ck i a (draft_entity key) kind
                           (stamped key request) None None db1)))"
    using save_draft_table [of db ck i a key request] by (elim exE conjE)
  have "(\<exists>op. get_operation (db_outbox (snd (save_draft ck i a key request db))) (op_id op) = Some op \<and>
      queued_save key op \<and> op_account_id op = a \<and> op_payload op = stamped key request) \<and>
    (j \<noteq> i \<longrightarrow> get_operation (db_outbox db) j = None \<longrightarrow>
      get_operation (db_outbox (snd (save_draft ck i a key request db))) j = None)"
  proof (cases "last_queued_save db a key")
    case None
    define new where "new = \<lparr>op_id = i, op_account_id = a, op_entity = draft_entity key, op_kind = kind,
      op_payload = stamped key request, op_payload_version = 1, op_state = Pending,
      op_attempts = 0, op_last_error = None, op_send_at = None, op_hold_until_mono = None,
      op_created_at = ck_now ck, op_updated_at = ck_now ck\<rparr>"
    have "\<not> is_state_assertion kind" using kind by (auto simp: is_draft_save_def is_state_assertion_def)
    then have t: "db_outbox (snd (save_draft ck i a key request db)) = db_outbox db @ [new_row new]"
      using s None db0 assms(2) new_def coalesce_save_none [where db = db0 and a = a and key = key and ck = ck]
      by (simp add: queue_draft_table)
    have id: "op_id new = i" by (simp add: new_def)
    have get: "get_operation (tbl @ [new_row new]) j' =
        (case get_operation tbl j' of Some op \<Rightarrow> Some op | None \<Rightarrow> if j' = i then Some new else None)"
      for tbl j'
      by (induction tbl) (auto simp: new_row_def row_id_def id)
    have "get_operation (db_outbox db) i = None" using assms(2) by (simp add: get_operation_None_iff)
    then have "get_operation (db_outbox (snd (save_draft ck i a key request db))) (op_id new) = Some new"
      by (simp add: t get id)
    moreover have "queued_save key new \<and> op_account_id new = a \<and> op_payload new = stamped key request"
      using kind by (simp add: new_def queued_save_def draft_entity_def)
    moreover have "j \<noteq> i \<longrightarrow> get_operation (db_outbox db) j = None \<longrightarrow>
      get_operation (db_outbox (snd (save_draft ck i a key request db))) j = None"
      by (simp add: t get)
    ultimately show ?thesis by blast
  next
    case (Some queued)
    have t: "get_operation (db_outbox (snd (save_draft ck i a key request db))) j' =
       (if j' = op_id queued then Some (resaved ck (stamped key request) queued)
        else get_operation (db_outbox db) j')" for j'
      using save_coalesces_in_place_aux [OF assms(1) Some] by blast
    have q: "queued_save key queued" "queued \<in> set (list_pending_operations a (db_outbox db))"
      using find_Some_iff_mem [OF Some] by auto
    then have "op_account_id queued = a"
      by (simp add: list_pending_operations_def ops_where_def)
    moreover have "get_operation (db_outbox db) (op_id queued) = Some queued"
      by (rule pending_get [OF assms(1) q(2)])
    ultimately show ?thesis
      using q(1)
      by (auto simp: t resaved_def queued_save_def
          intro!: exI [where x = "resaved ck (stamped key request) queued"])
  qed
  then show "\<exists>op. get_operation (db_outbox (snd (save_draft ck i a key request db))) (op_id op) = Some op \<and>
      queued_save key op \<and> op_account_id op = a \<and> op_payload op = stamped key request"
    and "j \<noteq> i \<Longrightarrow> get_operation (db_outbox db) j = None \<Longrightarrow>
      get_operation (db_outbox (snd (save_draft ck i a key request db))) j = None"
    by blast+
qed

subsection \<open>Undoing a send\<close>

lemma unwind_outbox: "db_outbox (snd (unwind_send_fold ck op db)) = db_outbox db"
  unfolding unwind_send_fold_def Let_def
  by (intro and_then_outbox)
    (auto simp: outbox_frame with_echo_outbox split: option.split intro!: and_then_outbox)

lemma removed_row:
  assumes "outbox_inv tbl" and "remove_operation_unless_inflight i tbl = (True, tbl')"
  shows "tbl' = remove_operation i tbl"
proof -
  let ?p = "\<lambda>r. row_id r = i \<and> op_state (row_op r) \<noteq> Inflight \<and> op_state (row_op r) \<noteq> Applied"
  obtain r where r: "r \<in> set tbl" "?p r" and tbl': "tbl' = filter (\<lambda>r. \<not> ?p r) tbl"
    using assms(2) by (auto simp: remove_operation_unless_inflight_def Let_def list_ex_iff)
  have "x = r" if "x \<in> set tbl" "row_id x = i" for x
    using assms(1) that r by (auto simp: outbox_inv_def distinct_map dest: inj_onD)
  then have "?p x \<longleftrightarrow> row_id x = i" if "x \<in> set tbl" for x
    using that r by auto
  then show ?thesis unfolding tbl' remove_operation_def by (intro filter_cong) auto
qed

text \<open>
  C17. Undo restores the compose: when cancelling a queued send succeeds, the send is gone from the
  log (it can never be pushed), and if its request decodes and names a compose key, the log holds a
  pending draft save of that key that carries the send's full content. Otherwise the cancel is the
  bare removal: nothing is queued, so the compose of a send without a compose key (a send admitted
  without a draft and without a hold) is lost, although the cancel succeeds.
\<close>

theorem cancelled_send_becomes_draft:
  assumes "outbox_inv (db_outbox db)" and "get_operation (db_outbox db) i = Some op"
    and "op_kind op = KSend" and "fresh \<notin> row_id ` set (db_outbox db)"
    and "discard_operation ck fresh i db = (Inr (Some events), db')"
  shows "get_operation (db_outbox db') i = None \<and>
    (case Option.bind (send_request_of op) (\<lambda>request. map_option (Pair request) (compose_key request)) of
       Some (request, key) \<Rightarrow>
         \<exists>save. get_operation (db_outbox db') (op_id save) = Some save \<and> queued_save key save \<and>
           op_payload save = stamped key request
     | None \<Rightarrow> db_outbox db' = remove_operation i (db_outbox db))"
proof -
  obtain won tbl where c: "remove_operation_unless_inflight i (db_outbox db) = (won, tbl)"
    by (cases "remove_operation_unless_inflight i (db_outbox db)")
  have won: "won"
    using assms(5) c by (auto simp: discard_operation_def Let_def split: option.splits if_splits)
  let ?db = "db\<lparr>db_outbox := tbl\<rparr>"
  have inv: "outbox_inv tbl" using cancel_row_inv [OF assms(1), of i] c by simp
  have gone: "get_operation tbl i = None"
    using get_cancel [OF assms(1), of i i] c won by simp
  obtain ev d where u: "unwind_send_fold ck op ?db = (Inr ev, d)"
    using c won assms(2,3,5) by (auto simp: discard_operation_def Let_def elim!: and_then_InrE)
  have d: "db_outbox d = tbl" using unwind_outbox [of ck op ?db] u by simp
  show ?thesis
  proof (cases "Option.bind (send_request_of op) (\<lambda>request. map_option (Pair request) (compose_key request))")
    case None
    then have "db' = d"
      using assms(2,3,5) c won u
      by (auto simp: discard_operation_def Let_def split: option.splits)
    moreover have "tbl = remove_operation i (db_outbox db)"
      using removed_row [OF assms(1)] c won by simp
    ultimately show ?thesis using gone d None by simp
  next
    case (Some found)
    then obtain request key where f: "found = (request, key)" "send_request_of op = Some request"
        "compose_key request = Some key"
      by (auto simp: bind_eq_Some_conv)
    have ids: "fresh \<notin> row_id ` set tbl"
      using c assms(4) by (auto simp: remove_operation_unless_inflight_def Let_def)
    have fresh: "i \<noteq> fresh"
      using assms(2,4) get_operation_None_iff [of "db_outbox db" fresh] by auto
    have s: "and_then (save_draft ck fresh (op_account_id op) key request d)
        (\<lambda>(_, save_events) db. (Inr (Some (ev @ save_events)), db)) = (Inr (Some events), db')"
      using assms(2,3,5) c won u f(2,3) by (simp add: discard_operation_def Let_def)
    have db': "db' = snd (save_draft ck fresh (op_account_id op) key request d)"
      using s by (auto elim!: and_then_InrE)
    have "outbox_inv (db_outbox d)" and "fresh \<notin> row_id ` set (db_outbox d)"
      using d inv ids by simp_all
    note saved = save_draft_queued [where ck = ck and a = "op_account_id op" and key = key
        and request = request, OF this]
    have "get_operation (db_outbox db') i = None"
      using saved(2) [of i] fresh gone d db' by simp
    then show ?thesis using saved(1) db' Some f(1) by auto
  qed
qed

subsection \<open>Holds\<close>

text \<open>
  A send never waits on two clocks: an undo window is held on the monotonic clock only and
  never in the past of the clock that stamped it, and its wall-clock date is dropped; a send-later
  date has no monotonic hold.
\<close>

lemma holds_are_exclusive:
  assumes "send_holds norm_at ck request = Inr (send_at, hold)"
  shows "(send_at = None \<or> hold = None) \<and>
    (rq_undo_window_seconds request = None \<or> (send_at = None \<and> (\<exists>t. hold = Some t \<and> ck_mono ck \<le> t))) \<and>
    (rq_undo_window_seconds request \<noteq> None \<or> hold = None)"
  using assms by (auto simp: send_holds_def split: option.splits sum.splits)

subsection \<open>Concrete inputs\<close>

declare L_simps [simp del]

definition queue_request :: SendMessageRequest where
  "queue_request =
     \<lparr>rq_from = None, rq_to = [], rq_cc = [], rq_bcc = [], rq_subject = L ''hi'', rq_body = L ''text'',
      rq_in_reply_to = None, rq_references = None, rq_attachments = [], rq_draft_id = Some (L ''k''),
      rq_send_at = None, rq_undo_window_seconds = Some 30\<rparr>"

definition queue_clock :: Clock where
  "queue_clock = \<lparr>ck_now = L ''now'', ck_wall = L ''now'', ck_mono = 100\<rparr>"

definition saved_draft_op :: Operation where
  "saved_draft_op = (example_op (L ''s'') KDraftCreate (JRequest queue_request) Pending)
     \<lparr>op_entity := draft_entity (L ''k'')\<rparr>"

lemma save_coalesces_in_place_example:
  "map row_id (db_outbox (snd (save_draft queue_clock (L ''z'') (L ''a'') (L ''k'') queue_request
      (example_db [saved_draft_op] [])))) = map row_id (db_outbox (example_db [saved_draft_op] [])) \<and>
   (\<forall>j. get_operation (db_outbox (snd (save_draft queue_clock (L ''z'') (L ''a'') (L ''k'') queue_request
      (example_db [saved_draft_op] [])))) j =
      (if j = op_id saved_draft_op
       then Some (resaved queue_clock (stamped (L ''k'') queue_request) saved_draft_op)
       else get_operation (db_outbox (example_db [saved_draft_op] [])) j))"
  by (rule save_coalesces_in_place)
    (simp_all add: example_db_def outbox_inv_def list_pending_operations_def ops_where_def
      new_row_def saved_draft_op_def example_op_def queued_save_def draft_entity_def is_draft_save_def)

definition queued_send_op :: Operation where
  "queued_send_op = (example_op (L ''o'') KSend (JRequest queue_request) Pending)
     \<lparr>op_entity := \<lparr>en_kind = EMessage, en_id = L ''send-1''\<rparr>\<rparr>"

lemma queue_compose_key: "compose_key queue_request = Some (L ''k'')"
  by (simp add: compose_key_def queue_request_def L_simps)
    (simp add: trim_def trim_start_def trim_end_def is_whitespace_def L_simps)

lemma queued_send_request: "send_request_of queued_send_op = Some queue_request"
  by (simp add: send_request_of_def op_intent_def from_parts_def queued_send_op_def example_op_def
      decode_request_def)

lemma refresh_ok: "log_decodes db a \<Longrightarrow> \<exists>d db'. refresh a m db = (Inr d, db') \<and> db_outbox db' = db_outbox db"
  using refresh_total [of db a m] refresh_frame(1) [of a m db]
  by (auto simp: refresh_def store_result_def)

lemma and_then_total:
  assumes "\<exists>x d. r = (Inr x, d) \<and> P d" and "\<And>x d. P d \<Longrightarrow> \<exists>y d'. k x d = (Inr y, d') \<and> Q d'"
  shows "\<exists>y d'. and_then r k = (Inr y, d') \<and> Q d'"
  using assms by fastforce

lemma echo_ok:
  "db_outbox (snd r) = t \<Longrightarrow> \<exists>ev d. with_echo r = (Inr ev, d) \<and> db_outbox d = t"
  by (cases r) (simp add: with_echo_def)

lemma log_decodes_outbox: "db_outbox d = db_outbox db \<Longrightarrow> log_decodes d a = log_decodes db a"
  by (simp add: log_decodes_def)

lemma refresh_keeps:
  "log_decodes db a \<Longrightarrow> db_outbox d = db_outbox db \<Longrightarrow>
   \<exists>diff d'. refresh a m d = (Inr diff, d') \<and> db_outbox d' = db_outbox db"
  using refresh_ok [of d a m] log_decodes_outbox [of d db a] by simp

lemma unwind_ok:
  assumes "log_decodes db (op_account_id op)"
  shows "\<exists>ev d. unwind_send_fold ck op db = (Inr ev, d) \<and> db_outbox d = db_outbox db"
  unfolding unwind_send_fold_def Let_def refresh_with_retire_echo_def
  by (intro and_then_total [where P = "\<lambda>d. db_outbox d = db_outbox db"] refresh_keeps [OF assms] refl)
    (auto simp: outbox_frame split: option.split
      intro!: echo_ok and_then_total [where P = "\<lambda>d. db_outbox d = db_outbox db"] refresh_keeps [OF assms])

lemma save_into_empty_ok:
  assumes "db_outbox db = []"
  shows "\<exists>ops ev d. save_draft ck i a key request db = (Inr (ops, ev), d)"
proof -
  define db0 where "db0 = (if resolve_draft_entity (db_draft_alias db) a key \<noteq> None then db
      else reserve_key a key db)"
  define kind where "kind = (if resolve_draft_entity (db_draft_alias db) a key \<noteq> None \<or>
      draft_message_exists db0 a key then KDraftUpdate else KDraftCreate)"
  have e: "db_outbox db0 = []" using assms by (simp add: db0_def)
  have kind: "kind = KDraftUpdate \<or> kind = KDraftCreate" by (simp add: kind_def)
  have c: "coalesce_save ck a key p db0 = (None, db0)" for p
    by (simp add: coalesce_save_def e list_pending_operations_def ops_where_def)
  obtain new d where q: "queue_operation_with_id ck i a (draft_entity key) kind (stamped key request)
      None None db0 = (Inr new, d)" and n: "op_kind new = kind" "op_payload new = stamped key request"
        "op_payload_version new = 1"
      and d: "db_outbox d = [new_row new]"
    using kind e
    by (auto simp: queue_operation_with_id_def enqueue_operation_def Let_def is_state_assertion_def row_id_def new_row_def)
  have "decodes new"
    using kind n by (auto simp: decodes_def op_intent_def from_parts_def stamped_def decode_request_def)
  then have log: "log_decodes d a"
    using d by (simp add: log_decodes_def list_unsettled_operations_def ops_where_def new_row_def)
  have "\<exists>y d'. save_draft ck i a key request db = (Inr y, d') \<and> True"
    unfolding save_draft_def Let_def db0_def [symmetric] kind_def [symmetric] stamped_def [symmetric] c
    by (simp only: prod.case option.case q and_then_simps)
      (intro and_then_total [where P = "\<lambda>d'. db_outbox d' = db_outbox d"] refresh_keeps [OF log] refl,
       auto simp: outbox_frame intro!: echo_ok)
  then show ?thesis by (metis prod.exhaust)
qed

theorem cancelled_send_becomes_draft_witness:
  "\<exists>events db'. discard_operation queue_clock (L ''f'') (L ''o'') (example_db [queued_send_op] []) =
       (Inr (Some events), db') \<and>
     get_operation (db_outbox db') (L ''o'') = None \<and>
     (\<exists>save. get_operation (db_outbox db') (op_id save) = Some save \<and> queued_save (L ''k'') save \<and>
       op_payload save = stamped (L ''k'') queue_request)"
proof -
  let ?db = "example_db [queued_send_op] []"
  have tbl: "db_outbox ?db = [new_row queued_send_op]" by (simp add: example_db_def)
  have id: "op_id queued_send_op = L ''o''" "op_kind queued_send_op = KSend"
      "op_state queued_send_op = Pending"
    by (simp_all add: queued_send_op_def example_op_def)
  have row: "row_id (new_row queued_send_op) = L ''o''" by (simp add: row_id_def new_row_def id)
  have c: "remove_operation_unless_inflight (L ''o'') (db_outbox ?db) = (True, [])"
    by (simp add: remove_operation_unless_inflight_def Let_def tbl row_id_def new_row_def id)
  have g: "get_operation (db_outbox ?db) (L ''o'') = Some queued_send_op"
    by (simp add: tbl row_id_def new_row_def id)
  let ?d0 = "?db\<lparr>db_outbox := []\<rparr>"
  have "log_decodes ?d0 a" for a
    by (simp add: log_decodes_def list_unsettled_operations_def ops_where_def)
  from unwind_ok [OF this] obtain ev d where u: "unwind_send_fold queue_clock queued_send_op ?d0 = (Inr ev, d)"
    and d: "db_outbox d = []" by fastforce
  obtain ops sev d' where s: "save_draft queue_clock (L ''f'') (op_account_id queued_send_op) (L ''k'')
      queue_request d = (Inr (ops, sev), d')"
    using save_into_empty_ok [OF d] by blast
  have r: "discard_operation queue_clock (L ''f'') (L ''o'') ?db = (Inr (Some (ev @ sev)), d')"
    by (simp add: discard_operation_def Let_def c g id u queued_send_request queue_compose_key s)
  have "outbox_inv (db_outbox ?db)" by (simp add: tbl outbox_inv_def)
  moreover have "L ''f'' \<notin> row_id ` set (db_outbox ?db)" by (simp add: tbl row L_simps)
  ultimately show ?thesis
    using r cancelled_send_becomes_draft [OF _ g id(2) _ r] queued_send_request queue_compose_key
    by auto
qed

lemma holds_are_exclusive_example:
  "\<exists>send_at hold. send_holds (\<lambda>raw. Inr raw) queue_clock queue_request = Inr (send_at, hold) \<and>
     (send_at = None \<or> hold = None)"
proof -
  have h: "send_holds (\<lambda>raw. Inr raw) queue_clock queue_request = Inr (None, Some (100 + uint (30 :: 32 word)))"
    by (simp add: send_holds_def queue_request_def queue_clock_def)
  show ?thesis using h conjunct1 [OF holds_are_exclusive [OF h]] by blast
qed

declare L_simps [simp]

end
