(* ===== verification/OutboxFlush.thy ===== *)
theory OutboxFlush
  imports OutboxQueue
begin

text \<open>
  The flush drain, \<open>crates/posthaste-domain-service/src/service/outbox/flush.rs\<close>, with the provider
  dispatch of \<open>push.rs\<close>, the error classification of \<open>classify.rs\<close>, the settlements of
  \<open>settle.rs\<close> and \<open>draft.rs\<close>, and the causal truncation of \<open>service/replay.rs\<close>. The provider is a
  parameter: a gateway is a record of functions on a provider state of any type \<open>'g\<close>. Clock
  samples are fixed for a pass. The events \<open>apply_sync_batch\<close> itself reports are not modelled.
\<close>

subsection \<open>Classification\<close>

datatype FlushDisposition = FTransient | FPermanent | FUncertain | FDefer

record FlushError =
  fe_disposition :: FlushDisposition
  fe_message :: str

definition permanent_error :: "str \<Rightarrow> FlushError" where
  "permanent_error message = \<lparr>fe_disposition = FPermanent, fe_message = message\<rparr>"

definition classify_gateway_error :: "MessageReadback GatewayError \<Rightarrow> FlushError" where
  "classify_gateway_error error =
     (case (case error of
        Network message \<Rightarrow> (FTransient, message)
      | Unavailable message \<Rightarrow> (FTransient, message)
      | Auth \<Rightarrow> (FTransient, L ''authentication required'')
      | SendDispatchUncertain message \<Rightarrow> (FUncertain, message)
      | StateMismatch \<Rightarrow> (FPermanent, L ''provider state diverged'')
      | CannotCalculateChanges \<Rightarrow> (FPermanent, L ''cannot calculate changes'')
      | Rejected message \<Rightarrow> (FPermanent, message)
      | Corruption message \<Rightarrow> (FPermanent, message)
      | Internal message \<Rightarrow> (FPermanent, message)
      | MutationRejected _ reason \<Rightarrow> (FPermanent, reason)
      | MailboxNotEmpty count \<Rightarrow>
          (FPermanent, L ''mailbox is not empty ('' @ show_int count @ L '' messages)'')) of
      (disposition, message) \<Rightarrow> \<lparr>fe_disposition = disposition, fe_message = message\<rparr>)"

subsection \<open>Push\<close>

type_synonym gw_error = "MessageReadback GatewayError"

record 'g Gateway =
  gw_save_draft :: "str \<Rightarrow> SendMessageRequest \<Rightarrow> str option \<Rightarrow> bool \<Rightarrow> str \<Rightarrow> 'g \<Rightarrow> (gw_error, str) result \<times> 'g"
  gw_delete_draft :: "str \<Rightarrow> str \<Rightarrow> bool \<Rightarrow> 'g \<Rightarrow> (gw_error, unit) result \<times> 'g"
  gw_send_message :: "str \<Rightarrow> SendMessageRequest \<Rightarrow> str option \<Rightarrow> str \<Rightarrow> 'g \<Rightarrow> (gw_error, SendFiling) result \<times> 'g"
  gw_set_keywords :: "str \<Rightarrow> str \<Rightarrow> SetKeywordsCommand \<Rightarrow> 'g \<Rightarrow> (gw_error, MutationOutcome) result \<times> 'g"
  gw_replace_mailboxes :: "str \<Rightarrow> str \<Rightarrow> str list \<Rightarrow> 'g \<Rightarrow> (gw_error, MutationOutcome) result \<times> 'g"
  gw_destroy_message :: "str \<Rightarrow> str \<Rightarrow> 'g \<Rightarrow> (gw_error, MutationOutcome) result \<times> 'g"

datatype Pushed =
    PushedEntity (pe_assigned: "str option") (pe_destroyed: "str option")
      (pe_filing: "SendFiling option") (pe_cursor: "SyncCursor option")
  | PushedMessage (pm_readback: "MessageReadback option") (pm_rejected: "str option")
      (pm_cursor: "SyncCursor option") (pm_retargeted: "str option")
  | PushedNoOp

definition message_pushed ::
  "(gw_error, MutationOutcome) result \<Rightarrow> str option \<Rightarrow> (FlushError, Pushed) result" where
  "message_pushed result retargeted_to = (case result of
     Inr outcome \<Rightarrow>
       Inr (PushedMessage (mo_message outcome) None (mo_cursor outcome) retargeted_to)
   | Inl (MutationRejected readback reason) \<Rightarrow>
       Inr (PushedMessage (Some readback) (Some reason) None retargeted_to)
   | Inl transport \<Rightarrow> Inl (classify_gateway_error transport))"

definition resolve_draft_flush_target :: "MailDb \<Rightarrow> str \<Rightarrow> str \<Rightarrow> str option" where
  "resolve_draft_flush_target db account_id draft_key =
     resolve_draft_entity (db_draft_alias db) account_id draft_key"

definition resolve_assertion_target ::
  "MailDb \<Rightarrow> str \<Rightarrow> Operation \<Rightarrow> (FlushError, (str \<times> str option) option) result" where
  "resolve_assertion_target db account_id operation =
     (let entity_id = en_id (op_entity operation) in
      if \<not> is_provisional_sent_id entity_id then Inr (Some (entity_id, None))
      else case resolve_send_alias (db_send_alias db) account_id entity_id of
        Some adopted \<Rightarrow> Inr (Some (adopted, Some entity_id))
      | None \<Rightarrow>
          (case find_operation_by_entity_id account_id entity_id KSend (db_outbox db) of
             Some send \<Rightarrow>
               (if is_terminal (op_state send) then Inr None
                else Inl \<lparr>fe_disposition = FDefer,
                          fe_message = L ''state assertion on a provisional send-<id> deferred: send not yet adopted''\<rparr>)
           | None \<Rightarrow> Inr None))"

definition entity_pushed ::
  "(gw_error, 'a) result \<times> 'g \<Rightarrow> ('a \<Rightarrow> Pushed) \<Rightarrow> (FlushError, Pushed) result \<times> 'g" where
  "entity_pushed r ok = (case r of
     (Inl error, g) \<Rightarrow> (Inl (classify_gateway_error error), g)
   | (Inr x, g) \<Rightarrow> (Inr (ok x), g))"

definition assertion_pushed ::
  "MailDb \<Rightarrow> str \<Rightarrow> Operation \<Rightarrow> (str \<Rightarrow> 'g \<Rightarrow> (gw_error, MutationOutcome) result \<times> 'g) \<Rightarrow> 'g \<Rightarrow>
   (FlushError, Pushed) result \<times> 'g" where
  "assertion_pushed db account_id operation call g =
     (case resolve_assertion_target db account_id operation of
        Inl error \<Rightarrow> (Inl error, g)
      | Inr None \<Rightarrow> (Inr PushedNoOp, g)
      | Inr (Some (target, retargeted_to)) \<Rightarrow>
          (case call target g of (result, g') \<Rightarrow> (message_pushed result retargeted_to, g')))"

definition push_operation ::
  "'g Gateway \<Rightarrow> str \<Rightarrow> Operation \<Rightarrow> MailDb \<Rightarrow> 'g \<Rightarrow> (FlushError, Pushed) result \<times> 'g" where
  "push_operation gateway account_id operation db g = (case op_intent operation of
     Inl error \<Rightarrow> (Inl (permanent_error error), g)
   | Inr (ISaveDraft True request) \<Rightarrow>
       entity_pushed (gw_save_draft gateway account_id request None False (op_id operation) g)
         (\<lambda>new_id. PushedEntity (Some new_id) None None None)
   | Inr (ISaveDraft False request) \<Rightarrow>
       entity_pushed
         (gw_save_draft gateway account_id request
            (resolve_draft_flush_target db account_id (en_id (op_entity operation)))
            (op_attempts operation > 0) (op_id operation) g)
         (\<lambda>new_id. PushedEntity (Some new_id) None None None)
   | Inr (IDiscardDraft idempotent_redelivery) \<Rightarrow>
       (case resolve_draft_flush_target db account_id (en_id (op_entity operation)) of
          None \<Rightarrow> (Inr (PushedEntity None (Some (en_id (op_entity operation))) None None), g)
        | Some target \<Rightarrow>
            entity_pushed (gw_delete_draft gateway account_id target idempotent_redelivery g)
              (\<lambda>_. PushedEntity None (Some target) None None))
   | Inr (ISend request) \<Rightarrow>
       entity_pushed
         (gw_send_message gateway account_id request
            (Option.bind (compose_key request) (resolve_draft_flush_target db account_id))
            (op_id operation) g)
         (\<lambda>filing. PushedEntity None None (Some filing) None)
   | Inr (ISetKeywords command) \<Rightarrow>
       assertion_pushed db account_id operation
         (\<lambda>target. gw_set_keywords gateway account_id target command) g
   | Inr (IReplaceMailboxes command) \<Rightarrow>
       assertion_pushed db account_id operation
         (\<lambda>target. gw_replace_mailboxes gateway account_id target (rmc_mailbox_ids command)) g
   | Inr IDestroy \<Rightarrow>
       assertion_pushed db account_id operation
         (\<lambda>target. gw_destroy_message gateway account_id target) g)"

subsection \<open>Settlement events\<close>

definition EVENT_TOPIC_OPERATION_SETTLED :: str where
  "EVENT_TOPIC_OPERATION_SETTLED = L ''operation.settled''"

definition EVENT_TOPIC_OPERATION_DISPATCH_UNCERTAIN :: str where
  "EVENT_TOPIC_OPERATION_DISPATCH_UNCERTAIN = L ''operation.dispatch_uncertain''"

definition settlement_of :: "Operation \<Rightarrow> OperationOutcome \<Rightarrow> OperationSettlement" where
  "settlement_of operation outcome =
     \<lparr>os_id = op_id operation, os_outcome = outcome, os_assigned_entity_id = None,
      os_error = None, os_send_filing = None\<rparr>"

definition emit_settlement ::
  "Clock \<Rightarrow> str \<Rightarrow> Operation \<Rightarrow> OperationSettlement \<Rightarrow> MailDb \<Rightarrow> DomainEvent \<times> MailDb" where
  "emit_settlement clock account_id operation settlement db =
     append_event clock account_id EVENT_TOPIC_OPERATION_SETTLED None
       (Some (case os_assigned_entity_id settlement of
                Some assigned \<Rightarrow> assigned | None \<Rightarrow> en_id (op_entity operation)))
       (PSettled settlement) db"

definition emit_dispatch_uncertain ::
  "Clock \<Rightarrow> str \<Rightarrow> Operation \<Rightarrow> str \<Rightarrow> MailDb \<Rightarrow> DomainEvent \<times> MailDb" where
  "emit_dispatch_uncertain clock account_id operation reason db =
     append_event clock account_id EVENT_TOPIC_OPERATION_DISPATCH_UNCERTAIN None
       (Some (en_id (op_entity operation))) (PUncertain (op_id operation) reason) db"

definition emit_failure_base_correction ::
  "Clock \<Rightarrow> str \<Rightarrow> Operation \<Rightarrow> MailDb \<Rightarrow> DomainEvent list \<times> MailDb" where
  "emit_failure_base_correction clock account_id operation db =
     (if en_kind (op_entity operation) \<noteq> EMessage \<or> \<not> is_state_assertion (op_kind operation)
      then ([], db)
      else case append_event clock account_id EVENT_TOPIC_MESSAGE_UPDATED None
                  (Some (en_id (op_entity operation))) (PReverted (en_id (op_entity operation))) db of
             (event, db') \<Rightarrow> ([event], db'))"

definition watermark_of :: "SyncCursor option \<Rightarrow> str option" where
  "watermark_of cursor = (case cursor of
     Some c \<Rightarrow> (if cu_object_type c = SMessage then Some (cu_state c) else None)
   | None \<Rightarrow> None)"

subsection \<open>Settlement\<close>

definition readback_batch :: "str \<Rightarrow> MessageReadback \<Rightarrow> SyncBatch" where
  "readback_batch target_id readback = (case readback of
     RbPresent record \<Rightarrow> upsert_message_batch record
   | RbRemoved \<Rightarrow> delete_message_batch target_id)"

definition settle_message_operation ::
  "Clock \<Rightarrow> str \<Rightarrow> Operation \<Rightarrow> MessageReadback option \<Rightarrow> str option \<Rightarrow> SyncCursor option \<Rightarrow>
   str option \<Rightarrow> MailDb \<Rightarrow> (svc_error, DomainEvent list) result \<times> MailDb" where
  "settle_message_operation clock account_id operation readback rejected cursor retargeted_to db =
     (let message_id = en_id (op_entity operation);
          target_id = (case retargeted_to of Some target \<Rightarrow> target | None \<Rightarrow> message_id);
          db = (if readback \<noteq> None \<or> rejected \<noteq> None
                then db\<lparr>db_outbox := remove_operation (op_id operation) (db_outbox db)\<rparr>
                else db\<lparr>db_outbox := mark_operation_settled (ck_now clock) (op_id operation)
                                      (ck_mono clock) (watermark_of cursor) (db_outbox db)\<rparr>);
          db = (case readback of
                  Some rb \<Rightarrow> apply_sync_batch account_id (readback_batch target_id rb) db
                | None \<Rightarrow> db)
      in and_then (refresh account_id message_id db)
        (\<lambda>_ db. and_then
          (case retargeted_to of
             None \<Rightarrow> (Inr (), db)
           | Some _ \<Rightarrow> and_then (refresh account_id target_id db) (\<lambda>_ db. (Inr (), db)))
          (\<lambda>_ db. case emit_settlement clock account_id operation
                          ((settlement_of operation
                              (if rejected \<noteq> None then OutFailed else OutApplied))
                             \<lparr>os_error := rejected\<rparr>) db of
                    (event, db) \<Rightarrow> (Inr [event], db))))"

text \<open>The loop over the rows of a settled content operation.\<close>

fun refresh_and_project ::
  "Clock \<Rightarrow> str \<Rightarrow> str list \<Rightarrow> MailDb \<Rightarrow> (svc_error, DomainEvent list) result \<times> MailDb" where
  "refresh_and_project clock account_id [] db = (Inr [], db)"
| "refresh_and_project clock account_id (message_id # rest) db =
     and_then (refresh account_id message_id db)
       (\<lambda>_ db. and_then (with_echo (projection_echo clock account_id message_id db))
         (\<lambda>events db. and_then (refresh_and_project clock account_id rest db)
           (\<lambda>fresh_events db. (Inr (events @ fresh_events), db))))"

definition touched_ids :: "MailDb \<Rightarrow> str \<Rightarrow> Operation \<Rightarrow> (svc_error, str list) result" where
  "touched_ids db account_id operation = (case op_touched_row_ids db account_id operation of
     Inl error \<Rightarrow> Inl (SStore error) | Inr ids \<Rightarrow> Inr ids)"

definition retire_consumed_draft ::
  "Clock \<Rightarrow> str \<Rightarrow> Operation \<Rightarrow> MailDb \<Rightarrow> DomainEvent list \<times> MailDb" where
  "retire_consumed_draft clock account_id operation db =
     (case (if op_kind operation = KSend
            then Option.bind (send_request_of operation) compose_key else None) of
        None \<Rightarrow> ([], db)
      | Some key \<Rightarrow>
          (let live_id = live_draft_id db account_id key;
               db = db\<lparr>db_draft_alias := remove_draft_alias account_id key (db_draft_alias db)\<rparr>;
               db = (if read_base db account_id live_id \<noteq> None
                     then tombstone_overlay account_id live_id db
                     else remove_overlay account_id live_id db)
           in deleted_echo clock account_id live_id db))"

definition settle_content_op_overlay ::
  "Clock \<Rightarrow> str \<Rightarrow> Operation \<Rightarrow> str \<Rightarrow> str \<Rightarrow> MailDb \<Rightarrow> (svc_error, DomainEvent list) result \<times> MailDb"
where
  "settle_content_op_overlay clock account_id operation old_live new_live db =
     and_then (with_echo (retire_consumed_draft clock account_id operation db))
       (\<lambda>consumed db. and_then
         (if old_live \<noteq> new_live then refresh_with_retire_echo clock account_id old_live db
          else (Inr [], db))
         (\<lambda>rotated db. case touched_ids db account_id operation of
            Inl error \<Rightarrow> (Inl error, db)
          | Inr ids \<Rightarrow> and_then (refresh_and_project clock account_id ids db)
              (\<lambda>projected db. (Inr (consumed @ rotated @ projected), db))))"

definition settle_entity_operation ::
  "Clock \<Rightarrow> str \<Rightarrow> Operation \<Rightarrow> str option \<Rightarrow> str option \<Rightarrow> SendFiling option \<Rightarrow> SyncCursor option \<Rightarrow>
   MailDb \<Rightarrow> (svc_error, DomainEvent list) result \<times> MailDb" where
  "settle_entity_operation clock account_id operation assigned destroyed filing cursor db =
     (let own = en_id (op_entity operation);
          old_live = (if en_kind (op_entity operation) = EDraft
                      then live_draft_id db account_id own else own);
          db = (case assigned of
                  Some new_id \<Rightarrow>
                    (if new_id \<noteq> own
                     then db\<lparr>db_draft_alias := set_draft_alias account_id own new_id (db_draft_alias db)\<rparr>
                     else db)
                | None \<Rightarrow> db);
          new_live = (case assigned of Some new_id \<Rightarrow> new_id | None \<Rightarrow> old_live)
      in case emit_settlement clock account_id operation
                ((settlement_of operation OutApplied)
                   \<lparr>os_assigned_entity_id := assigned, os_send_filing := filing\<rparr>) db of
        (settled, db) \<Rightarrow>
          (case (if op_kind operation = KDraftDelete then
                   deleted_echo clock account_id
                     (case destroyed of Some live \<Rightarrow> live | None \<Rightarrow> own)
                     (db\<lparr>db_draft_alias := remove_draft_alias account_id own (db_draft_alias db)\<rparr>)
                 else ([], db)) of
             (deleted, db) \<Rightarrow>
               (if is_draft_save (op_kind operation) \<or> op_kind operation = KSend
                then and_then
                  (settle_content_op_overlay clock account_id operation old_live new_live
                     (db\<lparr>db_outbox := mark_operation_settled (ck_now clock) (op_id operation)
                           (ck_mono clock) (watermark_of cursor) (db_outbox db)\<rparr>))
                  (\<lambda>fresh_events db. (Inr (settled # deleted @ fresh_events), db))
                else (Inr (settled # deleted),
                      db\<lparr>db_outbox := remove_operation (op_id operation) (db_outbox db)\<rparr>))))"

subsection \<open>The drain\<close>

definition TRANSIENT_STOP_THRESHOLD :: nat where
  "TRANSIENT_STOP_THRESHOLD = 3"

datatype FlushFlow = GoOn | StopDrain

text \<open>The provider, the database and the events of the pass so far.\<close>

type_synonym 'g flush_state = "'g \<times> MailDb \<times> DomainEvent list"

definition collecting ::
  "'g \<Rightarrow> DomainEvent list \<Rightarrow> (svc_error, DomainEvent list) result \<times> MailDb \<Rightarrow>
   (svc_error, FlushFlow) result \<times> 'g flush_state" where
  "collecting g events r = (case r of
     (Inl error, db) \<Rightarrow> (Inl error, (g, db, events))
   | (Inr fresh_events, db) \<Rightarrow> (Inr GoOn, (g, db, events @ fresh_events)))"

fun refresh_all :: "str \<Rightarrow> str list \<Rightarrow> MailDb \<Rightarrow> (svc_error, unit) result \<times> MailDb" where
  "refresh_all account_id [] db = (Inr (), db)"
| "refresh_all account_id (message_id # rest) db =
     and_then (refresh account_id message_id db) (\<lambda>_ db. refresh_all account_id rest db)"

definition refresh_touched :: "str \<Rightarrow> Operation \<Rightarrow> MailDb \<Rightarrow> (svc_error, unit) result \<times> MailDb" where
  "refresh_touched account_id operation db = (case touched_ids db account_id operation of
     Inl error \<Rightarrow> (Inl error, db)
   | Inr ids \<Rightarrow> refresh_all account_id ids db)"

definition set_state ::
  "Clock \<Rightarrow> Operation \<Rightarrow> OperationState \<Rightarrow> nat \<Rightarrow> str \<Rightarrow> MailDb \<Rightarrow> MailDb" where
  "set_state clock operation state attempts message db =
     db\<lparr>db_outbox := update_operation_state (ck_now clock) (op_id operation) state attempts
                       (Some message) (db_outbox db)\<rparr>"

text \<open>Routing one push outcome.\<close>

definition settle_noop ::
  "Clock \<Rightarrow> str \<Rightarrow> Operation \<Rightarrow> MailDb \<Rightarrow> (svc_error, DomainEvent list) result \<times> MailDb" where
  "settle_noop clock account_id operation db =
     and_then
       (refresh account_id (en_id (op_entity operation))
          (db\<lparr>db_outbox := remove_operation (op_id operation) (db_outbox db)\<rparr>))
       (\<lambda>_ db. case emit_settlement clock account_id operation (settlement_of operation OutApplied) db of
          (event, db) \<Rightarrow> (Inr [event], db))"

definition route_failure ::
  "Clock \<Rightarrow> str \<Rightarrow> Operation \<Rightarrow> FlushError \<Rightarrow> 'g flush_state \<Rightarrow>
   (svc_error, FlushFlow) result \<times> 'g flush_state" where
  "route_failure clock account_id operation error state = (case state of (g, db, events) \<Rightarrow>
     (let message = fe_message error; attempts = op_attempts operation + 1 in
      case fe_disposition error of
        FTransient \<Rightarrow>
          (Inr (if attempts < TRANSIENT_STOP_THRESHOLD then StopDrain else GoOn),
           (g, set_state clock operation Pending attempts message db, events))
      | FUncertain \<Rightarrow>
          (case emit_dispatch_uncertain clock account_id operation message
                  (set_state clock operation DispatchUncertain attempts message db) of
             (event, db) \<Rightarrow>
               (case refresh_touched account_id operation db of
                  (Inl e, db) \<Rightarrow> (Inl e, (g, db, events @ [event]))
                | (Inr _, db) \<Rightarrow> (Inr StopDrain, (g, db, events @ [event]))))
      | FPermanent \<Rightarrow>
          (case emit_settlement clock account_id operation
                  ((settlement_of operation OutFailed)\<lparr>os_error := Some message\<rparr>)
                  (set_state clock operation FailedState attempts message db) of
             (event, db) \<Rightarrow>
               (case emit_failure_base_correction clock account_id operation db of
                  (correction, db) \<Rightarrow>
                    (case refresh_touched account_id operation db of
                       (Inl e, db) \<Rightarrow> (Inl e, (g, db, events @ event # correction))
                     | (Inr _, db) \<Rightarrow> (Inr GoOn, (g, db, events @ event # correction)))))
      | FDefer \<Rightarrow>
          (Inr GoOn,
           (g, set_state clock operation Pending (op_attempts operation) message db, events))))"

definition route_pushed ::
  "Clock \<Rightarrow> str \<Rightarrow> Operation \<Rightarrow> Pushed \<Rightarrow> 'g flush_state \<Rightarrow>
   (svc_error, FlushFlow) result \<times> 'g flush_state" where
  "route_pushed clock account_id operation pushed state = (case state of (g, db, events) \<Rightarrow>
     collecting g events (case pushed of
       PushedEntity assigned destroyed filing cursor \<Rightarrow>
         settle_entity_operation clock account_id operation assigned destroyed filing cursor db
     | PushedMessage readback rejected cursor retargeted_to \<Rightarrow>
         settle_message_operation clock account_id operation readback rejected cursor retargeted_to db
     | PushedNoOp \<Rightarrow> settle_noop clock account_id operation db))"

definition flush_one ::
  "'g Gateway \<Rightarrow> Clock \<Rightarrow> str \<Rightarrow> str \<Rightarrow> 'g flush_state \<Rightarrow>
   (svc_error, FlushFlow) result \<times> 'g flush_state" where
  "flush_one gateway clock account_id operation_id state = (case state of (g, db, events) \<Rightarrow>
     (case get_operation (db_outbox db) operation_id of
        None \<Rightarrow> (Inr GoOn, state)
      | Some operation \<Rightarrow>
          (if \<not> is_flushable (op_state operation) then (Inr GoOn, state)
           else if op_kind operation = KSend \<and> op_state operation = Inflight then
             (let reason = L ''send interrupted mid-flush; delivery uncertain'' in
              case emit_dispatch_uncertain clock account_id operation reason
                     (set_state clock operation DispatchUncertain (op_attempts operation) reason db) of
                (event, db) \<Rightarrow> (Inr GoOn, (g, db, events @ [event])))
           else case claim_operation_for_flush (ck_now clock) operation_id (db_outbox db) of
             (claimed, tbl) \<Rightarrow>
               (let db = db\<lparr>db_outbox := tbl\<rparr> in
                if \<not> claimed then (Inr GoOn, (g, db, events))
                else case push_operation gateway account_id operation db g of
                  (Inr pushed, g) \<Rightarrow> route_pushed clock account_id operation pushed (g, db, events)
                | (Inl error, g) \<Rightarrow> route_failure clock account_id operation error (g, db, events)))))"

fun flush_loop ::
  "'g Gateway \<Rightarrow> Clock \<Rightarrow> str \<Rightarrow> str list \<Rightarrow> 'g flush_state \<Rightarrow>
   (svc_error, unit) result \<times> 'g flush_state" where
  "flush_loop gateway clock account_id [] state = (Inr (), state)"
| "flush_loop gateway clock account_id (operation_id # rest) state =
     (case flush_one gateway clock account_id operation_id state of
        (Inl error, state) \<Rightarrow> (Inl error, state)
      | (Inr StopDrain, state) \<Rightarrow> (Inr (), state)
      | (Inr GoOn, state) \<Rightarrow> flush_loop gateway clock account_id rest state)"

subsection \<open>Held sends\<close>

definition send_on_hold :: "Clock \<Rightarrow> Operation \<Rightarrow> bool" where
  "send_on_hold clock operation \<longleftrightarrow>
     (case op_send_at operation of Some at \<Rightarrow> at > ck_wall clock | None \<Rightarrow> False) \<or>
     (case op_hold_until_mono operation of Some hold \<Rightarrow> hold > ck_mono clock | None \<Rightarrow> False)"

definition save_in_progress :: "str \<Rightarrow> Operation \<Rightarrow> bool" where
  "save_in_progress key other \<longleftrightarrow>
     en_kind (op_entity other) = EDraft \<and> en_id (op_entity other) = key \<and>
     is_draft_save (op_kind other) \<and> (op_state other = Pending \<or> op_state other = Inflight)"

text \<open>A held send that still has to create its draft at the provider: its request and key.\<close>

definition needs_draft ::
  "Clock \<Rightarrow> str \<Rightarrow> Operation list \<Rightarrow> MailDb \<Rightarrow> Operation \<Rightarrow> (SendMessageRequest \<times> str) option" where
  "needs_draft clock account_id pending db operation =
     (if op_kind operation \<noteq> KSend \<or> op_state operation \<noteq> Pending \<or> \<not> send_on_hold clock operation
      then None
      else case send_request_of operation of
        None \<Rightarrow> None
      | Some request \<Rightarrow> (case compose_key request of
          None \<Rightarrow> None
        | Some key \<Rightarrow>
            (if resolve_draft_entity (db_draft_alias db) account_id key = Some key \<and>
                \<not> list_ex (save_in_progress key) pending
             then Some (request, key) else None)))"

fun ensure_loop ::
  "'g Gateway \<Rightarrow> Clock \<Rightarrow> str \<Rightarrow> Operation list \<Rightarrow> Operation list \<Rightarrow> 'g flush_state \<Rightarrow>
   (svc_error, unit) result \<times> 'g flush_state" where
  "ensure_loop gateway clock account_id pending [] state = (Inr (), state)"
| "ensure_loop gateway clock account_id pending (operation # rest) (g, db, events) =
     (case needs_draft clock account_id pending db operation of
        None \<Rightarrow> ensure_loop gateway clock account_id pending rest (g, db, events)
      | Some (request, key) \<Rightarrow>
          (case gw_save_draft gateway account_id request None False (op_id operation) g of
             (Inl _, g) \<Rightarrow> ensure_loop gateway clock account_id pending rest (g, db, events)
           | (Inr new_id, g) \<Rightarrow>
               (case and_then
                       (if new_id \<noteq> key
                        then refresh_with_retire_echo clock account_id key
                          (db\<lparr>db_draft_alias := set_draft_alias account_id key new_id (db_draft_alias db)\<rparr>)
                        else (Inr [],
                          db\<lparr>db_draft_alias := set_draft_alias account_id key new_id (db_draft_alias db)\<rparr>))
                       (\<lambda>gone db. and_then (refresh account_id new_id db)
                         (\<lambda>_ db. and_then (with_echo (projection_echo clock account_id new_id db))
                           (\<lambda>shown db. (Inr (gone @ shown), db)))) of
                  (Inl error, db) \<Rightarrow> (Inl error, (g, db, events))
                | (Inr fresh_events, db) \<Rightarrow>
                    ensure_loop gateway clock account_id pending rest (g, db, events @ fresh_events))))"

definition ensure_drafts_for_held_sends ::
  "'g Gateway \<Rightarrow> Clock \<Rightarrow> str \<Rightarrow> 'g flush_state \<Rightarrow> (svc_error, unit) result \<times> 'g flush_state" where
  "ensure_drafts_for_held_sends gateway clock account_id state = (case state of (g, db, events) \<Rightarrow>
     (let pending = list_pending_operations account_id (db_outbox db)
      in ensure_loop gateway clock account_id pending pending state))"

definition flush_account ::
  "'g Gateway \<Rightarrow> Clock \<Rightarrow> str \<Rightarrow> 'g \<Rightarrow> MailDb \<Rightarrow> (svc_error, unit) result \<times> 'g flush_state" where
  "flush_account gateway clock account_id g db =
     and_then (ensure_drafts_for_held_sends gateway clock account_id (g, db, []))
       (\<lambda>_ state. case state of (g, db, events) \<Rightarrow>
          flush_loop gateway clock account_id
            (map op_id (list_flushable_operations account_id (ck_wall clock) (ck_mono clock) (db_outbox db)))
            state)"

subsection \<open>Causal truncation\<close>

definition truncatable :: "SyncCursor option \<Rightarrow> int \<Rightarrow> SettledOperation \<Rightarrow> bool" where
  "truncatable message_cursor cycle_started_mono settled \<longleftrightarrow>
     (case so_settled_at_mono settled of Some at \<Rightarrow> at | None \<Rightarrow> 0) < cycle_started_mono \<or>
     (case (so_watermark settled, message_cursor) of
        (Some watermark, Some cursor) \<Rightarrow> watermark = cu_state cursor
      | _ \<Rightarrow> False)"

fun prune_echoes ::
  "Clock \<Rightarrow> str \<Rightarrow> (str \<times> DeriveDiff) list \<Rightarrow> MailDb \<Rightarrow> DomainEvent list \<times> MailDb" where
  "prune_echoes clock account_id [] db = ([], db)"
| "prune_echoes clock account_id ((message_id, diff) # rest) db =
     (case (if effectively_retired diff then deleted_echo clock account_id message_id db else ([], db)) of
        (events, db) \<Rightarrow>
          (case prune_echoes clock account_id rest db of (fresh_events, db) \<Rightarrow> (events @ fresh_events, db)))"

fun truncate_loop ::
  "Clock \<Rightarrow> str \<Rightarrow> SyncCursor option \<Rightarrow> int \<Rightarrow> SettledOperation list \<Rightarrow> MailDb \<Rightarrow>
   (svc_error, DomainEvent list) result \<times> MailDb" where
  "truncate_loop clock account_id message_cursor cycle [] db = (Inr [], db)"
| "truncate_loop clock account_id message_cursor cycle (settled # rest) db =
     (if \<not> truncatable message_cursor cycle settled
      then truncate_loop clock account_id message_cursor cycle rest db
      else case touched_ids db account_id (so_operation settled) of
        Inl error \<Rightarrow> (Inl error, db)
      | Inr touched \<Rightarrow>
          and_then
            (store_result (remove_op_and_derive account_id (row_id settled) touched
               (\<lambda>message_id snapshot. fold_overlay_row snapshot message_id) db))
            (\<lambda>diffs db.
               case (if is_content_op (so_operation settled)
                     then prune_echoes clock account_id (zip touched diffs) db else ([], db)) of
                 (events, db) \<Rightarrow>
                   and_then (truncate_loop clock account_id message_cursor cycle rest db)
                     (\<lambda>fresh_events db. (Inr (events @ fresh_events), db))))"

definition truncate_settled_operations ::
  "Clock \<Rightarrow> str \<Rightarrow> int \<Rightarrow> MailDb \<Rightarrow> (svc_error, DomainEvent list) result \<times> MailDb" where
  "truncate_settled_operations clock account_id cycle_started_mono db =
     truncate_loop clock account_id (db_cursors db (account_id, SMessage)) cycle_started_mono
       (list_settled_operations account_id (db_outbox db)) db"

subsection \<open>What the settlement helpers leave of the outbox\<close>

lemma emit_outbox [outbox_frame]:
  "db_outbox (snd (emit_settlement ck a op st db)) = db_outbox db"
  "db_outbox (snd (emit_dispatch_uncertain ck a op r db)) = db_outbox db"
  "db_outbox (snd (emit_failure_base_correction ck a op db)) = db_outbox db"
  by (simp_all add: emit_settlement_def emit_dispatch_uncertain_def emit_failure_base_correction_def
      append_event_def Let_def)

lemma fold_outbox:
  assumes "\<And>x d. db_outbox (f x d) = db_outbox d"
  shows "db_outbox (fold f xs d) = db_outbox d"
  by (induction xs arbitrary: d) (simp_all add: assms)

lemma apply_sync_batch_outbox [outbox_frame]: "db_outbox (apply_sync_batch a b db) = db_outbox db"
proof -
  have del: "db_outbox (fold (delete_and_write_through a) ms d) = db_outbox d" for ms d
    by (rule fold_outbox)
      (simp add: delete_and_write_through_def registry_on_delete_def delete_message_def)
  have app: "db_outbox (fold (apply_and_write_through a) rs d) = db_outbox d" for rs d
    by (rule fold_outbox)
      (simp add: apply_and_write_through_def registry_on_upsert_def apply_message_record_def Let_def
        split: option.split)
  have cur: "db_outbox (fold (upsert_sync_cursor a) cs d) = db_outbox d" for cs d
    by (rule fold_outbox) (simp add: upsert_sync_cursor_def)
  show ?thesis
    by (simp add: apply_sync_batch_def prune_messages_absent_from_remote_def Let_def del app cur)
qed

lemma refresh_and_project_outbox [outbox_frame]:
  "db_outbox (snd (refresh_and_project ck a ms db)) = db_outbox db"
proof (induction ms arbitrary: db)
  case (Cons m ms)
  show ?case
    by (auto intro!: and_then_outbox simp: outbox_frame with_echo_outbox Cons.IH)
qed simp

lemma retire_consumed_outbox [outbox_frame]:
  "db_outbox (snd (retire_consumed_draft ck a op db)) = db_outbox db"
  by (auto simp: retire_consumed_draft_def Let_def deleted_echo_outbox tombstone_overlay_def
      remove_overlay_def split: option.split)

lemma settle_content_outbox [outbox_frame]:
  "db_outbox (snd (settle_content_op_overlay ck a op o' n db)) = db_outbox db"
  unfolding settle_content_op_overlay_def
  by (intro and_then_outbox)
    (auto simp: outbox_frame with_echo_outbox split: sum.split intro!: and_then_outbox)

lemma refresh_all_outbox [outbox_frame]: "db_outbox (snd (refresh_all a ms db)) = db_outbox db"
proof (induction ms arbitrary: db)
  case (Cons m ms)
  show ?case by (auto intro!: and_then_outbox simp: outbox_frame Cons.IH)
qed simp

lemma refresh_touched_outbox [outbox_frame]:
  "db_outbox (snd (refresh_touched a op db)) = db_outbox db"
  by (simp add: refresh_touched_def outbox_frame split: sum.split)

subsection \<open>One step of the drain writes one row\<close>

definition confined :: "str \<Rightarrow> outbox \<Rightarrow> outbox \<Rightarrow> bool" where
  "confined i tbl tbl' \<longleftrightarrow>
     (outbox_inv tbl \<longrightarrow> outbox_inv tbl' \<and> (\<forall>j. j \<noteq> i \<longrightarrow> get_operation tbl' j = get_operation tbl j))"

text \<open>The authored part of an operation: everything but its lifecycle columns.\<close>

definition same_authored :: "Operation \<Rightarrow> Operation \<Rightarrow> bool" where
  "same_authored op op' \<longleftrightarrow>
     op' = op\<lparr>op_state := op_state op', op_attempts := op_attempts op',
             op_last_error := op_last_error op', op_updated_at := op_updated_at op'\<rparr>"

definition keeps :: "str \<Rightarrow> outbox \<Rightarrow> outbox \<Rightarrow> bool" where
  "keeps i tbl tbl' \<longleftrightarrow>
     (outbox_inv tbl \<longrightarrow> (\<forall>op. get_operation tbl i = Some op \<longrightarrow>
        (\<exists>op'. get_operation tbl' i = Some op' \<and> same_authored op op')))"

lemma same_authored_refl [simp]: "same_authored op op"
  by (simp add: same_authored_def)

lemma same_authored_fields:
  "same_authored op op' \<Longrightarrow> op_kind op' = op_kind op \<and> op_payload op' = op_payload op \<and>
     op_entity op' = op_entity op \<and> op_id op' = op_id op"
  unfolding same_authored_def by (cases op; cases op') simp

lemma same_authored_trans: "same_authored a b \<Longrightarrow> same_authored b c \<Longrightarrow> same_authored a c"
  unfolding same_authored_def by (cases a; cases b; cases c) simp

lemma confined_refl [simp]: "confined i tbl tbl"
  by (simp add: confined_def)

lemma keeps_refl [simp]: "keeps i tbl tbl"
  by (simp add: keeps_def)

lemma confined_trans: "confined i a b \<Longrightarrow> confined i b c \<Longrightarrow> confined i a c"
  by (simp add: confined_def)

lemma keeps_trans: "confined i a b \<Longrightarrow> keeps i a b \<Longrightarrow> keeps i b c \<Longrightarrow> keeps i a c"
  unfolding keeps_def confined_def by (metis same_authored_trans)

lemma confined_remove [simp]: "confined i tbl (remove_operation i tbl)"
  by (simp add: confined_def remove_inv)

lemma confined_update [simp]: "confined i tbl (update_operation_state now i s a e tbl)"
  by (simp add: confined_def get_update_state)

lemma confined_mark [simp]: "confined i tbl (mark_operation_settled now i m w tbl)"
  by (simp add: confined_def get_mark_settled)

lemma confined_claim [simp]: "confined i tbl (snd (claim_operation_for_flush now i tbl))"
  by (simp add: confined_def get_claim)

lemma keeps_update [simp]: "keeps i tbl (update_operation_state now i s a e tbl)"
  by (auto simp: keeps_def get_update_state same_authored_def)

lemma keeps_mark [simp]: "keeps i tbl (mark_operation_settled now i m w tbl)"
  by (auto simp: keeps_def get_mark_settled same_authored_def)

lemma keeps_claim [simp]: "keeps i tbl (snd (claim_operation_for_flush now i tbl))"
  by (auto simp: keeps_def get_claim same_authored_def)

text \<open>The table after each way of settling.\<close>

lemma pair_outbox:
  "emit_settlement ck a op st d = (e, d') \<Longrightarrow> db_outbox d' = db_outbox d"
  "emit_dispatch_uncertain ck a op rs d = (e, d') \<Longrightarrow> db_outbox d' = db_outbox d"
  "emit_failure_base_correction ck a op d = (es, d') \<Longrightarrow> db_outbox d' = db_outbox d"
  "deleted_echo ck a m d = (es, d') \<Longrightarrow> db_outbox d' = db_outbox d"
  "refresh_touched a op d = (u, d') \<Longrightarrow> db_outbox d' = db_outbox d"
  by (metis emit_outbox snd_conv, metis emit_outbox snd_conv, metis emit_outbox snd_conv,
      metis deleted_echo_outbox snd_conv, metis refresh_touched_outbox snd_conv)

lemma settle_message_table:
  "db_outbox (snd (settle_message_operation ck a op rb rj cu rt db)) =
     (if rb \<noteq> None \<or> rj \<noteq> None then remove_operation (op_id op) (db_outbox db)
      else mark_operation_settled (ck_now ck) (op_id op) (ck_mono ck) (watermark_of cu) (db_outbox db))"
  unfolding settle_message_operation_def Let_def
  by (intro and_then_outbox)
    (auto simp: outbox_frame pair_outbox split: option.split prod.split intro!: and_then_outbox)

lemma settle_noop_table:
  "db_outbox (snd (settle_noop ck a op db)) = remove_operation (op_id op) (db_outbox db)"
  unfolding settle_noop_def
  by (rule and_then_outbox) (auto simp: outbox_frame pair_outbox split: prod.split)

lemma settle_entity_table:
  "db_outbox (snd (settle_entity_operation ck a op asg ds fl cu db)) =
     (if is_draft_save (op_kind op) \<or> op_kind op = KSend
      then mark_operation_settled (ck_now ck) (op_id op) (ck_mono ck) (watermark_of cu) (db_outbox db)
      else remove_operation (op_id op) (db_outbox db))"
proof -
  define db1 where "db1 = (case asg of
      Some new_id \<Rightarrow> (if new_id \<noteq> en_id (op_entity op)
        then db\<lparr>db_draft_alias := set_draft_alias a (en_id (op_entity op)) new_id (db_draft_alias db)\<rparr>
        else db)
    | None \<Rightarrow> db)"
  have db1: "db_outbox db1 = db_outbox db" by (simp add: db1_def split: option.split)
  obtain e db2 where e: "emit_settlement ck a op ((settlement_of op OutApplied)
      \<lparr>os_assigned_entity_id := asg, os_send_filing := fl\<rparr>) db1 = (e, db2)"
    by (cases "emit_settlement ck a op ((settlement_of op OutApplied)
      \<lparr>os_assigned_entity_id := asg, os_send_filing := fl\<rparr>) db1")
  then have db2: "db_outbox db2 = db_outbox db"
    using emit_outbox(1) [of ck a op "(settlement_of op OutApplied)
      \<lparr>os_assigned_entity_id := asg, os_send_filing := fl\<rparr>" db1] db1 by simp
  show ?thesis
    unfolding settle_entity_operation_def Let_def db1_def [symmetric] e
    by (auto simp: db2 outbox_frame pair_outbox split: prod.split option.split intro!: and_then_outbox)
qed

abbreviation flushed_db :: "(svc_error, 'x) result \<times> 'g flush_state \<Rightarrow> MailDb" where
  "flushed_db r \<equiv> fst (snd (snd r))"

lemma collecting_db: "flushed_db (collecting g ev r) = snd r"
  by (simp add: collecting_def split: prod.split sum.split)

lemma route_failure_table:
  "\<exists>s a. db_outbox (flushed_db (route_failure ck acc op err (g, db, ev))) =
     update_operation_state (ck_now ck) (op_id op) s a (Some (fe_message err)) (db_outbox db)"
proof (cases "fe_disposition err")
  case FUncertain
  then show ?thesis
    by (auto simp: route_failure_def Let_def set_state_def split: prod.split sum.split
        dest!: pair_outbox intro!: exI [where x = DispatchUncertain] exI [where x = "op_attempts op + 1"])
next
  case FPermanent
  then show ?thesis
    by (auto simp: route_failure_def Let_def set_state_def split: prod.split sum.split
        dest!: pair_outbox intro!: exI [where x = FailedState] exI [where x = "op_attempts op + 1"])
qed (auto simp: route_failure_def Let_def set_state_def)

lemma route_pushed_table:
  "db_outbox (flushed_db (route_pushed ck acc op p (g, db, ev))) \<in>
     {remove_operation (op_id op) (db_outbox db)} \<union>
     {mark_operation_settled (ck_now ck) (op_id op) (ck_mono ck) w (db_outbox db) | w. True}"
  by (cases p) (auto simp: route_pushed_def collecting_db settle_message_table settle_entity_table
      settle_noop_table)

lemma push_content:
  assumes "is_content_kind (op_kind op)" and "push_operation gw acc op db g = (Inr p, g')"
  shows "\<exists>asg ds fl cu. p = PushedEntity asg ds fl cu"
proof -
  have "\<not> (\<exists>c. op_intent op = Inr (ISetKeywords c)) \<and>
      \<not> (\<exists>c. op_intent op = Inr (IReplaceMailboxes c)) \<and> op_intent op \<noteq> Inr IDestroy"
    using assms(1)
    by (auto simp: op_intent_def from_parts_def kind_class_defs map_result_def decode_request_def
        split: if_splits OperationKind.splits Payload.splits sum.splits)
  then show ?thesis using assms(2)
    by (auto simp: push_operation_def entity_pushed_def
        split: sum.splits MailIntent.splits prod.splits bool.splits option.splits)
qed

lemma route_pushed_content:
  assumes "is_content_kind (op_kind op)"
  shows "keeps (op_id op) (db_outbox db)
    (db_outbox (flushed_db (route_pushed ck acc op (PushedEntity asg ds fl cu) (g, db, ev))))"
  using assms
  by (auto simp: route_pushed_def collecting_db settle_entity_table kind_class_defs)

lemma flush_one_confined:
  "confined i (db_outbox db) (db_outbox (flushed_db (flush_one gw ck acc i (g, db, ev))))"
proof (cases "get_operation (db_outbox db) i")
  case None
  then show ?thesis by (simp add: flush_one_def)
next
  case (Some op)
  have id: "op_id op = i" using get_operation_id [OF Some] .
  show ?thesis
  proof (cases "\<not> is_flushable (op_state op) \<or> (op_kind op = KSend \<and> op_state op = Inflight)")
    case True
    then show ?thesis using Some id
      by (auto simp: flush_one_def Let_def set_state_def split: prod.split dest!: pair_outbox)
  next
    case False
    obtain won tbl where c: "claim_operation_for_flush (ck_now ck) i (db_outbox db) = (won, tbl)"
      by (cases "claim_operation_for_flush (ck_now ck) i (db_outbox db)")
    have claimed: "confined i (db_outbox db) tbl"
      using confined_claim [of i "db_outbox db" "ck_now ck"] c by simp
    obtain res g' where p: "push_operation gw acc op (db\<lparr>db_outbox := tbl\<rparr>) g = (res, g')"
      by (cases "push_operation gw acc op (db\<lparr>db_outbox := tbl\<rparr>) g")
    show ?thesis
    proof (cases res)
      case (Inl err)
      then show ?thesis
        using Some False c p claimed id route_failure_table [of ck acc op err g' "db\<lparr>db_outbox := tbl\<rparr>" ev]
        by (auto simp: flush_one_def Let_def intro: confined_trans)
    next
      case (Inr q)
      then show ?thesis
        using Some False c p claimed id route_pushed_table [of ck acc op q g' "db\<lparr>db_outbox := tbl\<rparr>" ev]
        by (auto simp: flush_one_def Let_def intro: confined_trans)
    qed
  qed
qed

lemma flush_one_keeps_content:
  assumes "get_operation (db_outbox db) i = Some op" and "is_content_op op"
  shows "keeps i (db_outbox db) (db_outbox (flushed_db (flush_one gw ck acc i (g, db, ev))))"
proof -
  have id: "op_id op = i" using get_operation_id [OF assms(1)] .
  have kind: "is_content_kind (op_kind op)" using assms(2) by (simp add: is_content_op_def)
  show ?thesis
  proof (cases "\<not> is_flushable (op_state op) \<or> (op_kind op = KSend \<and> op_state op = Inflight)")
    case True
    then show ?thesis using assms(1) id
      by (auto simp: flush_one_def Let_def set_state_def split: prod.split dest!: pair_outbox)
  next
    case False
    obtain won tbl where c: "claim_operation_for_flush (ck_now ck) i (db_outbox db) = (won, tbl)"
      by (cases "claim_operation_for_flush (ck_now ck) i (db_outbox db)")
    have claimed: "confined i (db_outbox db) tbl" "keeps i (db_outbox db) tbl"
      using confined_claim [of i "db_outbox db" "ck_now ck"]
        keeps_claim [of i "db_outbox db" "ck_now ck"] c by simp_all
    obtain res g' where p: "push_operation gw acc op (db\<lparr>db_outbox := tbl\<rparr>) g = (res, g')"
      by (cases "push_operation gw acc op (db\<lparr>db_outbox := tbl\<rparr>) g")
    show ?thesis
    proof (cases res)
      case (Inl err)
      then show ?thesis
        using assms(1) False c p claimed id
          route_failure_table [of ck acc op err g' "db\<lparr>db_outbox := tbl\<rparr>" ev]
        by (auto simp: flush_one_def Let_def intro: keeps_trans)
    next
      case (Inr q)
      obtain asg ds fl cu where q: "q = PushedEntity asg ds fl cu"
        using push_content [OF kind p [unfolded Inr]] by blast
      show ?thesis
        using assms(1) False c p claimed id Inr q
          route_pushed_content [OF kind, of "db\<lparr>db_outbox := tbl\<rparr>" ck acc asg ds fl cu g' ev]
        by (auto simp: flush_one_def Let_def intro: keeps_trans)
    qed
  qed
qed

subsection \<open>A whole pass\<close>

lemma ensure_loop_outbox:
  "db_outbox (flushed_db (ensure_loop gw ck acc pending ops (g, db, ev))) = db_outbox db"
proof (induction ops arbitrary: g db ev)
  case (Cons op ops)
  show ?case
  proof (cases "needs_draft ck acc pending db op")
    case None
    then show ?thesis using Cons.IH by simp
  next
    case (Some rk)
    obtain request key where rk: "rk = (request, key)" by (cases rk)
    obtain res g' where s: "gw_save_draft gw acc request None False (op_id op) g = (res, g')"
      by (cases "gw_save_draft gw acc request None False (op_id op) g")
    show ?thesis
    proof (cases res)
      case (Inl e)
      then show ?thesis using Cons.IH Some rk s by simp
    next
      case (Inr new_id)
      let ?db = "db\<lparr>db_draft_alias := set_draft_alias acc key new_id (db_draft_alias db)\<rparr>"
      let ?r = "and_then (if new_id \<noteq> key then refresh_with_retire_echo ck acc key ?db else (Inr [], ?db))
          (\<lambda>gone db. and_then (refresh acc new_id db)
            (\<lambda>_ db. and_then (with_echo (projection_echo ck acc new_id db))
              (\<lambda>shown db. (Inr (gone @ shown), db))))"
      have "db_outbox (snd ?r) = db_outbox db"
        by (auto intro!: and_then_outbox simp: outbox_frame with_echo_outbox)
      then show ?thesis
        using Cons.IH Some rk s Inr by (auto split: prod.split sum.split)
    qed
  qed
qed simp

lemma flush_loop_step:
  assumes "flush_one gw ck acc i st = (r, st1)"
  shows "flush_loop gw ck acc (i # rest) st =
    (case r of Inl e \<Rightarrow> (Inl e, st1) | Inr StopDrain \<Rightarrow> (Inr (), st1)
     | Inr GoOn \<Rightarrow> flush_loop gw ck acc rest st1)"
  using assms by (simp split: sum.split FlushFlow.split)

text \<open>An invariant of the table that every step keeps holds after the loop.\<close>

lemma flush_loop_invariant:
  assumes step: "\<And>i g db ev. i \<in> set ids \<Longrightarrow> P (db_outbox db) \<Longrightarrow>
      P (db_outbox (flushed_db (flush_one gw ck acc i (g, db, ev))))"
    and "P (db_outbox db)"
  shows "P (db_outbox (flushed_db (flush_loop gw ck acc ids (g, db, ev))))"
  using assms
proof (induction ids arbitrary: g db ev)
  case (Cons i ids)
  obtain r g1 db1 ev1 where f: "flush_one gw ck acc i (g, db, ev) = (r, g1, db1, ev1)"
    by (metis prod.exhaust)
  have p1: "P (db_outbox db1)" using Cons.prems(1) [of i db g ev] Cons.prems(2) f by simp
  have rest: "P (db_outbox (flushed_db (flush_loop gw ck acc ids (g1, db1, ev1))))"
    using Cons.IH Cons.prems(1) p1 by simp
  show ?case unfolding flush_loop_step [OF f]
    using p1 rest by (auto split: sum.split FlushFlow.split)
qed simp

lemma flush_account_invariant:
  assumes "\<And>i g db ev. P (db_outbox db) \<Longrightarrow>
      P (db_outbox (flushed_db (flush_one gw ck acc i (g, db, ev))))"
    and "P (db_outbox db)"
  shows "P (db_outbox (flushed_db (flush_account gw ck acc g db)))"
proof -
  obtain r g1 db1 ev1 where e:
    "ensure_drafts_for_held_sends gw ck acc (g, db, []) = (r, g1, db1, ev1)"
    by (metis prod.exhaust)
  then have "db_outbox db1 = db_outbox db"
    using ensure_loop_outbox [of gw ck acc _ _ g db "[]"]
    by (auto simp: ensure_drafts_for_held_sends_def Let_def dest!: arg_cong [where f = flushed_db])
  with assms(2) have p1: "P (db_outbox db1)" by simp
  show ?thesis
    using p1 flush_loop_invariant [where P = P, OF assms(1) p1]
    by (cases r) (simp_all add: flush_account_def e)
qed

text \<open>
  C1. Authored mail survives the drain: whatever the provider answers, an account flush never
  removes a draft save or a send from the log and never changes what it carries; only its lifecycle
  columns move.
\<close>

theorem flush_keeps_authored_mail:
  assumes "outbox_inv (db_outbox db)" and "get_operation (db_outbox db) i = Some op"
    and "is_content_op op"
  shows "\<exists>op'. get_operation (db_outbox (flushed_db (flush_account gw ck acc g db))) i = Some op' \<and>
    same_authored op op'"
proof -
  let ?P = "\<lambda>tbl. outbox_inv tbl \<and> (\<exists>op'. get_operation tbl i = Some op' \<and> same_authored op op')"
  have "?P (db_outbox (flushed_db (flush_account gw ck acc g db)))"
  proof (rule flush_account_invariant [where P = ?P])
    fix j g ev and db :: MailDb
    assume p: "?P (db_outbox db)"
    let ?tbl = "db_outbox (flushed_db (flush_one gw ck acc j (g, db, ev)))"
    obtain op' where op': "get_operation (db_outbox db) i = Some op'" "same_authored op op'"
      using p by blast
    then have content: "is_content_op op'"
      using assms(3) same_authored_fields [OF op'(2)] by (simp add: is_content_op_def)
    have conf: "confined j (db_outbox db) ?tbl" by (rule flush_one_confined)
    show "?P ?tbl"
    proof (cases "j = i")
      case True
      then have "keeps i (db_outbox db) ?tbl"
        using flush_one_keeps_content [OF op'(1) content] by simp
      then obtain op2 where "get_operation ?tbl i = Some op2" "same_authored op' op2"
        using p op'(1) unfolding keeps_def by blast
      moreover have "outbox_inv ?tbl" using p conf by (simp add: confined_def)
      ultimately show ?thesis using same_authored_trans [OF op'(2)] by blast
    next
      case False
      then have "get_operation ?tbl i = get_operation (db_outbox db) i" "outbox_inv ?tbl"
        using p conf by (simp_all add: confined_def)
      then show ?thesis using p by simp
    qed
  next
    show "?P (db_outbox db)" using assms(1,2) same_authored_refl by blast
  qed
  then show ?thesis by blast
qed

lemma flush_one_parked:
  assumes "get_operation (db_outbox db) i = Some op" and "\<not> is_flushable (op_state op)"
  shows "flush_one gw ck acc i (g, db, ev) = (Inr GoOn, (g, db, ev))"
  using assms by (simp add: flush_one_def)

text \<open>
  A parked or failed operation is left alone: an account flush neither dispatches nor rewrites
  an operation that is dispatch-uncertain, failed or already applied. In particular a send whose
  delivery is unknown is never resent without the user.
\<close>

lemma parked_operations_rest:
  assumes "outbox_inv (db_outbox db)" and "get_operation (db_outbox db) i = Some op"
    and "\<not> is_flushable (op_state op)"
  shows "get_operation (db_outbox (flushed_db (flush_account gw ck acc g db))) i = Some op"
proof -
  let ?P = "\<lambda>tbl. outbox_inv tbl \<and> get_operation tbl i = Some op"
  have "?P (db_outbox (flushed_db (flush_account gw ck acc g db)))"
  proof (rule flush_account_invariant [where P = ?P])
    fix j g ev and db :: MailDb
    assume p: "?P (db_outbox db)"
    have "confined j (db_outbox db) (db_outbox (flushed_db (flush_one gw ck acc j (g, db, ev))))"
      by (rule flush_one_confined)
    then show "?P (db_outbox (flushed_db (flush_one gw ck acc j (g, db, ev))))"
      using p flush_one_parked [of db i op gw ck acc g ev] assms(3)
      by (cases "j = i") (auto simp: confined_def)
  qed (use assms in auto)
  then show ?thesis by blast
qed

subsection \<open>Sends leave at most once per pass\<close>

text \<open>The provider with a record of the operations it was asked to send.\<close>

definition log_sends :: "'g Gateway \<Rightarrow> ('g \<times> str list) Gateway" where
  "log_sends gw =
     \<lparr>gw_save_draft = (\<lambda>a r p b i (g, sent). case gw_save_draft gw a r p b i g of (x, g) \<Rightarrow> (x, (g, sent))),
      gw_delete_draft = (\<lambda>a t b (g, sent). case gw_delete_draft gw a t b g of (x, g) \<Rightarrow> (x, (g, sent))),
      gw_send_message = (\<lambda>a r c i (g, sent). case gw_send_message gw a r c i g of (x, g) \<Rightarrow> (x, (g, sent @ [i]))),
      gw_set_keywords = (\<lambda>a t c (g, sent). case gw_set_keywords gw a t c g of (x, g) \<Rightarrow> (x, (g, sent))),
      gw_replace_mailboxes = (\<lambda>a t c (g, sent). case gw_replace_mailboxes gw a t c g of (x, g) \<Rightarrow> (x, (g, sent))),
      gw_destroy_message = (\<lambda>a t (g, sent). case gw_destroy_message gw a t g of (x, g) \<Rightarrow> (x, (g, sent)))\<rparr>"

abbreviation sent_log :: "'r \<times> ('g \<times> str list) \<times> 'd \<Rightarrow> str list" where
  "sent_log r \<equiv> snd (fst (snd r))"

lemma entity_pushed_snd: "snd (entity_pushed r ok) = snd r"
  by (simp add: entity_pushed_def split: prod.split sum.split)

lemma assertion_pushed_log:
  assumes "\<And>t g sent. snd (snd (call t (g, sent))) = sent"
  shows "snd (snd (assertion_pushed db acc op call (g, sent))) = sent"
  using assms
  by (auto simp: assertion_pushed_def split: sum.split option.split prod.split) (metis snd_conv)+

lemma intent_send_kind: "op_intent op = Inr (ISend request) \<Longrightarrow> op_kind op = KSend"
  by (auto simp: op_intent_def from_parts_def map_result_def decode_request_def
      split: if_splits OperationKind.splits Payload.splits sum.splits)

lemma push_log:
  "snd (snd (push_operation (log_sends gw) acc op db (g, sent))) =
     (if (\<exists>request. op_intent op = Inr (ISend request)) then sent @ [op_id op] else sent)"
proof (cases "op_intent op")
  case (Inr intent)
  then show ?thesis
  proof (cases intent)
    case (ISaveDraft create request)
    then show ?thesis using Inr
      by (cases create) (simp_all add: push_operation_def entity_pushed_snd log_sends_def split: prod.split)
  qed (auto simp: push_operation_def entity_pushed_snd log_sends_def
      split: prod.split option.split intro!: assertion_pushed_log)
qed (simp add: push_operation_def)

lemma route_log:
  "fst (snd (route_pushed ck acc op q (g, db, ev))) = g"
  "fst (snd (route_failure ck acc op err (g, db, ev))) = g"
  by (simp add: route_pushed_def collecting_def split: prod.split sum.split)
    (cases "fe_disposition err"; simp add: route_failure_def Let_def split: prod.split sum.split)

lemma flush_one_log:
  "sent_log (flush_one (log_sends gw) ck acc i ((g, sent), db, ev)) = sent \<or>
   (sent_log (flush_one (log_sends gw) ck acc i ((g, sent), db, ev)) = sent @ [i] \<and>
    (\<exists>op. get_operation (db_outbox db) i = Some op \<and> op_kind op = KSend \<and> op_state op = Pending))"
proof (cases "get_operation (db_outbox db) i")
  case None
  then show ?thesis by (simp add: flush_one_def)
next
  case (Some op)
  have id: "op_id op = i" using get_operation_id [OF Some] .
  show ?thesis
  proof (cases "\<not> is_flushable (op_state op) \<or> (op_kind op = KSend \<and> op_state op = Inflight)")
    case True
    then show ?thesis using Some by (auto simp: flush_one_def Let_def split: prod.split)
  next
    case False
    obtain won tbl where c: "claim_operation_for_flush (ck_now ck) i (db_outbox db) = (won, tbl)"
      by (cases "claim_operation_for_flush (ck_now ck) i (db_outbox db)")
    obtain res g' sent' where p:
      "push_operation (log_sends gw) acc op (db\<lparr>db_outbox := tbl\<rparr>) (g, sent) = (res, g', sent')"
      by (metis prod.exhaust)
    have log: "sent' = (if (\<exists>request. op_intent op = Inr (ISend request)) then sent @ [i] else sent)"
      using push_log [of gw acc op "db\<lparr>db_outbox := tbl\<rparr>" g sent] p id by simp
    have out: "sent_log (flush_one (log_sends gw) ck acc i ((g, sent), db, ev)) =
        (if won then sent' else sent)"
      using Some False c p by (cases res) (auto simp: flush_one_def Let_def route_log)
    show ?thesis
      using out log Some False intent_send_kind [of op] by (auto simp: is_flushable_def)
  qed
qed

lemma flush_loop_log:
  assumes "distinct ids" and "outbox_inv (db_outbox db)"
    and "\<And>i. i \<in> set ids \<Longrightarrow> get_operation (db_outbox db) i = get_operation tbl i"
  shows "\<exists>new. sent_log (flush_loop (log_sends gw) ck acc ids ((g, sent), db, ev)) = sent @ new \<and>
    distinct new \<and> set new \<subseteq> set ids \<and>
    (\<forall>i \<in> set new. \<exists>op. get_operation tbl i = Some op \<and> op_kind op = KSend \<and> op_state op = Pending)"
  using assms
proof (induction ids arbitrary: g sent db ev)
  case (Cons i ids)
  obtain r g1 sent1 db1 ev1 where f:
    "flush_one (log_sends gw) ck acc i ((g, sent), db, ev) = (r, (g1, sent1), db1, ev1)"
    by (metis prod.exhaust)
  have conf: "confined i (db_outbox db) (db_outbox db1)"
    using flush_one_confined [of i db "log_sends gw" ck acc "(g, sent)" ev] f by simp
  have inv: "outbox_inv (db_outbox db1)" using conf Cons.prems(2) by (simp add: confined_def)
  have same: "get_operation (db_outbox db1) j = get_operation tbl j" if "j \<in> set ids" for j
  proof -
    have "j \<noteq> i" using that Cons.prems(1) by auto
    then show ?thesis
      using conf Cons.prems(2) Cons.prems(3) [of j] that by (simp add: confined_def)
  qed
  have now: "sent1 = sent \<or> (sent1 = sent @ [i] \<and>
      (\<exists>op. get_operation tbl i = Some op \<and> op_kind op = KSend \<and> op_state op = Pending))"
    using flush_one_log [of gw ck acc i g sent db ev] f Cons.prems(3) [of i] by simp
  obtain new where new:
    "sent_log (flush_loop (log_sends gw) ck acc ids ((g1, sent1), db1, ev1)) = sent1 @ new"
    "distinct new" "set new \<subseteq> set ids"
    "\<forall>i \<in> set new. \<exists>op. get_operation tbl i = Some op \<and> op_kind op = KSend \<and> op_state op = Pending"
    using Cons.IH [OF _ inv same, of g1 sent1 ev1] Cons.prems(1) by auto
  have stop: "\<exists>new. sent1 = sent @ new \<and> distinct new \<and> set new \<subseteq> set (i # ids) \<and>
    (\<forall>i \<in> set new. \<exists>op. get_operation tbl i = Some op \<and> op_kind op = KSend \<and> op_state op = Pending)"
    using now by (cases "sent1 = sent") (auto intro: exI [where x = "[]"] exI [where x = "[i]"])
  have go: "\<exists>more. sent1 @ new = sent @ more \<and> distinct more \<and> set more \<subseteq> set (i # ids) \<and>
    (\<forall>i \<in> set more. \<exists>op. get_operation tbl i = Some op \<and> op_kind op = KSend \<and> op_state op = Pending)"
  proof (cases "sent1 = sent")
    case True
    with new show ?thesis by (intro exI [where x = new]) auto
  next
    case False
    have "i \<notin> set new" using new(3) Cons.prems(1) by auto
    with False now new show ?thesis by (intro exI [where x = "i # new"]) auto
  qed
  show ?case unfolding flush_loop_step [OF f]
    using stop go new(1) by (auto split: sum.split FlushFlow.split)
qed simp

lemma ensure_loop_log:
  "sent_log (ensure_loop (log_sends gw) ck acc pending ops ((g, sent), db, ev)) = sent"
proof (induction ops arbitrary: g db ev)
  case (Cons op ops)
  show ?case
  proof (cases "needs_draft ck acc pending db op")
    case None
    then show ?thesis using Cons.IH by simp
  next
    case (Some rk)
    obtain request key where rk: "rk = (request, key)" by (cases rk)
    obtain res g' where "gw_save_draft gw acc request None False (op_id op) g = (res, g')"
      by (cases "gw_save_draft gw acc request None False (op_id op) g")
    then have s: "gw_save_draft (log_sends gw) acc request None False (op_id op) (g, sent) =
        (res, (g', sent))"
      by (simp add: log_sends_def)
    show ?thesis
      using Cons.IH Some rk s by (cases res) (auto split: prod.split sum.split)
  qed
qed simp

lemma flushable_row_of:
  assumes "outbox_inv tbl"
    and "i \<in> set (map op_id (list_flushable_operations acc w mn tbl))"
  shows "\<exists>op. get_operation tbl i = Some op \<and> flushable_row acc w mn op"
proof -
  obtain r where r: "r \<in> set tbl" "row_id r = i" "flushable_row acc w mn (row_op r)"
    using assms(2) by (auto simp: list_flushable_operations_def ops_where_def row_id_def
        dest!: in_set_takeD)
  then show ?thesis using get_operation_row [OF assms(1) r(1)] by auto
qed

lemma flushable_distinct:
  assumes "outbox_inv tbl"
  shows "distinct (map op_id (list_flushable_operations acc w mn tbl))"
proof -
  have "distinct (map op_id (filter p (map row_op tbl)))" for p
    using assms distinct_map_filterI [of op_id "map row_op tbl" p]
    by (simp add: outbox_inv_def row_id_def [abs_def] comp_def)
  then show ?thesis
    unfolding list_flushable_operations_def ops_where_def take_map [symmetric]
    by (rule distinct_take)
qed

text \<open>
  C2. Sends leave at most once per flush, and only when ready: whatever the provider does, the
  operations it is asked to send in one account flush are distinct, and each was a pending send of
  the log with both of its holds expired. A send found in flight, a parked send and a send still on
  hold are not among them.
\<close>

theorem sends_leave_once:
  assumes "outbox_inv (db_outbox db)"
  shows "distinct (sent_log (flush_account (log_sends gw) ck acc (g, []) db)) \<and>
    (\<forall>i \<in> set (sent_log (flush_account (log_sends gw) ck acc (g, []) db)).
       \<exists>op. get_operation (db_outbox db) i = Some op \<and> op_kind op = KSend \<and>
            op_state op = Pending \<and> flushable_row acc (ck_wall ck) (ck_mono ck) op)"
proof -
  obtain r g1 sent1 db1 ev1 where e:
    "ensure_drafts_for_held_sends (log_sends gw) ck acc ((g, []), db, []) = (r, (g1, sent1), db1, ev1)"
    by (metis prod.exhaust)
  have tbl: "db_outbox db1 = db_outbox db"
    using ensure_loop_outbox [of "log_sends gw" ck acc _ _ "(g, [])" db "[]"] e
    by (auto simp: ensure_drafts_for_held_sends_def Let_def dest!: arg_cong [where f = flushed_db])
  have sent1: "sent1 = []"
    using ensure_loop_log [of gw ck acc _ _ g "[]" db "[]"] e
    by (auto simp: ensure_drafts_for_held_sends_def Let_def dest!: arg_cong [where f = sent_log])
  let ?ids = "map op_id (list_flushable_operations acc (ck_wall ck) (ck_mono ck) (db_outbox db1))"
  have inv: "outbox_inv (db_outbox db1)" using assms tbl by simp
  obtain new where new:
    "sent_log (flush_loop (log_sends gw) ck acc ?ids ((g1, []), db1, ev1)) = [] @ new"
    "distinct new" "set new \<subseteq> set ?ids"
    "\<forall>i \<in> set new. \<exists>op. get_operation (db_outbox db1) i = Some op \<and> op_kind op = KSend \<and>
       op_state op = Pending"
    by (rule exE [OF flush_loop_log [where gw = gw and ck = ck and acc = acc and g = g1 and
          sent = "[]" and ev = ev1, OF flushable_distinct [OF inv] inv refl]]) (elim conjE, rule that)
  have ready: "\<exists>op. get_operation (db_outbox db) i = Some op \<and> op_kind op = KSend \<and>
      op_state op = Pending \<and> flushable_row acc (ck_wall ck) (ck_mono ck) op" if mem: "i \<in> set new" for i
  proof -
    obtain op where op: "get_operation (db_outbox db1) i = Some op" "op_kind op = KSend"
      "op_state op = Pending" using bspec [OF new(4) mem] by (elim exE conjE)
    obtain op' where op': "get_operation (db_outbox db1) i = Some op'"
      "flushable_row acc (ck_wall ck) (ck_mono ck) op'"
      using flushable_row_of [OF inv subsetD [OF new(3) mem]] by (elim exE conjE)
    have "op' = op" using op(1) op'(1) by simp
    then show ?thesis using op op'(2) tbl by simp
  qed
  show ?thesis
    using new(1,2) ready sent1 by (cases r) (auto simp: flush_account_def e)
qed

text \<open>
  C7. A send found in flight was interrupted in an earlier pass and may already have left: the
  drain parks it as dispatch-uncertain with its attempts unchanged, reports that, and does not call
  the provider.
\<close>

theorem interrupted_send_is_parked:
  assumes "outbox_inv (db_outbox db)" and "get_operation (db_outbox db) i = Some op"
    and "op_kind op = KSend" and "op_state op = Inflight"
  shows "\<exists>db' event. flush_one gw ck acc i (g, db, ev) = (Inr GoOn, (g, db', ev @ [event])) \<and>
    ev_topic event = EVENT_TOPIC_OPERATION_DISPATCH_UNCERTAIN \<and>
    map_option (\<lambda>p. (op_state p, op_attempts p)) (get_operation (db_outbox db') i) =
      Some (DispatchUncertain, op_attempts op)"
proof -
  let ?reason = "L ''send interrupted mid-flush; delivery uncertain''"
  let ?db = "set_state ck op DispatchUncertain (op_attempts op) ?reason db"
  obtain event db' where e: "emit_dispatch_uncertain ck acc op ?reason ?db = (event, db')"
    by (cases "emit_dispatch_uncertain ck acc op ?reason ?db")
  have "ev_topic event = EVENT_TOPIC_OPERATION_DISPATCH_UNCERTAIN"
    using e by (auto simp: emit_dispatch_uncertain_def append_event_def Let_def)
  moreover have "get_operation (db_outbox db') i =
      Some (op\<lparr>op_state := DispatchUncertain, op_attempts := op_attempts op,
               op_last_error := Some ?reason, op_updated_at := ck_now ck\<rparr>)"
    using pair_outbox(2) [OF e] assms(1,2) get_operation_id [OF assms(2)]
    by (simp add: set_state_def get_update_state)
  moreover have "flush_one gw ck acc i (g, db, ev) = (Inr GoOn, (g, db', ev @ [event]))"
    using assms(2-4) e by (simp add: flush_one_def is_flushable_def Let_def)
  ultimately show ?thesis by simp
qed

subsection \<open>Truncation is causal\<close>

lemma derive_overlay_outbox: "db_outbox (snd (derive_overlay a m f db)) = db_outbox db"
  by (auto simp: derive_overlay_def Let_def dest: apply_mutation_frame split: sum.split prod.split)

lemma derive_rows_outbox: "db_outbox (snd (derive_rows a f ms db)) = db_outbox db"
proof (induction ms arbitrary: db)
  case (Cons m ms)
  obtain r db1 where d: "derive_overlay a m (f m) db = (r, db1)"
    by (cases "derive_overlay a m (f m) db")
  obtain r2 db2 where rest: "derive_rows a f ms db1 = (r2, db2)" by (cases "derive_rows a f ms db1")
  show ?case
    using d rest Cons.IH [of db1] derive_overlay_outbox [of a m "f m" db]
    by (auto split: sum.split)
qed simp

lemma remove_and_derive_table:
  "db_outbox (snd (remove_op_and_derive a i ms f db)) \<in>
     {db_outbox db, remove_operation i (db_outbox db)}"
  using derive_rows_outbox [of a f ms "db\<lparr>db_outbox := remove_operation i (db_outbox db)\<rparr>"]
  by (auto simp: remove_op_and_derive_def split: prod.split sum.split)

lemma prune_echoes_outbox: "db_outbox (snd (prune_echoes ck a ds db)) = db_outbox db"
proof (induction ck a ds db rule: prune_echoes.induct)
  case (2 ck a m diff rest db)
  then show ?case by (auto simp: deleted_echo_outbox split: prod.split dest: pair_outbox(4))
qed simp

lemma truncate_loop_keeps:
  "\<forall>r \<in> set settled. row_id r = i \<longrightarrow> \<not> truncatable c cy r \<Longrightarrow>
   get_operation (db_outbox (snd (truncate_loop ck a c cy settled db))) i =
   get_operation (db_outbox db) i"
proof (induction settled arbitrary: db)
  case (Cons s rest)
  show ?case
  proof (cases "truncatable c cy s")
    case False
    then show ?thesis using Cons by simp
  next
    case True
    then have other: "row_id s \<noteq> i" using Cons.prems by auto
    show ?thesis
    proof (cases "touched_ids db a (so_operation s)")
      case (Inl e)
      then show ?thesis using True by simp
    next
      case (Inr touched)
      obtain r db1 where d: "remove_op_and_derive a (row_id s) touched
          (\<lambda>m snapshot. fold_overlay_row snapshot m) db = (r, db1)"
        by (cases "remove_op_and_derive a (row_id s) touched
          (\<lambda>m snapshot. fold_overlay_row snapshot m) db")
      have db1: "get_operation (db_outbox db1) i = get_operation (db_outbox db) i"
        using remove_and_derive_table [of a "row_id s" touched
            "\<lambda>m snapshot. fold_overlay_row snapshot m" db] d other by auto
      show ?thesis
      proof (cases r)
        case (Inl e)
        then show ?thesis using True Inr d db1 by (simp add: store_result_def)
      next
        case Diffs: (Inr diffs)
        obtain es db2 where e: "(if is_content_op (so_operation s)
            then prune_echoes ck a (zip touched diffs) db1 else ([], db1)) = (es, db2)"
          by (metis prod.exhaust)
        then have db2: "db_outbox db2 = db_outbox db1"
          using prune_echoes_outbox [of ck a "zip touched diffs" db1] by (auto split: if_splits)
        have "get_operation (db_outbox (snd (truncate_loop ck a c cy rest db2))) i =
            get_operation (db_outbox db2) i"
          by (rule Cons.IH) (use Cons.prems in simp)
        then show ?thesis
          using True Inr d Diffs e db1 db2
          by (cases "truncate_loop ck a c cy rest db2"; cases "fst (truncate_loop ck a c cy rest db2)")
            (auto simp: store_result_def and_then_def)
      qed
    qed
  qed
qed simp

lemma truncated_was_settled:
  assumes "outbox_inv (db_outbox db)" and "r \<in> set (db_outbox db)"
    and "get_operation (db_outbox (snd (truncate_settled_operations ck a cycle db))) (row_id r) = None"
  shows "op_state (row_op r) = Applied \<and> op_account_id (row_op r) = a \<and>
    truncatable (db_cursors db (a, SMessage)) cycle r"
proof (rule ccontr)
  assume no: "\<not> ?thesis"
  have "\<forall>q \<in> set (list_settled_operations a (db_outbox db)). row_id q = row_id r \<longrightarrow>
      \<not> truncatable (db_cursors db (a, SMessage)) cycle q"
  proof (intro ballI impI)
    fix q assume q: "q \<in> set (list_settled_operations a (db_outbox db))" "row_id q = row_id r"
    then have "q = r"
      using assms(1,2) by (auto simp: outbox_inv_def list_settled_operations_def distinct_map inj_on_def)
    then show "\<not> truncatable (db_cursors db (a, SMessage)) cycle q"
      using q no by (auto simp: list_settled_operations_def)
  qed
  from truncate_loop_keeps [OF this, of ck a db]
  have "get_operation (db_outbox db) (row_id r) = None"
    using assms(3) by (simp add: truncate_settled_operations_def)
  then show False using get_operation_row [OF assms(1,2)] by simp
qed

text \<open>
  C8. Truncation is causal: an operation leaves the log at truncation only if it had settled
  (\<open>applied\<close>) and either a sync cycle that started after its settlement has completed or the stored
  message cursor equals the position its settlement recorded. No state is compared, and nothing
  pending, in flight, failed or parked is ever truncated.
\<close>

theorem truncation_is_causal:
  assumes "outbox_inv (db_outbox db)" and "r \<in> set (db_outbox db)"
    and "get_operation (db_outbox (snd (truncate_settled_operations ck a cycle db))) (row_id r) = None"
  shows "op_state (row_op r) = Applied \<and> op_account_id (row_op r) = a \<and>
    ((case so_settled_at_mono r of Some at \<Rightarrow> at | None \<Rightarrow> 0) < cycle \<or>
     (\<exists>w cursor. so_watermark r = Some w \<and> db_cursors db (a, SMessage) = Some cursor \<and>
        w = cu_state cursor))"
proof -
  have "op_state (row_op r) = Applied \<and> op_account_id (row_op r) = a \<and>
      truncatable (db_cursors db (a, SMessage)) cycle r"
    by (rule truncated_was_settled [OF assms])
  then show ?thesis by (auto simp: truncatable_def split: option.splits)
qed

subsection \<open>A retargeted assertion settles the wrong row\<close>

text \<open>
  The doc comments say the target carried to settlement is the adopted id. The code carries the
  provisional id instead, so the base write and the refresh go to a row the provider never had.
\<close>

lemma retarget_carries_provisional_id:
  assumes "is_provisional_sent_id (en_id (op_entity op))"
    and "resolve_send_alias (db_send_alias db) a (en_id (op_entity op)) = Some adopted"
  shows "resolve_assertion_target db a op = Inr (Some (adopted, Some (en_id (op_entity op))))"
  using assms by (simp add: resolve_assertion_target_def Let_def)

lemma apply_delete_batch_base:
  "m \<noteq> m' \<Longrightarrow> map_of (db_base (apply_sync_batch a (delete_message_batch m') db)) (a, m) =
     map_of (db_base db) (a, m)"
  by (simp add: apply_sync_batch_def delete_message_batch_def batch_deletions_def bt_collect_def
      delete_and_write_through_def registry_on_delete_def delete_message_def Let_def)

lemma refresh_base: "db_base (snd (refresh a m db)) = db_base db"
  by (cases "refresh_message_overlay a m db"; cases "fst (refresh_message_overlay a m db)")
    (auto simp: refresh_def store_result_def dest: refresh_frame(4))

lemma and_then_base:
  assumes "db_base (snd r) = t" and "\<And>x d. db_base d = t \<Longrightarrow> db_base (snd (k x d)) = t"
  shows "db_base (snd (and_then r k)) = t"
  using assms by (cases r; cases "fst r") (auto simp: and_then_def)

lemma settle_removed_base:
  "db_base (snd (settle_message_operation ck a op (Some RbRemoved) None cu (Some target) db)) =
   db_base (apply_sync_batch a (delete_message_batch target)
     (db\<lparr>db_outbox := remove_operation (op_id op) (db_outbox db)\<rparr>))"
  unfolding settle_message_operation_def Let_def readback_batch_def
  by (intro and_then_base)
    (auto simp: refresh_base emit_settlement_def append_event_def Let_def split: prod.split
      intro!: and_then_base)

text \<open>
  The provider confirmed the destroy of a message the user deleted under its provisional id;
  the settlement deletes the base row of the provisional id, so the adopted message stays in base.
  (The documented behaviour is that the adopted row goes: this is a defect of the code.)
\<close>

lemma retargeted_destroy_keeps_adopted_row:
  assumes "is_provisional_sent_id (en_id (op_entity op))"
    and "resolve_send_alias (db_send_alias db) a (en_id (op_entity op)) = Some adopted"
    and "adopted \<noteq> en_id (op_entity op)"
  shows "\<exists>retargeted_to.
    resolve_assertion_target db a op = Inr (Some (adopted, retargeted_to)) \<and>
    map_of (db_base (snd (settle_message_operation ck a op (Some RbRemoved) None cu retargeted_to db)))
        (a, adopted) = map_of (db_base db) (a, adopted)"
  using retarget_carries_provisional_id [OF assms(1,2)] assms(3)
  by (simp add: settle_removed_base apply_delete_batch_base)

subsection \<open>Concrete inputs\<close>

declare L_simps [simp del]

definition example_gateway :: "unit Gateway" where
  "example_gateway =
     \<lparr>gw_save_draft = (\<lambda>a r p b i g. (Inr (L ''p1''), g)),
      gw_delete_draft = (\<lambda>a t b g. (Inr (), g)),
      gw_send_message = (\<lambda>a r c i g. (Inr Filed, g)),
      gw_set_keywords = (\<lambda>a t c g. (Inl (Network (L ''offline'')), g)),
      gw_replace_mailboxes = (\<lambda>a t c g. (Inl (Network (L ''offline'')), g)),
      gw_destroy_message = (\<lambda>a t g. (Inl (Network (L ''offline'')), g))\<rparr>"

definition example_clock :: Clock where
  "example_clock = \<lparr>ck_now = L ''now'', ck_wall = L ''now'', ck_mono = 100\<rparr>"

definition example_request :: SendMessageRequest where
  "example_request =
     \<lparr>rq_from = None, rq_to = [], rq_cc = [], rq_bcc = [], rq_subject = L ''hi'', rq_body = L ''text'',
      rq_in_reply_to = None, rq_references = None, rq_attachments = [], rq_draft_id = None,
      rq_send_at = None, rq_undo_window_seconds = None\<rparr>"

definition send_db :: "OperationState \<Rightarrow> MailDb" where
  "send_db state = example_db [example_op (L ''o'') KSend (JRequest example_request) state] []"

lemma send_db_inv: "outbox_inv (db_outbox (send_db state))"
  by (simp add: send_db_def example_db_def outbox_inv_def)

lemma send_db_get:
  "get_operation (db_outbox (send_db state)) (L ''o'') =
     Some (example_op (L ''o'') KSend (JRequest example_request) state)"
  by (simp add: send_db_def example_db_def new_row_def row_id_def example_op_def)

theorem flush_keeps_authored_mail_witness:
  "\<exists>op'. get_operation (db_outbox (flushed_db
       (flush_account example_gateway example_clock (L ''a'') () (send_db Pending)))) (L ''o'') = Some op' \<and>
     same_authored (example_op (L ''o'') KSend (JRequest example_request) Pending) op'"
  by (rule flush_keeps_authored_mail [OF send_db_inv send_db_get])
    (simp add: is_content_op_def kind_class_defs example_op_def)

lemma parked_operations_rest_example:
  "get_operation (db_outbox (flushed_db
       (flush_account example_gateway example_clock (L ''a'') () (send_db DispatchUncertain)))) (L ''o'') =
     Some (example_op (L ''o'') KSend (JRequest example_request) DispatchUncertain)"
  by (rule parked_operations_rest [OF send_db_inv send_db_get])
    (simp add: is_flushable_def example_op_def)

theorem sends_leave_once_witness:
  "distinct (sent_log (flush_account (log_sends example_gateway) example_clock (L ''a'') ((), [])
     (send_db Pending)))"
  by (rule conjunct1 [OF sends_leave_once [OF send_db_inv]])

theorem interrupted_send_is_parked_witness:
  "\<exists>db' event. flush_one example_gateway example_clock (L ''a'') (L ''o'') ((), send_db Inflight, []) =
      (Inr GoOn, ((), db', [] @ [event])) \<and>
    ev_topic event = EVENT_TOPIC_OPERATION_DISPATCH_UNCERTAIN \<and>
    map_option (\<lambda>p. (op_state p, op_attempts p)) (get_operation (db_outbox db') (L ''o'')) =
      Some (DispatchUncertain, op_attempts (example_op (L ''o'') KSend (JRequest example_request) Inflight))"
  by (rule interrupted_send_is_parked [OF send_db_inv send_db_get]) (simp_all add: example_op_def)

definition settled_row :: SettledOperation where
  "settled_row = \<lparr>so_operation = example_op (L ''o'') KDestroy JOther Applied,
                  so_settled_at_mono = Some 5, so_watermark = None\<rparr>"

definition settled_db :: MailDb where
  "settled_db = (example_db [] [])\<lparr>db_outbox := [settled_row]\<rparr>"

lemma settled_db_truncates:
  "get_operation (db_outbox (snd (truncate_settled_operations example_clock (L ''a'') 6 settled_db))) (L ''o'') =
     None"
proof -
  have acc: "op_account_id (example_op (L ''o'') KDestroy JOther Applied) = L ''a''"
    and st: "op_state (example_op (L ''o'') KDestroy JOther Applied) = Applied"
    and i: "op_id (example_op (L ''o'') KDestroy JOther Applied) = L ''o''"
    by (simp_all add: example_op_def)
  have settled: "list_settled_operations (L ''a'') (db_outbox settled_db) = [settled_row]"
    by (simp add: list_settled_operations_def settled_db_def settled_row_def acc st)
  obtain ids where ids: "op_touched_row_ids settled_db (L ''a'') (so_operation settled_row) = Inr ids"
    using touched_rows_total [of settled_db "L ''a''" "[so_operation settled_row]"]
    by (auto split: sum.splits)
  let ?db = "settled_db\<lparr>db_outbox := []\<rparr>"
  have removed: "remove_operation (row_id settled_row) (db_outbox settled_db) = []"
    by (simp add: remove_operation_def settled_db_def)
  have "\<exists>diffs db'. derive_rows (L ''a'') (\<lambda>m s. fold_overlay_row s m) ms db = (Inr diffs, db') \<and>
      db_outbox db' = []" if "db_outbox db = []" for ms and db :: MailDb
    using that
  proof (induction ms arbitrary: db)
    case (Cons m ms)
    have "log_decodes db (L ''a'')"
      using Cons.prems by (simp add: log_decodes_def list_unsettled_operations_def ops_where_def)
    then obtain d db1 where r: "refresh_message_overlay (L ''a'') m db = (Inr d, db1)"
      using refresh_total by blast
    then have "db_outbox db1 = []" using refresh_frame(1) [OF r] Cons.prems by simp
    from Cons.IH [OF this] r show ?case by (auto simp: refresh_message_overlay_def)
  qed simp
  from this [of ?db ids] obtain diffs db' where
    d: "derive_rows (L ''a'') (\<lambda>m s. fold_overlay_row s m) ids ?db = (Inr diffs, db')"
    and empty: "db_outbox db' = []" by auto
  have "\<not> is_content_op (so_operation settled_row)"
    by (simp add: settled_row_def is_content_op_def kind_class_defs example_op_def)
  moreover have "truncatable c 6 settled_row" for c
    by (simp add: truncatable_def settled_row_def)
  moreover have "remove_op_and_derive (L ''a'') (row_id settled_row) ids
      (\<lambda>m s. fold_overlay_row s m) settled_db = (Inr diffs, db')"
    using d by (simp add: remove_op_and_derive_def removed)
  ultimately show ?thesis
    by (simp add: truncate_settled_operations_def settled touched_ids_def ids store_result_def
        empty)
qed

theorem truncation_is_causal_witness:
  "op_state (row_op settled_row) = Applied \<and> op_account_id (row_op settled_row) = L ''a'' \<and>
   ((case so_settled_at_mono settled_row of Some at \<Rightarrow> at | None \<Rightarrow> 0) < 6 \<or>
    (\<exists>w cursor. so_watermark settled_row = Some w \<and>
       db_cursors settled_db (L ''a'', SMessage) = Some cursor \<and> w = cu_state cursor))"
proof (rule truncation_is_causal)
  show "outbox_inv (db_outbox settled_db)" by (simp add: settled_db_def outbox_inv_def)
  show "settled_row \<in> set (db_outbox settled_db)" by (simp add: settled_db_def)
  have "row_id settled_row = L ''o''" by (simp add: settled_row_def row_id_def example_op_def)
  then show "get_operation (db_outbox (snd (truncate_settled_operations example_clock (L ''a'') 6
      settled_db))) (row_id settled_row) = None"
    using settled_db_truncates by simp
qed

definition retarget_op :: Operation where
  "retarget_op = (example_op (L ''o'') KDestroy JOther Pending)
     \<lparr>op_entity := \<lparr>en_kind = EMessage, en_id = L ''send-1''\<rparr>\<rparr>"

lemma retargeted_destroy_keeps_adopted_row_example:
  "\<exists>retargeted_to.
    resolve_assertion_target ((example_db [] [])\<lparr>db_send_alias := [(L ''a'', L ''send-1'') \<mapsto> L ''m1'']\<rparr>)
      (L ''a'') retarget_op = Inr (Some (L ''m1'', retargeted_to)) \<and>
    map_of (db_base (snd (settle_message_operation example_clock (L ''a'') retarget_op (Some RbRemoved)
        None None retargeted_to
        ((example_db [] [])\<lparr>db_send_alias := [(L ''a'', L ''send-1'') \<mapsto> L ''m1'']\<rparr>))))
      (L ''a'', L ''m1'') =
    map_of (db_base ((example_db [] [])\<lparr>db_send_alias := [(L ''a'', L ''send-1'') \<mapsto> L ''m1'']\<rparr>))
      (L ''a'', L ''m1'')"
  by (rule retargeted_destroy_keeps_adopted_row)
    (simp_all add: retarget_op_def is_provisional_sent_id_def SEND_ENTITY_ID_PREFIX_def
      resolve_send_alias_def L_simps)

declare L_simps [simp]

end
