(* ===== verification/AuthoredRows.thy ===== *)
theory AuthoredRows
  imports OutboxFlush
begin

text \<open>
  Authored rows under the statements the flush runs on the log: the fold of
  \<open>domain-service/src/service/replay.rs\<close> read through the snapshot of \<open>store/src/overlay.rs\<close>, before
  and after a claim, a state update or a settlement of \<open>store/src/outbox.rs\<close>.
\<close>





















subsection \<open>The statements on the log\<close>






end
