(* ===== verification/MailQuery.thy ===== *)
theory MailQuery
  imports TextLib
begin

text \<open>
  The mail-query language of \<open>crates/posthaste-domain-model/src/model/mail_query.rs\<close>, its
  canonical field schema and boundary validation (\<open>query_schema.rs\<close>), and the automation rules
  that use it as their WHEN-clause (\<open>rules.rs\<close>). Whether a pattern compiles is a question to the
  \<open>regex\<close> crate: it is the parameter \<open>regex_ok\<close>.
\<close>

subsection \<open>The query tree\<close>

datatype MailQueryGroupOperator = QAll | QAny

datatype MailQueryField =
    FSourceId | FSourceName | FMessageId | FThreadId | FConversationId | FMailboxId | FMailboxName
  | FMailboxRole | FIsRead | FIsFlagged | FHasAttachment | FKeyword | FFromName | FFromEmail | FTo
  | FSubject | FPreview | FBody | FReceivedAt | FSize

datatype MailQueryOperator =
  QEquals | QIn | QContains | QBeginsWith | QEndsWith | QRegex | QLt | QGt | QLe | QGe

datatype DateUnit = UMinutes | UHours | UDays | UWeeks | UMonths

datatype DateValue = Absolute str | Relative "32 word" DateUnit

datatype MailQueryValue = VString str | VStrings "str list" | VBool bool | VDate DateValue

record MailQueryCondition =
  qc_field :: MailQueryField
  qc_operator :: MailQueryOperator
  qc_negated :: bool
  qc_value :: MailQueryValue

datatype MailQueryGroup =
    MailQueryGroup (gr_operator: MailQueryGroupOperator) (gr_negated: bool)
      (gr_nodes: "MailQueryRuleNode list")
and MailQueryRuleNode = NGroup MailQueryGroup | NCondition MailQueryCondition

record MailQueryRule =
  qr_root :: MailQueryGroup

text \<open>The leaf conditions of a tree, depth first.\<close>

fun group_leaves :: "MailQueryGroup \<Rightarrow> MailQueryCondition list"
  and nodes_leaves :: "MailQueryRuleNode list \<Rightarrow> MailQueryCondition list" where
  "group_leaves (MailQueryGroup oper neg nodes) = nodes_leaves nodes"
| "nodes_leaves [] = []"
| "nodes_leaves (NGroup g # rest) = group_leaves g @ nodes_leaves rest"
| "nodes_leaves (NCondition c # rest) = c # nodes_leaves rest"

lemma nodes_leaves_append [simp]: "nodes_leaves (xs @ ys) = nodes_leaves xs @ nodes_leaves ys"
proof (induction xs)
  case (Cons x xs)
  then show ?case by (cases x) simp_all
qed simp

subsection \<open>The field schema\<close>

datatype QueryValueType = TText | TBool | TDate | TNumber

record MailQueryFieldSpec =
  fs_value_type :: QueryValueType
  fs_operators :: "MailQueryOperator list"

definition EQ_IN :: "MailQueryOperator list" where
  "EQ_IN = [QEquals, QIn]"

definition EQ_CONTAINS_IN :: "MailQueryOperator list" where
  "EQ_CONTAINS_IN = [QEquals, QContains, QIn, QBeginsWith, QEndsWith, QRegex]"

definition CONTAINS_ONLY :: "MailQueryOperator list" where
  "CONTAINS_ONLY = [QContains]"

definition EQ_ONLY :: "MailQueryOperator list" where
  "EQ_ONLY = [QEquals]"

definition ORDERED :: "MailQueryOperator list" where
  "ORDERED = [QLt, QGt, QLe, QGe]"

lemmas operator_sets = EQ_IN_def EQ_CONTAINS_IN_def CONTAINS_ONLY_def EQ_ONLY_def ORDERED_def

fun spec_of :: "MailQueryField \<Rightarrow> QueryValueType \<times> MailQueryOperator list" where
  "spec_of FSourceId = (TText, EQ_IN)"
| "spec_of FMessageId = (TText, EQ_IN)"
| "spec_of FThreadId = (TText, EQ_IN)"
| "spec_of FConversationId = (TText, EQ_IN)"
| "spec_of FMailboxId = (TText, EQ_IN)"
| "spec_of FMailboxRole = (TText, EQ_IN)"
| "spec_of FKeyword = (TText, EQ_IN)"
| "spec_of FSourceName = (TText, EQ_CONTAINS_IN)"
| "spec_of FMailboxName = (TText, EQ_CONTAINS_IN)"
| "spec_of FFromName = (TText, EQ_CONTAINS_IN)"
| "spec_of FFromEmail = (TText, EQ_CONTAINS_IN)"
| "spec_of FTo = (TText, EQ_CONTAINS_IN)"
| "spec_of FSubject = (TText, EQ_CONTAINS_IN)"
| "spec_of FPreview = (TText, EQ_CONTAINS_IN)"
| "spec_of FBody = (TText, CONTAINS_ONLY)"
| "spec_of FIsRead = (TBool, EQ_ONLY)"
| "spec_of FIsFlagged = (TBool, EQ_ONLY)"
| "spec_of FHasAttachment = (TBool, EQ_ONLY)"
| "spec_of FReceivedAt = (TDate, ORDERED)"
| "spec_of FSize = (TNumber, ORDERED)"

definition field_spec :: "MailQueryField \<Rightarrow> MailQueryFieldSpec" where
  "field_spec field = (case spec_of field of
     (value_type, operators) \<Rightarrow> \<lparr>fs_value_type = value_type, fs_operators = operators\<rparr>)"

definition ALL_QUERY_FIELDS :: "MailQueryField list" where
  "ALL_QUERY_FIELDS =
     [FSourceId, FSourceName, FMessageId, FThreadId, FConversationId, FMailboxId, FMailboxName,
      FMailboxRole, FIsRead, FIsFlagged, FHasAttachment, FKeyword, FFromName, FFromEmail, FTo,
      FSubject, FPreview, FBody, FReceivedAt, FSize]"

lemma all_fields_exhaustive: "set ALL_QUERY_FIELDS = UNIV" "distinct ALL_QUERY_FIELDS"
proof -
  have "f \<in> set ALL_QUERY_FIELDS" for f by (cases f) (simp_all add: ALL_QUERY_FIELDS_def)
  then show "set ALL_QUERY_FIELDS = UNIV" by blast
  show "distinct ALL_QUERY_FIELDS" by (simp add: ALL_QUERY_FIELDS_def)
qed

subsection \<open>Validation at the write boundary\<close>

datatype QueryValidationReason = OperatorNotAllowed | ValueTypeMismatch | InvalidRegex

record QueryValidationError =
  ve_field :: MailQueryField
  ve_operator :: MailQueryOperator
  ve_reason :: QueryValidationReason

fun value_matches_type :: "QueryValueType \<Rightarrow> MailQueryValue \<Rightarrow> bool" where
  "value_matches_type TText (VString _) = True"
| "value_matches_type TText (VStrings _) = True"
| "value_matches_type TBool (VBool _) = True"
| "value_matches_type TDate (VDate _) = True"
| "value_matches_type TDate (VString _) = True"
| "value_matches_type TNumber (VString _) = True"
| "value_matches_type _ _ = False"

definition validate_condition ::
  "(str \<Rightarrow> bool) \<Rightarrow> MailQueryCondition \<Rightarrow> (QueryValidationError, unit) result" where
  "validate_condition regex_ok condition =
     (let spec = field_spec (qc_field condition);
          refuse = (\<lambda>reason. Inl \<lparr>ve_field = qc_field condition, ve_operator = qc_operator condition,
                                 ve_reason = reason\<rparr>)
      in if qc_operator condition \<notin> set (fs_operators spec) then refuse OperatorNotAllowed
         else if \<not> value_matches_type (fs_value_type spec) (qc_value condition)
         then refuse ValueTypeMismatch
         else if qc_operator condition = QRegex
         then (case qc_value condition of
                 VString pattern \<Rightarrow> (if regex_ok pattern then Inr () else refuse InvalidRegex)
               | _ \<Rightarrow> refuse ValueTypeMismatch)
         else Inr ())"

fun validate_group :: "(str \<Rightarrow> bool) \<Rightarrow> MailQueryGroup \<Rightarrow> (QueryValidationError, unit) result"
  and validate_nodes :: "(str \<Rightarrow> bool) \<Rightarrow> MailQueryRuleNode list \<Rightarrow> (QueryValidationError, unit) result"
where
  "validate_group regex_ok (MailQueryGroup oper neg nodes) = validate_nodes regex_ok nodes"
| "validate_nodes regex_ok [] = Inr ()"
| "validate_nodes regex_ok (NGroup child # rest) =
     (case validate_group regex_ok child of
        Inl error \<Rightarrow> Inl error | Inr _ \<Rightarrow> validate_nodes regex_ok rest)"
| "validate_nodes regex_ok (NCondition condition # rest) =
     (case validate_condition regex_ok condition of
        Inl error \<Rightarrow> Inl error | Inr _ \<Rightarrow> validate_nodes regex_ok rest)"

definition validate_query ::
  "(str \<Rightarrow> bool) \<Rightarrow> MailQueryRule \<Rightarrow> (QueryValidationError, unit) result" where
  "validate_query regex_ok rule = validate_group regex_ok (qr_root rule)"

lemma validate_leaves:
  "validate_group regex_ok g = Inr () \<longleftrightarrow> (\<forall>c \<in> set (group_leaves g). validate_condition regex_ok c = Inr ())"
  "validate_nodes regex_ok ns = Inr () \<longleftrightarrow> (\<forall>c \<in> set (nodes_leaves ns). validate_condition regex_ok c = Inr ())"
  by (induction g and ns rule: group_leaves_nodes_leaves.induct) (auto split: sum.split)

lemma validate_query_iff:
  "validate_query regex_ok rule = Inr () \<longleftrightarrow>
     (\<forall>c \<in> set (group_leaves (qr_root rule)). validate_condition regex_ok c = Inr ())"
  by (simp add: validate_query_def validate_leaves)

text \<open>What a validated condition may carry.\<close>

lemma validated_iff:
  "validate_condition regex_ok c = Inr () \<longleftrightarrow>
     qc_operator c \<in> set (fs_operators (field_spec (qc_field c))) \<and>
     value_matches_type (fs_value_type (field_spec (qc_field c))) (qc_value c) \<and>
     (qc_operator c = QRegex \<longrightarrow> (\<exists>p. qc_value c = VString p \<and> regex_ok p))"
  by (auto simp: validate_condition_def Let_def split: MailQueryValue.splits)

subsection \<open>Automation rules\<close>

datatype MailboxRole = Inbox | Archive | Drafts | Sent | Junk | Trash | Snooze

definition role_as_str :: "MailboxRole \<Rightarrow> str" where
  "role_as_str role = (case role of
     Inbox \<Rightarrow> L ''inbox'' | Archive \<Rightarrow> L ''archive'' | Drafts \<Rightarrow> L ''drafts'' | Sent \<Rightarrow> L ''sent''
   | Junk \<Rightarrow> L ''junk'' | Trash \<Rightarrow> L ''trash'' | Snooze \<Rightarrow> L ''snooze'')"

definition parse_role :: "str \<Rightarrow> MailboxRole option" where
  "parse_role s =
     (if s = L ''inbox'' then Some Inbox else if s = L ''archive'' then Some Archive
      else if s = L ''drafts'' then Some Drafts else if s = L ''sent'' then Some Sent
      else if s = L ''junk'' then Some Junk else if s = L ''trash'' then Some Trash
      else if s = L ''snooze'' then Some Snooze else None)"

datatype RuleGrant = GRead | GSend | GTag | GMove | GDelete

datatype RuleAction =
    RTag str | RMove str | RMoveToRole MailboxRole | RMarkRead bool | RFlag bool
  | RNotify str "str option" | RDestroy | REmit
  | RWebhook str "RuleGrant list" "64 word" | RExec str "RuleGrant list" "64 word"

text \<open>The body type of the REST write routes: every action but \<open>exec\<close>.\<close>

datatype WritableRuleAction =
    WTag str | WMove str | WMoveToRole MailboxRole | WMarkRead bool | WFlag bool
  | WNotify str "str option" | WDestroy | WEmit | WWebhook str "RuleGrant list" "64 word"

fun lift_writable :: "WritableRuleAction \<Rightarrow> RuleAction" where
  "lift_writable (WTag tag) = RTag tag"
| "lift_writable (WMove mailbox_id) = RMove mailbox_id"
| "lift_writable (WMoveToRole role) = RMoveToRole role"
| "lift_writable (WMarkRead read) = RMarkRead read"
| "lift_writable (WFlag flagged) = RFlag flagged"
| "lift_writable (WNotify title body) = RNotify title body"
| "lift_writable WDestroy = RDestroy"
| "lift_writable WEmit = REmit"
| "lift_writable (WWebhook url grants expiry_seconds) = RWebhook url grants expiry_seconds"

fun kind_str :: "RuleAction \<Rightarrow> str" where
  "kind_str (RTag _) = L ''tag''"
| "kind_str (RMove _) = L ''move''"
| "kind_str (RMoveToRole _) = L ''moveToRole''"
| "kind_str (RMarkRead _) = L ''markRead''"
| "kind_str (RFlag _) = L ''flag''"
| "kind_str (RNotify _ _) = L ''notify''"
| "kind_str RDestroy = L ''destroy''"
| "kind_str REmit = L ''emit''"
| "kind_str (RWebhook _ _ _) = L ''webhook''"
| "kind_str (RExec _ _ _) = L ''exec''"

definition is_hook :: "RuleAction \<Rightarrow> bool" where
  "is_hook action = (case action of RWebhook _ _ _ \<Rightarrow> True | RExec _ _ _ \<Rightarrow> True | _ \<Rightarrow> False)"

definition is_destructive :: "RuleAction \<Rightarrow> bool" where
  "is_destructive action = (action = RDestroy)"

definition grant_verb :: "RuleGrant \<Rightarrow> str" where
  "grant_verb grant = (case grant of
     GRead \<Rightarrow> L ''read'' | GSend \<Rightarrow> L ''send'' | GTag \<Rightarrow> L ''tag'' | GMove \<Rightarrow> L ''move''
   | GDelete \<Rightarrow> L ''delete'')"

definition ASSIGNABLE_RULE_MOVE_ROLES :: "MailboxRole list" where
  "ASSIGNABLE_RULE_MOVE_ROLES = [Archive, Junk, Trash, Inbox]"

fun group_has_condition :: "MailQueryGroup \<Rightarrow> bool"
  and nodes_have_condition :: "MailQueryRuleNode list \<Rightarrow> bool" where
  "group_has_condition (MailQueryGroup oper neg nodes) = nodes_have_condition nodes"
| "nodes_have_condition [] = False"
| "nodes_have_condition (NCondition _ # rest) = True"
| "nodes_have_condition (NGroup inner # rest) = (group_has_condition inner \<or> nodes_have_condition rest)"

fun validate_rule_action :: "RuleAction \<Rightarrow> MailQueryRule \<Rightarrow> (str, unit) result" where
  "validate_rule_action (RWebhook url grants expiry) when_clause =
     (if grants = [] then Inl (L ''a webhook/exec rule must declare at least one grant'') else Inr ())"
| "validate_rule_action (RExec cmd grants expiry) when_clause =
     (if grants = [] then Inl (L ''a webhook/exec rule must declare at least one grant'') else Inr ())"
| "validate_rule_action (RMoveToRole role) when_clause =
     (if role \<notin> set ASSIGNABLE_RULE_MOVE_ROLES
      then Inl (L ''a rule cannot move messages to the '' @ [39] @ role_as_str role @ [39] @
                L '' role (allowed: archive, junk, trash, inbox)'')
      else Inr ())"
| "validate_rule_action RDestroy when_clause =
     (if \<not> group_has_condition (qr_root when_clause)
      then Inl (L ''a destroy rule must have at least one condition in its when-clause '' @ [8212] @
                L '' an unconditional destroy would permanently delete every matching-topic message'')
      else Inr ())"
| "validate_rule_action _ when_clause = Inr ()"

record Rule =
  ru_id :: str
  ru_name :: str
  ru_when :: MailQueryRule
  ru_on :: "str list"
  ru_action :: RuleAction
  ru_enabled :: bool
  ru_stop_processing :: bool

definition trigger_topics :: "Rule \<Rightarrow> str list" where
  "trigger_topics rule = (if ru_on rule = [] then [L ''message.updated''] else ru_on rule)"

lemma has_condition_leaves:
  "group_has_condition g \<longleftrightarrow> group_leaves g \<noteq> []"
  "nodes_have_condition ns \<longleftrightarrow> nodes_leaves ns \<noteq> []"
  by (induction g and ns rule: group_leaves_nodes_leaves.induct) auto

lemma parse_role_as_str: "parse_role (role_as_str role) = Some role"
  by (cases role) (simp_all add: parse_role_def role_as_str_def)

text \<open>
  What a stored rule can do is bounded: a rule that passed validation and destroys mail has at
  least one leaf condition somewhere in its WHEN-clause, one that moves by role never targets the
  provider-managed or snooze mailboxes, and one that mints a token carries a grant; and no body of
  the REST write routes becomes an \<open>exec\<close> rule.
\<close>

lemma validated_rules_are_bounded:
  assumes "validate_rule_action action when_clause = Inr ()"
  shows "(is_destructive action \<longrightarrow> group_leaves (qr_root when_clause) \<noteq> []) \<and>
    (\<forall>role. action = RMoveToRole role \<longrightarrow> role \<noteq> Drafts \<and> role \<noteq> Sent \<and> role \<noteq> Snooze) \<and>
    (is_hook action \<longrightarrow> (\<exists>target grants expiry.
       (action = RWebhook target grants expiry \<or> action = RExec target grants expiry) \<and> grants \<noteq> [])) \<and>
    (\<forall>w. lift_writable w = action \<longrightarrow> kind_str action \<noteq> L ''exec'')"
proof -
  have exec: "kind_str (lift_writable w) \<noteq> L ''exec''" for w
    by (cases w) (simp_all)
  show ?thesis
  proof (intro conjI)
    show "is_destructive action \<longrightarrow> group_leaves (qr_root when_clause) \<noteq> []"
      using assms by (auto simp: is_destructive_def has_condition_leaves split: if_splits)
    show "\<forall>role. action = RMoveToRole role \<longrightarrow> role \<noteq> Drafts \<and> role \<noteq> Sent \<and> role \<noteq> Snooze"
      using assms by (auto simp: ASSIGNABLE_RULE_MOVE_ROLES_def split: if_splits)
    show "is_hook action \<longrightarrow> (\<exists>target grants expiry.
       (action = RWebhook target grants expiry \<or> action = RExec target grants expiry) \<and> grants \<noteq> [])"
      using assms by (cases action) (auto simp: is_hook_def split: if_splits)
    show "\<forall>w. lift_writable w = action \<longrightarrow> kind_str action \<noteq> L ''exec''"
      using exec by auto
  qed
qed

definition destroy_when :: MailQueryRule where
  "destroy_when = \<lparr>qr_root = MailQueryGroup QAny False
     [NGroup (MailQueryGroup QAll True []),
      NCondition \<lparr>qc_field = FKeyword, qc_operator = QEquals, qc_negated = False,
                   qc_value = VString (L ''junk'')\<rparr>]\<rparr>"

lemma validated_rules_are_bounded_example:
  "is_destructive RDestroy \<and> group_leaves (qr_root destroy_when) \<noteq> []"
proof -
  have "validate_rule_action RDestroy destroy_when = Inr ()"
    by (simp add: destroy_when_def)
  note bounded = validated_rules_are_bounded [OF this]
  have "is_destructive RDestroy" by (simp add: is_destructive_def)
  then show ?thesis using bounded by blast
qed

end
