(* ===== verification/QueryGrammar.thy ===== *)
theory QueryGrammar
  imports MailQuery
begin

text \<open>
  The query grammar, \<open>crates/posthaste-query-grammar/src\<close>: the tokenizer (\<open>tokenizer.rs\<close>), the
  compilation of a token into query nodes (\<open>nodes.rs\<close>, \<open>date.rs\<close>) and the parsers with and without
  scope prefixes (\<open>lib.rs\<close>). A position in the character array is the rest of the input from it.
  The calendar of the \<open>time\<close> crate is a parameter (record \<open>Calendar\<close>).
\<close>

subsection \<open>Tokens\<close>

record Token =
  tk_negated :: bool
  tk_prefix :: "str option"
  tk_value :: str

definition non_ws :: "nat \<Rightarrow> bool" where
  "non_ws c \<longleftrightarrow> \<not> is_whitespace c"

text \<open>\<open>scan_value\<close>: a quoted value up to the closing quote, else up to whitespace.\<close>

definition scan_value :: "str \<Rightarrow> str \<times> str" where
  "scan_value cs = (case cs of
     c # rest \<Rightarrow>
       (if c = 34
        then (takeWhile (\<lambda>x. x \<noteq> 34) rest,
              (case dropWhile (\<lambda>x. x \<noteq> 34) rest of [] \<Rightarrow> [] | _ # after \<Rightarrow> after))
        else (takeWhile non_ws cs, dropWhile non_ws cs))
   | [] \<Rightarrow> ([], []))"

definition KNOWN_PREFIXES :: "str list" where
  "KNOWN_PREFIXES =
     [L ''f'', L ''from'', L ''sender'', L ''subject'', L ''s'', L ''body'', L ''preview'', L ''is'',
      L ''has'', L ''tag'', L ''keyword'', L ''in'', L ''mailbox'', L ''source'', L ''account'',
      L ''id'', L ''thread'', L ''threadid'', L ''conversation'', L ''conversationid'', L ''conv'',
      L ''before'', L ''after'', L ''date'', L ''newer'', L ''older'']"

definition is_known_prefix :: "str \<Rightarrow> bool" where
  "is_known_prefix prefix \<longleftrightarrow> prefix \<in> set KNOWN_PREFIXES"

definition SPACED_PREFIXES :: "str list" where
  "SPACED_PREFIXES =
     [L ''f'', L ''from'', L ''sender'', L ''subject'', L ''s'', L ''body'', L ''preview'', L ''tag'',
      L ''keyword'', L ''in'', L ''mailbox'', L ''source'', L ''account'']"

definition prefix_accepts_spaced_value :: "str \<Rightarrow> bool" where
  "prefix_accepts_spaced_value prefix \<longleftrightarrow> prefix \<in> set SPACED_PREFIXES"

text \<open>The word at the position up to a colon in it, and what follows that colon.\<close>

definition word_char :: "nat \<Rightarrow> bool" where
  "word_char c \<longleftrightarrow> non_ws c \<and> c \<noteq> 58"

definition scan_prefix :: "str \<Rightarrow> (str \<times> str) option" where
  "scan_prefix cs = (case dropWhile word_char cs of
     c # after \<Rightarrow> (if c = 58 then Some (takeWhile word_char cs, after) else None)
   | [] \<Rightarrow> None)"

definition word_is_known_prefix :: "str \<Rightarrow> bool" where
  "word_is_known_prefix cs = (case scan_prefix cs of
     Some (prefix, _) \<Rightarrow> is_known_prefix (to_ascii_lowercase prefix)
   | None \<Rightarrow> False)"

definition skip_minus :: "str \<Rightarrow> str" where
  "skip_minus cs = (case cs of c # rest \<Rightarrow> (if c = 45 then rest else cs) | [] \<Rightarrow> [])"

definition starts_prefix_token :: "str \<Rightarrow> bool" where
  "starts_prefix_token cs \<longleftrightarrow> cs \<noteq> [] \<and> word_is_known_prefix (skip_minus cs)"

definition starts_next_prefix :: "str \<Rightarrow> bool" where
  "starts_next_prefix cs \<longleftrightarrow>
     cs \<noteq> [] \<and> is_whitespace (hd cs) \<and>
     word_is_known_prefix (skip_minus (dropWhile is_whitespace cs))"

fun scan_spaced :: "str \<Rightarrow> str \<times> str" where
  "scan_spaced [] = ([], [])"
| "scan_spaced (c # cs) =
     (if starts_next_prefix (c # cs) then ([], c # cs)
      else case scan_spaced cs of (value, rest) \<Rightarrow> (c # value, rest))"

definition scan_prefixed_value :: "str \<Rightarrow> str \<Rightarrow> str \<times> str" where
  "scan_prefixed_value cs prefix =
     (let cs = dropWhile is_whitespace cs in
      if \<not> prefix_accepts_spaced_value (to_ascii_lowercase prefix) then scan_value cs
      else if cs \<noteq> [] \<and> hd cs = 34 then scan_value cs
      else if starts_prefix_token cs then ([], cs)
      else case scan_spaced cs of (value, rest) \<Rightarrow> (trim value, rest))"

definition split_negation :: "str \<Rightarrow> bool \<times> str" where
  "split_negation cs = (case cs of
     c # d # rest \<Rightarrow> (if c = 45 \<and> non_ws d then (True, d # rest) else (False, cs))
   | _ \<Rightarrow> (False, cs))"

text \<open>One token at a position that is not whitespace, and the rest of the input.\<close>

definition next_token :: "str \<Rightarrow> Token \<times> str" where
  "next_token cs = (case split_negation cs of (negated, cs) \<Rightarrow>
     (case scan_prefix cs of
        Some (prefix, after) \<Rightarrow>
          (case scan_prefixed_value after prefix of (value, rest) \<Rightarrow>
             (\<lparr>tk_negated = negated, tk_prefix = Some prefix, tk_value = value\<rparr>, rest))
      | None \<Rightarrow>
          (case scan_value cs of (value, rest) \<Rightarrow>
             (\<lparr>tk_negated = negated, tk_prefix = None, tk_value = value\<rparr>, rest))))"

subsection \<open>The tokenizer makes progress\<close>

lemma dropWhile_length_Suc:
  "dropWhile P xs = y # ys \<Longrightarrow> length ys < length xs"
  by (metis length_Cons length_dropWhile_le less_eq_Suc_le)

lemma scan_value_length: "length (snd (scan_value cs)) \<le> length cs"
  by (auto simp: scan_value_def length_dropWhile_le split: list.split
      intro: le_trans [OF length_dropWhile_le] dest!: dropWhile_length_Suc)

lemma scan_value_progress: "cs \<noteq> [] \<Longrightarrow> non_ws (hd cs) \<Longrightarrow> length (snd (scan_value cs)) < length cs"
  by (cases cs)
    (auto simp: scan_value_def less_Suc_eq_le length_dropWhile_le split: list.split
      dest!: dropWhile_length_Suc)

lemma scan_spaced_length: "length (snd (scan_spaced cs)) \<le> length cs"
  by (induction cs) (auto split: prod.split)

lemma scan_prefixed_length: "length (snd (scan_prefixed_value cs prefix)) \<le> length cs"
proof -
  let ?cs = "dropWhile is_whitespace cs"
  have "length (snd (scan_prefixed_value cs prefix)) \<le> length ?cs"
    using scan_value_length [of ?cs] scan_spaced_length [of ?cs]
    by (auto simp: scan_prefixed_value_def Let_def split: prod.split)
  then show ?thesis using length_dropWhile_le le_trans by blast
qed

lemma split_negation_cases:
  "cs \<noteq> [] \<Longrightarrow> non_ws (hd cs) \<Longrightarrow>
   snd (split_negation cs) \<noteq> [] \<and> non_ws (hd (snd (split_negation cs))) \<and>
   length (snd (split_negation cs)) \<le> length cs"
  by (auto simp: split_negation_def split: list.split)

lemma next_token_progress:
  assumes "cs \<noteq> []" and "non_ws (hd cs)"
  shows "length (snd (next_token cs)) < length cs"
proof -
  obtain neg cs' where n: "split_negation cs = (neg, cs')" by (cases "split_negation cs")
  then have c: "cs' \<noteq> []" "non_ws (hd cs')" "length cs' \<le> length cs"
    using split_negation_cases [OF assms] by simp_all
  show ?thesis
  proof (cases "scan_prefix cs'")
    case None
    then show ?thesis
      using scan_value_progress [OF c(1,2)] c(3) by (auto simp: next_token_def n split: prod.split)
  next
    case (Some pa)
    obtain p after where pa: "pa = (p, after)" by (cases pa)
    have "length after < length cs'"
      using Some pa by (auto simp: scan_prefix_def split: list.splits if_splits
          dest: dropWhile_length_Suc)
    then show ?thesis
      using scan_prefixed_length [of after p] Some pa c(3)
      by (auto simp: next_token_def n split: prod.split)
  qed
qed

function tokenize :: "str \<Rightarrow> Token list" where
  "tokenize cs =
     (case cs of
        [] \<Rightarrow> []
      | c # rest \<Rightarrow>
          (if is_whitespace c then tokenize rest
           else case next_token (c # rest) of (token, rest') \<Rightarrow> token # tokenize rest'))"
  by pat_completeness auto
termination
proof (relation "measure length")
  fix cs :: str and c rest token rest'
  assume "cs = c # rest" "\<not> is_whitespace c" "(token, rest') = next_token (c # rest)"
  then show "(rest', cs) \<in> measure length"
    using next_token_progress [of "c # rest"] by (auto simp: non_ws_def dest: sym)
qed auto

declare tokenize.simps [simp del]

lemma tokenize_Nil [simp]: "tokenize [] = []"
  by (simp add: tokenize.simps)

lemma tokenize_ws: "is_whitespace c \<Longrightarrow> tokenize (c # cs) = tokenize cs"
  by (subst tokenize.simps) simp

lemma tokenize_token:
  "\<not> is_whitespace c \<Longrightarrow> tokenize (c # cs) =
     fst (next_token (c # cs)) # tokenize (snd (next_token (c # cs)))"
  by (subst tokenize.simps) (simp split: prod.split)

subsection \<open>Printing a query back\<close>

text \<open>A token as a user would quote it, and a query as its tokens separated by spaces.\<close>

definition render_token :: "Token \<Rightarrow> str" where
  "render_token t =
     (if tk_negated t then [45] else []) @
     (case tk_prefix t of Some prefix \<Rightarrow> prefix @ [58] | None \<Rightarrow> []) @
     34 # tk_value t @ [34]"

fun render_query :: "Token list \<Rightarrow> str" where
  "render_query [] = []"
| "render_query [t] = render_token t"
| "render_query (t # ts) = render_token t @ 32 # render_query ts"

text \<open>
  The tokens that can be written down: no quote in the value; a prefix is one word that does not
  read as a negation; the first word of free text holds no colon, since the tokenizer looks for the
  prefix before it looks for the quote.
\<close>

definition writable_token :: "Token \<Rightarrow> bool" where
  "writable_token t \<longleftrightarrow> 34 \<notin> set (tk_value t) \<and>
     (case tk_prefix t of
        Some prefix \<Rightarrow> (\<forall>c \<in> set prefix. word_char c) \<and>
          (tk_negated t \<or> prefix = [] \<or> hd prefix \<noteq> 45)
      | None \<Rightarrow> 58 \<notin> set (takeWhile non_ws (tk_value t)))"

lemma scan_value_quoted:
  "34 \<notin> set v \<Longrightarrow> scan_value (34 # v @ 34 # rest) = (v, rest)"
  by (auto simp: scan_value_def takeWhile_append dropWhile_append)

lemma scan_prefix_word:
  "\<forall>c \<in> set p. word_char c \<Longrightarrow> scan_prefix (p @ 58 # after) = Some (p, after)"
  by (auto simp: scan_prefix_def word_char_def takeWhile_append dropWhile_append
      dropWhile_eq_Nil_conv takeWhile_eq_all_conv)

lemma non_ws_quote [simp]: "non_ws 34" "\<not> is_whitespace 34" "non_ws 58" "non_ws 45" "word_char 34"
  by (simp_all add: non_ws_def word_char_def is_whitespace_def)

lemma dropWhile_cons_cases:
  "(dropWhile P xs = [] \<and> (\<forall>x \<in> set xs. P x)) \<or> (\<exists>y ys. dropWhile P xs = y # ys \<and> \<not> P y)"
  by (cases "dropWhile P xs") (auto simp: dropWhile_eq_Nil_conv dropWhile_eq_Cons_conv)

lemma scan_prefix_none:
  assumes "58 \<notin> set (takeWhile non_ws cs)"
  shows "scan_prefix cs = None"
proof -
  have "dropWhile word_char cs = [] \<or> (\<exists>y ys. dropWhile word_char cs = y # ys \<and> y \<noteq> 58)"
    using assms by (induction cs) (auto simp: word_char_def split: if_splits)
  then show ?thesis
    by (elim disjE exE conjE) (simp_all add: scan_prefix_def del: dropWhile_eq_Nil_conv)
qed

lemma scan_prefix_quoted:
  assumes "58 \<notin> set (takeWhile non_ws v)" and "rest = [] \<or> is_whitespace (hd rest)"
  shows "scan_prefix (34 # v @ 34 # rest) = None"
proof (rule scan_prefix_none)
  have "takeWhile non_ws rest = []" using assms(2) by (cases rest) (auto simp: non_ws_def)
  then show "58 \<notin> set (takeWhile non_ws (34 # v @ 34 # rest))"
    using assms(1) by (auto simp: takeWhile_append split: if_splits dest: takeWhile_eq_all_conv [THEN iffD2])
qed

lemma scan_prefixed_quoted:
  "34 \<notin> set v \<Longrightarrow> scan_prefixed_value (34 # v @ 34 # rest) prefix = (v, rest)"
  by (simp add: scan_prefixed_value_def Let_def scan_value_quoted)

lemma split_negation_render:
  assumes "writable_token t"
  shows "split_negation (render_token t @ rest) =
    (tk_negated t, (case tk_prefix t of Some prefix \<Rightarrow> prefix @ [58] | None \<Rightarrow> []) @
       34 # tk_value t @ 34 # rest)"
proof (cases "tk_prefix t")
  case None
  then show ?thesis by (simp add: render_token_def split_negation_def split: list.split)
next
  case (Some p)
  show ?thesis
  proof (cases p)
    case Nil
    then show ?thesis using Some
      by (simp add: render_token_def split_negation_def split: list.split)
  next
    case (Cons c cs)
    then have "non_ws c" "tk_negated t \<or> c \<noteq> 45"
      using assms Some by (auto simp: writable_token_def word_char_def)
    then show ?thesis using Some Cons
      by (auto simp: render_token_def split_negation_def split: list.split)
  qed
qed

lemma next_token_render:
  assumes "writable_token t" and "rest = [] \<or> is_whitespace (hd rest)"
  shows "next_token (render_token t @ rest) = (t, rest)"
proof (cases "tk_prefix t")
  case None
  then have "34 \<notin> set (tk_value t)" "58 \<notin> set (takeWhile non_ws (tk_value t))"
    using assms(1) by (simp_all add: writable_token_def)
  then show ?thesis
    using None assms(2)
    by (simp add: next_token_def split_negation_render [OF assms(1)] scan_prefix_quoted scan_value_quoted)
next
  case (Some p)
  then have "34 \<notin> set (tk_value t)" "\<forall>c \<in> set p. word_char c"
    using assms(1) by (simp_all add: writable_token_def)
  then show ?thesis
    using Some
    by (simp add: next_token_def split_negation_render [OF assms(1)] scan_prefix_word scan_prefixed_quoted)
qed

lemma render_token_start:
  assumes "writable_token t"
  obtains c cs where "render_token t = c # cs" and "\<not> is_whitespace c"
proof (cases "tk_negated t")
  case True
  then show ?thesis by (intro that [of 45]) (auto simp: render_token_def is_whitespace_def)
next
  case False
  show ?thesis
  proof (cases "tk_prefix t")
    case None
    with False show ?thesis by (intro that [of 34]) (auto simp: render_token_def)
  next
    case (Some p)
    then have p: "\<forall>c \<in> set p. non_ws c" using assms by (auto simp: writable_token_def word_char_def)
    show ?thesis
    proof (cases p)
      case Nil
      with Some False show ?thesis
        by (intro that [of 58]) (auto simp: render_token_def is_whitespace_def)
    next
      case (Cons c cs)
      with Some False p show ?thesis
        by (intro that [of c]) (auto simp: render_token_def non_ws_def)
    qed
  qed
qed

lemma tokenize_render_token:
  assumes "writable_token t" and "rest = [] \<or> is_whitespace (hd rest)"
  shows "tokenize (render_token t @ rest) = t # tokenize rest"
proof -
  obtain c cs where c: "render_token t = c # cs" "\<not> is_whitespace c"
    using render_token_start [OF assms(1)] .
  then show ?thesis
    using next_token_render [OF assms] by (simp add: tokenize_token)
qed

lemma tokenize_render:
  "\<forall>t \<in> set ts. writable_token t \<Longrightarrow> tokenize (render_query ts) = ts"
proof (induction ts rule: render_query.induct)
  case (2 t)
  then show ?case using tokenize_render_token [of t "[]"] by simp
next
  case (3 t u us)
  have "tokenize (render_token t @ 32 # render_query (u # us)) =
      t # tokenize (32 # render_query (u # us))"
    using 3 by (intro tokenize_render_token) simp_all
  then show ?case using 3 by (simp add: tokenize_ws)
qed simp

text \<open>
  The tokenizer reads back what was written: every list of tokens that can be written down
  (any prefix, negation, values with spaces, colons and leading minus signs) is recovered exactly
  from its quoted text.
\<close>

lemma tokenize_reads_back:
  assumes "\<forall>t \<in> set ts. writable_token t"
  shows "tokenize (render_query ts) = ts"
  by (rule tokenize_render [OF assms])

definition example_tokens :: "Token list" where
  "example_tokens =
     [\<lparr>tk_negated = False, tk_prefix = Some (L ''from''), tk_value = L ''Jane Doe''\<rparr>,
      \<lparr>tk_negated = True, tk_prefix = None, tk_value = L ''-spam now: free''\<rparr>,
      \<lparr>tk_negated = True, tk_prefix = Some (L ''is''), tk_value = L ''unread''\<rparr>]"

lemma example_tokens_writable: "\<forall>t \<in> set example_tokens. writable_token t"
  by (simp add: example_tokens_def writable_token_def word_char_def non_ws_def is_whitespace_def)

lemma tokenize_reads_back_example:
  "tokenize (render_query example_tokens) = example_tokens"
  by (rule tokenize_reads_back [OF example_tokens_writable])

subsection \<open>From a token to query nodes\<close>

text \<open>
  An error is the message the parser returns; \<open>Panicked\<close> is a panic of the code. A date is parsed
  and formatted by the calendar; \<open>cal_days_ago n\<close> is the instant \<open>n\<close> days before now, \<open>None\<close> when
  the subtraction panics.
\<close>

datatype query_error = Refused str | Panicked

record 'd Calendar =
  cal_parse :: "str \<Rightarrow> (str, 'd) result"
  cal_midnight :: "'d \<Rightarrow> (str, str) result"
  cal_next_day :: "'d \<Rightarrow> 'd option"
  cal_days_ago :: "int \<Rightarrow> (str, str) result option"

definition condition_node ::
  "MailQueryField \<Rightarrow> MailQueryOperator \<Rightarrow> MailQueryValue \<Rightarrow> bool \<Rightarrow> MailQueryRuleNode" where
  "condition_node field operator value negated =
     NCondition \<lparr>qc_field = field, qc_operator = operator, qc_negated = negated, qc_value = value\<rparr>"

definition from_node :: "str \<Rightarrow> bool \<Rightarrow> MailQueryRuleNode" where
  "from_node value negated = NGroup (MailQueryGroup QAny negated
     [condition_node FFromEmail QContains (VString value) False,
      condition_node FFromName QContains (VString value) False])"

definition mailbox_node :: "str \<Rightarrow> bool \<Rightarrow> MailQueryRuleNode" where
  "mailbox_node value negated = NGroup (MailQueryGroup QAny negated
     [condition_node FMailboxRole QEquals (VString value) False,
      condition_node FMailboxId QEquals (VString value) False,
      condition_node FMailboxName QContains (VString value) False])"

definition source_node :: "str \<Rightarrow> bool \<Rightarrow> MailQueryRuleNode" where
  "source_node value negated = NGroup (MailQueryGroup QAny negated
     [condition_node FSourceId QEquals (VString value) False,
      condition_node FSourceName QContains (VString value) False])"

definition free_text_node :: "str \<Rightarrow> bool \<Rightarrow> MailQueryRuleNode" where
  "free_text_node value negated = NGroup (MailQueryGroup QAny negated
     (map (\<lambda>field. condition_node field QContains (VString value) False)
        [FFromName, FFromEmail, FSubject, FPreview, FBody]))"

definition is_node :: "str \<Rightarrow> bool \<Rightarrow> (query_error, MailQueryRuleNode list) result" where
  "is_node value negated =
     (let value = to_ascii_lowercase value;
          flag = (\<lambda>field expected. Inr [condition_node field QEquals (VBool expected) negated])
      in if value = L ''unread'' then flag FIsRead False
         else if value \<in> {L ''read'', L ''seen''} then flag FIsRead True
         else if value = L ''flagged'' then flag FIsFlagged True
         else if value = L ''unflagged'' then flag FIsFlagged False
         else if value \<in> {L ''attachment'', L ''attachments''} then flag FHasAttachment True
         else Inl (Refused (L ''unknown is: value: '' @ value)))"

definition has_node :: "str \<Rightarrow> bool \<Rightarrow> (query_error, MailQueryRuleNode list) result" where
  "has_node value negated =
     (let value = to_ascii_lowercase value in
      if value \<in> {L ''attachment'', L ''attachments''}
      then Inr [condition_node FHasAttachment QEquals (VBool True) negated]
      else Inl (Refused (L ''unknown has: value: '' @ value)))"

definition format_error :: "str \<Rightarrow> query_error" where
  "format_error e = Refused (L ''date format error: '' @ e)"

definition date_node ::
  "'d Calendar \<Rightarrow> str \<Rightarrow> bool \<Rightarrow> (query_error, MailQueryRuleNode list) result" where
  "date_node cal value negated = (case cal_parse cal value of
     Inl e \<Rightarrow> Inl (Refused (L ''invalid date '' @ [39] @ value @ [39] @ L '': '' @ e))
   | Inr date \<Rightarrow> (case cal_midnight cal date of
       Inl e \<Rightarrow> Inl (format_error e)
     | Inr start \<Rightarrow> (case cal_next_day cal date of
         None \<Rightarrow> Inl (Refused (L ''date overflow''))
       | Some next_day \<Rightarrow> (case cal_midnight cal next_day of
           Inl e \<Rightarrow> Inl (format_error e)
         | Inr end_of_day \<Rightarrow> Inr [NGroup (MailQueryGroup QAll negated
             [condition_node FReceivedAt QGe (VString start) False,
              condition_node FReceivedAt QLt (VString end_of_day) False])]))))"

text \<open>\<open>i64\<close> arithmetic of a release build wraps around.\<close>

definition wrap_i64 :: "int \<Rightarrow> int" where
  "wrap_i64 x = sint (word_of_int x :: 64 word)"

text \<open>
  \<open>split_at(len - 1)\<close> panics when the last character takes more than one byte. Subtracting a
  duration panics when it overflows.
\<close>

definition compute_relative_date :: "'d Calendar \<Rightarrow> str \<Rightarrow> (query_error, str) result" where
  "compute_relative_date cal spec =
     (if utf8_len spec < 2 then Inl (Refused (L ''invalid relative date: '' @ spec))
      else if utf8_width (last spec) \<noteq> 1 then Inl Panicked
      else case parse_i64 (butlast spec) of
        None \<Rightarrow> Inl (Refused (L ''invalid number in relative date: '' @ butlast spec))
      | Some n \<Rightarrow>
          (let target =
             (if last spec = 100 then Inr (cal_days_ago cal n)
              else if last spec = 119 then Inr (cal_days_ago cal (7 * n))
              else if last spec = 109 then Inr (cal_days_ago cal (wrap_i64 (n * 30)))
              else if last spec = 121 then Inr (cal_days_ago cal (wrap_i64 (n * 365)))
              else Inl (Refused (L ''unknown relative date unit: '' @ [last spec])))
           in case target of
                Inl e \<Rightarrow> Inl e
              | Inr None \<Rightarrow> Inl Panicked
              | Inr (Some (Inl e)) \<Rightarrow> Inl (format_error e)
              | Inr (Some (Inr instant)) \<Rightarrow> Inr instant))"

definition relative_date_node ::
  "'d Calendar \<Rightarrow> str \<Rightarrow> MailQueryOperator \<Rightarrow> bool \<Rightarrow> (query_error, MailQueryRuleNode list) result" where
  "relative_date_node cal value operator negated = (case compute_relative_date cal value of
     Inl e \<Rightarrow> Inl e
   | Inr instant \<Rightarrow> Inr [condition_node FReceivedAt operator (VString instant) negated])"

definition parse_prefixed ::
  "'d Calendar \<Rightarrow> str \<Rightarrow> str \<Rightarrow> bool \<Rightarrow> (query_error, MailQueryRuleNode list) result" where
  "parse_prefixed cal prefix value negated =
     (let value = trim value; p = to_ascii_lowercase prefix;
          on = (\<lambda>field operator. Inr [condition_node field operator (VString value) negated])
      in if value = [] then Inl (Refused (L ''empty value for '' @ prefix @ [58]))
         else if p \<in> {L ''f'', L ''from'', L ''sender''} then Inr [from_node value negated]
         else if p \<in> {L ''subject'', L ''s''} then on FSubject QContains
         else if p \<in> {L ''to'', L ''recipient''} then on FTo QContains
         else if p = L ''body'' then on FBody QContains
         else if p = L ''preview'' then on FPreview QContains
         else if p = L ''is'' then is_node value negated
         else if p = L ''has'' then has_node value negated
         else if p \<in> {L ''tag'', L ''keyword''} then on FKeyword QEquals
         else if p \<in> {L ''in'', L ''mailbox''} then Inr [mailbox_node value negated]
         else if p \<in> {L ''source'', L ''account''} then Inr [source_node value negated]
         else if p = L ''id'' then on FMessageId QEquals
         else if p \<in> {L ''thread'', L ''threadid''} then on FThreadId QEquals
         else if p \<in> {L ''conversation'', L ''conversationid'', L ''conv''}
         then on FConversationId QEquals
         else if p = L ''before'' then on FReceivedAt QLt
         else if p = L ''after'' then on FReceivedAt QGt
         else if p = L ''date'' then date_node cal value negated
         else if p = L ''newer'' then relative_date_node cal value QGt negated
         else if p = L ''older'' then relative_date_node cal value QLt negated
         else Inl (Refused (L ''unknown search prefix: '' @ prefix)))"

definition parse_token ::
  "'d Calendar \<Rightarrow> Token \<Rightarrow> (query_error, MailQueryRuleNode list) result" where
  "parse_token cal token = (case tk_prefix token of
     Some prefix \<Rightarrow> parse_prefixed cal prefix (tk_value token) (tk_negated token)
   | None \<Rightarrow> Inr [free_text_node (tk_value token) (tk_negated token)])"

subsection \<open>Parsing a query\<close>

record ScopeToken =
  sc_negated :: bool
  sc_value :: str

definition is_scope_prefix :: "str option \<Rightarrow> str list \<Rightarrow> bool" where
  "is_scope_prefix prefix scope_prefixes = (case prefix of
     None \<Rightarrow> False
   | Some p \<Rightarrow> list_ex (\<lambda>scope. to_ascii_lowercase scope = to_ascii_lowercase p) scope_prefixes)"

text \<open>The loop over the tokens, with the nodes and scopes collected so far.\<close>

fun parse_tokens ::
  "'d Calendar \<Rightarrow> str list \<Rightarrow> Token list \<Rightarrow> MailQueryRuleNode list \<Rightarrow> ScopeToken list \<Rightarrow>
   (query_error, MailQueryRuleNode list \<times> ScopeToken list) result" where
  "parse_tokens cal scope_prefixes [] nodes scopes = Inr (nodes, scopes)"
| "parse_tokens cal scope_prefixes (token # tokens) nodes scopes =
     (if is_scope_prefix (tk_prefix token) scope_prefixes
      then parse_tokens cal scope_prefixes tokens nodes
             (scopes @ [\<lparr>sc_negated = tk_negated token, sc_value = tk_value token\<rparr>])
      else case parse_token cal token of
        Inl e \<Rightarrow> Inl e
      | Inr fresh_nodes \<Rightarrow> parse_tokens cal scope_prefixes tokens (nodes @ fresh_nodes) scopes)"

definition rule_of_nodes :: "MailQueryRuleNode list \<Rightarrow> MailQueryRule" where
  "rule_of_nodes nodes = \<lparr>qr_root = MailQueryGroup QAll False nodes\<rparr>"

definition empty_rule :: MailQueryRule where
  "empty_rule = rule_of_nodes []"

definition parse_query_with_scopes ::
  "'d Calendar \<Rightarrow> str \<Rightarrow> str list \<Rightarrow> (query_error, MailQueryRule option \<times> ScopeToken list) result" where
  "parse_query_with_scopes cal query scope_prefixes =
     (case parse_tokens cal scope_prefixes (tokenize query) [] [] of
        Inl e \<Rightarrow> Inl e
      | Inr (nodes, scopes) \<Rightarrow>
          Inr (if nodes = [] then None else Some (rule_of_nodes nodes), scopes))"

definition parse_query :: "'d Calendar \<Rightarrow> str \<Rightarrow> (query_error, MailQueryRule) result" where
  "parse_query cal query = (case parse_query_with_scopes cal query [] of
     Inl e \<Rightarrow> Inl e
   | Inr (rule, _) \<Rightarrow> Inr (case rule of Some r \<Rightarrow> r | None \<Rightarrow> empty_rule))"

subsection \<open>What the parser returns\<close>

lemma parse_tokens_append:
  "parse_tokens cal sps toks nodes scopes =
     (case sequence (map (parse_token cal) (filter (\<lambda>t. \<not> is_scope_prefix (tk_prefix t) sps) toks)) of
        Inl e \<Rightarrow> Inl e
      | Inr nss \<Rightarrow> Inr (nodes @ concat nss,
          scopes @ map (\<lambda>t. \<lparr>sc_negated = tk_negated t, sc_value = tk_value t\<rparr>)
                     (filter (\<lambda>t. is_scope_prefix (tk_prefix t) sps) toks)))"
  by (induction cal sps toks nodes scopes rule: parse_tokens.induct) (auto split: sum.split)

lemma is_node_leaf: "is_node v neg = Inr ns \<Longrightarrow> \<exists>f b. ns = [condition_node f QEquals (VBool b) neg] \<and>
    fs_value_type (field_spec f) = TBool \<and> QEquals \<in> set (fs_operators (field_spec f))"
  by (auto simp: is_node_def Let_def field_spec_def operator_sets split: if_splits)

lemma has_node_leaf: "has_node v neg = Inr ns \<Longrightarrow> \<exists>b. ns = [condition_node FHasAttachment QEquals (VBool b) neg]"
  by (auto simp: has_node_def Let_def split: if_splits)

text \<open>The shapes of the nodes one token compiles to.\<close>

lemma parse_prefixed_nodes:
  assumes "parse_prefixed cal p v neg = Inr ns"
  shows "(\<exists>s. ns = [from_node s neg]) \<or> (\<exists>s. ns = [mailbox_node s neg]) \<or> (\<exists>s. ns = [source_node s neg]) \<or>
    (\<exists>s f. f \<in> {FSubject, FTo, FBody, FPreview} \<and> ns = [condition_node f QContains (VString s) neg]) \<or>
    (\<exists>s f. f \<in> {FKeyword, FMessageId, FThreadId, FConversationId} \<and>
       ns = [condition_node f QEquals (VString s) neg]) \<or>
    (\<exists>s oper. oper \<in> {QLt, QGt} \<and> ns = [condition_node FReceivedAt oper (VString s) neg]) \<or>
    is_node (trim v) neg = Inr ns \<or> has_node (trim v) neg = Inr ns \<or>
    date_node cal (trim v) neg = Inr ns"
  using assms
  by (auto simp: parse_prefixed_def Let_def relative_date_node_def split: if_splits sum.splits)

lemma date_node_shape:
  "date_node cal v neg = Inr ns \<Longrightarrow> \<exists>s e. ns = [NGroup (MailQueryGroup QAll neg
     [condition_node FReceivedAt QGe (VString s) False, condition_node FReceivedAt QLt (VString e) False])]"
  by (auto simp: date_node_def split: sum.splits option.splits)

lemmas node_shapes = condition_node_def from_node_def mailbox_node_def source_node_def free_text_node_def

lemma parse_token_one: "parse_token cal t = Inr ns \<Longrightarrow> length ns = 1"
  by (auto simp: parse_token_def dest!: parse_prefixed_nodes is_node_leaf has_node_leaf date_node_shape
      split: option.splits)

text \<open>A leaf the parser emits passes the schema.\<close>

definition schema_leaf :: "MailQueryCondition \<Rightarrow> bool" where
  "schema_leaf c \<longleftrightarrow>
     qc_operator c \<in> set (fs_operators (field_spec (qc_field c))) \<and>
     ((\<exists>s. qc_value c = VString s \<and>
        (fs_value_type (field_spec (qc_field c)) = TText \<and> qc_operator c \<in> {QEquals, QContains} \<or>
         fs_value_type (field_spec (qc_field c)) = TDate)) \<or>
      (\<exists>b. qc_value c = VBool b \<and> fs_value_type (field_spec (qc_field c)) = TBool))"

lemma parse_token_leaves:
  assumes "parse_token cal t = Inr ns" and "c \<in> set (nodes_leaves ns)"
  shows "schema_leaf c"
  using assms
  by (auto simp: parse_token_def schema_leaf_def node_shapes field_spec_def operator_sets
      dest!: parse_prefixed_nodes is_node_leaf has_node_leaf date_node_shape split: option.splits)

lemma schema_leaf_valid: "schema_leaf c \<Longrightarrow> validate_condition regex_ok c = Inr ()"
  unfolding validated_iff
  by (cases "qc_field c") (auto simp: schema_leaf_def field_spec_def operator_sets)

lemma nodes_leaves_concat: "set (nodes_leaves (concat nss)) = (\<Union>ns \<in> set nss. set (nodes_leaves ns))"
  by (induction nss) auto

lemma parsed_leaves:
  assumes "parse_query_with_scopes cal query sps = Inr (Some rule, scopes)"
    and "c \<in> set (group_leaves (qr_root rule))"
  shows "schema_leaf c"
proof -
  obtain nss where nss: "sequence (map (parse_token cal)
      (filter (\<lambda>t. \<not> is_scope_prefix (tk_prefix t) sps) (tokenize query))) = Inr nss"
    and rule: "rule = rule_of_nodes (concat nss)"
    using assms(1) by (auto simp: parse_query_with_scopes_def parse_tokens_append split: sum.splits if_splits)
  from assms(2) obtain ns where "ns \<in> set nss" and c: "c \<in> set (nodes_leaves ns)"
    by (auto simp: rule rule_of_nodes_def nodes_leaves_concat)
  then obtain t where "parse_token cal t = Inr ns"
    using sequence_map_mem [OF nss] by blast
  then show ?thesis using parse_token_leaves c by blast
qed

lemma parsed_nodes_empty:
  "sequence (map (parse_token cal) kept) = Inr nss \<Longrightarrow> concat nss = [] \<longleftrightarrow> kept = []"
proof -
  assume seq: "sequence (map (parse_token cal) kept) = Inr nss"
  have "ns \<noteq> []" if mem: "ns \<in> set nss" for ns
    using sequence_map_mem [OF seq mem] parse_token_one by fastforce
  then show ?thesis using sequence_Inr_length [OF seq] by (cases nss) auto
qed

lemma parse_with_scopes_eq:
  "parse_query_with_scopes cal query sps =
     (case sequence (map (parse_token cal)
             (filter (\<lambda>t. \<not> is_scope_prefix (tk_prefix t) sps) (tokenize query))) of
        Inl e \<Rightarrow> Inl e
      | Inr nss \<Rightarrow>
          Inr (if filter (\<lambda>t. \<not> is_scope_prefix (tk_prefix t) sps) (tokenize query) = [] then None
               else Some (rule_of_nodes (concat nss)),
            map (\<lambda>t. \<lparr>sc_negated = tk_negated t, sc_value = tk_value t\<rparr>)
              (filter (\<lambda>t. is_scope_prefix (tk_prefix t) sps) (tokenize query))))"
  unfolding parse_query_with_scopes_def parse_tokens_append
  by (auto simp: parsed_nodes_empty simp del: concat_eq_Nil_conv split: sum.split)

lemma parse_query_eq:
  "parse_query cal query =
     (case sequence (map (parse_token cal) (tokenize query)) of
        Inl e \<Rightarrow> Inl e | Inr nss \<Rightarrow> Inr (rule_of_nodes (concat nss)))"
proof -
  have all: "filter (\<lambda>t. \<not> is_scope_prefix (tk_prefix t) []) ts = ts" for ts
    by (simp add: is_scope_prefix_def split: option.split)
  have none: "sequence (map (parse_token cal) []) = Inr nss \<Longrightarrow> concat nss = []" for nss by auto
  show ?thesis
    unfolding parse_query_def parse_with_scopes_eq all
    by (cases "tokenize query = []") (auto simp: empty_rule_def split: sum.split)
qed

text \<open>
  The two parsers are one: peeling scope prefixes returns exactly the scope tokens, in order and
  unparsed, and parses the other tokens in order with the grammar of \<open>parse_query\<close>; the first token
  that does not parse is the error; a rule is returned exactly if a token other than a scope is left.
\<close>

lemma scopes_are_peeled:
  "parse_query_with_scopes cal query sps =
     (let kept = filter (\<lambda>t. \<not> is_scope_prefix (tk_prefix t) sps) (tokenize query);
          peeled = filter (\<lambda>t. is_scope_prefix (tk_prefix t) sps) (tokenize query)
      in case sequence (map (parse_token cal) kept) of
           Inl e \<Rightarrow> Inl e
         | Inr nss \<Rightarrow> Inr (if kept = [] then None else Some (rule_of_nodes (concat nss)),
             map (\<lambda>t. \<lparr>sc_negated = tk_negated t, sc_value = tk_value t\<rparr>) peeled)) \<and>
   parse_query cal query =
     (case sequence (map (parse_token cal) (tokenize query)) of
        Inl e \<Rightarrow> Inl e | Inr nss \<Rightarrow> Inr (rule_of_nodes (concat nss)))"
proof -
  show ?thesis
    unfolding parse_with_scopes_eq Let_def by (intro conjI refl parse_query_eq)
qed

text \<open>
  The parser only builds rules the rest of the system accepts: every query that parses passes
  the boundary validation, whatever patterns the regex engine takes.
\<close>

lemma parsed_queries_validate:
  assumes "parse_query cal query = Inr rule"
  shows "validate_query regex_ok rule = Inr ()"
  using assms parsed_leaves [of cal query "[]"] schema_leaf_valid
  by (auto simp: parse_query_def validate_query_iff empty_rule_def rule_of_nodes_def
      split: sum.splits option.splits)

definition fixed_calendar :: "nat Calendar" where
  "fixed_calendar =
     \<lparr>cal_parse = (\<lambda>s. if s = L ''2026-01-02'' then Inr 2 else Inl (L ''no date'')),
      cal_midnight = (\<lambda>d. Inr (L ''2026-01-0'' @ show_nat d)),
      cal_next_day = (\<lambda>d. Some (d + 1)), cal_days_ago = (\<lambda>n. None)\<rparr>"

lemma example_tokens_parse:
  "parse_query fixed_calendar (render_query example_tokens) = Inr (rule_of_nodes
     [from_node (L ''Jane Doe'') False, free_text_node (L ''-spam now: free'') True,
      condition_node FIsRead QEquals (VBool False) True])"
  unfolding parse_query_eq tokenize_render [OF example_tokens_writable]
  by (simp add: example_tokens_def parse_token_def parse_prefixed_def is_node_def Let_def
      to_ascii_lowercase_def ascii_lower_def trim_def trim_start_def trim_end_def is_whitespace_def)

lemma parsed_queries_validate_example:
  "\<exists>rule. parse_query fixed_calendar (render_query example_tokens) = Inr rule \<and>
     validate_query (\<lambda>_. False) rule = Inr ()"
  using example_tokens_parse parsed_queries_validate [OF example_tokens_parse] by blast

end
