(* ===== verification/QuerySql.thy ===== *)
theory QuerySql
  imports QueryGrammar Errors
begin

text \<open>
  The compiler of query rules to parameterised SQL,
  \<open>crates/posthaste-store/src/smart_mailboxes/rule_compiler.rs\<close> and \<open>field_compilers.rs\<close>. SQL is
  the text the code builds; the parameters it binds are the state of the compilation. The Unicode
  functions of the standard library (lower-casing, the alphanumeric property, the \<open>Debug\<close> quoting of
  a string) are the parameter \<open>Unicode\<close>.
\<close>

subsection \<open>Values and text\<close>

datatype SqlValue = SqlText str | SqlInteger int

type_synonym 'a sql_step = "SqlValue list \<Rightarrow> (StoreError, 'a) result \<times> SqlValue list"

record Unicode =
  un_lowercase :: "str \<Rightarrow> str"
  un_alphanumeric :: "nat \<Rightarrow> bool"
  un_debug :: "str \<Rightarrow> str"

definition sql_lines :: "str list \<Rightarrow> str" where
  "sql_lines ls = concat (map (\<lambda>l. l @ [10]) (butlast ls)) @ last ls"

fun join :: "str \<Rightarrow> str list \<Rightarrow> str" where
  "join sep [] = []"
| "join sep [x] = x"
| "join sep (x # xs) = x @ sep @ join sep xs"

fun field_debug :: "MailQueryField \<Rightarrow> str" where
  "field_debug FSourceId = L ''SourceId''" | "field_debug FSourceName = L ''SourceName''"
| "field_debug FMessageId = L ''MessageId''" | "field_debug FThreadId = L ''ThreadId''"
| "field_debug FConversationId = L ''ConversationId''" | "field_debug FMailboxId = L ''MailboxId''"
| "field_debug FMailboxName = L ''MailboxName''" | "field_debug FMailboxRole = L ''MailboxRole''"
| "field_debug FIsRead = L ''IsRead''" | "field_debug FIsFlagged = L ''IsFlagged''"
| "field_debug FHasAttachment = L ''HasAttachment''" | "field_debug FKeyword = L ''Keyword''"
| "field_debug FFromName = L ''FromName''" | "field_debug FFromEmail = L ''FromEmail''"
| "field_debug FTo = L ''To''" | "field_debug FSubject = L ''Subject''"
| "field_debug FPreview = L ''Preview''" | "field_debug FBody = L ''Body''"
| "field_debug FReceivedAt = L ''ReceivedAt''" | "field_debug FSize = L ''Size''"

fun operator_debug :: "MailQueryOperator \<Rightarrow> str" where
  "operator_debug QEquals = L ''Equals''" | "operator_debug QIn = L ''In''"
| "operator_debug QContains = L ''Contains''" | "operator_debug QBeginsWith = L ''BeginsWith''"
| "operator_debug QEndsWith = L ''EndsWith''" | "operator_debug QRegex = L ''Regex''"
| "operator_debug QLt = L ''Lt''" | "operator_debug QGt = L ''Gt''"
| "operator_debug QLe = L ''Le''" | "operator_debug QGe = L ''Ge''"

definition unsupported :: "MailQueryCondition \<Rightarrow> StoreError" where
  "unsupported condition = StFailure (L ''unsupported operator '' @
     operator_debug (qc_operator condition) @ L '' for field '' @ field_debug (qc_field condition))"

definition expect_string_value :: "MailQueryValue \<Rightarrow> str sql_step" where
  "expect_string_value value params = (case value of
     VString s \<Rightarrow> (Inr s, params)
   | _ \<Rightarrow> (Inl (StFailure (L ''expected string smart mailbox value'')), params))"

definition expect_strings_value :: "MailQueryValue \<Rightarrow> str list sql_step" where
  "expect_strings_value value params = (case value of
     VStrings values \<Rightarrow> (Inr values, params)
   | _ \<Rightarrow> (Inl (StFailure (L ''expected string array smart mailbox value'')), params))"

definition expect_bool_value :: "MailQueryValue \<Rightarrow> bool sql_step" where
  "expect_bool_value value params = (case value of
     VBool b \<Rightarrow> (Inr b, params)
   | _ \<Rightarrow> (Inl (StFailure (L ''expected boolean smart mailbox value'')), params))"

text \<open>\<open>escape_like\<close>: a backslash before the metacharacters percent, underscore and backslash.\<close>

definition escape_like :: "str \<Rightarrow> str" where
  "escape_like input = concat (map (\<lambda>c. if c \<in> {92, 37, 95} then [92, c] else [c]) input)"

text \<open>\<open>split\<close> at the characters that are not alphanumeric, without the empty pieces.\<close>

fun alnum_runs :: "(nat \<Rightarrow> bool) \<Rightarrow> str \<Rightarrow> str \<Rightarrow> str list" where
  "alnum_runs alnum cur [] = (if cur = [] then [] else [cur])"
| "alnum_runs alnum cur (c # cs) =
     (if alnum c then alnum_runs alnum (cur @ [c]) cs
      else if cur = [] then alnum_runs alnum [] cs
      else cur # alnum_runs alnum [] cs)"

definition body_fts_match_expression :: "Unicode \<Rightarrow> str \<Rightarrow> str option" where
  "body_fts_match_expression un value =
     (let tokens = alnum_runs (un_alphanumeric un) [] value in
      if tokens = [] then None
      else Some (L ''body:'' @ [34] @ join [32] tokens @ [34, 42]))"

definition bind_text :: "str \<Rightarrow> str \<Rightarrow> str sql_step" where
  "bind_text text sql params = (Inr sql, params @ [SqlText text])"

definition bind_text_twice :: "str \<Rightarrow> str \<Rightarrow> str sql_step" where
  "bind_text_twice text sql params = (Inr sql, params @ [SqlText text, SqlText text])"

definition push_placeholders :: "str list \<Rightarrow> SqlValue list \<Rightarrow> str \<times> SqlValue list" where
  "push_placeholders values params =
     (join (L '', '') (replicate (length values) [63]), params @ map SqlText values)"

definition compile_in_clause :: "str \<Rightarrow> str list \<Rightarrow> str sql_step" where
  "compile_in_clause column values params =
     (if values = [] then (Inr (L ''1 = 0''), params)
      else case push_placeholders values params of
        (placeholders, params) \<Rightarrow> (Inr (column @ L '' IN ('' @ placeholders @ L '')''), params))"

subsection \<open>Field compilers\<close>

definition compile_body_fts_field :: "Unicode \<Rightarrow> MailQueryCondition \<Rightarrow> str sql_step" where
  "compile_body_fts_field un condition params = (case qc_operator condition of
     QContains \<Rightarrow> and_then (expect_string_value (qc_value condition) params)
       (\<lambda>value params. case body_fts_match_expression un value of
          None \<Rightarrow> (Inr (L ''1 = 0''), params)
        | Some match_expression \<Rightarrow> bind_text match_expression (sql_lines
            [L ''(m.account_id, m.id) IN ('',
             L ''                SELECT msg.account_id, msg.id'',
             L ''                FROM message_fts'',
             L ''                JOIN message msg ON msg.rowid = message_fts.rowid'',
             L ''                WHERE message_fts MATCH ?)'']) params)
   | _ \<Rightarrow> (Inl (unsupported condition), params))"

definition compile_simple_field :: "str \<Rightarrow> MailQueryCondition \<Rightarrow> str sql_step" where
  "compile_simple_field column condition params = (case qc_operator condition of
     QEquals \<Rightarrow> and_then (expect_string_value (qc_value condition) params)
       (\<lambda>value. bind_text value (column @ L '' = ?''))
   | QIn \<Rightarrow> and_then (expect_strings_value (qc_value condition) params) (compile_in_clause column)
   | _ \<Rightarrow> (Inl (unsupported condition), params))"

definition escape_clause :: str where
  "escape_clause = L '' ESCAPE '' @ [39, 92, 39]"

definition or_empty :: "str \<Rightarrow> str" where
  "or_empty column = L ''COALESCE('' @ column @ L '', '' @ [39, 39] @ L '')''"

definition compile_text_field :: "Unicode \<Rightarrow> str \<Rightarrow> MailQueryCondition \<Rightarrow> str sql_step" where
  "compile_text_field un column condition params =
     (let lower_like = L ''LOWER('' @ or_empty column @ L '') LIKE ?'';
          string = expect_string_value (qc_value condition) params
      in case qc_operator condition of
        QEquals \<Rightarrow> and_then string (\<lambda>v. bind_text v (or_empty column @ L '' = ?''))
      | QContains \<Rightarrow> and_then string (\<lambda>v. bind_text (37 # un_lowercase un v @ [37]) lower_like)
      | QBeginsWith \<Rightarrow> and_then string
          (\<lambda>v. bind_text (escape_like (un_lowercase un v) @ [37]) (lower_like @ escape_clause))
      | QEndsWith \<Rightarrow> and_then string
          (\<lambda>v. bind_text (37 # escape_like (un_lowercase un v)) (lower_like @ escape_clause))
      | QRegex \<Rightarrow> and_then string (\<lambda>v. bind_text v (or_empty column @ L '' REGEXP ?''))
      | QIn \<Rightarrow> and_then (expect_strings_value (qc_value condition) params)
          (compile_in_clause (or_empty column))
      | _ \<Rightarrow> (Inl (unsupported condition), params))"

definition comparator :: "MailQueryOperator \<Rightarrow> str option" where
  "comparator operator = (case operator of
     QLt \<Rightarrow> Some (L ''<'') | QGt \<Rightarrow> Some (L ''>'') | QLe \<Rightarrow> Some (L ''<='') | QGe \<Rightarrow> Some (L ''>='')
   | _ \<Rightarrow> None)"

definition relative_modifier :: "32 word \<Rightarrow> DateUnit \<Rightarrow> str" where
  "relative_modifier amount unit = (let n = unat amount in case unit of
     UMinutes \<Rightarrow> 45 # show_nat n @ L '' minutes''
   | UHours \<Rightarrow> 45 # show_nat n @ L '' hours''
   | UDays \<Rightarrow> 45 # show_nat n @ L '' days''
   | UWeeks \<Rightarrow> 45 # show_nat (n * 7) @ L '' days''
   | UMonths \<Rightarrow> 45 # show_nat n @ L '' months'')"

definition compile_date_field :: "str \<Rightarrow> MailQueryCondition \<Rightarrow> str sql_step" where
  "compile_date_field column condition params = (case comparator (qc_operator condition) of
     None \<Rightarrow> (Inl (unsupported condition), params)
   | Some cmp \<Rightarrow> (case qc_value condition of
       VString instant \<Rightarrow> bind_text instant (column @ [32] @ cmp @ L '' ?'') params
     | VDate (Absolute value) \<Rightarrow> bind_text value (column @ [32] @ cmp @ L '' ?'') params
     | VDate (Relative amount unit) \<Rightarrow> bind_text (relative_modifier amount unit)
         (L ''datetime('' @ column @ L '') '' @ cmp @ L '' datetime('' @ [39] @ L ''now'' @ [39] @
          L '', ?)'') params
     | _ \<Rightarrow> (Inl (StFailure (L ''expected date smart mailbox value for field '' @
                field_debug (qc_field condition))), params)))"

definition compile_numeric_field :: "Unicode \<Rightarrow> str \<Rightarrow> MailQueryCondition \<Rightarrow> str sql_step" where
  "compile_numeric_field un column condition params = (case comparator (qc_operator condition) of
     None \<Rightarrow> (Inl (unsupported condition), params)
   | Some cmp \<Rightarrow> and_then (expect_string_value (qc_value condition) params)
       (\<lambda>raw params. case parse_i64 (trim raw) of
          None \<Rightarrow> (Inl (StFailure (L ''expected integer smart mailbox value for field '' @
            field_debug (qc_field condition) @ L '', got '' @ un_debug un raw)), params)
        | Some number \<Rightarrow> (Inr (column @ [32] @ cmp @ L '' ?''), params @ [SqlInteger number])))"

definition json_part :: "str \<Rightarrow> str" where
  "json_part key = L ''json_extract(r.value, '' @ [39] @ L ''$.'' @ key @ [39] @ L '')''"

text \<open>One test on the email and the same on the display name of a recipient.\<close>

definition either_part :: "str \<Rightarrow> str \<Rightarrow> str" where
  "either_part before after = sql_lines
     [40 # before @ or_empty (json_part (L ''email'')) @ after,
      L ''                  OR '' @ before @ or_empty (json_part (L ''name'')) @ after @ L '')'']"

definition recipient_predicate :: "Unicode \<Rightarrow> MailQueryCondition \<Rightarrow> str option sql_step" where
  "recipient_predicate un condition params =
     (let string = expect_string_value (qc_value condition) params;
          some = (\<lambda>r. and_then r (\<lambda>sql params. (Inr (Some sql), params)))
      in case qc_operator condition of
        QEquals \<Rightarrow> some (and_then string
          (\<lambda>v. bind_text v (json_part (L ''email'') @ L '' = ?'')))
      | QContains \<Rightarrow> some (and_then string (\<lambda>v. bind_text_twice (37 # un_lowercase un v @ [37])
          (either_part (L ''LOWER('') (L '') LIKE ?''))))
      | QBeginsWith \<Rightarrow> some (and_then string
          (\<lambda>v. bind_text_twice (escape_like (un_lowercase un v) @ [37])
                 (either_part (L ''LOWER('') (L '') LIKE ?'' @ escape_clause))))
      | QEndsWith \<Rightarrow> some (and_then string
          (\<lambda>v. bind_text_twice (37 # escape_like (un_lowercase un v))
                 (either_part (L ''LOWER('') (L '') LIKE ?'' @ escape_clause))))
      | QRegex \<Rightarrow> some (and_then string (\<lambda>v. bind_text_twice v (either_part [] (L '' REGEXP ?''))))
      | QIn \<Rightarrow> and_then (expect_strings_value (qc_value condition) params)
          (\<lambda>values params. if values = [] then (Inr None, params)
             else case push_placeholders values params of
               (placeholders, params) \<Rightarrow>
                 (Inr (Some (json_part (L ''email'') @ L '' IN ('' @ placeholders @ L '')'')), params))
      | _ \<Rightarrow> (Inl (unsupported condition), params))"

definition compile_recipient_json_field ::
  "Unicode \<Rightarrow> str \<Rightarrow> MailQueryCondition \<Rightarrow> str sql_step" where
  "compile_recipient_json_field un column condition params =
     and_then (recipient_predicate un condition params)
       (\<lambda>predicate params. case predicate of
          None \<Rightarrow> (Inr (L ''1 = 0''), params)
        | Some p \<Rightarrow> (Inr (sql_lines
            [L ''EXISTS ('', L ''                SELECT 1'',
             L ''                FROM json_each('' @ column @ L '') r'',
             L ''                WHERE '' @ p, L ''            )'']), params))"

definition compile_bool_field :: "str \<Rightarrow> MailQueryCondition \<Rightarrow> str sql_step" where
  "compile_bool_field column condition params =
     (if qc_operator condition \<noteq> QEquals then (Inl (unsupported condition), params)
      else and_then (expect_bool_value (qc_value condition) params)
        (\<lambda>expected params. (Inr (column @ L '' = '' @ (if expected then L ''1'' else L ''0'')), params)))"

definition close_exists :: "str \<Rightarrow> str sql_step" where
  "close_exists sql params = (Inr (sql @ [10] @ L ''            )''), params)"

definition in_suffix :: "str list \<Rightarrow> str sql_step" where
  "in_suffix values params = (case push_placeholders values params of
     (placeholders, params) \<Rightarrow> (Inr (L '' IN ('' @ placeholders @ L '')''), params))"

definition membership_suffix :: "MailQueryCondition \<Rightarrow> str sql_step" where
  "membership_suffix condition params = (case qc_operator condition of
     QEquals \<Rightarrow> and_then (expect_string_value (qc_value condition) params)
       (\<lambda>v. bind_text v (L '' = ?''))
   | QIn \<Rightarrow> and_then (expect_strings_value (qc_value condition) params) in_suffix
   | _ \<Rightarrow> (Inl (unsupported condition), params))"

definition compile_exists_membership :: "str \<Rightarrow> MailQueryCondition \<Rightarrow> str sql_step" where
  "compile_exists_membership prefix condition params =
     and_then (membership_suffix condition params) (\<lambda>suffix. close_exists (prefix @ suffix))"

definition not_null_and :: "str \<Rightarrow> str" where
  "not_null_and test = sql_lines [L '' IS NOT NULL'', L ''                  AND '' @ test]"

definition text_membership_suffix :: "Unicode \<Rightarrow> MailQueryCondition \<Rightarrow> str sql_step" where
  "text_membership_suffix un condition params =
     (let string = expect_string_value (qc_value condition) params;
          like = L ''LOWER(b.name) LIKE ?''
      in case qc_operator condition of
        QEquals \<Rightarrow> and_then string (\<lambda>v. bind_text v (L '' = ?''))
      | QContains \<Rightarrow> and_then string
          (\<lambda>v. bind_text (37 # un_lowercase un v @ [37]) (not_null_and like))
      | QBeginsWith \<Rightarrow> and_then string
          (\<lambda>v. bind_text (escape_like (un_lowercase un v) @ [37]) (not_null_and (like @ escape_clause)))
      | QEndsWith \<Rightarrow> and_then string
          (\<lambda>v. bind_text (37 # escape_like (un_lowercase un v)) (not_null_and (like @ escape_clause)))
      | QRegex \<Rightarrow> and_then string (\<lambda>v. bind_text v (not_null_and (L ''b.name REGEXP ?'')))
      | QIn \<Rightarrow> and_then (expect_strings_value (qc_value condition) params) in_suffix
      | _ \<Rightarrow> (Inl (unsupported condition), params))"

definition compile_exists_text_membership ::
  "Unicode \<Rightarrow> str \<Rightarrow> MailQueryCondition \<Rightarrow> str sql_step" where
  "compile_exists_text_membership un prefix condition params =
     and_then (text_membership_suffix un condition params) (\<lambda>suffix. close_exists (prefix @ suffix))"

subsection \<open>Conditions, groups, rules\<close>

definition mailbox_id_prefix :: str where
  "mailbox_id_prefix = sql_lines
     [L ''EXISTS ('', L ''                SELECT 1'',
      L ''                FROM message_mailbox_effective mm'',
      L ''                WHERE mm.account_id = m.account_id'',
      L ''                  AND mm.message_id = m.id'',
      L ''                  AND mm.mailbox_id'']"

definition mailbox_join_prefix :: "str \<Rightarrow> str" where
  "mailbox_join_prefix column = sql_lines
     [L ''EXISTS ('', L ''                SELECT 1'',
      L ''                FROM message_mailbox_effective mm'',
      L ''                JOIN mailbox b'',
      L ''                  ON b.account_id = mm.account_id'',
      L ''                 AND b.id = mm.mailbox_id'',
      L ''                WHERE mm.account_id = m.account_id'',
      L ''                  AND mm.message_id = m.id'',
      L ''                  AND '' @ column]"

definition keyword_prefix :: str where
  "keyword_prefix = sql_lines
     [L ''EXISTS ('', L ''                SELECT 1'',
      L ''                FROM message_keyword_effective mk'',
      L ''                WHERE mk.account_id = m.account_id'',
      L ''                  AND mk.message_id = m.id'',
      L ''                  AND mk.keyword'']"

fun compile_field :: "Unicode \<Rightarrow> MailQueryField \<Rightarrow> MailQueryCondition \<Rightarrow> str sql_step" where
  "compile_field un FSourceId = compile_simple_field (L ''m.account_id'')"
| "compile_field un FSourceName = compile_text_field un (L ''COALESCE(a.name, m.account_id)'')"
| "compile_field un FMessageId = compile_simple_field (L ''m.id'')"
| "compile_field un FThreadId = compile_simple_field (L ''m.thread_id'')"
| "compile_field un FConversationId = compile_simple_field (L ''m.conversation_id'')"
| "compile_field un FFromName = compile_text_field un (L ''m.from_name'')"
| "compile_field un FFromEmail = compile_text_field un (L ''m.from_email'')"
| "compile_field un FTo = compile_recipient_json_field un (L ''m.to_json'')"
| "compile_field un FSubject = compile_text_field un (L ''m.subject'')"
| "compile_field un FPreview = compile_text_field un (L ''m.preview'')"
| "compile_field un FBody = compile_body_fts_field un"
| "compile_field un FReceivedAt = compile_date_field (L ''m.received_at'')"
| "compile_field un FSize = compile_numeric_field un (L ''m.size'')"
| "compile_field un FIsRead = compile_bool_field (L ''m.is_read'')"
| "compile_field un FIsFlagged = compile_bool_field (L ''m.is_flagged'')"
| "compile_field un FHasAttachment = compile_bool_field (L ''m.has_attachment'')"
| "compile_field un FMailboxId = compile_exists_membership mailbox_id_prefix"
| "compile_field un FMailboxName = compile_exists_text_membership un (mailbox_join_prefix (L ''b.name''))"
| "compile_field un FKeyword = compile_exists_membership keyword_prefix"
| "compile_field un FMailboxRole = compile_exists_membership (mailbox_join_prefix (L ''b.role''))"

definition negate_sql :: "bool \<Rightarrow> str \<Rightarrow> str" where
  "negate_sql negated sql = (if negated then L ''NOT ('' @ sql @ L '')'' else sql)"

definition compile_mail_query_condition :: "Unicode \<Rightarrow> MailQueryCondition \<Rightarrow> str sql_step" where
  "compile_mail_query_condition un condition params =
     (if qc_operator condition \<notin> set (fs_operators (field_spec (qc_field condition)))
      then (Inl (unsupported condition), params)
      else and_then (compile_field un (qc_field condition) condition params)
        (\<lambda>fragment params. (Inr (negate_sql (qc_negated condition) fragment), params)))"

definition joiner :: "MailQueryGroupOperator \<Rightarrow> str" where
  "joiner operator = (case operator of QAll \<Rightarrow> L '' AND '' | QAny \<Rightarrow> L '' OR '')"

definition in_parens :: "str \<Rightarrow> str" where
  "in_parens sql = 40 # sql @ [41]"

fun compile_mail_query_group :: "Unicode \<Rightarrow> MailQueryGroup \<Rightarrow> str sql_step"
  and compile_nodes :: "Unicode \<Rightarrow> MailQueryRuleNode list \<Rightarrow> str list sql_step" where
  "compile_mail_query_group un (MailQueryGroup operator negated nodes) params =
     (if nodes = []
      then (Inr (if negated then L ''NOT (1 = 1)'' else L ''1 = 1''), params)
      else and_then (compile_nodes un nodes params)
        (\<lambda>parts params. (Inr (negate_sql negated (join (joiner operator) parts)), params)))"
| "compile_nodes un [] params = (Inr [], params)"
| "compile_nodes un (NGroup child # rest) params =
     and_then (compile_mail_query_group un child params)
       (\<lambda>fragment params. and_then (compile_nodes un rest params)
         (\<lambda>parts params. (Inr (in_parens fragment # parts), params)))"
| "compile_nodes un (NCondition condition # rest) params =
     and_then (compile_mail_query_condition un condition params)
       (\<lambda>fragment params. and_then (compile_nodes un rest params)
         (\<lambda>parts params. (Inr (in_parens fragment # parts), params)))"

definition compile_mail_query_rule :: "Unicode \<Rightarrow> MailQueryRule \<Rightarrow> str sql_step" where
  "compile_mail_query_rule un rule params = compile_mail_query_group un (qr_root rule) params"

subsection \<open>Placeholders and parameters\<close>

text \<open>A step is aligned when it binds one parameter for each placeholder of the text it returns.\<close>

definition placeholders :: "str \<Rightarrow> nat" where
  "placeholders sql = count_list sql 63"

definition aligned :: "str sql_step \<Rightarrow> bool" where
  "aligned f \<longleftrightarrow> (\<forall>params sql params'. f params = (Inr sql, params') \<longrightarrow>
     (\<exists>bound. params' = params @ bound \<and> placeholders sql = length bound))"

named_theorems sql_text \<open>counting the placeholders of a text\<close>
named_theorems alignment \<open>steps that are aligned\<close>

lemma placeholders_append [sql_text]: "placeholders (xs @ ys) = placeholders xs + placeholders ys"
  by (simp add: placeholders_def count_list_append)

lemma placeholders_Cons [sql_text]:
  "placeholders (c # cs) = (if c = 63 then 1 else 0) + placeholders cs" "placeholders [] = 0"
  by (simp_all add: placeholders_def)

lemma placeholders_concat [sql_text]: "placeholders (concat xss) = sum_list (map placeholders xss)"
  by (induction xss) (simp_all add: sql_text)

lemma placeholders_join:
  "placeholders sep = 0 \<Longrightarrow> placeholders (join sep xs) = sum_list (map placeholders xs)"
  by (induction sep xs rule: join.induct) (simp_all add: sql_text)

lemma placeholders_marks [sql_text]:
  "placeholders (join [44, 32] (replicate n [63])) = n"
  by (simp add: placeholders_join sql_text sum_list_replicate)

lemmas sql_defs = sql_lines_def escape_clause_def or_empty_def json_part_def either_part_def
  not_null_and_def mailbox_id_prefix_def mailbox_join_prefix_def keyword_prefix_def

lemma alignedI:
  "(\<And>params sql params'. f params = (Inr sql, params') \<Longrightarrow>
      \<exists>bound. params' = params @ bound \<and> placeholders sql = length bound) \<Longrightarrow> aligned f"
  by (simp add: aligned_def)

lemma aligned_bind [alignment]: "placeholders sql = 1 \<Longrightarrow> aligned (bind_text t sql)"
  by (auto simp: aligned_def bind_text_def)

lemma aligned_bind_twice [alignment]: "placeholders sql = 2 \<Longrightarrow> aligned (bind_text_twice t sql)"
  by (auto simp: aligned_def bind_text_twice_def)

lemma aligned_error [alignment]: "aligned (\<lambda>params. (Inl e, params))"
  by (simp add: aligned_def)

lemma aligned_const [alignment]: "placeholders sql = 0 \<Longrightarrow> aligned (\<lambda>params. (Inr sql, params))"
  by (simp add: aligned_def)

lemma aligned_string [alignment]:
  "(\<And>v. aligned (k v)) \<Longrightarrow> aligned (\<lambda>params. and_then (expect_string_value value params) k)"
  by (cases "value") (auto simp: aligned_def expect_string_value_def)

lemma aligned_strings [alignment]:
  "(\<And>v. aligned (k v)) \<Longrightarrow> aligned (\<lambda>params. and_then (expect_strings_value value params) k)"
  by (cases "value") (auto simp: aligned_def expect_strings_value_def)

lemma aligned_bool [alignment]:
  "(\<And>v. aligned (k v)) \<Longrightarrow> aligned (\<lambda>params. and_then (expect_bool_value value params) k)"
  by (cases "value") (auto simp: aligned_def expect_bool_value_def)

lemma aligned_in_clause [alignment]: "placeholders column = 0 \<Longrightarrow> aligned (compile_in_clause column values)"
  by (auto simp: aligned_def compile_in_clause_def push_placeholders_def sql_text)

lemma aligned_in_suffix [alignment]: "aligned (in_suffix values)"
  by (auto simp: aligned_def in_suffix_def push_placeholders_def sql_text)

text \<open>Adding text without placeholders keeps a step aligned.\<close>

lemma aligned_wrap:
  assumes "aligned f" and "\<And>sql. placeholders (g sql) = placeholders sql"
  shows "aligned (\<lambda>params. and_then (f params) (\<lambda>sql params. (Inr (g sql), params)))"
  using assms by (auto simp: aligned_def elim!: and_then_InrE)

lemma aligned_body: "aligned (compile_body_fts_field un c)"
  unfolding compile_body_fts_field_def
  by (cases "qc_operator c"; simp;
      intro alignment; simp add: aligned_def bind_text_def sql_text sql_defs split: option.split)

lemma aligned_simple: "placeholders column = 0 \<Longrightarrow> aligned (compile_simple_field column c)"
  unfolding compile_simple_field_def
  by (cases "qc_operator c"; simp; (intro alignment; simp add: sql_text)?)

lemma aligned_text: "placeholders column = 0 \<Longrightarrow> aligned (compile_text_field un column c)"
  unfolding compile_text_field_def Let_def
  by (cases "qc_operator c"; simp; (intro alignment; simp add: sql_text sql_defs)?)

lemma aligned_date: "placeholders column = 0 \<Longrightarrow> aligned (compile_date_field column c)"
  by (auto simp: aligned_def compile_date_field_def comparator_def bind_text_def sql_text
      split: MailQueryOperator.splits MailQueryValue.splits DateValue.splits)

lemma aligned_numeric: "placeholders column = 0 \<Longrightarrow> aligned (compile_numeric_field un column c)"
  unfolding compile_numeric_field_def comparator_def
  by (cases "qc_operator c"; simp; (intro alignment)?)
    (auto simp: aligned_def sql_text split: option.splits)

lemma aligned_boolean: "placeholders column = 0 \<Longrightarrow> aligned (compile_bool_field column c)"
  unfolding compile_bool_field_def
  by (cases "qc_operator c = QEquals"; simp; intro alignment; simp add: sql_text)

lemma aligned_membership: "placeholders prefix = 0 \<Longrightarrow> aligned (compile_exists_membership prefix c)"
  unfolding compile_exists_membership_def close_exists_def
  by (rule aligned_wrap)
    (cases "qc_operator c"; simp add: membership_suffix_def sql_text; (intro alignment; simp add: sql_text)?)+

lemma aligned_text_membership:
  "placeholders prefix = 0 \<Longrightarrow> aligned (compile_exists_text_membership un prefix c)"
  unfolding compile_exists_text_membership_def close_exists_def
  by (rule aligned_wrap)
    (cases "qc_operator c"; simp add: text_membership_suffix_def Let_def sql_text;
      (intro alignment; simp add: sql_text sql_defs)?)+

lemma aligned_recipient:
  assumes "placeholders column = 0"
  shows "aligned (compile_recipient_json_field un column c)"
proof (rule alignedI)
  fix params sql params'
  assume run: "compile_recipient_json_field un column c params = (Inr sql, params')"
  then obtain p ps where p: "recipient_predicate un c params = (Inr p, ps)"
    by (auto simp: compile_recipient_json_field_def elim: and_then_InrE)
  have aligned_p: "ps = params @ bound \<Longrightarrow> (case p of None \<Rightarrow> 0 | Some q \<Rightarrow> placeholders q) = length bound \<Longrightarrow>
      params' = params @ bound \<and> placeholders sql = length bound" for bound
    using run assms by (auto simp: compile_recipient_json_field_def p sql_text sql_lines_def split: option.splits)
  have "\<exists>bound. ps = params @ bound \<and> (case p of None \<Rightarrow> 0 | Some q \<Rightarrow> placeholders q) = length bound"
    using p
    by (cases "qc_operator c"; cases "qc_value c")
      (auto simp: recipient_predicate_def Let_def expect_string_value_def expect_strings_value_def
        bind_text_def bind_text_twice_def push_placeholders_def sql_text sql_defs split: if_splits)
  then show "\<exists>bound. params' = params @ bound \<and> placeholders sql = length bound"
    using aligned_p by blast
qed

lemma aligned_field: "aligned (compile_field un field c)"
  by (cases field)
    (simp_all add: aligned_simple aligned_text aligned_recipient aligned_body aligned_date
      aligned_numeric aligned_boolean aligned_membership aligned_text_membership sql_text sql_defs)

lemma aligned_condition: "aligned (compile_mail_query_condition un c)"
proof (cases "qc_operator c \<in> set (fs_operators (field_spec (qc_field c)))")
  case True
  then have "compile_mail_query_condition un c = (\<lambda>params. and_then (compile_field un (qc_field c) c params)
      (\<lambda>sql params. (Inr (negate_sql (qc_negated c) sql), params)))"
    by (simp add: compile_mail_query_condition_def fun_eq_iff)
  moreover have "placeholders (negate_sql neg sql) = placeholders sql" for neg sql
    by (simp add: negate_sql_def sql_text)
  ultimately show ?thesis using aligned_wrap [OF aligned_field] by simp
next
  case False
  then have "compile_mail_query_condition un c = (\<lambda>params. (Inl (unsupported c), params))"
    by (simp add: compile_mail_query_condition_def fun_eq_iff)
  then show ?thesis by (simp add: aligned_error)
qed

lemma aligned_group:
  "compile_mail_query_group un g params = (Inr sql, params') \<Longrightarrow>
     \<exists>bound. params' = params @ bound \<and> placeholders sql = length bound"
  "compile_nodes un ns params = (Inr parts, params') \<Longrightarrow>
     \<exists>bound. params' = params @ bound \<and> sum_list (map placeholders parts) = length bound"
proof (induction g and ns arbitrary: sql params params' and parts params params'
    rule: group_leaves_nodes_leaves.induct)
  case (1 oper neg nodes)
  have sep: "placeholders (joiner oper) = 0" by (simp add: joiner_def sql_text split: MailQueryGroupOperator.split)
  show ?case
  proof (cases "nodes = []")
    case True
    then show ?thesis using 1 by (auto simp: sql_text split: if_splits)
  next
    case False
    then obtain parts where parts: "compile_nodes un nodes params = (Inr parts, params')"
      and sql: "sql = negate_sql neg (join (joiner oper) parts)"
      using "1.prems" by (auto elim!: and_then_InrE)
    show ?thesis
      using "1.IH" [OF parts] by (simp add: sql negate_sql_def sql_text placeholders_join [OF sep])
  qed
next
  case (3 g rest)
  then obtain s ps ps' where "compile_mail_query_group un g params = (Inr s, ps)"
    and "compile_nodes un rest ps = (Inr ps', params')" and "parts = in_parens s # ps'"
    by (auto elim!: and_then_InrE)
  then show ?case using "3.IH" by (fastforce simp: in_parens_def sql_text)
next
  case (4 c rest)
  then obtain s ps ps' where "compile_mail_query_condition un c params = (Inr s, ps)"
    and "compile_nodes un rest ps = (Inr ps', params')" and "parts = in_parens s # ps'"
    by (auto elim!: and_then_InrE)
  then show ?case
    using "4.IH" aligned_condition [of un c] by (fastforce simp: aligned_def in_parens_def sql_text)
qed auto

text \<open>
  C20. Every value is bound: the SQL text of a compiled rule holds exactly as many placeholders as
  the compilation appended parameters, so the parameters of an enclosing statement stay aligned
  with theirs.
\<close>

theorem placeholders_match_parameters:
  assumes "compile_mail_query_rule un rule params = (Inr sql, params')"
  shows "\<exists>bound. params' = params @ bound \<and> placeholders sql = length bound"
  using aligned_group(1) assms by (simp add: compile_mail_query_rule_def)

subsection \<open>The text does not depend on what the user typed\<close>

text \<open>
  What is left of a condition when every text in it is struck out: kinds, lengths of lists, and
  whether a body query has a token to search for at all.
\<close>

definition redact_value :: "Unicode \<Rightarrow> MailQueryField \<Rightarrow> MailQueryValue \<Rightarrow> MailQueryValue" where
  "redact_value un field value = (case value of
     VString s \<Rightarrow> VString (if field = FBody \<and> body_fts_match_expression un s \<noteq> None then [120] else [])
   | VStrings vs \<Rightarrow> VStrings (replicate (length vs) [])
   | VBool b \<Rightarrow> VBool b
   | VDate (Absolute s) \<Rightarrow> VDate (Absolute [])
   | VDate (Relative n unit) \<Rightarrow> VDate (Relative 0 UDays))"

definition redact_condition :: "Unicode \<Rightarrow> MailQueryCondition \<Rightarrow> MailQueryCondition" where
  "redact_condition un c = c\<lparr>qc_value := redact_value un (qc_field c) (qc_value c)\<rparr>"

fun redact_group :: "Unicode \<Rightarrow> MailQueryGroup \<Rightarrow> MailQueryGroup"
  and redact_nodes :: "Unicode \<Rightarrow> MailQueryRuleNode list \<Rightarrow> MailQueryRuleNode list" where
  "redact_group un (MailQueryGroup operator negated nodes) =
     MailQueryGroup operator negated (redact_nodes un nodes)"
| "redact_nodes un [] = []"
| "redact_nodes un (NGroup g # rest) = NGroup (redact_group un g) # redact_nodes un rest"
| "redact_nodes un (NCondition c # rest) = NCondition (redact_condition un c) # redact_nodes un rest"

lemmas field_compilers = compile_body_fts_field_def compile_simple_field_def compile_text_field_def
  compile_date_field_def compile_numeric_field_def compile_recipient_json_field_def
  recipient_predicate_def compile_bool_field_def compile_exists_membership_def
  membership_suffix_def compile_exists_text_membership_def text_membership_suffix_def

lemmas sql_steps = expect_string_value_def expect_strings_value_def expect_bool_value_def
  bind_text_def bind_text_twice_def push_placeholders_def compile_in_clause_def in_suffix_def
  close_exists_def

text \<open>Two conditions that differ only in their texts.\<close>

lemma redacted_values:
  assumes "redact_value un field v = redact_value un field w"
  obtains s t where "v = VString s" "w = VString t"
      "field = FBody \<Longrightarrow> (body_fts_match_expression un s = None) = (body_fts_match_expression un t = None)"
  | vs ws where "v = VStrings vs" "w = VStrings ws" "length vs = length ws"
  | b where "v = VBool b" "w = VBool b"
  | s t where "v = VDate (Absolute s)" "w = VDate (Absolute t)"
  | m n x y where "v = VDate (Relative m x)" "w = VDate (Relative n y)"
  using assms that
  by (cases v; cases w; simp add: redact_value_def split: DateValue.splits if_splits)

declare L_simps [simp del]

definition same_text :: "str sql_step \<Rightarrow> str sql_step \<Rightarrow> bool" where
  "same_text f g \<longleftrightarrow> (\<forall>ps sql ps' qs sql' qs'.
     f ps = (Inr sql, ps') \<longrightarrow> g qs = (Inr sql', qs') \<longrightarrow> sql = sql')"

definition alike :: "Unicode \<Rightarrow> MailQueryField \<Rightarrow> MailQueryCondition \<Rightarrow> MailQueryCondition \<Rightarrow> bool" where
  "alike un field c d \<longleftrightarrow> qc_operator d = qc_operator c \<and>
     redact_value un field (qc_value c) = redact_value un field (qc_value d)"

lemma same_text_const: "(\<And>ps sql ps'. f ps = (Inr sql, ps') \<Longrightarrow> sql = s) \<Longrightarrow>
    (\<And>ps sql ps'. g ps = (Inr sql, ps') \<Longrightarrow> sql = s) \<Longrightarrow> same_text f g"
  unfolding same_text_def by blast

lemma alike_body: "alike un FBody c d \<Longrightarrow> same_text (compile_body_fts_field un c) (compile_body_fts_field un d)"
  unfolding alike_def
  by (elim conjE redacted_values; cases "qc_operator c";
      auto simp add: same_text_def compile_body_fts_field_def sql_steps split: option.splits)

lemma alike_simple: "alike un f c d \<Longrightarrow> same_text (compile_simple_field col c) (compile_simple_field col d)"
  unfolding alike_def
  by (elim conjE redacted_values; cases "qc_operator c";
      auto simp add: same_text_def compile_simple_field_def sql_steps)

lemma alike_text: "alike un f c d \<Longrightarrow> same_text (compile_text_field un col c) (compile_text_field un col d)"
  unfolding alike_def
  by (elim conjE redacted_values; cases "qc_operator c";
      auto simp add: same_text_def compile_text_field_def Let_def sql_steps)

lemma alike_date: "alike un f c d \<Longrightarrow> same_text (compile_date_field col c) (compile_date_field col d)"
  unfolding alike_def
  by (elim conjE redacted_values; cases "qc_operator c";
      auto simp add: same_text_def compile_date_field_def comparator_def sql_steps)

lemma alike_numeric: "alike un f c d \<Longrightarrow> same_text (compile_numeric_field un col c) (compile_numeric_field un col d)"
  unfolding alike_def
  by (elim conjE redacted_values; cases "qc_operator c";
      auto simp add: same_text_def compile_numeric_field_def comparator_def sql_steps split: option.splits)

lemma alike_bool: "alike un f c d \<Longrightarrow> same_text (compile_bool_field col c) (compile_bool_field col d)"
  unfolding alike_def
  by (elim conjE redacted_values; cases "qc_operator c";
      auto simp add: same_text_def compile_bool_field_def sql_steps)

lemma alike_membership:
  "alike un f c d \<Longrightarrow> same_text (compile_exists_membership p c) (compile_exists_membership p d)"
  unfolding alike_def
  by (elim conjE redacted_values; cases "qc_operator c";
      auto simp add: same_text_def compile_exists_membership_def membership_suffix_def sql_steps)

lemma alike_text_membership:
  "alike un f c d \<Longrightarrow>
   same_text (compile_exists_text_membership un p c) (compile_exists_text_membership un p d)"
  unfolding alike_def
  by (elim conjE redacted_values; cases "qc_operator c";
      auto simp add: same_text_def compile_exists_text_membership_def text_membership_suffix_def
        Let_def sql_steps)

lemma alike_recipient:
  "alike un f c d \<Longrightarrow>
   same_text (compile_recipient_json_field un col c) (compile_recipient_json_field un col d)"
  unfolding alike_def
  by (elim conjE redacted_values; cases "qc_operator c";
      auto simp add: same_text_def compile_recipient_json_field_def recipient_predicate_def
        Let_def sql_steps split: if_splits)

lemmas alike_compilers = alike_body alike_simple alike_text alike_date alike_numeric alike_bool
  alike_membership alike_text_membership alike_recipient

lemma alike_field: "alike un field c d \<Longrightarrow> same_text (compile_field un field c) (compile_field un field d)"
  by (cases field) (simp_all add: alike_compilers)

lemma alike_condition:
  assumes "redact_condition un c = redact_condition un d"
    and "compile_mail_query_condition un c ps = (Inr sql, ps')"
    and "compile_mail_query_condition un d qs = (Inr sql', qs')"
  shows "sql = sql'"
proof -
  have eq: "qc_field c = qc_field d" "qc_negated c = qc_negated d" and al: "alike un (qc_field d) c d"
    using assms(1) by (cases c; cases d; simp add: redact_condition_def alike_def)+
  show ?thesis
    using assms(2,3) alike_field [OF al] eq
    by (fastforce simp: compile_mail_query_condition_def same_text_def elim!: and_then_InrE
        split: if_splits)
qed

lemma alike_group:
  "redact_group un g = redact_group un h \<Longrightarrow> compile_mail_query_group un g ps = (Inr sql, ps') \<Longrightarrow>
   compile_mail_query_group un h qs = (Inr sql', qs') \<Longrightarrow> sql = sql'"
  "redact_nodes un ns = redact_nodes un ms \<Longrightarrow> compile_nodes un ns ps = (Inr parts, ps') \<Longrightarrow>
   compile_nodes un ms qs = (Inr parts', qs') \<Longrightarrow> parts = parts'"
proof (induction g and ns arbitrary: h ps ps' sql qs qs' sql' and ms ps ps' parts qs qs' parts'
    rule: group_leaves_nodes_leaves.induct)
  case (1 oper neg nodes)
  obtain nodes' where h: "h = MailQueryGroup oper neg nodes'"
    and red: "redact_nodes un nodes = redact_nodes un nodes'"
    using "1.prems"(1) by (cases h) auto
  have "nodes = [] \<longleftrightarrow> nodes' = []"
    using red by (cases nodes; cases nodes'; cases "hd nodes"; cases "hd nodes'") auto
  then show ?case
    using "1.prems"(2,3) "1.IH" [OF red] by (fastforce simp: h elim!: and_then_InrE split: if_splits)
next
  case 2
  then show ?case by (cases ms; cases "hd ms") auto
next
  case (3 g rest)
  then obtain h ms' where ms: "ms = NGroup h # ms'" "redact_group un g = redact_group un h"
      "redact_nodes un rest = redact_nodes un ms'"
    by (cases ms; cases "hd ms") auto
  from "3.prems" show ?case
    using "3.IH"(1) [OF ms(2)] "3.IH"(2) [OF ms(3)] by (fastforce simp: ms(1) elim!: and_then_InrE)
next
  case (4 c rest)
  then obtain d ms' where ms: "ms = NCondition d # ms'" "redact_condition un c = redact_condition un d"
      "redact_nodes un rest = redact_nodes un ms'"
    by (cases ms; cases "hd ms") auto
  from "4.prems" show ?case
    using alike_condition [OF ms(2)] "4.IH" [OF ms(3)] by (fastforce simp: ms(1) elim!: and_then_InrE)
qed

text \<open>
  C21. No injection: the SQL text of a rule is determined by its structure, which is the groups with
  their operators and negations, the fields and operators of the conditions, booleans, the kind of
  each value, the length of a list, and one bit of a body text: whether it holds any search token,
  because a body condition without one compiles to a constant false. Two rules with the same
  structure that compile have the same SQL text, whatever the user typed; what was typed reaches the
  database only as bound parameters.
\<close>

theorem text_ignores_user_input:
  assumes "redact_group un (qr_root rule) = redact_group un (qr_root other)"
    and "compile_mail_query_rule un rule params = (Inr sql, params')"
    and "compile_mail_query_rule un other others = (Inr sql', others')"
  shows "sql = sql'"
  using alike_group(1) [OF assms(1)] assms(2,3) by (simp add: compile_mail_query_rule_def)

declare L_simps [simp]

subsection \<open>Which validated rules compile\<close>

text \<open>
  The shape of a value the compiler needs beyond what validation asks: a list for \<open>in\<close> and a single
  text for the other operators of a text field, a number for a number field.
\<close>

definition compilable :: "MailQueryCondition \<Rightarrow> bool" where
  "compilable c \<longleftrightarrow> (case fs_value_type (field_spec (qc_field c)) of
     TText \<Rightarrow> (\<exists>vs. qc_value c = VStrings vs) \<longleftrightarrow> qc_operator c = QIn
   | TNumber \<Rightarrow> (\<exists>s. qc_value c = VString s \<and> parse_i64 (trim s) \<noteq> None)
   | _ \<Rightarrow> True)"

definition succeeds :: "'a sql_step \<Rightarrow> bool" where
  "succeeds f \<longleftrightarrow> (\<forall>params. isl (fst (f params)) = False)"

definition refuses :: "'a sql_step \<Rightarrow> bool" where
  "refuses f \<longleftrightarrow> (\<forall>params. isl (fst (f params)))"

lemmas decides = succeeds_def refuses_def

declare L_simps [simp del]

lemma field_decides:
  assumes "validate_condition regex_ok c = Inr ()"
  shows "if compilable c then succeeds (compile_field un (qc_field c) c)
    else refuses (compile_field un (qc_field c) c)"
  using assms unfolding validated_iff
  by (cases "qc_field c"; cases "qc_value c")
    (auto simp: compilable_def field_spec_def operator_sets decides field_compilers comparator_def
      sql_steps Let_def split: option.splits DateValue.splits)

lemma condition_decides:
  assumes "validate_condition regex_ok c = Inr ()"
  shows "(\<exists>sql ps'. compile_mail_query_condition un c ps = (Inr sql, ps')) \<longleftrightarrow> compilable c"
proof -
  have oper: "qc_operator c \<in> set (fs_operators (field_spec (qc_field c)))"
    using assms by (simp add: validated_iff)
  have "(\<exists>sql ps'. compile_field un (qc_field c) c ps = (Inr sql, ps')) \<longleftrightarrow> compilable c"
    using field_decides [OF assms, of un]
    by (cases "compile_field un (qc_field c) c ps"; cases "fst (compile_field un (qc_field c) c ps)")
      (auto simp: decides split: if_splits dest: spec [of _ ps])
  then show ?thesis
    using oper by (auto simp: compile_mail_query_condition_def elim: and_then_InrE)
qed

lemma group_decides:
  "(\<forall>c \<in> set (group_leaves g). validate_condition regex_ok c = Inr ()) \<Longrightarrow>
   (\<exists>sql ps'. compile_mail_query_group un g ps = (Inr sql, ps')) \<longleftrightarrow> (\<forall>c \<in> set (group_leaves g). compilable c)"
  "(\<forall>c \<in> set (nodes_leaves ns). validate_condition regex_ok c = Inr ()) \<Longrightarrow>
   (\<exists>parts ps'. compile_nodes un ns ps = (Inr parts, ps')) \<longleftrightarrow> (\<forall>c \<in> set (nodes_leaves ns). compilable c)"
proof (induction g and ns arbitrary: ps and ps rule: group_leaves_nodes_leaves.induct)
  case (1 oper neg nodes)
  have "(\<exists>sql ps'. compile_mail_query_group un (MailQueryGroup oper neg nodes) ps = (Inr sql, ps')) \<longleftrightarrow>
      (\<exists>parts ps'. compile_nodes un nodes ps = (Inr parts, ps'))"
    by (cases "nodes = []") (fastforce elim!: and_then_InrE)+
  then show ?case using 1 by simp
next
  case (3 g rest)
  have "(\<exists>parts ps'. compile_nodes un (NGroup g # rest) ps = (Inr parts, ps')) \<longleftrightarrow>
      (\<exists>sql ps1. compile_mail_query_group un g ps = (Inr sql, ps1) \<and>
        (\<exists>parts ps'. compile_nodes un rest ps1 = (Inr parts, ps')))"
    by (fastforce elim!: and_then_InrE)
  then show ?case using 3 by (auto simp: ball_Un)
next
  case (4 c rest)
  have "(\<exists>parts ps'. compile_nodes un (NCondition c # rest) ps = (Inr parts, ps')) \<longleftrightarrow>
      (\<exists>sql ps1. compile_mail_query_condition un c ps = (Inr sql, ps1) \<and>
        (\<exists>parts ps'. compile_nodes un rest ps1 = (Inr parts, ps')))"
    by (fastforce elim!: and_then_InrE)
  then show ?case using 4 condition_decides [of regex_ok c un ps] by auto
qed simp

declare L_simps [simp]

text \<open>
  C18. Validation is not enough to compile: a rule that passed the boundary validation compiles
  exactly if every leaf also carries a value of the shape its operator binds. A text field accepts a
  list for \<open>equals\<close> and a single text for \<open>in\<close>, and a size any text; those rules are stored and
  fail in the compiler.
\<close>

theorem validated_rules_compile_iff:
  assumes "validate_query regex_ok rule = Inr ()"
  shows "(\<exists>sql params'. compile_mail_query_rule un rule params = (Inr sql, params')) \<longleftrightarrow>
    (\<forall>c \<in> set (group_leaves (qr_root rule)). compilable c)"
  using group_decides(1) [of "qr_root rule" regex_ok un params] assms
  by (simp add: compile_mail_query_rule_def validate_query_iff)

definition stuck_rule :: MailQueryRule where
  "stuck_rule = rule_of_nodes [condition_node FKeyword QEquals (VStrings [L ''a'']) False]"

lemma schema_leaf_compilable: "schema_leaf c \<Longrightarrow> compilable c"
  by (cases "qc_field c") (auto simp: schema_leaf_def compilable_def field_spec_def operator_sets)

text \<open>
  C19. The search box always reaches the database: every query text that parses, with or without
  peeled scopes, compiles to SQL.
\<close>

theorem parsed_queries_compile:
  assumes "parse_query_with_scopes cal query sps = Inr (Some rule, scopes)"
  shows "\<exists>sql params'. compile_mail_query_rule un rule params = (Inr sql, params')"
proof -
  have leaf: "schema_leaf c" if "c \<in> set (group_leaves (qr_root rule))" for c
    using parsed_leaves [OF assms that] .
  have "validate_condition (\<lambda>_. True) c = Inr ()" if "c \<in> set (group_leaves (qr_root rule))" for c
    using schema_leaf_valid leaf [OF that] .
  then show ?thesis
    using group_decides(1) [of "qr_root rule" "\<lambda>_. True" un params] leaf schema_leaf_compilable
    by (simp add: compile_mail_query_rule_def)
qed

definition ascii_tables :: Unicode where
  "ascii_tables = \<lparr>un_lowercase = to_ascii_lowercase, un_alphanumeric = is_ascii_alphanumeric,
     un_debug = (\<lambda>s. 34 # s @ [34])\<rparr>"

definition subject_rule :: "str \<Rightarrow> MailQueryRule" where
  "subject_rule text = rule_of_nodes [condition_node FSubject QContains (VString text) True]"

lemma subject_rule_sql:
  "compile_mail_query_rule un (subject_rule text) params =
     (Inr (in_parens (L ''NOT (LOWER('' @ or_empty (L ''m.subject'') @ L '') LIKE ?)'')),
      params @ [SqlText (37 # un_lowercase un text @ [37])])"
  by (simp add: compile_mail_query_rule_def subject_rule_def rule_of_nodes_def condition_node_def
      compile_mail_query_condition_def field_spec_def operator_sets compile_text_field_def sql_steps
      negate_sql_def)

theorem validated_rules_compile_iff_witness:
  "validate_query (\<lambda>_. True) stuck_rule = Inr () \<and>
   \<not> (\<exists>sql params'. compile_mail_query_rule ascii_tables stuck_rule [] = (Inr sql, params'))"
proof -
  have v: "validate_query (\<lambda>_. True) stuck_rule = Inr ()"
    by (simp add: validate_query_iff stuck_rule_def rule_of_nodes_def condition_node_def validated_iff
        field_spec_def operator_sets)
  have "\<not> (\<forall>c \<in> set (group_leaves (qr_root stuck_rule)). compilable c)"
    by (simp add: stuck_rule_def rule_of_nodes_def condition_node_def compilable_def field_spec_def)
  then show ?thesis using v validated_rules_compile_iff [OF v, of ascii_tables "[]"] by blast
qed

theorem placeholders_match_parameters_witness:
  "\<exists>sql params'. compile_mail_query_rule ascii_tables (subject_rule (L ''?'')) [] = (Inr sql, params') \<and>
     (\<exists>bound. params' = [] @ bound \<and> placeholders sql = length bound)"
  using subject_rule_sql placeholders_match_parameters [OF subject_rule_sql] by blast

theorem text_ignores_user_input_witness:
  "fst (compile_mail_query_rule ascii_tables (subject_rule (L ''a'')) []) =
   fst (compile_mail_query_rule ascii_tables (subject_rule (L ''1 = 1) OR (1 = 1'')) [])"
proof -
  have "redact_group ascii_tables (qr_root (subject_rule s)) = redact_group ascii_tables (qr_root (subject_rule t))"
    for s t
    by (simp add: subject_rule_def rule_of_nodes_def condition_node_def redact_condition_def
        redact_value_def)
  from text_ignores_user_input [OF this subject_rule_sql subject_rule_sql]
  show ?thesis by (simp add: subject_rule_sql)
qed

theorem parsed_queries_compile_witness:
  "\<exists>sql params'. compile_mail_query_rule ascii_tables (rule_of_nodes
     [from_node (L ''Jane Doe'') False, free_text_node (L ''-spam now: free'') True,
      condition_node FIsRead QEquals (VBool False) True]) [] = (Inr sql, params')"
proof -
  have "parse_query_with_scopes fixed_calendar (render_query example_tokens) [] = Inr (Some (rule_of_nodes
     [from_node (L ''Jane Doe'') False, free_text_node (L ''-spam now: free'') True,
      condition_node FIsRead QEquals (VBool False) True]), [])"
    using example_tokens_parse
    by (auto simp: parse_query_def parse_with_scopes_eq is_scope_prefix_def empty_rule_def
        rule_of_nodes_def split: sum.splits option.splits)
  from parsed_queries_compile [OF this] show ?thesis .
qed

subsection \<open>Text patterns\<close>

text \<open>
  What SQLite documents of \<open>text LIKE pattern ESCAPE\<close> a backslash: percent stands for any text,
  underscore for one character, a backslash makes the next character literal, and any other
  character stands for itself up to ASCII case.
\<close>

definition like_law :: "(str \<Rightarrow> str \<Rightarrow> bool) \<Rightarrow> bool" where
  "like_law like \<longleftrightarrow>
     (\<forall>t. like [] t \<longleftrightarrow> t = []) \<and>
     (\<forall>p t. like (37 # p) t \<longleftrightarrow> (\<exists>n \<le> length t. like p (drop n t))) \<and>
     (\<forall>p t. like (95 # p) t \<longleftrightarrow> t \<noteq> [] \<and> like p (tl t)) \<and>
     (\<forall>c p t. like (92 # c # p) t \<longleftrightarrow> t \<noteq> [] \<and> ascii_lower (hd t) = ascii_lower c \<and> like p (tl t)) \<and>
     (\<forall>c p t. c \<notin> {37, 95, 92} \<longrightarrow>
        (like (c # p) t \<longleftrightarrow> t \<noteq> [] \<and> ascii_lower (hd t) = ascii_lower c \<and> like p (tl t)))"

lemma escape_like_Cons: "escape_like (c # cs) = (if c \<in> {92, 37, 95} then [92, c] else [c]) @ escape_like cs"
  by (simp add: escape_like_def)

lemma like_escaped_prefix:
  assumes "like_law like"
  shows "like (escape_like v @ [37]) t \<longleftrightarrow> to_ascii_lowercase (take (length v) t) = to_ascii_lowercase v"
proof (induction v arbitrary: t)
  case Nil
  have "like [] (drop (length t) t)" using assms by (simp add: like_law_def)
  then show ?case using assms by (auto simp: like_law_def escape_like_def to_ascii_lowercase_def)
next
  case (Cons c v)
  have "like (escape_like (c # v) @ [37]) t \<longleftrightarrow>
      t \<noteq> [] \<and> ascii_lower (hd t) = ascii_lower c \<and> like (escape_like v @ [37]) (tl t)"
    using assms by (cases "c \<in> {92, 37, 95}") (simp_all add: escape_like_Cons like_law_def)
  then show ?case
    by (cases t) (auto simp: Cons.IH to_ascii_lowercase_def)
qed

text \<open>
  A literal prefix stays literal: the pattern a \<open>beginsWith\<close> condition binds matches exactly the
  texts that start with the lower-cased value up to ASCII case, whatever percent signs, underscores
  and backslashes the user typed, for every matcher that follows SQLite's documented \<open>LIKE\<close>.
\<close>

lemma begins_with_is_literal:
  assumes "like_law like" and "qc_operator c = QBeginsWith" and "qc_value c = VString v"
    and "compile_text_field un column c params = (Inr sql, params @ [SqlText pattern])"
  shows "like pattern t \<longleftrightarrow>
    to_ascii_lowercase (take (length (un_lowercase un v)) t) = to_ascii_lowercase (un_lowercase un v)"
proof -
  have "pattern = escape_like (un_lowercase un v) @ [37]"
    using assms(2-4) by (auto simp: compile_text_field_def sql_steps Let_def)
  then show ?thesis using like_escaped_prefix [OF assms(1)] by simp
qed

fun sqlite_like :: "str \<Rightarrow> str \<Rightarrow> bool" where
  "sqlite_like [] t = (t = [])"
| "sqlite_like (c # p) t =
     (if c = 37 then list_ex (\<lambda>n. sqlite_like p (drop n t)) [0..<Suc (length t)]
      else if c = 95 then t \<noteq> [] \<and> sqlite_like p (tl t)
      else if c = 92 then (case p of [] \<Rightarrow> False
        | d # q \<Rightarrow> t \<noteq> [] \<and> ascii_lower (hd t) = ascii_lower d \<and> sqlite_like q (tl t))
      else t \<noteq> [] \<and> ascii_lower (hd t) = ascii_lower c \<and> sqlite_like p (tl t))"

lemma sqlite_like_law: "like_law sqlite_like"
  unfolding like_law_def
  by (auto simp: list_ex_iff less_Suc_eq_le simp del: upt_Suc)

lemma begins_with_is_literal_example:
  "sqlite_like (escape_like (L ''50%'') @ [37]) (L ''50% off'') \<and>
   \<not> sqlite_like (escape_like (L ''50%'') @ [37]) (L ''500 off'')"
proof -
  let ?c = "\<lparr>qc_field = FSubject, qc_operator = QBeginsWith, qc_negated = False, qc_value = VString (L ''50%'')\<rparr>"
  obtain sql where "compile_text_field ascii_tables (L ''m.subject'') ?c [] =
      (Inr sql, [] @ [SqlText (escape_like (un_lowercase ascii_tables (L ''50%'')) @ [37])])"
    by (simp add: compile_text_field_def sql_steps Let_def)
  note run = begins_with_is_literal [OF sqlite_like_law _ _ this]
  show ?thesis
    using run [of "L ''50%''" "L ''50% off''"] run [of "L ''50%''" "L ''500 off''"]
    by (simp add: ascii_tables_def to_ascii_lowercase_def ascii_lower_def)
qed

end
