(* ===== verification/ProviderCall.thy ===== *)
theory ProviderCall
  imports Errors
begin

unbundle bit_operations_syntax

text \<open>
  The outbound call envelope: the policy of \<open>crates/posthaste-call-policy/src\<close> (retry decision,
  status classification, deadline table) and the executor of \<open>crates/posthaste-provider-call/src\<close>
  (circuit breaker, retry loop, stall guard). Durations and instants are natural numbers of
  milliseconds. The jittered backoff is \<open>f64\<close> arithmetic and a parameter, \<open>bs_delay_for\<close>; the
  network attempt, the clock and the sleep are functions on a world of any type.
\<close>

subsection \<open>The call policy\<close>

datatype CallClass = CMetadata | CBlob | CSend | CSubscribe

record DeadlinePolicy =
  dp_total :: "nat option"
  dp_stall :: "nat option"

definition METADATA_TOTAL :: nat where "METADATA_TOTAL = 30000"
definition BLOB_STALL :: nat where "BLOB_STALL = 30000"
definition SEND_TOTAL :: nat where "SEND_TOTAL = 60000"
definition SUBSCRIBE_CONNECT :: nat where "SUBSCRIBE_CONNECT = 30000"

definition deadline_policy :: "CallClass \<Rightarrow> DeadlinePolicy" where
  "deadline_policy class = (case class of
     CMetadata \<Rightarrow> \<lparr>dp_total = Some METADATA_TOTAL, dp_stall = None\<rparr>
   | CBlob \<Rightarrow> \<lparr>dp_total = None, dp_stall = Some BLOB_STALL\<rparr>
   | CSend \<Rightarrow> \<lparr>dp_total = Some SEND_TOTAL, dp_stall = None\<rparr>
   | CSubscribe \<Rightarrow> \<lparr>dp_total = Some SUBSCRIBE_CONNECT, dp_stall = None\<rparr>)"

definition classify_status :: "16 word \<Rightarrow> Terminality" where
  "classify_status status = (if 400 \<le> status \<and> status < 500 then Permanent else Transient)"

definition resolve_terminality :: "Terminality option \<Rightarrow> 16 word \<Rightarrow> Terminality" where
  "resolve_terminality envelope status = (case envelope of
     Some t \<Rightarrow> t | None \<Rightarrow> classify_status status)"

text \<open>\<open>bs_delay_for n u\<close> is \<open>delay_for\<close>: the jittered ceiling of attempt \<open>n\<close> for the draw \<open>u\<close>.\<close>

record BackoffSchedule =
  bs_max_attempts :: "32 word"
  bs_delay_for :: "32 word \<Rightarrow> 64 word \<Rightarrow> nat"

datatype RetryDecision = Retry nat | GiveUp

definition retry_delay :: "BackoffSchedule \<Rightarrow> 32 word \<Rightarrow> 64 word \<Rightarrow> nat option \<Rightarrow> RetryDecision" where
  "retry_delay schedule attempt draw retry_after =
     (if bs_max_attempts schedule \<le> attempt then GiveUp
      else Retry (case retry_after of
        Some after \<Rightarrow> max after (bs_delay_for schedule attempt draw)
      | None \<Rightarrow> bs_delay_for schedule attempt draw))"

subsection \<open>Call errors\<close>

datatype CallErrorReason =
  CircuitOpen | Timeout | Stall | Http "16 word" | RateLimited "16 word" | Transport

record ProviderCallError =
  pc_terminality :: Terminality
  pc_reason :: CallErrorReason
  pc_retry_after :: "nat option"
  pc_detail :: str

definition circuit_open :: "str \<Rightarrow> ProviderCallError" where
  "circuit_open account =
     \<lparr>pc_terminality = Transient, pc_reason = CircuitOpen, pc_retry_after = None,
      pc_detail = L ''provider circuit open for account '' @ account\<rparr>"

text \<open>
  \<open>http_error\<close>: the classification of a response that is not 2xx, from its status, its
  \<open>Retry-After\<close> and the typed envelope; \<open>detail\<close> is the diagnostic text.
\<close>

definition http_error :: "16 word \<Rightarrow> nat option \<Rightarrow> Terminality option \<Rightarrow> str \<Rightarrow> ProviderCallError" where
  "http_error status retry_after envelope detail =
     (if status = 429 \<or> status = 503
      then \<lparr>pc_terminality = (case envelope of Some t \<Rightarrow> t | None \<Rightarrow> Transient),
            pc_reason = RateLimited status, pc_retry_after = retry_after, pc_detail = detail\<rparr>
      else \<lparr>pc_terminality = resolve_terminality envelope status,
            pc_reason = Http status, pc_retry_after = retry_after, pc_detail = detail\<rparr>)"

text \<open>
  \<open>truncate\<close>: at most 512 bytes of the body, then an ellipsis. Slicing at a byte that is not a
  character boundary panics, which is the result \<open>None\<close> (\<open>byte_prefix\<close> of TextLib).
\<close>

definition truncate_body :: "str \<Rightarrow> str option" where
  "truncate_body body =
     (if utf8_len body \<le> 512 then Some body
      else map_option (\<lambda>p. p @ [8230]) (byte_prefix 512 body))"

subsection \<open>The circuit breaker\<close>

datatype Phase = Closed "32 word" | Open nat | HalfOpen

datatype BreakerPhaseView = ViewClosed "32 word" | ViewOpen | ViewHalfOpen

record BreakerConfig =
  bc_enabled :: bool
  bc_failure_threshold :: "32 word"
  bc_cooldown :: nat

definition BreakerConfig_default :: BreakerConfig where
  "BreakerConfig_default = \<lparr>bc_enabled = True, bc_failure_threshold = 5, bc_cooldown = 45000\<rparr>"

type_synonym phases = "str \<Rightarrow> Phase option"

definition admit :: "BreakerConfig \<Rightarrow> nat \<Rightarrow> str \<Rightarrow> phases \<Rightarrow> bool \<times> phases" where
  "admit config now account phases =
     (if \<not> bc_enabled config then (True, phases)
      else case phases account of
        None \<Rightarrow> (True, phases)
      | Some (Closed _) \<Rightarrow> (True, phases)
      | Some (Open opened_at) \<Rightarrow>
          (if now - opened_at \<ge> bc_cooldown config then (True, phases(account \<mapsto> HalfOpen))
           else (False, phases))
      | Some HalfOpen \<Rightarrow> (False, phases))"

definition phase_after_failure :: "BreakerConfig \<Rightarrow> nat \<Rightarrow> Phase option \<Rightarrow> Phase" where
  "phase_after_failure config now phase =
     (let trip = (\<lambda>failures. if bc_failure_threshold config \<le> failures then Open now
                             else Closed failures)
      in case phase of
        Some HalfOpen \<Rightarrow> Open now
      | Some (Open _) \<Rightarrow> Open now
      | Some (Closed n) \<Rightarrow> trip (n + 1)
      | None \<Rightarrow> trip 1)"

definition record_outcome :: "BreakerConfig \<Rightarrow> nat \<Rightarrow> str \<Rightarrow> bool \<Rightarrow> phases \<Rightarrow> phases" where
  "record_outcome config now account success phases =
     (if \<not> bc_enabled config then phases
      else if success then phases(account \<mapsto> Closed 0)
      else phases(account \<mapsto> phase_after_failure config now (phases account)))"

definition breaker_phase :: "str \<Rightarrow> phases \<Rightarrow> BreakerPhaseView" where
  "breaker_phase account phases = (case phases account of
     None \<Rightarrow> ViewClosed 0
   | Some (Closed n) \<Rightarrow> ViewClosed n
   | Some (Open _) \<Rightarrow> ViewOpen
   | Some HalfOpen \<Rightarrow> ViewHalfOpen)"

subsection \<open>The executor\<close>

text \<open>The xorshift generator of the jitter draws; a draw is the state without its 11 low bits.\<close>

definition next_jitter :: "64 word \<Rightarrow> 64 word" where
  "next_jitter state =
     (let x = (if state = 0 then 0x9E3779B97F4A7C15 else state);
          x = x XOR push_bit 13 x;
          x = x XOR drop_bit 7 x
      in x XOR push_bit 17 x)"

definition jitter_draw :: "64 word \<Rightarrow> 64 word" where
  "jitter_draw state = drop_bit 11 state"

text \<open>The world the executor acts on: the network attempt, the clock and the sleep.\<close>

record ('w, 'a) Runtime =
  rt_attempt :: "'w \<Rightarrow> (ProviderCallError, 'a) result \<times> 'w"
  rt_now :: "'w \<Rightarrow> nat"
  rt_sleep :: "nat \<Rightarrow> 'w \<Rightarrow> 'w"

lemma unat_attempt_suc:
  assumes "(n :: 32 word) < m"
  shows "unat (n + 1) = unat n + 1"
proof -
  have "unat m < 2 ^ LENGTH(32)" by (rule unsigned_less)
  then show ?thesis using assms by (simp add: word_less_nat_alt unat_word_ariths(1))
qed

lemma retry_below_max: "retry_delay schedule n draw after = Retry d \<Longrightarrow> n < bs_max_attempts schedule"
  by (auto simp: retry_delay_def split: if_splits)

lemma retry_shrinks:
  "retry_delay schedule n draw after = Retry d \<Longrightarrow>
   unat (bs_max_attempts schedule) - unat (n + 1) < unat (bs_max_attempts schedule) - unat n"
  using unat_attempt_suc [OF retry_below_max] retry_below_max
  by (simp add: word_less_nat_alt) (metis diff_less_mono2 lessI)

text \<open>The retry loop from attempt \<open>n\<close>, with the generator state threaded through.\<close>

function run_loop ::
  "('w, 'a) Runtime \<Rightarrow> BackoffSchedule \<Rightarrow> 32 word \<Rightarrow> 64 word \<times> 'w \<Rightarrow>
   (ProviderCallError, 'a) result \<times> 64 word \<times> 'w" where
  "run_loop rt schedule n (jitter, w) = (case rt_attempt rt w of
     (Inr value, w) \<Rightarrow> (Inr value, jitter, w)
   | (Inl error, w) \<Rightarrow>
       (if pc_terminality error = Permanent then (Inl error, jitter, w)
        else
          (let jitter = next_jitter jitter in
           case retry_delay schedule n (jitter_draw jitter) (pc_retry_after error) of
             GiveUp \<Rightarrow> (Inl error, jitter, w)
           | Retry delay \<Rightarrow> run_loop rt schedule (n + 1) (jitter, rt_sleep rt delay w))))"
  by pat_completeness auto
termination
  by (relation "measure (\<lambda>(rt, schedule, n, s). unat (bs_max_attempts schedule) - unat n)")
    (auto intro: retry_shrinks)

record Executor =
  ex_schedule :: BackoffSchedule
  ex_breaker :: BreakerConfig
  ex_phases :: phases
  ex_jitter :: "64 word"

definition run_call ::
  "('w, 'a) Runtime \<Rightarrow> str \<Rightarrow> Executor \<times> 'w \<Rightarrow> (ProviderCallError, 'a) result \<times> Executor \<times> 'w" where
  "run_call rt account state = (case state of (ex, w) \<Rightarrow>
     (case admit (ex_breaker ex) (rt_now rt w) account (ex_phases ex) of
        (False, phases) \<Rightarrow> (Inl (circuit_open account), ex\<lparr>ex_phases := phases\<rparr>, w)
      | (True, phases) \<Rightarrow>
          (case run_loop rt (ex_schedule ex) 0 (ex_jitter ex, w) of
             (outcome, jitter, w) \<Rightarrow>
               (outcome,
                ex\<lparr>ex_phases := record_outcome (ex_breaker ex) (rt_now rt w) account (\<not> isl outcome) phases,
                   ex_jitter := jitter\<rparr>, w))))"

subsection \<open>The stall guard\<close>

text \<open>
  The body as the reader meets it: a chunk, an error or the end, each after some wait. A wait longer
  than the stall window fires the timer, and so does a body that sends nothing more: the result
  \<open>Inl None\<close> is a stall.
\<close>

datatype 'e BodyEvent = Chunk nat "8 word list" | Fault nat 'e | Finish nat

fun drain_with_stall ::
  "nat \<Rightarrow> 'e BodyEvent list \<Rightarrow> 8 word list \<Rightarrow> ('e option, 8 word list) result" where
  "drain_with_stall stall [] buffer = Inl None"
| "drain_with_stall stall (Chunk wait bytes # rest) buffer =
     (if stall < wait then Inl None else drain_with_stall stall rest (buffer @ bytes))"
| "drain_with_stall stall (Fault wait e # rest) buffer =
     (if stall < wait then Inl None else Inl (Some e))"
| "drain_with_stall stall (Finish wait # rest) buffer =
     (if stall < wait then Inl None else Inr buffer)"

declare run_loop.simps [simp del]

subsection \<open>Retries\<close>

text \<open>
  The runtime that also counts its attempts and logs its sleeps, each with the error it follows.
\<close>

record 'w Observed =
  ob_world :: 'w
  ob_errors :: "ProviderCallError list"
  ob_attempts :: nat
  ob_sleeps :: "(nat option \<times> nat) list"

definition observe :: "('w, 'a) Runtime \<Rightarrow> ('w Observed, 'a) Runtime" where
  "observe rt =
     \<lparr>rt_attempt = (\<lambda>o1. case rt_attempt rt (ob_world o1) of
        (Inr v, w) \<Rightarrow> (Inr v, o1\<lparr>ob_world := w, ob_attempts := ob_attempts o1 + 1\<rparr>)
      | (Inl e, w) \<Rightarrow> (Inl e, o1\<lparr>ob_world := w, ob_attempts := ob_attempts o1 + 1,
                               ob_errors := ob_errors o1 @ [e]\<rparr>)),
      rt_now = (\<lambda>o1. rt_now rt (ob_world o1)),
      rt_sleep = (\<lambda>d o1. o1\<lparr>ob_world := rt_sleep rt d (ob_world o1),
         ob_sleeps := ob_sleeps o1 @ [(pc_retry_after (last (ob_errors o1)), d)]\<rparr>)\<rparr>"

definition observed :: "'w \<Rightarrow> 'w Observed" where
  "observed w = \<lparr>ob_world = w, ob_errors = [], ob_attempts = 0, ob_sleeps = []\<rparr>"

lemma observe_attempt_cases:
  obtains (ok) v o2 where "rt_attempt (observe rt) o1 = (Inr v, o2)" "ob_attempts o2 = ob_attempts o1 + 1"
      "ob_errors o2 = ob_errors o1" "ob_sleeps o2 = ob_sleeps o1"
  | (err) e o2 where "rt_attempt (observe rt) o1 = (Inl e, o2)" "ob_attempts o2 = ob_attempts o1 + 1"
      "ob_errors o2 = ob_errors o1 @ [e]" "ob_sleeps o2 = ob_sleeps o1"
  by (cases "rt_attempt rt (ob_world o1)"; cases "fst (rt_attempt rt (ob_world o1))")
    (auto simp: observe_def)

text \<open>What the loop adds to an observation: the errors, attempts and sleeps of its own.\<close>

definition retried :: "BackoffSchedule \<Rightarrow> 32 word \<Rightarrow> (ProviderCallError, 'a) result \<Rightarrow>
    'w Observed \<Rightarrow> 'w Observed \<Rightarrow> bool" where
  "retried schedule n outcome o1 o2 \<longleftrightarrow>
     ob_attempts o2 \<le> ob_attempts o1 + (unat (bs_max_attempts schedule) - unat n) + 1 \<and>
     ob_attempts o1 < ob_attempts o2 \<and>
     (\<exists>errs. ob_errors o2 = ob_errors o1 @ errs \<and>
        list_all (\<lambda>e. pc_terminality e = Transient) (butlast errs) \<and>
        (case outcome of
           Inr _ \<Rightarrow> length errs + 1 = ob_attempts o2 - ob_attempts o1 \<and>
                    list_all (\<lambda>e. pc_terminality e = Transient) errs
         | Inl e \<Rightarrow> errs \<noteq> [] \<and> last errs = e)) \<and>
     (\<exists>sleeps. ob_sleeps o2 = ob_sleeps o1 @ sleeps \<and>
        list_all (\<lambda>(after, d). case after of Some a \<Rightarrow> a \<le> d | None \<Rightarrow> True) sleeps)"

lemma run_loop_retried:
  "run_loop (observe rt) schedule n (jitter, o1) = (outcome, jitter', o2) \<Longrightarrow>
   retried schedule n outcome o1 o2"
proof (induction "observe rt" schedule n "(jitter, o1)" arbitrary: jitter o1 outcome jitter' o2
    rule: run_loop.induct)
  case (1 schedule n jitter o1)
  show ?case
  proof (cases rt o1 rule: observe_attempt_cases)
    case (ok v o3)
    then show ?thesis using "1.prems"
      by (auto simp: run_loop.simps [of _ schedule n] retried_def)
  next
    case (err e o3)
    show ?thesis
    proof (cases "\<exists>delay. pc_terminality e \<noteq> Permanent \<and>
        retry_delay schedule n (jitter_draw (next_jitter jitter)) (pc_retry_after e) = Retry delay")
      case False
      then show ?thesis using "1.prems" err
        by (auto simp: run_loop.simps [of _ schedule n] retried_def Let_def split: if_splits RetryDecision.splits)
    next
      case True
      then obtain delay where t: "pc_terminality e \<noteq> Permanent"
        and d: "retry_delay schedule n (jitter_draw (next_jitter jitter)) (pc_retry_after e) = Retry delay"
        by blast
      let ?o4 = "rt_sleep (observe rt) delay o3"
      note less = retry_below_max [OF d]
      have run: "run_loop (observe rt) schedule (n + 1) (next_jitter jitter, ?o4) = (outcome, jitter', o2)"
        using "1.prems" err t d by (simp add: run_loop.simps [of _ schedule n] Let_def)
      have IH: "retried schedule (n + 1) outcome ?o4 o2"
        using "1.hyps" [OF err(1) [symmetric] refl] run t d by (simp add: err)
      have after: "case pc_retry_after e of Some a \<Rightarrow> a \<le> delay | None \<Rightarrow> True"
        using d by (auto simp: retry_delay_def split: if_splits option.splits)
      have o4: "ob_attempts ?o4 = ob_attempts o1 + 1" "ob_errors ?o4 = ob_errors o1 @ [e]"
          "ob_sleeps ?o4 = ob_sleeps o1 @ [(pc_retry_after e, delay)]"
        using err by (simp_all add: observe_def)
      have "pc_terminality e = Transient" using t by (cases "pc_terminality e") auto
      moreover have "unat (n + 1) = unat n + 1" by (rule unat_attempt_suc [OF less])
      moreover have "unat n < unat (bs_max_attempts schedule)" using less by (simp add: word_less_nat_alt)
      moreover obtain errs where errs: "ob_errors o2 = ob_errors ?o4 @ errs"
          "list_all (\<lambda>e. pc_terminality e = Transient) (butlast errs)"
          "case outcome of
             Inr _ \<Rightarrow> length errs + 1 = ob_attempts o2 - ob_attempts ?o4 \<and>
                      list_all (\<lambda>e. pc_terminality e = Transient) errs
           | Inl e \<Rightarrow> errs \<noteq> [] \<and> last errs = e"
        using IH by (auto simp: retried_def)
      moreover obtain sleeps where "ob_sleeps o2 = ob_sleeps ?o4 @ sleeps"
          "list_all (\<lambda>(after, d). case after of Some a \<Rightarrow> a \<le> d | None \<Rightarrow> True) sleeps"
        using IH by (auto simp: retried_def)
      moreover have "ob_attempts o2 \<le> ob_attempts ?o4 + (unat (bs_max_attempts schedule) - unat (n + 1)) + 1"
          "ob_attempts ?o4 < ob_attempts o2"
        using IH by (auto simp: retried_def)
      ultimately show ?thesis
        unfolding retried_def using after o4
        by (intro conjI exI [where x = "e # errs"] exI [where x = "(pc_retry_after e, delay) # sleeps"])
          (auto split: sum.splits)
    qed
  qed
qed

lemma observed_run:
  assumes "run_loop (observe rt) schedule 0 (jitter, observed w) = (outcome, jitter', o2)"
  shows "retried schedule 0 outcome (observed w) o2"
  using assms by (rule run_loop_retried)

text \<open>
  C22. A call terminates after at most \<open>max_attempts + 1\<close> attempts, whatever the provider answers: a
  permanent error is never followed by another attempt (every error but the last is transient), a
  successful call has seen transient errors only, the reported error is the last one met, and no
  sleep is shorter than the \<open>Retry-After\<close> of the error it follows.
\<close>

theorem retries_are_bounded:
  assumes "run_loop (observe rt) schedule 0 (jitter, observed w) = (outcome, jitter', o2)"
  shows "1 \<le> ob_attempts o2 \<and> ob_attempts o2 \<le> unat (bs_max_attempts schedule) + 1 \<and>
    list_all (\<lambda>e. pc_terminality e = Transient) (butlast (ob_errors o2)) \<and>
    (case outcome of
       Inr _ \<Rightarrow> ob_attempts o2 = length (ob_errors o2) + 1 \<and>
                list_all (\<lambda>e. pc_terminality e = Transient) (ob_errors o2)
     | Inl e \<Rightarrow> ob_errors o2 \<noteq> [] \<and> last (ob_errors o2) = e) \<and>
    list_all (\<lambda>(after, d). case after of Some a \<Rightarrow> a \<le> d | None \<Rightarrow> True) (ob_sleeps o2)"
  using observed_run [OF assms] by (auto simp: retried_def observed_def split: sum.splits)

definition flaky :: "(nat, nat) Runtime" where
  "flaky = \<lparr>rt_attempt = (\<lambda>w. (Inl (http_error 503 (Some 700) None []), w + 1)),
            rt_now = (\<lambda>w. w), rt_sleep = (\<lambda>d w. w + d)\<rparr>"

definition one_attempt :: BackoffSchedule where
  "one_attempt = \<lparr>bs_max_attempts = 1, bs_delay_for = (\<lambda>n u. 10)\<rparr>"

lemma flaky_run:
  "run_loop (observe flaky) one_attempt 0 (1, observed 0) =
     (Inl (http_error 503 (Some 700) None []), next_jitter (next_jitter 1),
      \<lparr>ob_world = 702, ob_errors = replicate 2 (http_error 503 (Some 700) None []),
       ob_attempts = 2, ob_sleeps = [(Some 700, 700)]\<rparr>)"
  by (simp add: run_loop.simps flaky_def one_attempt_def observe_def observed_def http_error_def
      retry_delay_def Let_def numeral_2_eq_2)

lemma one_attempt_max: "bs_max_attempts one_attempt = 1"
  by (simp add: one_attempt_def)

text \<open>The schedule that allows one attempt: the call is made twice, 700 ms apart.\<close>

theorem retries_are_bounded_witness:
  "ob_attempts (snd (snd (run_loop (observe flaky) one_attempt 0 (1, observed 0)))) = 2 \<and>
   1 \<le> (2 :: nat) \<and> (2 :: nat) \<le> unat (bs_max_attempts one_attempt) + 1"
  using retries_are_bounded [OF flaky_run] by (simp add: flaky_run one_attempt_max)

subsection \<open>The breaker as a state machine\<close>

text \<open>
  The history of a breaker table: admissions, recorded outcomes and calls that were dropped (their
  future cancelled) before they recorded one. \<open>answers\<close> are the admissions, oldest first.
\<close>

datatype BreakerEvent = Admit nat str | Recorded nat str bool | Dropped str

fun event_account :: "BreakerEvent \<Rightarrow> str" where
  "event_account (Admit now a) = a"
| "event_account (Recorded now a success) = a"
| "event_account (Dropped a) = a"

fun breaker_step :: "BreakerConfig \<Rightarrow> BreakerEvent \<Rightarrow> phases \<Rightarrow> phases" where
  "breaker_step config (Admit now a) phases = snd (admit config now a phases)"
| "breaker_step config (Recorded now a success) phases = record_outcome config now a success phases"
| "breaker_step config (Dropped a) phases = phases"

fun breaker_answers :: "BreakerConfig \<Rightarrow> BreakerEvent list \<Rightarrow> phases \<Rightarrow> (str \<times> bool) list" where
  "breaker_answers config [] phases = []"
| "breaker_answers config (e # es) phases =
     (case e of Admit now a \<Rightarrow> [(a, fst (admit config now a phases))] | _ \<Rightarrow> []) @
     breaker_answers config es (breaker_step config e phases)"

definition breaker_run :: "BreakerConfig \<Rightarrow> BreakerEvent list \<Rightarrow> phases \<Rightarrow> phases" where
  "breaker_run config es phases = fold (breaker_step config) es phases"

definition failures_of :: "str \<Rightarrow> BreakerEvent list \<Rightarrow> nat" where
  "failures_of a es = length (filter (\<lambda>e. case e of Recorded _ b success \<Rightarrow> b = a \<and> \<not> success | _ \<Rightarrow> False) es)"

definition no_success :: "str \<Rightarrow> BreakerEvent list \<Rightarrow> bool" where
  "no_success a es = list_all (\<lambda>e. case e of Recorded _ b success \<Rightarrow> \<not> (b = a \<and> success) | _ \<Rightarrow> True) es"

lemma breaker_step_other:
  "event_account e \<noteq> a \<Longrightarrow> breaker_step config e phases a = phases a"
  by (cases e) (auto simp: admit_def record_outcome_def split: option.splits Phase.splits)

lemma breaker_step_local:
  "phases a = phases' a \<Longrightarrow> breaker_step config e phases a = breaker_step config e phases' a"
  by (cases e) (auto simp: admit_def record_outcome_def split: option.splits Phase.splits)

lemma admit_local:
  "phases a = phases' a \<Longrightarrow> fst (admit config now a phases) = fst (admit config now a phases')"
  by (auto simp: admit_def split: option.splits Phase.splits)

lemma breaker_run_simps [simp]:
  "breaker_run config [] phases = phases"
  "breaker_run config (e # es) phases = breaker_run config es (breaker_step config e phases)"
  by (simp_all add: breaker_run_def)

lemma breaker_run_local:
  "phases a = phases' a \<Longrightarrow>
   breaker_run config es phases a = breaker_run config (filter (\<lambda>e. event_account e = a) es) phases' a \<and>
   filter (\<lambda>(b, _). b = a) (breaker_answers config es phases) =
     filter (\<lambda>(b, _). b = a) (breaker_answers config (filter (\<lambda>e. event_account e = a) es) phases')"
proof (induction es arbitrary: phases phases')
  case (Cons e es)
  have "breaker_step config e phases a = breaker_step config e phases' a"
    using Cons.prems by (rule breaker_step_local)
  moreover have "event_account e \<noteq> a \<Longrightarrow> breaker_step config e phases a = phases' a"
    using Cons.prems by (simp add: breaker_step_other)
  ultimately show ?case
    using Cons.IH [of "breaker_step config e phases" "breaker_step config e phases'"]
      Cons.IH [of "breaker_step config e phases" phases'] Cons.prems
    by (cases e) (auto simp: admit_local [of phases _ phases'])
qed simp

text \<open>
  Accounts do not interfere: the phase an account's breaker reaches and the admissions it
  answers are those of the account's own events alone, whatever the other accounts' calls do in
  between.
\<close>

lemma breaker_accounts_are_isolated:
  "breaker_phase a (breaker_run config es phases) =
     breaker_phase a (breaker_run config (filter (\<lambda>e. event_account e = a) es) phases) \<and>
   filter (\<lambda>(b, _). b = a) (breaker_answers config es phases) =
     filter (\<lambda>(b, _). b = a) (breaker_answers config (filter (\<lambda>e. event_account e = a) es) phases)"
  using breaker_run_local [of phases a phases config es] by (simp add: breaker_phase_def)

text \<open>The closed phase while failures accumulate: below the threshold no admission is refused.\<close>

definition closed_with :: "phases \<Rightarrow> str \<Rightarrow> nat \<Rightarrow> bool" where
  "closed_with phases a k \<longleftrightarrow>
     (case phases a of None \<Rightarrow> k = 0 | Some (Closed n) \<Rightarrow> unat n = k | _ \<Rightarrow> False)"

lemma closed_admits:
  "closed_with phases a k \<Longrightarrow> admit config now a phases = (True, phases)"
  by (auto simp: closed_with_def admit_def split: option.splits Phase.splits)

lemma closed_failure:
  assumes "closed_with phases a k" "bc_enabled config" "k < unat (bc_failure_threshold config)"
  shows "record_outcome config now a False phases a =
           Some (if k + 1 = unat (bc_failure_threshold config) then Open now
                 else Closed (of_nat (k + 1)))"
proof -
  have n: "n < bc_failure_threshold config \<Longrightarrow> unat (n + 1) = unat n + 1" for n
    by (rule unat_attempt_suc)
  have "unat (bc_failure_threshold config) < 2 ^ LENGTH(32)" by (rule unsigned_less)
  then have k: "phase_after_failure config now (phases a) =
      (if bc_failure_threshold config \<le> of_nat (k + 1) then Open now else Closed (of_nat (k + 1)))"
    using assms
    by (auto simp: phase_after_failure_def closed_with_def Let_def add.commute [of "1 :: 32 word"]
        split: option.splits Phase.splits)
  have "unat (of_nat (k + 1) :: 32 word) = k + 1"
    using assms(3) \<open>unat (bc_failure_threshold config) < 2 ^ LENGTH(32)\<close>
    by (subst unat_of_nat) simp
  then show ?thesis
    using assms k by (simp add: record_outcome_def word_le_nat_alt)
qed

lemma closed_step:
  assumes "closed_with phases a k" "no_success a [e]" "bc_enabled config"
    "k + failures_of a [e] < unat (bc_failure_threshold config)"
  shows "closed_with (breaker_step config e phases) a (k + failures_of a [e])"
proof (cases e)
  case (Admit now b)
  then show ?thesis
    using assms closed_admits [OF assms(1)] breaker_step_other [of e a config phases]
    by (cases "b = a") (auto simp: failures_of_def closed_with_def)
next
  case (Recorded now b success)
  show ?thesis
  proof (cases "b = a")
    case True
    have "unat (bc_failure_threshold config) < 2 ^ LENGTH(32)" by (rule unsigned_less)
    then have "k + 1 < unat (bc_failure_threshold config) \<Longrightarrow> unat (of_nat (k + 1) :: 32 word) = k + 1"
      by (subst unat_of_nat) simp
    then show ?thesis
      using Recorded True assms closed_failure [OF assms(1, 3), of now]
      by (simp add: failures_of_def no_success_def closed_with_def)
  next
    case False
    then show ?thesis
      using Recorded assms breaker_step_other [of e a config phases]
      by (simp add: failures_of_def closed_with_def)
  qed
next
  case (Dropped b)
  then show ?thesis using assms by (simp add: failures_of_def)
qed

lemma failures_of_Cons: "failures_of a (e # es) = failures_of a [e] + failures_of a es"
  by (simp add: failures_of_def)

lemma no_success_Cons: "no_success a (e # es) \<longleftrightarrow> no_success a [e] \<and> no_success a es"
  by (simp add: no_success_def)

lemma closed_run:
  assumes "closed_with phases a k" "no_success a es" "bc_enabled config"
    "k + failures_of a es < unat (bc_failure_threshold config)"
  shows "closed_with (breaker_run config es phases) a (k + failures_of a es) \<and>
         list_all (\<lambda>(b, ok). b = a \<longrightarrow> ok) (breaker_answers config es phases)"
  using assms
proof (induction es arbitrary: phases k)
  case Nil
  then show ?case by (simp add: failures_of_def)
next
  case (Cons e es)
  have "closed_with (breaker_step config e phases) a (k + failures_of a [e])"
    using Cons.prems by (intro closed_step) (auto simp: failures_of_Cons [of a e es] no_success_Cons [of a e es])
  moreover have "\<And>now. e = Admit now a \<Longrightarrow> fst (admit config now a phases)"
    using closed_admits [OF Cons.prems(1)] by simp
  moreover note failures_of_Cons [of a e es]
  moreover have "no_success a es" using Cons.prems(2) by (simp add: no_success_def)
  ultimately show ?case
    using Cons.IH [of "breaker_step config e phases" "k + failures_of a [e]"] Cons.prems
    by (cases e) (auto simp: add.assoc)
qed

lemma open_refuses:
  assumes "phases a = Some (Open opened_at)" "bc_enabled config" "now - opened_at < bc_cooldown config"
  shows "admit config now a phases = (False, phases)"
  using assms by (simp add: admit_def)

text \<open>
  The breaker opens exactly at its threshold: from a closed breaker, as long as the account has
  fewer failures than the threshold and no success, every call is admitted; the failure that reaches
  the threshold opens it; until the cooldown has passed a call then returns the circuit-open error
  and touches neither the world nor the executor; and after the cooldown exactly one call is
  admitted, the next ones being refused while that probe is out.
\<close>

lemma breaker_opens_at_threshold:
  assumes "bc_enabled (ex_breaker ex)" "ex_phases ex a = None"
    "no_success a es" "failures_of a es + 1 = unat (bc_failure_threshold (ex_breaker ex))"
    "ex' = ex\<lparr>ex_phases := breaker_run (ex_breaker ex) (es @ [Recorded now a False]) (ex_phases ex)\<rparr>"
  shows "list_all (\<lambda>(b, ok). b = a \<longrightarrow> ok) (breaker_answers (ex_breaker ex) es (ex_phases ex)) \<and>
    ex_phases ex' a = Some (Open now) \<and>
    (rt_now rt w - now < bc_cooldown (ex_breaker ex) \<longrightarrow>
       run_call rt a (ex', w) = (Inl (circuit_open a), ex', w)) \<and>
    (later - now \<ge> bc_cooldown (ex_breaker ex) \<longrightarrow>
       breaker_answers (ex_breaker ex) [Admit later a, Admit later' a, Admit later'' a] (ex_phases ex') =
         [(a, True), (a, False), (a, False)])"
proof -
  have c0: "closed_with (ex_phases ex) a 0" using assms(2) by (simp add: closed_with_def)
  have run: "closed_with (breaker_run (ex_breaker ex) es (ex_phases ex)) a (failures_of a es)"
    "list_all (\<lambda>(b, ok). b = a \<longrightarrow> ok) (breaker_answers (ex_breaker ex) es (ex_phases ex))"
    using closed_run [OF c0 assms(3, 1)] assms(4) by auto
  have opened: "ex_phases ex' a = Some (Open now)"
    using closed_failure [OF run(1) assms(1), of now] assms(4, 5) by (simp add: breaker_run_def)
  have br: "ex_breaker ex' = ex_breaker ex" using assms(5) by simp
  have "rt_now rt w - now < bc_cooldown (ex_breaker ex) \<longrightarrow>
      run_call rt a (ex', w) = (Inl (circuit_open a), ex', w)"
    using open_refuses [where phases = "ex_phases ex'", OF opened assms(1), of "rt_now rt w"]
    by (simp add: run_call_def br)
  then show ?thesis using run(2) opened assms(1) by (simp add: admit_def)
qed

definition idle_executor :: Executor where
  "idle_executor = \<lparr>ex_schedule = one_attempt, ex_breaker = BreakerConfig_default,
     ex_phases = Map.empty, ex_jitter = 1\<rparr>"

definition four_failures :: "BreakerEvent list" where
  "four_failures = [Admit 0 [1], Recorded 10 [1] False, Recorded 20 [1] False, Recorded 25 [2] True,
     Recorded 30 [1] False, Dropped [1], Recorded 40 [1] False]"

text \<open>The default configuration, on the fifth failure of account \<open>[1]\<close>, at instant 50.\<close>

lemma breaker_opens_at_threshold_example:
  "let ex' = idle_executor\<lparr>ex_phases :=
       breaker_run BreakerConfig_default (four_failures @ [Recorded 50 [1] False]) Map.empty\<rparr>
   in ex_phases ex' [1] = Some (Open 50) \<and>
      run_call flaky [1] (ex', 45000) = (Inl (circuit_open [1]), ex', 45000) \<and>
      breaker_answers BreakerConfig_default [Admit 45050 [1], Admit 45051 [1], Admit 90000 [1]] (ex_phases ex') =
        [([1], True), ([1], False), ([1], False)]"
proof -
  let ?ex' = "idle_executor\<lparr>ex_phases :=
      breaker_run (ex_breaker idle_executor) (four_failures @ [Recorded 50 [1] False]) (ex_phases idle_executor)\<rparr>"
  have h: "bc_enabled (ex_breaker idle_executor)" "ex_phases idle_executor [1] = None"
      "no_success [1] four_failures"
      "failures_of [1] four_failures + 1 = unat (bc_failure_threshold (ex_breaker idle_executor))"
    by (simp_all add: idle_executor_def BreakerConfig_default_def four_failures_def no_success_def failures_of_def)
  note t = breaker_opens_at_threshold [of idle_executor "[1]" four_failures ?ex' 50, OF h refl]
  have "rt_now flaky 45000 - 50 < bc_cooldown (ex_breaker idle_executor)"
      "45050 - 50 \<ge> bc_cooldown (ex_breaker idle_executor)"
    by (simp_all add: flaky_def idle_executor_def BreakerConfig_default_def)
  with t [of flaky 45000 45050 45051 90000] show ?thesis
    by (simp add: Let_def idle_executor_def)
qed

lemma half_open_stays:
  assumes "phases a = Some HalfOpen" "bc_enabled config"
    "list_all (\<lambda>e. case e of Recorded _ b _ \<Rightarrow> b \<noteq> a | _ \<Rightarrow> True) es"
  shows "breaker_run config es phases a = Some HalfOpen \<and>
         list_all (\<lambda>(b, ok). b = a \<longrightarrow> \<not> ok) (breaker_answers config es phases)"
  using assms
proof (induction es arbitrary: phases)
  case (Cons e es)
  have "breaker_step config e phases a = Some HalfOpen"
    using Cons.prems breaker_step_other [of e a config phases]
    by (cases "event_account e = a"; cases e) (simp_all add: admit_def)
  then show ?case
    using Cons.IH [of "breaker_step config e phases"] Cons.prems
    by (cases e) (auto simp: admit_def)
qed simp

text \<open>
  A half-open breaker leaves that phase only through a recorded outcome. When the probe's call
  is dropped before it records one, the account is refused forever: every later call to it, at
  whatever time, returns the circuit-open error without an attempt, whatever other accounts do.
\<close>

lemma abandoned_probe_wedges:
  assumes "bc_enabled (ex_breaker ex)" "ex_phases ex a = Some (Open opened_at)"
    "admit (ex_breaker ex) now a (ex_phases ex) = (True, phases)"
    "list_all (\<lambda>e. case e of Recorded _ b _ \<Rightarrow> b \<noteq> a | _ \<Rightarrow> True) es"
  shows "run_call rt a (ex\<lparr>ex_phases := breaker_run (ex_breaker ex) (Dropped a # es) phases\<rparr>, w) =
           (Inl (circuit_open a), ex\<lparr>ex_phases := breaker_run (ex_breaker ex) (Dropped a # es) phases\<rparr>, w)"
proof -
  have "phases a = Some HalfOpen" using assms(1-3) by (auto simp: admit_def split: if_splits)
  then have "breaker_run (ex_breaker ex) (Dropped a # es) phases a = Some HalfOpen"
    using half_open_stays [of phases a "ex_breaker ex" es] assms(1, 4) by simp
  then show ?thesis using assms(1) by (simp add: run_call_def admit_def)
qed

definition cooled_executor :: Executor where
  "cooled_executor = idle_executor\<lparr>ex_phases := [[1] \<mapsto> Open 0]\<rparr>"

lemma abandoned_probe_wedges_example:
  "run_call flaky [1] (cooled_executor\<lparr>ex_phases := [[1] \<mapsto> HalfOpen, [2] \<mapsto> Closed 0]\<rparr>, 10 ^ 12) =
     (Inl (circuit_open [1]), cooled_executor\<lparr>ex_phases := [[1] \<mapsto> HalfOpen, [2] \<mapsto> Closed 0]\<rparr>, 10 ^ 12)"
proof -
  have "breaker_run (ex_breaker cooled_executor) [Dropped [1], Recorded 60000 [2] True] [[1] \<mapsto> HalfOpen] =
      [[1] \<mapsto> HalfOpen, [2] \<mapsto> Closed 0]"
    by (simp add: cooled_executor_def idle_executor_def BreakerConfig_default_def record_outcome_def)
  then show ?thesis
    using abandoned_probe_wedges [of cooled_executor "[1]" 0 50000 "[[1] \<mapsto> HalfOpen]"
        "[Recorded 60000 [2] True]" flaky "10 ^ 12"]
    by (simp add: cooled_executor_def idle_executor_def BreakerConfig_default_def admit_def)
qed

end
