(* ===== verification/Mutation.thy ===== *)
theory Mutation
  imports OutboxQueue
begin

text \<open>
  User mutations, \<open>crates/posthaste-domain-service/src/service/mutation.rs\<close>: keywords, mailbox
  membership and destroy, local-first. Each queues a state assertion, refreshes the row's overlay and
  emits an echo from the effective read; a local failure retracts the queued operation. With them
  the snooze table of \<open>crates/posthaste-store/src/snooze.rs\<close> and its scheduler. In an echo, the
  change flags and the assertion, which are functions of its other fields, are not written out.
\<close>

subsection \<open>The snooze table\<close>

record MutDb =
  mu_mail :: MailDb
  mu_snoozes :: "((str \<times> str) \<times> int) list"

definition SNOOZE_DUE_BATCH_LIMIT :: nat where
  "SNOOZE_DUE_BATCH_LIMIT = 500"

definition insert_snooze :: "str \<Rightarrow> str \<Rightarrow> int \<Rightarrow> MutDb \<Rightarrow> MutDb" where
  "insert_snooze account_id message_id until s =
     s\<lparr>mu_snoozes := AList.update (account_id, message_id) until (mu_snoozes s)\<rparr>"

definition delete_snooze :: "str \<Rightarrow> str \<Rightarrow> MutDb \<Rightarrow> MutDb" where
  "delete_snooze account_id message_id s =
     s\<lparr>mu_snoozes := AList.delete (account_id, message_id) (mu_snoozes s)\<rparr>"

definition list_due_snoozes :: "str \<Rightarrow> int \<Rightarrow> MutDb \<Rightarrow> (str \<times> int) list" where
  "list_due_snoozes account_id now s =
     take SNOOZE_DUE_BATCH_LIMIT
       (sort_key snd (map (\<lambda>((a, m), until). (m, until))
          (filter (\<lambda>((a, m), until). a = account_id \<and> until \<le> now) (mu_snoozes s))))"

subsection \<open>Queue, fold, echo\<close>

definition on_mail :: "(MailDb \<Rightarrow> 'a \<times> MailDb) \<Rightarrow> MutDb \<Rightarrow> 'a \<times> MutDb" where
  "on_mail f s = (case f (mu_mail s) of (r, db) \<Rightarrow> (r, s\<lparr>mu_mail := db\<rparr>))"

definition message_entity :: "str \<Rightarrow> OperationEntity" where
  "message_entity message_id = \<lparr>en_kind = EMessage, en_id = message_id\<rparr>"

definition message_not_found :: "str \<Rightarrow> svc_error" where
  "message_not_found message_id = SStore (StNotFound (L ''message:'' @ message_id))"

definition queue_message_operation ::
  "Clock \<Rightarrow> str \<Rightarrow> str \<Rightarrow> str \<Rightarrow> OperationKind \<Rightarrow> Payload \<Rightarrow> MutDb \<Rightarrow>
   (svc_error, Operation) result \<times> MutDb" where
  "queue_message_operation clock operation_id account_id message_id kind payload =
     on_mail (queue_operation_with_id clock operation_id account_id (message_entity message_id)
                kind payload None None)"

definition emit ::
  "Clock \<Rightarrow> str \<Rightarrow> str option \<Rightarrow> str \<Rightarrow> EventPayload \<Rightarrow> MutDb \<Rightarrow>
   (svc_error, DomainEvent list) result \<times> MutDb" where
  "emit clock account_id scope_mailbox message_id payload =
     on_mail (\<lambda>db. case append_event clock account_id EVENT_TOPIC_MESSAGE_UPDATED scope_mailbox
                          (Some message_id) payload db of (event, db) \<Rightarrow> (Inr [event], db))"

text \<open>The membership that arrived: the command's mailboxes the row was not in before.\<close>

definition arrived :: "MessageRecord option \<Rightarrow> str list \<Rightarrow> str list" where
  "arrived previous mailbox_ids =
     filter (\<lambda>i. i \<notin> (case previous of Some summary \<Rightarrow> set (mr_mailbox_ids summary) | None \<Rightarrow> {}))
       mailbox_ids"

definition effective_or_missing ::
  "str \<Rightarrow> str \<Rightarrow> MutDb \<Rightarrow> (svc_error, MessageRecord) result \<times> MutDb" where
  "effective_or_missing account_id message_id s =
     (case message_effective (mu_mail s) account_id message_id of
        Some summary \<Rightarrow> (Inr summary, s) | None \<Rightarrow> (Inl (message_not_found message_id), s))"

text \<open>
  The event of a folded assertion. An intent of another kind is the \<open>unreachable!\<close> of the code: the
  decode boundary gives back the operation's own kind.
\<close>

definition echo_assertion ::
  "Clock \<Rightarrow> str \<Rightarrow> str \<Rightarrow> Operation \<Rightarrow> MessageRecord option \<Rightarrow> MutDb \<Rightarrow>
   (svc_error, DomainEvent list) result \<times> MutDb" where
  "echo_assertion clock account_id message_id operation previous s = (case op_kind operation of
     KSetKeywords \<Rightarrow> and_then (effective_or_missing account_id message_id s)
       (\<lambda>summary. emit clock account_id (first_of (mr_mailbox_ids summary)) message_id
          (PKeywords message_id (mr_keywords summary) summary))
   | KReplaceMailboxes \<Rightarrow> (case op_intent operation of
       Inl error \<Rightarrow> (Inl (SGateway (Internal error)), s)
     | Inr (IReplaceMailboxes command) \<Rightarrow>
         and_then (effective_or_missing account_id message_id (delete_snooze account_id message_id s))
           (\<lambda>summary. emit clock account_id (first_of (rmc_mailbox_ids command)) message_id
              (PMailboxes message_id (rmc_mailbox_ids command)
                 (arrived previous (rmc_mailbox_ids command)) summary))
     | Inr _ \<Rightarrow> (Inl (SGateway (Internal (L ''unreachable''))), s))
   | _ \<Rightarrow> emit clock account_id (Option.bind previous (\<lambda>summary. first_of (mr_mailbox_ids summary)))
            message_id (PDeleted message_id) s)"

definition apply_assertion_to_overlay ::
  "Clock \<Rightarrow> str \<Rightarrow> str \<Rightarrow> Operation \<Rightarrow> MutDb \<Rightarrow> (svc_error, DomainEvent list) result \<times> MutDb" where
  "apply_assertion_to_overlay clock account_id message_id operation s =
     (if \<not> is_state_assertion (op_kind operation) then (Inr [], s)
      else let previous = message_effective (mu_mail s) account_id message_id in
        if op_kind operation = KDestroy \<and> previous = None
        then (Inl (message_not_found message_id), s)
        else and_then (on_mail (refresh account_id message_id) s)
          (\<lambda>_. echo_assertion clock account_id message_id operation previous))"

definition remove_operation_after_local_failure :: "Operation \<Rightarrow> MutDb \<Rightarrow> MutDb" where
  "remove_operation_after_local_failure operation s =
     s\<lparr>mu_mail := (mu_mail s)\<lparr>db_outbox := remove_operation (op_id operation) (db_outbox (mu_mail s))\<rparr>\<rparr>"

definition queue_then_emit_message_operation ::
  "Clock \<Rightarrow> str \<Rightarrow> str \<Rightarrow> str \<Rightarrow> OperationKind \<Rightarrow> Payload \<Rightarrow> MutDb \<Rightarrow>
   (svc_error, DomainEvent list) result \<times> MutDb" where
  "queue_then_emit_message_operation clock operation_id account_id message_id kind payload s =
     and_then (queue_message_operation clock operation_id account_id message_id kind payload s)
       (\<lambda>operation s. case apply_assertion_to_overlay clock account_id message_id operation s of
          (Inr events, s) \<Rightarrow> (Inr events, s)
        | (Inl error, s) \<Rightarrow> (Inl error, remove_operation_after_local_failure operation s))"

subsection \<open>Commands\<close>

definition set_keywords ::
  "Clock \<Rightarrow> str \<Rightarrow> str \<Rightarrow> str \<Rightarrow> SetKeywordsCommand \<Rightarrow> MutDb \<Rightarrow>
   (svc_error, DomainEvent list) result \<times> MutDb" where
  "set_keywords clock operation_id account_id message_id command =
     queue_then_emit_message_operation clock operation_id account_id message_id KSetKeywords
       (JSetKeywords command)"

definition replace_mailboxes ::
  "Clock \<Rightarrow> str \<Rightarrow> str \<Rightarrow> str \<Rightarrow> ReplaceMailboxesCommand \<Rightarrow> MutDb \<Rightarrow>
   (svc_error, DomainEvent list) result \<times> MutDb" where
  "replace_mailboxes clock operation_id account_id message_id command =
     queue_then_emit_message_operation clock operation_id account_id message_id KReplaceMailboxes
       (JReplaceMailboxes command)"

definition destroy_message ::
  "Clock \<Rightarrow> str \<Rightarrow> str \<Rightarrow> str \<Rightarrow> MutDb \<Rightarrow> (svc_error, DomainEvent list) result \<times> MutDb" where
  "destroy_message clock operation_id account_id message_id =
     queue_then_emit_message_operation clock operation_id account_id message_id KDestroy JOther"

definition list_message_mailboxes_with_overlay ::
  "str \<Rightarrow> str \<Rightarrow> MutDb \<Rightarrow> (svc_error, str list) result \<times> MutDb" where
  "list_message_mailboxes_with_overlay account_id message_id s =
     and_then (effective_or_missing account_id message_id s) (\<lambda>summary s. (Inr (mr_mailbox_ids summary), s))"

definition add_to_mailbox ::
  "Clock \<Rightarrow> str \<Rightarrow> str \<Rightarrow> str \<Rightarrow> str \<Rightarrow> MutDb \<Rightarrow> (svc_error, DomainEvent list) result \<times> MutDb" where
  "add_to_mailbox clock operation_id account_id message_id mailbox_id s =
     and_then (list_message_mailboxes_with_overlay account_id message_id s)
       (\<lambda>mailbox_ids. replace_mailboxes clock operation_id account_id message_id
          \<lparr>rmc_mailbox_ids = (if mailbox_id \<in> set mailbox_ids then mailbox_ids
                             else mailbox_ids @ [mailbox_id])\<rparr>)"

definition remove_from_mailbox ::
  "Clock \<Rightarrow> str \<Rightarrow> str \<Rightarrow> str \<Rightarrow> str \<Rightarrow> MutDb \<Rightarrow> (svc_error, DomainEvent list) result \<times> MutDb" where
  "remove_from_mailbox clock operation_id account_id message_id mailbox_id s =
     and_then (list_message_mailboxes_with_overlay account_id message_id s)
       (\<lambda>mailbox_ids. replace_mailboxes clock operation_id account_id message_id
          \<lparr>rmc_mailbox_ids = filter (\<lambda>i. i \<noteq> mailbox_id) mailbox_ids\<rparr>)"

text \<open>The scheduler's loop over the due rows, each with a fresh operation id; failures are skipped.\<close>

fun return_due ::
  "Clock \<Rightarrow> (str \<Rightarrow> str) \<Rightarrow> str \<Rightarrow> str \<Rightarrow> (str \<times> int) list \<Rightarrow> MutDb \<Rightarrow> nat \<times> MutDb" where
  "return_due clock fresh account_id inbox_id [] s = (0, s)"
| "return_due clock fresh account_id inbox_id ((message_id, until) # rest) s =
     (case replace_mailboxes clock (fresh message_id) account_id message_id
             \<lparr>rmc_mailbox_ids = [inbox_id]\<rparr> s of
        (outcome, s) \<Rightarrow>
          (case return_due clock fresh account_id inbox_id rest s of
             (n, s) \<Rightarrow> (if isl outcome then n else n + 1, s)))"

definition auto_return_snoozed_messages ::
  "Clock \<Rightarrow> (str \<Rightarrow> str) \<Rightarrow> str \<Rightarrow> int \<Rightarrow> MutDb \<Rightarrow> nat \<times> MutDb" where
  "auto_return_snoozed_messages clock fresh account_id now s =
     (let due = list_due_snoozes account_id now s in
      if due = [] then (0, s)
      else case read_mailbox_id_by_role (mu_mail s) account_id (L ''inbox'') of
        None \<Rightarrow> (0, s)
      | Some inbox_id \<Rightarrow> return_due clock fresh account_id inbox_id due s)"

subsection \<open>The last assertion of the log wins\<close>

lemma collect_ops_snoc:
  "collect_ops resolve m (xs @ [op]) acc =
     (case collect_ops resolve m xs acc of Inl e \<Rightarrow> Inl e | Inr acc' \<Rightarrow> collect_ops resolve m [op] acc')"
  by (induction resolve m xs acc rule: collect_ops.induct) (auto split: sum.split)

lemma assertions_of_snoc:
  "intent_fold_effect op = Inr (Some (Assert a)) \<Longrightarrow>
   assertions_of (xs @ [op]) = map_result (\<lambda>pre. pre @ [a]) (assertions_of xs)"
  by (induction xs) (auto simp: map_result_def split: sum.split FoldEffect.split option.split)

definition asserts :: "Operation \<Rightarrow> str \<Rightarrow> MessageAssertion \<Rightarrow> bool" where
  "asserts op m a \<longleftrightarrow> is_replayable op \<and> op_entity op = message_entity m \<and>
     is_state_assertion (op_kind op) \<and> intent_fold_effect op = Inr (Some (Assert a))"

lemma project_last:
  assumes "project_record record (xs @ [op]) = Inr (Some r)" "asserts op (mr_id record) a"
  shows "\<exists>st st'. apply_message_assertion st a = Present st' \<and>
    mr_keywords r = fs_keywords st' \<and> mr_mailbox_ids r = fs_mailbox_ids st'"
proof -
  have op: "intent_fold_effect op = Inr (Some (Assert a))" "en_id (op_entity op) = mr_id record"
    using assms(2) by (auto simp: asserts_def message_entity_def)
  let ?base = "\<lparr>fs_keywords = mr_keywords record, fs_mailbox_ids = mr_mailbox_ids record\<rparr>"
  obtain pre st' where st': "replay_message ?base (pre @ [a]) = Present st'"
      "mr_keywords r = fs_keywords st'" "mr_mailbox_ids r = fs_mailbox_ids st'"
    using assms(1) op
    by (auto simp: project_record_def message_assertions_def assertions_of_snoc map_result_def
        split: sum.splits Outcome.splits)
  moreover obtain st where "replay_from (Present ?base) pre = Present st"
    using st'(1) by (cases "replay_from (Present ?base) pre") (auto simp: replay_message_def replay_from_append)
  ultimately show ?thesis by (auto simp: replay_message_def replay_from_append)
qed

lemma fold_last_assertion:
  assumes f: "fold_overlay_row s m = Inr mutation" and ops: "sn_ops s = xs @ [op]"
    and op: "asserts op m a" and base: "\<And>b. sn_base s = Some b \<Longrightarrow> mr_id b = m"
  shows "(\<exists>r st st'. mutation = Upsert r \<and> apply_message_assertion st a = Present st' \<and>
            mr_keywords r = fs_keywords st' \<and> mr_mailbox_ids r = fs_mailbox_ids st') \<or>
         mutation = Tombstone \<or> ((mutation = Remove \<or> mutation = Keep) \<and> sn_base s = None)"
proof -
  have touch: "op_row_touches_with op resolve = Inr [(m, RAssertion)]" for resolve
    using op by (auto simp: asserts_def message_entity_def op_row_touches_with_def is_state_assertion_def Let_def)
  obtain pre b where t: "fold_touching s m (pre @ [op]) b = Inr mutation"
    using f op touch
    by (auto simp: fold_overlay_row_def ops collect_ops_snoc asserts_def split: sum.splits)
  then obtain q d where fold: "entity_fold s m (sn_base s, False) b = Inr (q, d)"
    and verdict: "fold_verdict s (pre @ [op]) (q, d) = Inr mutation"
    by (auto simp: fold_touching_def split: sum.splits)
  show ?thesis
  proof (cases q)
    case None
    then show ?thesis
      using verdict fold entity_fold_none [of s m "(sn_base s, False)" b]
      by (cases d) (auto simp: fold_verdict_def split: if_splits option.splits)
  next
    case (Some q0)
    have "mr_id q0 = m" using entity_fold_id [OF fold, of q0] base Some by simp
    then show ?thesis
      using verdict Some project_last [of q0 pre op _ a] op
      by (auto simp: fold_verdict_def split: sum.splits option.splits)
  qed
qed

text \<open>Where the log ends in an assertion on the row, a row visible after the refresh carries it.\<close>

lemma refresh_last_assertion:
  assumes r: "refresh_message_overlay a m db = (Inr d, db')"
    and ops: "list_unsettled_operations a (db_outbox db) = xs @ [op]" and op: "asserts op m asrt"
    and vis: "message_effective db' a m = Some rec"
  shows "\<exists>st st'. apply_message_assertion st asrt = Present st' \<and>
    mr_keywords rec = bt_collect (set (fs_keywords st')) \<and>
    mr_mailbox_ids rec = bt_collect (set (fs_mailbox_ids st'))"
proof -
  obtain mutation where f: "fold_overlay_row (derive_snapshot db a m) m = Inr mutation"
    and e: "message_effective db' a m = row_after mutation (read_base db a m) (message_effective db a m)"
    by (rule refresh_effective [OF r]) blast
  have base: "sn_base (derive_snapshot db a m) = Some b \<Longrightarrow> mr_id b = m" for b
    by (simp add: read_base_id)
  consider (up) r0 st st' where "mutation = Upsert r0" "apply_message_assertion st asrt = Present st'"
      "mr_keywords r0 = fs_keywords st'" "mr_mailbox_ids r0 = fs_mailbox_ids st'"
    | (no) "mutation = Tombstone \<or> mutation = Remove \<and> read_base db a m = None"
    | (keep) "mutation = Keep" "read_base db a m = None"
    using fold_last_assertion [OF f _ op base, of xs] ops by auto
  then show ?thesis
  proof cases
    case up
    then show ?thesis using e vis by (auto simp: row_after_def overlay_columns_def)
  next
    case no
    then show ?thesis using e vis by (auto simp: row_after_def)
  next
    case keep
    then have "read_overlay db a m = None" using fold_keep f by fastforce
    then have "message_effective db a m = None" using keep(2) read_overlay_cases(1) by simp
    then show ?thesis using e vis keep by (simp add: row_after_def)
  qed
qed

subsection \<open>Queueing an assertion\<close>

lemma coalesce_superseded_table:
  "coalesce_superseded kind ops p db = (Inr p', db') \<Longrightarrow>
   db' = db\<lparr>db_outbox := filter (\<lambda>r. row_id r \<notin> op_id ` set ops) (db_outbox db)\<rparr>"
proof (induction kind ops p db rule: coalesce_superseded.induct)
  case (2 kind existing rest p db)
  then show ?case
    by (auto simp: remove_operation_def filter_filter split: sum.splits if_splits intro!: arg_cong [where f = "\<lambda>t. db\<lparr>db_outbox := t\<rparr>"] filter_cong)
qed simp

lemma coalesce_replace:
  "fst (coalesce_superseded kind ops p db) = Inr p' \<Longrightarrow> kind \<noteq> KSetKeywords \<Longrightarrow> p' = p"
  by (induction kind ops p db rule: coalesce_superseded.induct) auto

definition queued_op :: "Clock \<Rightarrow> str \<Rightarrow> str \<Rightarrow> str \<Rightarrow> OperationKind \<Rightarrow> Payload \<Rightarrow> Operation" where
  "queued_op ck i a m kind p =
     \<lparr>op_id = i, op_account_id = a, op_entity = message_entity m, op_kind = kind, op_payload = p,
      op_payload_version = 1, op_state = Pending, op_attempts = 0, op_last_error = None,
      op_send_at = None, op_hold_until_mono = None, op_created_at = ck_now ck,
      op_updated_at = ck_now ck\<rparr>"

lemma queue_assertion:
  assumes "queue_operation_with_id ck i a (message_entity m) kind p None None db = (Inr op, db')"
    and "is_state_assertion kind" and "i \<notin> row_id ` set (db_outbox db)"
  obtains p' tbl where "coalesce_pending_assertions a (message_entity m) kind p db =
        (Inr p', db\<lparr>db_outbox := tbl\<rparr>)"
    "op = queued_op ck i a m kind p'" "db' = db\<lparr>db_outbox := tbl @ [new_row op]\<rparr>"
    "tbl = filter (\<lambda>r. row_id r \<notin> op_id ` set (filter (supersedes kind (message_entity m))
              (list_pending_operations a (db_outbox db)))) (db_outbox db)"
proof -
  obtain p' db1 where c: "coalesce_pending_assertions a (message_entity m) kind p db = (Inr p', db1)"
    using assms(1,2) by (cases "coalesce_pending_assertions a (message_entity m) kind p db";
        cases "fst (coalesce_pending_assertions a (message_entity m) kind p db)")
      (auto simp: queue_operation_with_id_def)
  let ?tbl = "filter (\<lambda>r. row_id r \<notin> op_id ` set (filter (supersedes kind (message_entity m))
              (list_pending_operations a (db_outbox db)))) (db_outbox db)"
  have db1: "db1 = db\<lparr>db_outbox := ?tbl\<rparr>"
    by (rule coalesce_superseded_table [OF c [unfolded coalesce_pending_assertions_def]])
  have fresh: "i \<notin> row_id ` set ?tbl" using assms(3) by auto
  let ?op = "queued_op ck i a m kind p'"
  have none: "get_operation ?tbl (op_id ?op) = None" 
    using fresh by (simp add: get_operation_None_iff queued_op_def)
  have enq: "enqueue_operation ?op ?tbl = (Inr ?op, ?tbl @ [new_row ?op])"
  proof (rule prod_eqI)
    show "fst (enqueue_operation ?op ?tbl) = fst (Inr ?op, ?tbl @ [new_row ?op])"
      unfolding enqueue_get none by simp
    show "snd (enqueue_operation ?op ?tbl) = snd (Inr ?op, ?tbl @ [new_row ?op])"
      using fresh by (simp add: enqueue_operation_def queued_op_def)
  qed
  have "op = ?op \<and> db' = db\<lparr>db_outbox := ?tbl @ [new_row op]\<rparr>"
    using assms(1,2) enq by (auto simp: queue_operation_with_id_def c db1 simp flip: queued_op_def)
  then show ?thesis using that [of p' ?tbl] c db1 by blast
qed

lemma effective_outbox [simp]:
  "message_effective (db\<lparr>db_outbox := t\<rparr>) a m = message_effective db a m"
  "message_effective (db\<lparr>db_events := e\<rparr>) a m = message_effective db a m"
  by (simp_all add: message_effective_def read_base_def split: option.split)

lemma unsettled_snoc:
  "list_unsettled_operations a (tbl @ [new_row (queued_op ck i a m kind p)]) =
     list_unsettled_operations a tbl @ [queued_op ck i a m kind p]"
  by (simp add: list_unsettled_operations_def ops_where_def unsettled_row_def queued_op_def new_row_def)

lemma queued_op_fields [simp]:
  "op_id (queued_op ck i a m kind p) = i" "op_kind (queued_op ck i a m kind p) = kind"
  "op_state (queued_op ck i a m kind p) = Pending" "op_entity (queued_op ck i a m kind p) = message_entity m"
  "op_account_id (queued_op ck i a m kind p) = a" "op_payload (queued_op ck i a m kind p) = p"
  "op_payload_version (queued_op ck i a m kind p) = 1"
  by (simp_all add: queued_op_def)

text \<open>A mutation that succeeds: coalesce, append, refresh, echo.\<close>

lemma mutation_run:
  assumes "queue_then_emit_message_operation ck i a m kind p s = (Inr events, s')"
    and "is_state_assertion kind" and "i \<notin> row_id ` set (db_outbox (mu_mail s))"
  obtains p' tbl d db1 where
    "fst (coalesce_pending_assertions a (message_entity m) kind p (mu_mail s)) = Inr p'"
    "refresh_message_overlay a m ((mu_mail s)\<lparr>db_outbox := tbl @ [new_row (queued_op ck i a m kind p')]\<rparr>)
       = (Inr d, db1)"
    "echo_assertion ck a m (queued_op ck i a m kind p') (message_effective (mu_mail s) a m)
       (s\<lparr>mu_mail := db1\<rparr>) = (Inr events, s')"
proof -
  obtain op db0 where q: "queue_operation_with_id ck i a (message_entity m) kind p None None (mu_mail s) =
      (Inr op, db0)"
    and e: "apply_assertion_to_overlay ck a m op (s\<lparr>mu_mail := db0\<rparr>) = (Inr events, s')"
    using assms(1)
    by (auto simp: queue_then_emit_message_operation_def queue_message_operation_def on_mail_def
        split: prod.splits sum.splits elim!: and_then_InrE)
  obtain p' tbl where c: "coalesce_pending_assertions a (message_entity m) kind p (mu_mail s) =
        (Inr p', (mu_mail s)\<lparr>db_outbox := tbl\<rparr>)"
    and op: "op = queued_op ck i a m kind p'"
    and db0: "db0 = (mu_mail s)\<lparr>db_outbox := tbl @ [new_row op]\<rparr>"
    by (rule queue_assertion [OF q assms(2,3)]) blast
  obtain d db1 where "refresh_message_overlay a m db0 = (Inr d, db1)"
      "echo_assertion ck a m op (message_effective db0 a m) (s\<lparr>mu_mail := db1\<rparr>) = (Inr events, s')"
    using e assms(2)
    by (auto simp: apply_assertion_to_overlay_def op Let_def on_mail_def refresh_def store_result_def
        split: if_splits prod.splits sum.splits elim!: and_then_InrE)
  then show ?thesis using that [of p' tbl d db1] c by (simp add: op db0)
qed

lemma refresh_others:
  assumes "refresh_message_overlay a m (db\<lparr>db_outbox := t\<rparr>) = (Inr d, db1)" "(a', m') \<noteq> (a, m)"
  shows "message_effective db1 a' m' = message_effective db a' m'"
  by (rule refresh_effective [OF assms(1)]) (use assms(2) in auto)

lemma emit_run:
  "emit ck a scope m payload s = (Inr events, s') \<Longrightarrow>
   map ev_payload events = [payload] \<and> mu_snoozes s' = mu_snoozes s \<and>
   message_effective (mu_mail s') = message_effective (mu_mail s) \<and>
   db_outbox (mu_mail s') = db_outbox (mu_mail s)"
  by (auto simp: emit_def on_mail_def append_event_def Let_def fun_eq_iff)

lemma effective_or_missing_run:
  "effective_or_missing a m s = (Inr summary, s') \<longleftrightarrow>
   s' = s \<and> message_effective (mu_mail s) a m = Some summary"
  by (auto simp: effective_or_missing_def split: option.split)

lemma mailbox_shown:
  assumes "replace_mailboxes ck i a m command s = (Inr events, s')"
    and "i \<notin> row_id ` set (db_outbox (mu_mail s))"
  shows "\<exists>summary. message_effective (mu_mail s') a m = Some summary \<and>
      mr_mailbox_ids summary = bt_collect (set (rmc_mailbox_ids command)) \<and>
      map ev_payload events = [PMailboxes m (rmc_mailbox_ids command)
         (arrived (message_effective (mu_mail s) a m) (rmc_mailbox_ids command)) summary] \<and>
      map_of (mu_snoozes s') (a, m) = None \<and>
      (\<forall>a' m'. (a', m') = (a, m) \<or> message_effective (mu_mail s') a' m' = message_effective (mu_mail s) a' m')"
proof -
  obtain p' tbl d db1 where
    p': "fst (coalesce_pending_assertions a (message_entity m) KReplaceMailboxes (JReplaceMailboxes command)
          (mu_mail s)) = Inr p'"
    and r: "refresh_message_overlay a m ((mu_mail s)\<lparr>db_outbox := tbl @
          [new_row (queued_op ck i a m KReplaceMailboxes p')]\<rparr>) = (Inr d, db1)"
    and e: "echo_assertion ck a m (queued_op ck i a m KReplaceMailboxes p')
          (message_effective (mu_mail s) a m) (s\<lparr>mu_mail := db1\<rparr>) = (Inr events, s')"
    by (rule mutation_run [OF assms(1) [unfolded replace_mailboxes_def] _ assms(2)])
      (simp add: is_state_assertion_def)
  have payload: "p' = JReplaceMailboxes command" 
    using p' by (intro coalesce_replace) (auto simp: coalesce_pending_assertions_def)
  let ?op = "queued_op ck i a m KReplaceMailboxes p'"
  have intent: "op_intent ?op = Inr (IReplaceMailboxes command)"
    by (simp add: op_intent_def from_parts_def payload)
  have op: "asserts ?op m (ReplaceMailboxes (rmc_mailbox_ids command))"
    by (simp add: asserts_def is_replayable_def is_state_assertion_def intent_fold_effect_def intent)
  obtain summary where vis: "message_effective db1 a m = Some summary"
    and em: "emit ck a (first_of (rmc_mailbox_ids command)) m
        (PMailboxes m (rmc_mailbox_ids command)
           (arrived (message_effective (mu_mail s) a m) (rmc_mailbox_ids command)) summary)
        (delete_snooze a m (s\<lparr>mu_mail := db1\<rparr>)) = (Inr events, s')"
    using e intent
    by (auto simp: echo_assertion_def effective_or_missing_run delete_snooze_def elim!: and_then_InrE)
  have "mr_mailbox_ids summary = bt_collect (set (rmc_mailbox_ids command))"
    using refresh_last_assertion [OF r _ op vis, of "list_unsettled_operations a tbl"]
    by (auto simp: unsettled_snoc)
  moreover have "message_effective db1 a' m' = message_effective (mu_mail s) a' m'" if "(a', m') \<noteq> (a, m)" for a' m'
    by (rule refresh_others [OF r that])
  ultimately show ?thesis using vis emit_run [OF em] by (auto simp: delete_snooze_def)
qed

text \<open>
  C23. A mailbox replace shows at once: when the command succeeds, the row everyone reads carries
  exactly the mailboxes of the command, whatever was pending on it before, its snooze is gone, the
  echo carries that row, and no other row of the view has changed.
\<close>

theorem mailbox_replace_takes_effect:
  assumes "replace_mailboxes ck i a m command s = (Inr events, s')"
    and "i \<notin> row_id ` set (db_outbox (mu_mail s))"
  shows "\<exists>summary. message_effective (mu_mail s') a m = Some summary \<and>
      mr_mailbox_ids summary = bt_collect (set (rmc_mailbox_ids command)) \<and>
      map ev_payload events = [PMailboxes m (rmc_mailbox_ids command)
         (arrived (message_effective (mu_mail s) a m) (rmc_mailbox_ids command)) summary] \<and>
      map_of (mu_snoozes s') (a, m) = None \<and>
      (\<forall>a' m'. (a', m') = (a, m) \<or> message_effective (mu_mail s') a' m' = message_effective (mu_mail s) a' m')"
  using mailbox_shown [OF assms] .

lemma coalesce_destroy:
  "\<exists>db'. coalesce_superseded KDestroy ops p db = (Inr p, db')"
  by (induction ops arbitrary: db) auto

definition keeps_command :: "SetKeywordsCommand \<Rightarrow> Payload \<Rightarrow> bool" where
  "keeps_command c p' \<longleftrightarrow> (\<exists>c'. p' = JSetKeywords c' \<and>
     set (skc_add c) - set (skc_remove c) \<subseteq> set (skc_add c') - set (skc_remove c') \<and>
     set (skc_remove c) - set (skc_add c) \<subseteq> set (skc_remove c') - set (skc_add c'))"

lemma merge_keeps_command:
  "keeps_command c p \<Longrightarrow> merge_set_keywords older p = Inr p' \<Longrightarrow> keeps_command c p'"
proof -
  assume "keeps_command c p" "merge_set_keywords older p = Inr p'"
  moreover obtain old where old: "older = JSetKeywords old"
    using calculation by (cases older) (auto simp: merge_set_keywords_def)
  ultimately obtain c' where p: "p = JSetKeywords c'"
    and c': "set (skc_add c) - set (skc_remove c) \<subseteq> set (skc_add c') - set (skc_remove c')"
      "set (skc_remove c) - set (skc_add c) \<subseteq> set (skc_remove c') - set (skc_add c')"
    and m: "merge_set_keywords (JSetKeywords old) (JSetKeywords c') = Inr p'"
    by (auto simp: keeps_command_def)
  note p' = m [unfolded merge_set_keywords_result, symmetric]
  show "keeps_command c p'"
    using c' p' by (auto simp: keeps_command_def)
qed

lemma coalesce_keywords:
  "fst (coalesce_superseded kind ops p db) = Inr p' \<Longrightarrow> keeps_command c p \<Longrightarrow> keeps_command c p'"
  by (induction kind ops p db rule: coalesce_superseded.induct)
    (auto split: sum.splits if_splits dest: merge_keeps_command)

lemma enqueue_total: "enqueue_operation op tbl \<noteq> (Inl e, tbl')"
  using enqueue_get [of op tbl] by (auto split: option.splits)

lemma keywords_shown:
  assumes "set_keywords ck i a m command s = (Inr events, s')"
    and "i \<notin> row_id ` set (db_outbox (mu_mail s))"
  shows "\<exists>summary. message_effective (mu_mail s') a m = Some summary \<and>
      set (skc_add command) - set (skc_remove command) \<subseteq> set (mr_keywords summary) \<and>
      (set (skc_remove command) - set (skc_add command)) \<inter> set (mr_keywords summary) = {} \<and>
      map ev_payload events = [PKeywords m (mr_keywords summary) summary] \<and>
      (\<forall>a' m'. (a', m') = (a, m) \<or> message_effective (mu_mail s') a' m' = message_effective (mu_mail s) a' m')"
proof -
  obtain p' tbl d db1 where
    p': "fst (coalesce_pending_assertions a (message_entity m) KSetKeywords (JSetKeywords command)
          (mu_mail s)) = Inr p'"
    and r: "refresh_message_overlay a m ((mu_mail s)\<lparr>db_outbox := tbl @
          [new_row (queued_op ck i a m KSetKeywords p')]\<rparr>) = (Inr d, db1)"
    and e: "echo_assertion ck a m (queued_op ck i a m KSetKeywords p')
          (message_effective (mu_mail s) a m) (s\<lparr>mu_mail := db1\<rparr>) = (Inr events, s')"
    by (rule mutation_run [OF assms(1) [unfolded set_keywords_def] _ assms(2)])
      (simp add: is_state_assertion_def)
  obtain c' where payload: "p' = JSetKeywords c'"
    and c': "set (skc_add command) - set (skc_remove command) \<subseteq> set (skc_add c') - set (skc_remove c')"
      "set (skc_remove command) - set (skc_add command) \<subseteq> set (skc_remove c') - set (skc_add c')"
    using coalesce_keywords [OF p' [unfolded coalesce_pending_assertions_def], of command]
    by (auto simp: keeps_command_def)
  let ?op = "queued_op ck i a m KSetKeywords p'"
  have op: "asserts ?op m (SetKeywords (skc_add c') (skc_remove c'))"
    by (simp add: asserts_def is_replayable_def is_state_assertion_def intent_fold_effect_def
        op_intent_def from_parts_def payload)
  obtain summary where vis: "message_effective db1 a m = Some summary"
    and em: "emit ck a (first_of (mr_mailbox_ids summary)) m
        (PKeywords m (mr_keywords summary) summary) (s\<lparr>mu_mail := db1\<rparr>) = (Inr events, s')"
    using e by (auto simp: echo_assertion_def effective_or_missing_run elim!: and_then_InrE)
  have ops: "list_unsettled_operations a (db_outbox ((mu_mail s)\<lparr>db_outbox := tbl @ [new_row ?op]\<rparr>)) =
      list_unsettled_operations a tbl @ [?op]" by (simp add: unsettled_snoc)
  obtain st st' where "apply_message_assertion st (SetKeywords (skc_add c') (skc_remove c')) = Present st'"
      "mr_keywords summary = bt_collect (set (fs_keywords st'))"
    using refresh_last_assertion [OF r ops op vis] by blast
  then have "set (mr_keywords summary) = (set (fs_keywords st) \<union> set (skc_add c')) - set (skc_remove c')"
    by (auto simp: Let_def)
  moreover have "message_effective db1 a' m' = message_effective (mu_mail s) a' m'" if "(a', m') \<noteq> (a, m)" for a' m'
    by (rule refresh_others [OF r that])
  ultimately show ?thesis using vis emit_run [OF em] c' by auto
qed

text \<open>
  A keyword change shows at once: when the command succeeds, the row everyone reads has every
  keyword it adds and none it removes (a keyword in both lists counts as removed), although older
  pending changes of the row have been merged into the queued one; the echo carries that row and no
  other row has changed.
\<close>

lemma keyword_change_takes_effect:
  assumes "set_keywords ck i a m command s = (Inr events, s')"
    and "i \<notin> row_id ` set (db_outbox (mu_mail s))"
  shows "\<exists>summary. message_effective (mu_mail s') a m = Some summary \<and>
      set (skc_add command) - set (skc_remove command) \<subseteq> set (mr_keywords summary) \<and>
      (set (skc_remove command) - set (skc_add command)) \<inter> set (mr_keywords summary) = {} \<and>
      map ev_payload events = [PKeywords m (mr_keywords summary) summary] \<and>
      (\<forall>a' m'. (a', m') = (a, m) \<or> message_effective (mu_mail s') a' m' = message_effective (mu_mail s) a' m')"
  using keywords_shown [OF assms] .

text \<open>
  Destroying a message twice cancels the destroy. While the first destroy is pending the row is
  invisible; the second command supersedes (removes) the pending one, then fails because it finds no
  row, and retracts its own operation: the error is reported, the row stays hidden, and no destroy
  of it is left to send.
\<close>

lemma second_destroy_cancels_the_first:
  assumes "message_effective (mu_mail s) a m = None"
    and "i \<notin> row_id ` set (db_outbox (mu_mail s))"
    and "pending \<in> set (list_pending_operations a (db_outbox (mu_mail s)))"
    and "op_entity pending = message_entity m" and "op_kind pending = KDestroy"
    and "op_state pending = Pending"
  shows "\<exists>s'. destroy_message ck i a m s = (Inl (message_not_found m), s') \<and>
    message_effective (mu_mail s') a m = None \<and>
    get_operation (db_outbox (mu_mail s')) (op_id pending) = None \<and>
    \<not> list_ex (\<lambda>op. op_entity op = message_entity m \<and> op_kind op = KDestroy \<and> op_state op = Pending)
        (list_pending_operations a (db_outbox (mu_mail s')))"
proof -
  let ?db = "mu_mail s"
  let ?q = "queue_operation_with_id ck i a (message_entity m) KDestroy JOther None None ?db"
  obtain db1 where c: "coalesce_pending_assertions a (message_entity m) KDestroy JOther ?db = (Inr JOther, db1)"
    using coalesce_destroy unfolding coalesce_pending_assertions_def by blast
  have "fst ?q \<noteq> Inl e" for e
    by (auto simp: queue_operation_with_id_def is_state_assertion_def c enqueue_total
        split: prod.splits sum.splits)
  then have "\<exists>op db'. ?q = (Inr op, db')" by (metis obj_sumE prod.collapse)
  then obtain op db' where q: "?q = (Inr op, db')" by blast
  obtain tbl where op: "\<exists>p'. op = queued_op ck i a m KDestroy p'"
    and db': "db' = ?db\<lparr>db_outbox := tbl @ [new_row op]\<rparr>"
    and tbl: "tbl = filter (\<lambda>r. row_id r \<notin> op_id ` set (filter (supersedes KDestroy (message_entity m))
              (list_pending_operations a (db_outbox ?db)))) (db_outbox ?db)"
    by (rule queue_assertion [OF q _ assms(2)]) (auto simp: is_state_assertion_def)
  have i: "i \<notin> row_id ` set tbl" using assms(2) tbl by auto
  have rm: "remove_operation i (tbl @ [new_row op]) = tbl"
    using op i by (auto simp: remove_operation_def new_row_def row_id_def queued_op_def intro: filter_True)
  let ?s' = "s\<lparr>mu_mail := ?db\<lparr>db_outbox := tbl\<rparr>\<rparr>"
  have "destroy_message ck i a m s = (Inl (message_not_found m), ?s')"
    using op rm assms(1)
    by (auto simp: destroy_message_def queue_then_emit_message_operation_def queue_message_operation_def
        on_mail_def q db' apply_assertion_to_overlay_def is_state_assertion_def Let_def
        remove_operation_after_local_failure_def)
  moreover have "get_operation tbl (op_id pending) = None"
  proof -
    have "pending \<in> set (filter (supersedes KDestroy (message_entity m)) (list_pending_operations a (db_outbox ?db)))"
      using assms(3-6) by (simp add: supersedes_def is_state_assertion_def)
    then have "op_id pending \<in> op_id ` set (filter (supersedes KDestroy (message_entity m))
        (list_pending_operations a (db_outbox ?db)))" by (rule imageI)
    then show ?thesis unfolding get_operation_None_iff tbl by force
  qed
  moreover have "\<not> list_ex (\<lambda>op. op_entity op = message_entity m \<and> op_kind op = KDestroy \<and> op_state op = Pending)
        (list_pending_operations a tbl)"
    by (auto simp: list_ex_iff list_pending_operations_def ops_where_def tbl supersedes_def
        is_state_assertion_def row_id_def)
  ultimately show ?thesis using assms(1) by auto
qed

subsection \<open>Concrete inputs\<close>

declare L_simps [simp del]

definition example_mut :: "Operation list \<Rightarrow> ((str \<times> str) \<times> OverlayRow) list \<Rightarrow> MutDb" where
  "example_mut ops overlay =
     \<lparr>mu_mail = example_db ops overlay, mu_snoozes = [((L ''a'', L ''m1''), 5)]\<rparr>"

lemma example_replace_runs:
  "\<not> isl (fst (replace_mailboxes queue_clock (L ''i'') (L ''a'') (L ''m1'')
     \<lparr>rmc_mailbox_ids = [L ''x'', L ''b'']\<rparr> (example_mut [] [])))"
  by code_simp

lemma example_keywords_run:
  "\<not> isl (fst (set_keywords queue_clock (L ''i'') (L ''a'') (L ''m1'')
     \<lparr>skc_add = [L ''f''], skc_remove = [L ''s'']\<rparr> (example_mut [] [])))"
  by code_simp

theorem mailbox_replace_takes_effect_witness:
  "\<exists>s' summary. s' = snd (replace_mailboxes queue_clock (L ''i'') (L ''a'') (L ''m1'')
        \<lparr>rmc_mailbox_ids = [L ''x'', L ''b'']\<rparr> (example_mut [] [])) \<and>
     message_effective (mu_mail s') (L ''a'') (L ''m1'') = Some summary \<and>
     mr_mailbox_ids summary = bt_collect {L ''x'', L ''b''} \<and>
     map_of (mu_snoozes s') (L ''a'', L ''m1'') = None"
proof -
  obtain events s' where r: "replace_mailboxes queue_clock (L ''i'') (L ''a'') (L ''m1'')
      \<lparr>rmc_mailbox_ids = [L ''x'', L ''b'']\<rparr> (example_mut [] []) = (Inr events, s')"
    using example_replace_runs by (metis isl_def prod.collapse sum.exhaust)
  have "L ''i'' \<notin> row_id ` set (db_outbox (mu_mail (example_mut [] [])))"
    by (simp add: example_mut_def example_db_def)
  from mailbox_replace_takes_effect [OF r this] r show ?thesis by auto
qed

lemma keyword_change_takes_effect_example:
  "\<exists>s' summary. s' = snd (set_keywords queue_clock (L ''i'') (L ''a'') (L ''m1'')
        \<lparr>skc_add = [L ''f''], skc_remove = [L ''s'']\<rparr> (example_mut [] [])) \<and>
     message_effective (mu_mail s') (L ''a'') (L ''m1'') = Some summary \<and>
     L ''f'' \<in> set (mr_keywords summary) \<and> L ''s'' \<notin> set (mr_keywords summary)"
proof -
  obtain events s' where r: "set_keywords queue_clock (L ''i'') (L ''a'') (L ''m1'')
      \<lparr>skc_add = [L ''f''], skc_remove = [L ''s'']\<rparr> (example_mut [] []) = (Inr events, s')"
    using example_keywords_run by (metis isl_def prod.collapse sum.exhaust)
  have "L ''i'' \<notin> row_id ` set (db_outbox (mu_mail (example_mut [] [])))"
    by (simp add: example_mut_def example_db_def)
  from keyword_change_takes_effect [OF r this] r show ?thesis by auto
qed

text \<open>A destroyed message of the base: the tombstone stays, the log is empty.\<close>

lemma second_destroy_cancels_the_first_example:
  "\<exists>s'. destroy_message queue_clock (L ''i'') (L ''a'') (L ''m1'')
       (example_mut [example_destroy] example_tombstone) = (Inl (message_not_found (L ''m1'')), s') \<and>
     message_effective (mu_mail s') (L ''a'') (L ''m1'') = None \<and>
     get_operation (db_outbox (mu_mail s')) (L ''o'') = None"
proof -
  let ?s = "example_mut [example_destroy] example_tombstone"
  have "message_effective (mu_mail ?s) (L ''a'') (L ''m1'') = None"
    by (simp add: example_mut_def example_db_def message_effective_def)
  moreover have "L ''i'' \<notin> row_id ` set (db_outbox (mu_mail ?s))"
    by (simp add: example_mut_def example_db_def new_row_def row_id_def example_op_def)
  moreover have "example_destroy \<in> set (list_pending_operations (L ''a'') (db_outbox (mu_mail ?s)))"
    by (simp add: example_mut_def example_db_def list_pending_operations_def ops_where_def new_row_def example_op_def)
  moreover have "op_entity example_destroy = message_entity (L ''m1'')" "op_kind example_destroy = KDestroy"
      "op_state example_destroy = Pending" "op_id example_destroy = L ''o''"
    by (simp_all add: example_op_def message_entity_def)
  ultimately show ?thesis
    using second_destroy_cancels_the_first [of ?s "L ''a''" "L ''m1''" "L ''i''" example_destroy queue_clock]
    by auto
qed

declare L_simps [simp]

end
