(* ===== verification/UndoLog.thy ===== *)
theory UndoLog
  imports Mutation
begin

text \<open>
  Undo and redo: the reversible-operation log of \<open>crates/posthaste-store/src/rev_log.rs\<close>, the
  mutations that record themselves in it (\<open>apps/client/backend/src/api/mail_mutations.rs\<close>) and the
  undo and redo commands (\<open>apps/client/backend/src/api/rev_log.rs\<close>). The diff of a step is JSON; it
  is the \<open>StepDiff\<close> it decodes to, or \<open>None\<close> when it does not decode. Sequence numbers are natural
  numbers. Publishing the events and nudging the account runtime are left out: a command returns its
  events.
\<close>

subsection \<open>Data\<close>

record FacetDelta =
  fd_added :: "str list"
  fd_removed :: "str list"

record StepDiff =
  sd_keywords :: FacetDelta
  sd_mailboxes :: FacetDelta

definition facet_inverse :: "FacetDelta \<Rightarrow> FacetDelta" where
  "facet_inverse d = \<lparr>fd_added = fd_removed d, fd_removed = fd_added d\<rparr>"

definition facet_is_empty :: "FacetDelta \<Rightarrow> bool" where
  "facet_is_empty d \<longleftrightarrow> fd_added d = [] \<and> fd_removed d = []"

definition step_inverse :: "StepDiff \<Rightarrow> StepDiff" where
  "step_inverse d = \<lparr>sd_keywords = facet_inverse (sd_keywords d),
                     sd_mailboxes = facet_inverse (sd_mailboxes d)\<rparr>"

record RevLogStep =
  rs_step_id :: str
  rs_seq :: nat
  rs_message_id :: str
  rs_source_id :: str
  rs_diff :: "StepDiff option"
  rs_created_at :: str

record RevCursor =
  rc_cursor_step_id :: "str option"
  rc_redo_tail :: "str list"

record RevLogSnapshot =
  sn_steps :: "RevLogStep list"
  sn_cursor :: RevCursor

datatype ApiFailure =
  UnknownId str | CursorConflict str | InternalFailure str | OfService svc_error

text \<open>The backend: the mail tables, the known accounts, the log rows in insertion order, the cursors.\<close>

record App =
  ap_mut :: MutDb
  ap_sources :: "str list"
  ap_rev_log :: "(str \<times> RevLogStep) list"
  ap_rev_cursor :: "str \<Rightarrow> RevCursor option"

subsection \<open>The store\<close>

definition MAX_REV_LOG_HISTORY :: nat where
  "MAX_REV_LOG_HISTORY = 50"

definition steps_of :: "str \<Rightarrow> App \<Rightarrow> RevLogStep list" where
  "steps_of account_id app = map snd (filter (\<lambda>row. fst row = account_id) (ap_rev_log app))"

text \<open>Idempotent on the step id; a new step takes the next number and moves the cursor onto itself.\<close>

definition append_rev_log_step ::
  "str \<Rightarrow> str \<Rightarrow> str \<Rightarrow> str \<Rightarrow> StepDiff option \<Rightarrow> str \<Rightarrow> App \<Rightarrow> nat \<times> App" where
  "append_rev_log_step account_id step_id message_id source_id diff created_at app =
     (case List.find (\<lambda>step. rs_step_id step = step_id) (steps_of account_id app) of
        Some existing \<Rightarrow> (rs_seq existing, app)
      | None \<Rightarrow>
          (let seq = foldr max (map rs_seq (steps_of account_id app)) 0 + 1;
               step = \<lparr>rs_step_id = step_id, rs_seq = seq, rs_message_id = message_id,
                       rs_source_id = source_id, rs_diff = diff, rs_created_at = created_at\<rparr>
           in (seq, app\<lparr>ap_rev_log := ap_rev_log app @ [(account_id, step)],
                        ap_rev_cursor := (ap_rev_cursor app)
                          (account_id \<mapsto> \<lparr>rc_cursor_step_id = Some step_id, rc_redo_tail = []\<rparr>)\<rparr>)))"

definition fetch_rev_log :: "str \<Rightarrow> nat option \<Rightarrow> nat \<Rightarrow> App \<Rightarrow> RevLogStep list" where
  "fetch_rev_log account_id since_seq limit app =
     take limit (sort_key rs_seq
       (filter (\<lambda>step. case since_seq of Some since \<Rightarrow> since < rs_seq step | None \<Rightarrow> True)
          (steps_of account_id app)))"

definition get_rev_cursor :: "str \<Rightarrow> App \<Rightarrow> RevCursor" where
  "get_rev_cursor account_id app = (case ap_rev_cursor app account_id of
     Some cursor \<Rightarrow> cursor | None \<Rightarrow> \<lparr>rc_cursor_step_id = None, rc_redo_tail = []\<rparr>)"

definition set_rev_cursor :: "str \<Rightarrow> str option \<Rightarrow> str list \<Rightarrow> App \<Rightarrow> App" where
  "set_rev_cursor account_id cursor_step_id redo_tail app =
     app\<lparr>ap_rev_cursor := (ap_rev_cursor app)
       (account_id \<mapsto> \<lparr>rc_cursor_step_id = cursor_step_id, rc_redo_tail = redo_tail\<rparr>)\<rparr>"

definition evict_oldest_rev_log :: "str \<Rightarrow> nat \<Rightarrow> App \<Rightarrow> nat \<times> App" where
  "evict_oldest_rev_log account_id max_steps app =
     (let steps = steps_of account_id app in
      if length steps \<le> max_steps then (0, app)
      else let oldest = set (take (length steps - max_steps) (sort (map rs_seq steps)));
               doomed = (\<lambda>(a, step). a = account_id \<and> rs_seq step \<in> oldest)
           in (length (filter doomed (ap_rev_log app)),
               app\<lparr>ap_rev_log := filter (\<lambda>row. \<not> doomed row) (ap_rev_log app)\<rparr>))"

definition rev_log_snapshot :: "str \<Rightarrow> App \<Rightarrow> RevLogSnapshot" where
  "rev_log_snapshot account_id app =
     \<lparr>sn_steps = fetch_rev_log account_id None MAX_REV_LOG_HISTORY app,
      sn_cursor = get_rev_cursor account_id app\<rparr>"

subsection \<open>Recording mutations\<close>

definition on_mut ::
  "(MutDb \<Rightarrow> (svc_error, 'a) result \<times> MutDb) \<Rightarrow> App \<Rightarrow> (ApiFailure, 'a) result \<times> App" where
  "on_mut f app = (case f (ap_mut app) of
     (Inl e, s) \<Rightarrow> (Inl (OfService e), app\<lparr>ap_mut := s\<rparr>) | (Inr x, s) \<Rightarrow> (Inr x, app\<lparr>ap_mut := s\<rparr>))"

definition effective_state :: "str \<Rightarrow> str \<Rightarrow> App \<Rightarrow> (str list \<times> str list) option" where
  "effective_state account_id message_id app =
     map_option (\<lambda>summary. (mr_keywords summary, mr_mailbox_ids summary))
       (message_effective (mu_mail (ap_mut app)) account_id message_id)"

text \<open>An empty delta records nothing; appending is best effort, its sequence number is dropped.\<close>

definition record_step :: "Clock \<Rightarrow> str \<Rightarrow> str \<Rightarrow> str \<Rightarrow> StepDiff \<Rightarrow> bool \<Rightarrow> App \<Rightarrow> App" where
  "record_step clock step_id account_id message_id diff is_empty app =
     (if is_empty then app
      else snd (append_rev_log_step account_id step_id message_id account_id (Some diff)
                  (ck_now clock) app))"

definition no_facet :: FacetDelta where
  "no_facet = \<lparr>fd_added = [], fd_removed = []\<rparr>"

definition api_set_keywords ::
  "Clock \<Rightarrow> str \<Rightarrow> str \<Rightarrow> str \<Rightarrow> str \<Rightarrow> SetKeywordsCommand \<Rightarrow> bool option \<Rightarrow> App \<Rightarrow>
   (ApiFailure, DomainEvent list) result \<times> App" where
  "api_set_keywords clock operation_id step_id account_id message_id change record_undo app =
     (let before = (if (case record_undo of Some b \<Rightarrow> b | None \<Rightarrow> True)
                    then effective_state account_id message_id app else None)
      in and_then (on_mut (set_keywords clock operation_id account_id message_id change) app)
           (\<lambda>events app. (Inr events, case before of
              None \<Rightarrow> app
            | Some (current, _) \<Rightarrow>
                (let added = filter (\<lambda>k. k \<notin> set current) (skc_add change);
                     removed = filter (\<lambda>k. k \<in> set current) (skc_remove change)
                 in record_step clock step_id account_id message_id
                      \<lparr>sd_keywords = \<lparr>fd_added = added, fd_removed = removed\<rparr>,
                       sd_mailboxes = no_facet\<rparr> (added = [] \<and> removed = []) app))))"

definition api_replace_mailboxes ::
  "Clock \<Rightarrow> str \<Rightarrow> str \<Rightarrow> str \<Rightarrow> str \<Rightarrow> ReplaceMailboxesCommand \<Rightarrow> App \<Rightarrow>
   (ApiFailure, DomainEvent list) result \<times> App" where
  "api_replace_mailboxes clock operation_id step_id account_id message_id change app =
     (let before = effective_state account_id message_id app
      in and_then (on_mut (replace_mailboxes clock operation_id account_id message_id change) app)
           (\<lambda>events app. (Inr events, case before of
              None \<Rightarrow> app
            | Some (_, current) \<Rightarrow>
                (let target = rmc_mailbox_ids change;
                     added = bt_collect (set target - set current);
                     removed = bt_collect (set current - set target)
                 in record_step clock step_id account_id message_id
                      \<lparr>sd_keywords = no_facet,
                       sd_mailboxes = \<lparr>fd_added = added, fd_removed = removed\<rparr>\<rparr>
                      (added = [] \<and> removed = []) app))))"

definition api_destroy ::
  "Clock \<Rightarrow> str \<Rightarrow> str \<Rightarrow> str \<Rightarrow> App \<Rightarrow> (ApiFailure, DomainEvent list) result \<times> App" where
  "api_destroy clock operation_id account_id message_id =
     on_mut (destroy_message clock operation_id account_id message_id)"

subsection \<open>Undo and redo\<close>

text \<open>The membership a diff asks for, over the current one.\<close>

definition push_missing :: "str list \<Rightarrow> str list \<Rightarrow> str list" where
  "push_missing added target = fold (\<lambda>i target. if i \<in> set target then target else target @ [i]) added target"

definition target_mailboxes :: "FacetDelta \<Rightarrow> str list \<Rightarrow> str list" where
  "target_mailboxes d current = push_missing (fd_added d) (filter (\<lambda>i. i \<notin> set (fd_removed d)) current)"

definition apply_diff ::
  "Clock \<Rightarrow> str \<times> str \<Rightarrow> str \<Rightarrow> RevLogStep \<Rightarrow> StepDiff \<Rightarrow> App \<Rightarrow>
   (ApiFailure, DomainEvent list) result \<times> App" where
  "apply_diff clock fresh account_id step diff app =
     (let message_id = rs_message_id step in
      and_then
        (if facet_is_empty (sd_keywords diff) then (Inr [], app)
         else on_mut (set_keywords clock (fst fresh) account_id message_id
                \<lparr>skc_add = fd_added (sd_keywords diff), skc_remove = fd_removed (sd_keywords diff)\<rparr>) app)
        (\<lambda>events app.
           if facet_is_empty (sd_mailboxes diff) then (Inr events, app)
           else case message_effective (mu_mail (ap_mut app)) account_id message_id of
             None \<Rightarrow> (Inl (UnknownId (L ''message '' @ message_id)), app)
           | Some summary \<Rightarrow>
               and_then (on_mut (replace_mailboxes clock (snd fresh) account_id message_id
                           \<lparr>rmc_mailbox_ids = target_mailboxes (sd_mailboxes diff) (mr_mailbox_ids summary)\<rparr>) app)
                 (\<lambda>more app. (Inr (events @ more), app))))"

definition read_snapshot :: "str \<Rightarrow> App \<Rightarrow> (ApiFailure, RevLogSnapshot) result" where
  "read_snapshot account_id app =
     (if account_id \<in> set (ap_sources app) then Inr (rev_log_snapshot account_id app)
      else Inl (UnknownId (L ''account '' @ account_id)))"

definition find_step :: "RevLogSnapshot \<Rightarrow> str \<Rightarrow> (ApiFailure, RevLogStep) result" where
  "find_step snapshot step_id = (case List.find (\<lambda>step. rs_step_id step = step_id) (sn_steps snapshot) of
     Some step \<Rightarrow> Inr step
   | None \<Rightarrow> Inl (InternalFailure (L ''rev-log cursor references missing step '' @ step_id)))"

definition decode_diff :: "RevLogStep \<Rightarrow> (ApiFailure, StepDiff) result" where
  "decode_diff step = (case rs_diff step of
     Some diff \<Rightarrow> Inr diff
   | None \<Rightarrow> Inl (InternalFailure (L ''rev-log step '' @ rs_step_id step @ L '' holds an undecodable diff'')))"

text \<open>The topmost step below \<open>step\<close>, the last of several maxima.\<close>

definition predecessor :: "RevLogSnapshot \<Rightarrow> RevLogStep \<Rightarrow> str option" where
  "predecessor snapshot step =
     (case sort_key rs_seq (filter (\<lambda>candidate. rs_seq candidate < rs_seq step) (sn_steps snapshot)) of
        [] \<Rightarrow> None | below \<Rightarrow> Some (rs_step_id (last below)))"

definition undo ::
  "Clock \<Rightarrow> str \<times> str \<Rightarrow> str \<Rightarrow> App \<Rightarrow> (ApiFailure, DomainEvent list) result \<times> App" where
  "undo clock fresh account_id app = (case read_snapshot account_id app of
     Inl e \<Rightarrow> (Inl e, app)
   | Inr snapshot \<Rightarrow> (case rc_cursor_step_id (sn_cursor snapshot) of
       None \<Rightarrow> (Inl (CursorConflict (L ''nothing to undo'')), app)
     | Some cursor_step_id \<Rightarrow> (case find_step snapshot cursor_step_id of
         Inl e \<Rightarrow> (Inl e, app)
       | Inr step \<Rightarrow> (case decode_diff step of
           Inl e \<Rightarrow> (Inl e, app)
         | Inr diff \<Rightarrow> and_then (apply_diff clock fresh account_id step (step_inverse diff) app)
             (\<lambda>events app. (Inr events,
                set_rev_cursor account_id (predecessor snapshot step)
                  (cursor_step_id # rc_redo_tail (sn_cursor snapshot)) app))))))"

definition redo ::
  "Clock \<Rightarrow> str \<times> str \<Rightarrow> str \<Rightarrow> App \<Rightarrow> (ApiFailure, DomainEvent list) result \<times> App" where
  "redo clock fresh account_id app = (case read_snapshot account_id app of
     Inl e \<Rightarrow> (Inl e, app)
   | Inr snapshot \<Rightarrow> (case rc_redo_tail (sn_cursor snapshot) of
       [] \<Rightarrow> (Inl (CursorConflict (L ''nothing to redo'')), app)
     | next_step_id # rest \<Rightarrow> (case find_step snapshot next_step_id of
         Inl e \<Rightarrow> (Inl e, app)
       | Inr step \<Rightarrow> (case decode_diff step of
           Inl e \<Rightarrow> (Inl e, app)
         | Inr diff \<Rightarrow> and_then (apply_diff clock fresh account_id step diff app)
             (\<lambda>events app. (Inr events,
                set_rev_cursor account_id (Some next_step_id) rest app))))))"

subsection \<open>The history as a zipper\<close>

text \<open>
  The abstract undo history: the applied steps and the undone ones, oldest first. The store holds it
  when its log is the two lists in sequence order, within the bound of a snapshot, and the cursor
  stands between them.
\<close>

definition zipper :: "str \<Rightarrow> App \<Rightarrow> RevLogStep list \<Rightarrow> RevLogStep list \<Rightarrow> bool" where
  "zipper a app applied undone \<longleftrightarrow>
     steps_of a app = applied @ undone \<and> length (applied @ undone) \<le> MAX_REV_LOG_HISTORY \<and>
     sorted_wrt (<) (map rs_seq (applied @ undone)) \<and> distinct (map rs_step_id (applied @ undone)) \<and>
     get_rev_cursor a app =
       \<lparr>rc_cursor_step_id = (if applied = [] then None else Some (rs_step_id (last applied))),
        rc_redo_tail = map rs_step_id undone\<rparr>"

lemma on_mut_frame: "on_mut f app = (r, app') \<Longrightarrow> app' = app\<lparr>ap_mut := ap_mut app'\<rparr>"
  by (auto simp: on_mut_def split: prod.splits sum.splits)

lemma apply_diff_frame:
  assumes "apply_diff ck fresh a step diff app = (r, app')"
  shows "app' = app\<lparr>ap_mut := ap_mut app'\<rparr>"
proof -
  have K: "app2 = app\<lparr>ap_mut := ap_mut app2\<rparr>" if "on_mut f app = (r, app1)" "on_mut g app1 = (q, app2)" for f g r q app1 app2
    using on_mut_frame [OF that(1)] on_mut_frame [OF that(2)] by (metis App.fold_congs(1) App.surjective App.update_convs(1))
  show ?thesis
    using assms K
    by (auto simp: apply_diff_def Let_def and_then_def dest: on_mut_frame
        split: prod.splits sum.splits option.splits if_splits)
qed

lemma apply_diff_log:
  assumes "apply_diff ck fresh a step diff app = (r, app')"
  shows "steps_of b app' = steps_of b app" "get_rev_cursor b app' = get_rev_cursor b app"
    "ap_sources app' = ap_sources app"
  by (subst apply_diff_frame [OF assms], simp add: steps_of_def get_rev_cursor_def)+

lemma set_cursor_log [simp]:
  "steps_of b (set_rev_cursor a c t app) = steps_of b app"
  "ap_mut (set_rev_cursor a c t app) = ap_mut app" "ap_sources (set_rev_cursor a c t app) = ap_sources app"
  "get_rev_cursor a (set_rev_cursor a c t app) = \<lparr>rc_cursor_step_id = c, rc_redo_tail = t\<rparr>"
  by (simp_all add: set_rev_cursor_def steps_of_def get_rev_cursor_def)

lemma sorted_lt_le: "sorted_wrt (<) (ns :: nat list) \<Longrightarrow> sorted ns"
  by (rule sorted_wrt_mono_rel [of _ "(<)"]) auto

lemma zipper_snapshot:
  assumes "zipper a app applied undone"
  shows "sn_steps (rev_log_snapshot a app) = applied @ undone"
proof -
  have "sorted (map rs_seq (applied @ undone))" using assms sorted_lt_le by (simp add: zipper_def)
  then show ?thesis
    using assms by (auto simp: zipper_def rev_log_snapshot_def fetch_rev_log_def sort_key_id_if_sorted)
qed

lemma find_by_id:
  "distinct (map rs_step_id (xs @ x # ys)) \<Longrightarrow>
   List.find (\<lambda>s. rs_step_id s = rs_step_id x) (xs @ x # ys) = Some x"
  by (induction xs) auto

lemma find_step_snapshot:
  assumes "zipper a app applied undone" "applied @ undone = xs @ x # ys"
  shows "find_step (rev_log_snapshot a app) (rs_step_id x) = Inr x"
  using assms find_by_id [of xs x ys] by (simp add: find_step_def zipper_snapshot) (simp add: zipper_def)

lemma predecessor_snapshot:
  assumes "zipper a app (xs @ [x]) undone"
  shows "predecessor (rev_log_snapshot a app) x = (if xs = [] then None else Some (rs_step_id (last xs)))"
proof -
  have "sorted_wrt (<) (map rs_seq xs @ rs_seq x # map rs_seq undone)" using assms by (simp add: zipper_def)
  then have "filter (\<lambda>s. rs_seq s < rs_seq x) (xs @ x # undone) = xs" "sorted (map rs_seq xs)"
    by (auto simp: sorted_wrt_append filter_empty_conv intro!: filter_True sorted_lt_le)
  then show ?thesis
    using zipper_snapshot [OF assms] by (auto simp: predecessor_def sort_key_id_if_sorted split: list.split)
qed

lemma undo_run:
  assumes z: "zipper a app applied undone" and run: "undo ck fresh a app = (Inr events, app')"
  shows "\<exists>xs x d app1. applied = xs @ [x] \<and> rs_diff x = Some d \<and>
    apply_diff ck fresh a x (step_inverse d) app = (Inr events, app1) \<and>
    app' = set_rev_cursor a (if xs = [] then None else Some (rs_step_id (last xs)))
             (map rs_step_id (x # undone)) app1"
proof -
  have cursor: "sn_cursor (rev_log_snapshot a app) =
       \<lparr>rc_cursor_step_id = (if applied = [] then None else Some (rs_step_id (last applied))),
        rc_redo_tail = map rs_step_id undone\<rparr>"
    using z by (simp add: rev_log_snapshot_def zipper_def)
  have "applied \<noteq> []"
    using run cursor by (auto simp: undo_def read_snapshot_def split: if_splits)
  then obtain xs x where applied: "applied = xs @ [x]" by (metis append_butlast_last_id)
  have f: "find_step (rev_log_snapshot a app) (rs_step_id x) = Inr x"
    by (rule find_step_snapshot [OF z]) (simp add: applied)
  have p: "predecessor (rev_log_snapshot a app) x = (if xs = [] then None else Some (rs_step_id (last xs)))"
    using predecessor_snapshot z applied by blast
  obtain d app1 where "rs_diff x = Some d" "apply_diff ck fresh a x (step_inverse d) app = (Inr events, app1)"
      "app' = set_rev_cursor a (predecessor (rev_log_snapshot a app) x) (rs_step_id x # map rs_step_id undone) app1"
    using run cursor f
    by (auto simp: undo_def read_snapshot_def applied decode_diff_def and_then_def
        split: if_splits option.splits sum.splits prod.splits)
  then show ?thesis using applied p by auto
qed

lemma redo_run:
  assumes z: "zipper a app applied undone" and run: "redo ck fresh a app = (Inr events, app')"
  shows "\<exists>x ys d app1. undone = x # ys \<and> rs_diff x = Some d \<and>
    apply_diff ck fresh a x d app = (Inr events, app1) \<and>
    app' = set_rev_cursor a (Some (rs_step_id x)) (map rs_step_id ys) app1"
proof -
  have cursor: "rc_redo_tail (sn_cursor (rev_log_snapshot a app)) = map rs_step_id undone"
    using z by (simp add: rev_log_snapshot_def zipper_def)
  have "undone \<noteq> []"
    using run cursor by (auto simp: redo_def read_snapshot_def split: if_splits)
  then obtain x ys where undone: "undone = x # ys" by (cases undone) auto
  have f: "find_step (rev_log_snapshot a app) (rs_step_id x) = Inr x"
    by (rule find_step_snapshot [OF z, of applied]) (simp add: undone)
  obtain d app1 where "rs_diff x = Some d" "apply_diff ck fresh a x d app = (Inr events, app1)"
      "app' = set_rev_cursor a (Some (rs_step_id x)) (map rs_step_id ys) app1"
    using run cursor f
    by (auto simp: redo_def read_snapshot_def undone decode_diff_def and_then_def
        split: if_splits option.splits sum.splits prod.splits)
  then show ?thesis using undone by auto
qed

lemma zipper_move:
  assumes "zipper a app applied undone" "applied @ undone = applied' @ undone'"
    "apply_diff ck fresh a step diff app = (r, app1)"
  shows "zipper a (set_rev_cursor a (if applied' = [] then None else Some (rs_step_id (last applied')))
     (map rs_step_id undone') app1) applied' undone'"
  using assms(1,2) apply_diff_log(1) [OF assms(3), of a] unfolding zipper_def by (simp del: append_assoc)

text \<open>
  C27. Undo and redo walk one history. Within the fifty steps of a snapshot, an undo that succeeds
  applies the inverse of the last applied step's diff to that step's message and makes it the first
  undone one; a redo that succeeds applies the diff of the first undone step and makes it the last
  applied one; nothing else of the history changes.
\<close>

theorem undo_redo_walk_the_history:
  assumes "zipper a app applied undone"
  shows "(undo ck fresh a app = (Inr events, app') \<longrightarrow>
      (\<exists>xs x d app1. applied = xs @ [x] \<and> rs_diff x = Some d \<and> zipper a app' xs (x # undone) \<and>
         apply_diff ck fresh a x (step_inverse d) app = (Inr events, app1) \<and> ap_mut app' = ap_mut app1)) \<and>
    (redo ck fresh a app = (Inr events, app') \<longrightarrow>
      (\<exists>x ys d app1. undone = x # ys \<and> rs_diff x = Some d \<and> zipper a app' (applied @ [x]) ys \<and>
         apply_diff ck fresh a x d app = (Inr events, app1) \<and> ap_mut app' = ap_mut app1))"
proof (intro conjI impI)
  assume "undo ck fresh a app = (Inr events, app')"
  then obtain xs x d app1 where u: "applied = xs @ [x]" "rs_diff x = Some d"
      "apply_diff ck fresh a x (step_inverse d) app = (Inr events, app1)"
      "app' = set_rev_cursor a (if xs = [] then None else Some (rs_step_id (last xs))) (map rs_step_id (x # undone)) app1"
    using undo_run [OF assms] by blast
  moreover have "zipper a app' xs (x # undone)"
    unfolding u(4) by (rule zipper_move [OF assms _ u(3)]) (simp add: u(1))
  ultimately show "\<exists>xs x d app1. applied = xs @ [x] \<and> rs_diff x = Some d \<and> zipper a app' xs (x # undone) \<and>
      apply_diff ck fresh a x (step_inverse d) app = (Inr events, app1) \<and> ap_mut app' = ap_mut app1"
    by auto
next
  assume "redo ck fresh a app = (Inr events, app')"
  then obtain x ys d app1 where u: "undone = x # ys" "rs_diff x = Some d"
      "apply_diff ck fresh a x d app = (Inr events, app1)"
      "app' = set_rev_cursor a (Some (rs_step_id x)) (map rs_step_id ys) app1"
    using redo_run [OF assms] by blast
  moreover have "zipper a app' (applied @ [x]) ys"
    using zipper_move [OF assms _ u(3), of "applied @ [x]" ys] u by simp
  ultimately show "\<exists>x ys d app1. undone = x # ys \<and> rs_diff x = Some d \<and> zipper a app' (applied @ [x]) ys \<and>
      apply_diff ck fresh a x d app = (Inr events, app1) \<and> ap_mut app' = ap_mut app1"
    by auto
qed

subsection \<open>Forward actions\<close>

lemma steps_append:
  "steps_of a (app\<lparr>ap_rev_log := ap_rev_log app @ [(b, step)], ap_rev_cursor := c\<rparr>) =
     (if b = a then steps_of a app @ [step] else steps_of a app)"
  by (simp add: steps_of_def)

lemma foldr_max: "(x :: nat) \<in> set xs \<Longrightarrow> x \<le> foldr max xs 0"
  by (induction xs) auto

definition new_step :: "str \<Rightarrow> str \<Rightarrow> str \<Rightarrow> StepDiff option \<Rightarrow> str \<Rightarrow> RevLogStep list \<Rightarrow> RevLogStep" where
  "new_step n m src diff at steps =
     \<lparr>rs_step_id = n, rs_seq = foldr max (map rs_seq steps) 0 + 1, rs_message_id = m,
      rs_source_id = src, rs_diff = diff, rs_created_at = at\<rparr>"

lemma append_new:
  assumes "n \<notin> rs_step_id ` set (steps_of a app)"
  shows "append_rev_log_step a n m src diff at app =
    (rs_seq (new_step n m src diff at (steps_of a app)),
     app\<lparr>ap_rev_log := ap_rev_log app @ [(a, new_step n m src diff at (steps_of a app))],
         ap_rev_cursor := (ap_rev_cursor app)(a \<mapsto> \<lparr>rc_cursor_step_id = Some n, rc_redo_tail = []\<rparr>)\<rparr>)"
proof -
  have "List.find (\<lambda>step. rs_step_id step = n) (steps_of a app) = None"
    using assms by (auto simp: find_None_iff)
  then show ?thesis by (simp add: append_rev_log_step_def new_step_def Let_def)
qed

lemma zipper_append:
  assumes "zipper a app applied undone" "n \<notin> rs_step_id ` set (applied @ undone)"
    "length (applied @ undone) < MAX_REV_LOG_HISTORY"
  shows "zipper a (snd (append_rev_log_step a n m src diff at app))
    (applied @ undone @ [new_step n m src diff at (applied @ undone)]) []"
proof -
  have steps: "steps_of a app = applied @ undone" using assms(1) by (simp add: zipper_def)
  have "rs_seq s < rs_seq (new_step n m src diff at (applied @ undone))" if "s \<in> set (applied @ undone)" for s
    using foldr_max [of "rs_seq s" "map rs_seq (applied @ undone)"] that
    by (simp add: new_step_def image_iff) fastforce
  then show ?thesis
    using assms append_new [of n a app m src diff at] steps
    by (auto simp: zipper_def steps_append sorted_wrt_append get_rev_cursor_def)
      (auto simp: new_step_def)
qed

text \<open>
  A forward action is pushed on the history and clears the redo tail, but it does not drop the
  undone steps: they stay in the log below it and count as applied again. So the undo after the next
  one reverts a step that was already undone.
\<close>

lemma forward_action_revives_undone_steps:
  assumes "zipper a app applied undone" "n \<notin> rs_step_id ` set (applied @ undone)"
    "length (applied @ undone) < MAX_REV_LOG_HISTORY"
    "undo ck fresh a (snd (append_rev_log_step a n m src diff at app)) = (Inr events, app')"
  shows "\<exists>new. rs_step_id new = n \<and> rs_message_id new = m \<and> rs_diff new = diff \<and>
    zipper a (snd (append_rev_log_step a n m src diff at app)) (applied @ undone @ [new]) [] \<and>
    zipper a app' (applied @ undone) [new]"
proof -
  let ?new = "new_step n m src diff at (applied @ undone)"
  let ?app1 = "snd (append_rev_log_step a n m src diff at app)"
  have z: "zipper a ?app1 (applied @ undone @ [?new]) []" by (rule zipper_append [OF assms(1-3)])
  obtain xs x d app1 where u: "applied @ undone @ [?new] = xs @ [x]"
      "apply_diff ck fresh a x (step_inverse d) ?app1 = (Inr events, app1)"
      "app' = set_rev_cursor a (if xs = [] then None else Some (rs_step_id (last xs))) (map rs_step_id [x]) app1"
    using undo_run [OF z assms(4)] by auto
  have "x = ?new" "xs = applied @ undone" using u(1) by (metis append_assoc append1_eq_conv)+
  moreover have "zipper a app' xs [x]"
    unfolding u(3) by (rule zipper_move [OF z _ u(2)]) (simp add: u(1))
  ultimately have "zipper a app' (applied @ undone) [?new]" by simp
  then show ?thesis using z by (intro exI [of _ ?new]) (simp add: new_step_def)
qed

text \<open>
  Undo stops working after fifty recorded actions. A snapshot holds the fifty oldest steps and
  nothing evicts them, so once the log is longer the cursor of the last action is outside it: undo
  answers with an internal error and does nothing, now and after every further action.
\<close>

lemma undo_dies_after_fifty_actions:
  assumes "steps_of a app = older @ [step]" "MAX_REV_LOG_HISTORY \<le> length older"
    "sorted_wrt (<) (map rs_seq (older @ [step]))" "distinct (map rs_step_id (older @ [step]))"
    "rc_cursor_step_id (get_rev_cursor a app) = Some (rs_step_id step)" "a \<in> set (ap_sources app)"
  shows "undo ck fresh a app =
    (Inl (InternalFailure (L ''rev-log cursor references missing step '' @ rs_step_id step)), app)"
proof -
  have "sorted (map rs_seq (older @ [step]))" using assms(3) by (rule sorted_lt_le)
  then have "sn_steps (rev_log_snapshot a app) = take MAX_REV_LOG_HISTORY older"
    using assms(1,2) by (simp add: rev_log_snapshot_def fetch_rev_log_def sort_key_id_if_sorted)
  moreover have "List.find (\<lambda>s. rs_step_id s = rs_step_id step) (take MAX_REV_LOG_HISTORY older) = None"
    using assms(4) by (auto simp: find_None_iff image_iff dest!: in_set_takeD)
  moreover have "rc_cursor_step_id (sn_cursor (rev_log_snapshot a app)) = Some (rs_step_id step)"
    using assms(5) by (simp add: rev_log_snapshot_def)
  ultimately show ?thesis
    using assms(6) by (simp add: undo_def read_snapshot_def find_step_def)
qed

subsection \<open>Undo restores the message\<close>

lemma set_push_missing: "set (push_missing added target) = set added \<union> set target"
  by (induction added arbitrary: target) (auto simp: push_missing_def)

lemma set_target_mailboxes:
  "set (target_mailboxes d current) = (set current - set (fd_removed d)) \<union> set (fd_added d)"
  by (auto simp: target_mailboxes_def set_push_missing)

lemma record_step_mut: "ap_mut (record_step ck n a m diff e app) = ap_mut app"
  by (simp add: record_step_def append_rev_log_step_def Let_def split: option.split)

lemma record_step_zipper:
  assumes "zipper a app applied undone" "n \<notin> rs_step_id ` set (applied @ undone)"
    "length (applied @ undone) < MAX_REV_LOG_HISTORY"
  shows "\<exists>new. rs_message_id new = m \<and> rs_diff new = Some diff \<and>
    zipper a (record_step ck n a m diff False app) (applied @ undone @ [new]) []"
  using zipper_append [OF assms, of m a "Some diff" "ck_now ck"]
  by (intro exI [of _ "new_step n m a (Some diff) (ck_now ck) (applied @ undone)"])
    (simp add: record_step_def new_step_def)

lemma zipper_mut: "zipper a (app\<lparr>ap_mut := s\<rparr>) applied undone \<longleftrightarrow> zipper a app applied undone"
  by (simp add: zipper_def steps_of_def get_rev_cursor_def)

lemma on_mut_run:
  "on_mut f app = (Inr x, app') \<longleftrightarrow> (\<exists>s. f (ap_mut app) = (Inr x, s) \<and> app' = app\<lparr>ap_mut := s\<rparr>)"
  by (auto simp: on_mut_def split: prod.splits sum.splits)

abbreviation effective :: "App \<Rightarrow> str \<Rightarrow> str \<Rightarrow> MessageRecord option" where
  "effective app a m \<equiv> message_effective (mu_mail (ap_mut app)) a m"

abbreviation log_ids :: "App \<Rightarrow> str set" where
  "log_ids app \<equiv> row_id ` set (db_outbox (mu_mail (ap_mut app)))"

lemma apply_diff_mailboxes:
  assumes "apply_diff ck fresh a step diff app = (Inr events, app')" "rs_message_id step = m"
    "facet_is_empty (sd_keywords diff)" "\<not> facet_is_empty (sd_mailboxes diff)" "effective app a m = Some r"
  shows "replace_mailboxes ck (snd fresh) a m
      \<lparr>rmc_mailbox_ids = target_mailboxes (sd_mailboxes diff) (mr_mailbox_ids r)\<rparr> (ap_mut app) =
    (Inr events, ap_mut app')"
  using assms by (auto simp: apply_diff_def Let_def on_mut_run elim!: and_then_InrE)

lemma apply_diff_keywords:
  assumes "apply_diff ck fresh a step diff app = (Inr events, app')" "rs_message_id step = m"
    "\<not> facet_is_empty (sd_keywords diff)" "facet_is_empty (sd_mailboxes diff)"
  shows "set_keywords ck (fst fresh) a m
      \<lparr>skc_add = fd_added (sd_keywords diff), skc_remove = fd_removed (sd_keywords diff)\<rparr> (ap_mut app) =
    (Inr events, ap_mut app')"
  using assms by (auto simp: apply_diff_def Let_def on_mut_run elim!: and_then_InrE)

text \<open>
  Undo puts a message back. A recorded move of a visible message, undone at once, leaves the row
  everyone reads in exactly the mailboxes it was in, whatever else is pending on it.
\<close>

lemma undo_restores_the_mailboxes:
  assumes "zipper a app applied []" "n \<notin> rs_step_id ` set applied" "length applied < MAX_REV_LOG_HISTORY"
    and "effective app a m = Some r" "set (rmc_mailbox_ids change) \<noteq> set (mr_mailbox_ids r)"
    and gesture: "api_replace_mailboxes ck i n a m change app = (Inr events, app1)" and "i \<notin> log_ids app"
    and undone: "undo ck' (j, k) a app1 = (Inr events', app2)" and "k \<notin> log_ids app1"
  shows "\<exists>r'. effective app2 a m = Some r' \<and> set (mr_mailbox_ids r') = set (mr_mailbox_ids r)"
proof -
  let ?cur = "set (mr_mailbox_ids r)" and ?new = "set (rmc_mailbox_ids change)"
  let ?diff = "\<lparr>sd_keywords = no_facet, sd_mailboxes =
      \<lparr>fd_added = bt_collect (?new - ?cur), fd_removed = bt_collect (?cur - ?new)\<rparr>\<rparr>"
  obtain s where s: "replace_mailboxes ck i a m change (ap_mut app) = (Inr events, s)"
    and app1: "app1 = record_step ck n a m ?diff
        (bt_collect (?new - ?cur) = [] \<and> bt_collect (?cur - ?new) = []) (app\<lparr>ap_mut := s\<rparr>)"
    using gesture assms(4)
    by (auto simp: api_replace_mailboxes_def effective_state_def on_mut_run Let_def elim!: and_then_InrE)
  have changed: "\<not> (bt_collect (?new - ?cur) = [] \<and> bt_collect (?cur - ?new) = [])"
    using assms(5) by (auto simp: bt_collect_def)
  have mut1: "ap_mut app1 = s" by (simp add: app1 record_step_mut)
  obtain r1 where r1: "effective app1 a m = Some r1" "set (mr_mailbox_ids r1) = ?new"
    using mailbox_shown [OF s assms(7)] by (auto simp: mut1)
  have "\<exists>new. rs_message_id new = m \<and> rs_diff new = Some ?diff \<and> zipper a app1 (applied @ [new]) []"
    unfolding app1 eq_False [THEN iffD2, OF changed]
    using record_step_zipper [of a "app\<lparr>ap_mut := s\<rparr>" applied "[]" n m ?diff ck] assms(1-3)
    by (simp add: zipper_mut)
  then obtain new where new: "rs_message_id new = m" "rs_diff new = Some ?diff"
      "zipper a app1 (applied @ [new]) []" by blast
  obtain d app3 where d: "rs_diff new = Some d" "apply_diff ck' (j, k) a new (step_inverse d) app1 = (Inr events', app3)"
      "ap_mut app2 = ap_mut app3"
    using undo_run [OF new(3) undone] by auto
  have d': "d = ?diff" using d(1) new(2) by simp
  have inv: "step_inverse d = \<lparr>sd_keywords = no_facet, sd_mailboxes =
      \<lparr>fd_added = bt_collect (?cur - ?new), fd_removed = bt_collect (?new - ?cur)\<rparr>\<rparr>"
    by (simp add: d' step_inverse_def facet_inverse_def no_facet_def)
  have "replace_mailboxes ck' k a m \<lparr>rmc_mailbox_ids = target_mailboxes
      \<lparr>fd_added = bt_collect (?cur - ?new), fd_removed = bt_collect (?new - ?cur)\<rparr> (mr_mailbox_ids r1)\<rparr>
      (ap_mut app1) = (Inr events', ap_mut app2)"
    using apply_diff_mailboxes [OF d(2) new(1) _ _ r1(1)] changed unfolding inv d(3)
    by (simp add: facet_is_empty_def no_facet_def) blast
  from mailbox_shown [OF this assms(9)] show ?thesis
    by (auto simp: set_target_mailboxes r1(2))
qed

text \<open>
  The same for keywords: every keyword a recorded change really added or removed is back to what
  it was, and a keyword the message already carried is not taken away by the undo.
\<close>

lemma undo_restores_the_keywords:
  assumes "zipper a app applied []" "n \<notin> rs_step_id ` set applied" "length applied < MAX_REV_LOG_HISTORY"
    and "effective app a m = Some r" "(set (skc_add change) - set (mr_keywords r)) \<union>
      (set (skc_remove change) \<inter> set (mr_keywords r)) \<noteq> {}"
    and gesture: "api_set_keywords ck i n a m change None app = (Inr events, app1)" and "i \<notin> log_ids app"
    and undone: "undo ck' (j, k) a app1 = (Inr events', app2)" and "j \<notin> log_ids app1"
  shows "\<exists>r'. effective app2 a m = Some r' \<and>
    set (skc_remove change) \<inter> set (mr_keywords r) \<subseteq> set (mr_keywords r') \<and>
    (set (skc_add change) - set (mr_keywords r)) \<inter> set (mr_keywords r') = {}"
proof -
  let ?cur = "set (mr_keywords r)"
  let ?added = "filter (\<lambda>k. k \<notin> ?cur) (skc_add change)" and ?removed = "filter (\<lambda>k. k \<in> ?cur) (skc_remove change)"
  let ?diff = "\<lparr>sd_keywords = \<lparr>fd_added = ?added, fd_removed = ?removed\<rparr>, sd_mailboxes = no_facet\<rparr>"
  obtain s where s: "set_keywords ck i a m change (ap_mut app) = (Inr events, s)"
    and app1: "app1 = record_step ck n a m ?diff (?added = [] \<and> ?removed = []) (app\<lparr>ap_mut := s\<rparr>)"
    using gesture assms(4)
    by (auto simp: api_set_keywords_def effective_state_def on_mut_run Let_def elim!: and_then_InrE)
  have changed: "\<not> (?added = [] \<and> ?removed = [])"
    using assms(5) by (auto simp: filter_empty_conv)
  have mut1: "ap_mut app1 = s" by (simp add: app1 record_step_mut)
  have "\<exists>new. rs_message_id new = m \<and> rs_diff new = Some ?diff \<and> zipper a app1 (applied @ [new]) []"
    unfolding app1 eq_False [THEN iffD2, OF changed]
    using record_step_zipper [of a "app\<lparr>ap_mut := s\<rparr>" applied "[]" n m ?diff ck] assms(1-3)
    by (simp add: zipper_mut)
  then obtain new where new: "rs_message_id new = m" "rs_diff new = Some ?diff"
      "zipper a app1 (applied @ [new]) []" by blast
  obtain d app3 where d: "rs_diff new = Some d" "apply_diff ck' (j, k) a new (step_inverse d) app1 = (Inr events', app3)"
      "ap_mut app2 = ap_mut app3"
    using undo_run [OF new(3) undone] by auto
  have d': "d = ?diff" using d(1) new(2) by simp
  have inv: "step_inverse d = \<lparr>sd_keywords = \<lparr>fd_added = ?removed, fd_removed = ?added\<rparr>, sd_mailboxes = no_facet\<rparr>"
    by (simp add: d' step_inverse_def facet_inverse_def no_facet_def)
  have "set_keywords ck' j a m \<lparr>skc_add = ?removed, skc_remove = ?added\<rparr> (ap_mut app1) = (Inr events', ap_mut app2)"
    using apply_diff_keywords [OF d(2) new(1)] changed unfolding inv d(3)
    by (simp add: facet_is_empty_def no_facet_def) blast
  from keywords_shown [OF this assms(9)] show ?thesis by auto
qed

subsection \<open>Concrete inputs\<close>

declare L_simps [simp del]

definition example_app :: App where
  "example_app = \<lparr>ap_mut = example_mut [] [], ap_sources = [L ''a''], ap_rev_log = [],
     ap_rev_cursor = (\<lambda>_. None)\<rparr>"

definition moved_app :: App where
  "moved_app = snd (api_replace_mailboxes queue_clock (L ''i'') (L ''n'') (L ''a'') (L ''m1'')
     \<lparr>rmc_mailbox_ids = [L ''x'', L ''b'']\<rparr> example_app)"

definition flagged_app :: App where
  "flagged_app = snd (api_set_keywords queue_clock (L ''i'') (L ''n'') (L ''a'') (L ''m1'')
     \<lparr>skc_add = [L ''f''], skc_remove = [L ''s'']\<rparr> None example_app)"

lemma result_ok: "\<not> isl (fst x) \<Longrightarrow> \<exists>y. x = (Inr y, snd x)"
  by (cases x; cases "fst x") auto

lemma example_zipper: "zipper (L ''a'') example_app [] []"
  by code_simp

lemma example_effective:
  "effective example_app (L ''a'') (L ''m1'') = Some (example_record (L ''m1''))"
  by code_simp

lemma moved_ok:
  "\<not> isl (fst (api_replace_mailboxes queue_clock (L ''i'') (L ''n'') (L ''a'') (L ''m1'')
     \<lparr>rmc_mailbox_ids = [L ''x'', L ''b'']\<rparr> example_app))"
  "\<not> isl (fst (undo queue_clock (L ''j'', L ''k'') (L ''a'') moved_app))"
  "L ''k'' \<notin> log_ids moved_app" "L ''i'' \<notin> log_ids example_app"
  by code_simp+

lemma flagged_ok:
  "\<not> isl (fst (api_set_keywords queue_clock (L ''i'') (L ''n'') (L ''a'') (L ''m1'')
     \<lparr>skc_add = [L ''f''], skc_remove = [L ''s'']\<rparr> None example_app))"
  "\<not> isl (fst (undo queue_clock (L ''j'', L ''k'') (L ''a'') flagged_app))"
  "L ''j'' \<notin> log_ids flagged_app"
  by code_simp+

lemma undo_restores_the_mailboxes_example:
  "\<exists>r'. effective (snd (undo queue_clock (L ''j'', L ''k'') (L ''a'') moved_app)) (L ''a'') (L ''m1'') = Some r' \<and>
     set (mr_mailbox_ids r') = {L ''inbox''}"
proof -
  obtain events where g: "api_replace_mailboxes queue_clock (L ''i'') (L ''n'') (L ''a'') (L ''m1'')
     \<lparr>rmc_mailbox_ids = [L ''x'', L ''b'']\<rparr> example_app = (Inr events, moved_app)"
    using result_ok [OF moved_ok(1)] by (auto simp: moved_app_def)
  obtain events' where u: "undo queue_clock (L ''j'', L ''k'') (L ''a'') moved_app =
      (Inr events', snd (undo queue_clock (L ''j'', L ''k'') (L ''a'') moved_app))"
    using result_ok [OF moved_ok(2)] by auto
  have "set (mr_mailbox_ids (example_record (L ''m1''))) = {L ''inbox''}"
    by (simp add: example_record_def)
  then show ?thesis
    using undo_restores_the_mailboxes [OF example_zipper _ _ example_effective _ g moved_ok(4) u moved_ok(3)]
    by (simp add: MAX_REV_LOG_HISTORY_def doubleton_eq_iff)
qed

lemma undo_restores_the_keywords_example:
  "\<exists>r'. effective (snd (undo queue_clock (L ''j'', L ''k'') (L ''a'') flagged_app)) (L ''a'') (L ''m1'') = Some r' \<and>
     L ''f'' \<notin> set (mr_keywords r')"
proof -
  obtain events where g: "api_set_keywords queue_clock (L ''i'') (L ''n'') (L ''a'') (L ''m1'')
     \<lparr>skc_add = [L ''f''], skc_remove = [L ''s'']\<rparr> None example_app = (Inr events, flagged_app)"
    using result_ok [OF flagged_ok(1)] by (auto simp: flagged_app_def)
  obtain events' where u: "undo queue_clock (L ''j'', L ''k'') (L ''a'') flagged_app =
      (Inr events', snd (undo queue_clock (L ''j'', L ''k'') (L ''a'') flagged_app))"
    using result_ok [OF flagged_ok(2)] by auto
  have "mr_keywords (example_record (L ''m1'')) = []" by (simp add: example_record_def)
  then show ?thesis
    using undo_restores_the_keywords [OF example_zipper _ _ example_effective _ g moved_ok(4) u flagged_ok(3)]
    by (simp add: MAX_REV_LOG_HISTORY_def)
qed

text \<open>Two recorded flags, the newer one undone.\<close>

definition example_step :: "nat \<Rightarrow> RevLogStep" where
  "example_step k = \<lparr>rs_step_id = [k], rs_seq = k, rs_message_id = L ''m1'', rs_source_id = L ''a'',
     rs_diff = Some \<lparr>sd_keywords = \<lparr>fd_added = [[k]], fd_removed = []\<rparr>, sd_mailboxes = no_facet\<rparr>,
     rs_created_at = L ''now''\<rparr>"

definition history_app :: App where
  "history_app = example_app\<lparr>ap_rev_log := [(L ''a'', example_step 1), (L ''a'', example_step 2)],
     ap_rev_cursor := (\<lambda>_. Some \<lparr>rc_cursor_step_id = Some [1], rc_redo_tail = [[2]]\<rparr>)\<rparr>"

lemma history_zipper: "zipper (L ''a'') history_app [example_step 1] [example_step 2]"
  by code_simp

lemma history_ok:
  "\<not> isl (fst (undo queue_clock (L ''j'', L ''k'') (L ''a'') history_app))"
  "\<not> isl (fst (undo queue_clock (L ''j'', L ''k'') (L ''a'')
      (snd (append_rev_log_step (L ''a'') [3] (L ''m1'') (L ''a'') (Some \<lparr>sd_keywords = no_facet,
         sd_mailboxes = no_facet\<rparr>) (L ''now'') history_app))))"
  by code_simp+

theorem undo_redo_walk_the_history_witness:
  "zipper (L ''a'') (snd (undo queue_clock (L ''j'', L ''k'') (L ''a'') history_app)) []
     [example_step 1, example_step 2]"
proof -
  obtain events where "undo queue_clock (L ''j'', L ''k'') (L ''a'') history_app =
      (Inr events, snd (undo queue_clock (L ''j'', L ''k'') (L ''a'') history_app))"
    using result_ok [OF history_ok(1)] by auto
  then show ?thesis
    using undo_redo_walk_the_history [OF history_zipper, of queue_clock "(L ''j'', L ''k'')" events
        "snd (undo queue_clock (L ''j'', L ''k'') (L ''a'') history_app)"]
    by auto
qed

lemma forward_action_revives_undone_steps_example:
  "\<exists>new. rs_step_id new = [3] \<and>
     zipper (L ''a'') (snd (undo queue_clock (L ''j'', L ''k'') (L ''a'')
      (snd (append_rev_log_step (L ''a'') [3] (L ''m1'') (L ''a'') (Some \<lparr>sd_keywords = no_facet,
         sd_mailboxes = no_facet\<rparr>) (L ''now'') history_app))))
       [example_step 1, example_step 2] [new]"
proof -
  obtain events where u: "undo queue_clock (L ''j'', L ''k'') (L ''a'')
      (snd (append_rev_log_step (L ''a'') [3] (L ''m1'') (L ''a'') (Some \<lparr>sd_keywords = no_facet,
         sd_mailboxes = no_facet\<rparr>) (L ''now'') history_app)) = (Inr events, snd (undo queue_clock (L ''j'', L ''k'') (L ''a'')
      (snd (append_rev_log_step (L ''a'') [3] (L ''m1'') (L ''a'') (Some \<lparr>sd_keywords = no_facet,
         sd_mailboxes = no_facet\<rparr>) (L ''now'') history_app))))"
    using result_ok [OF history_ok(2)] by auto
  show ?thesis
    using forward_action_revives_undone_steps [OF history_zipper _ _ u]
    by (auto simp: example_step_def MAX_REV_LOG_HISTORY_def)
qed

definition long_app :: App where
  "long_app = example_app\<lparr>ap_rev_log := map (\<lambda>k. (L ''a'', example_step k)) [0..<51],
     ap_rev_cursor := (\<lambda>_. Some \<lparr>rc_cursor_step_id = Some [50], rc_redo_tail = []\<rparr>)\<rparr>"

lemma undo_dies_after_fifty_actions_example:
  "undo queue_clock (L ''j'', L ''k'') (L ''a'') long_app =
     (Inl (InternalFailure (L ''rev-log cursor references missing step '' @ [50])), long_app)"
proof -
  have upt: "[0..<51] = [0..<50] @ [50 :: nat]" using upt_Suc_append [of 0 50] by simp
  have "steps_of (L ''a'') long_app = map example_step [0..<50] @ [example_step 50]"
    by (simp only: long_app_def upt) (simp add: steps_of_def filter_map o_def)
  moreover have "map rs_seq (map example_step [0..<50] @ [example_step 50]) = [0..<51]"
      "map rs_step_id (map example_step [0..<50] @ [example_step 50]) = map (\<lambda>k. [k]) [0..<51]"
    by (simp_all only: upt) (simp_all add: example_step_def o_def)
  moreover have "rs_step_id (example_step 50) = [50]" by (simp add: example_step_def)
  ultimately show ?thesis
    using undo_dies_after_fifty_actions [of "L ''a''" long_app "map example_step [0..<50]" "example_step 50"
        queue_clock "(L ''j'', L ''k'')"]
    by (simp add: MAX_REV_LOG_HISTORY_def distinct_map inj_on_def long_app_def get_rev_cursor_def
        example_app_def del: upt_rec_numeral map_append)
qed

declare L_simps [simp]

end
