(* ===== verification/ApplyLedger.thy ===== *)
theory ApplyLedger
  imports Errors
begin

text \<open>
  The durable idempotency ledger of \<open>crates/posthaste-store/src/apply_ledger.rs\<close>: a key is reserved
  before its operation executes, settled with the outcome after, or cleared after a transient
  failure; settled rows are collected a retention horizon later, reservations never. The table is a
  map from its primary key; every statement is one transaction. Instants are integers of seconds,
  far from the ends of \<open>i64\<close>.
\<close>

definition APPLY_LEDGER_RETENTION_SECS :: int where
  "APPLY_LEDGER_RETENTION_SECS = 30 * 24 * 60 * 60"

datatype ApplyLedgerState = LPending | LConfirmed | LRejected

definition ledger_state_str :: "ApplyLedgerState \<Rightarrow> str" where
  "ledger_state_str st = (case st of
     LPending \<Rightarrow> L ''pending'' | LConfirmed \<Rightarrow> L ''confirmed'' | LRejected \<Rightarrow> L ''rejected'')"

definition parse_ledger_state :: "str \<Rightarrow> (StoreError, ApplyLedgerState) result" where
  "parse_ledger_state v =
     (if v = L ''pending'' then Inr LPending
      else if v = L ''confirmed'' then Inr LConfirmed
      else if v = L ''rejected'' then Inr LRejected
      else Inl (StFailure (L ''unknown apply_ledger state: '' @ v)))"

record StoredDecision =
  ld_op_name :: str
  ld_state :: str
  ld_outcome_json :: "str option"
  ld_settled_at :: "int option"

record ApplyLedgerRow =
  lr_op_name :: str
  lr_state :: ApplyLedgerState
  lr_outcome_json :: "str option"

datatype ApplyLedgerReserve = Reserved | Existing ApplyLedgerRow

type_synonym ledger = "str \<times> str \<Rightarrow> StoredDecision option"

definition expired :: "int \<Rightarrow> StoredDecision \<Rightarrow> bool" where
  "expired now_secs row = (case ld_settled_at row of
     Some at \<Rightarrow> at < now_secs - APPLY_LEDGER_RETENTION_SECS | None \<Rightarrow> False)"

definition collect_expired :: "int \<Rightarrow> ledger \<Rightarrow> ledger" where
  "collect_expired now_secs tbl = (\<lambda>key. case tbl key of
     Some row \<Rightarrow> (if expired now_secs row then None else Some row) | None \<Rightarrow> None)"

text \<open>A state that does not parse rolls the transaction back.\<close>

definition apply_ledger_reserve ::
  "str \<times> str \<Rightarrow> str \<Rightarrow> int \<Rightarrow> ledger \<Rightarrow> (StoreError, ApplyLedgerReserve) result \<times> ledger" where
  "apply_ledger_reserve key op_name now_secs tbl =
     (let kept = collect_expired now_secs tbl in
      case kept key of
        Some row \<Rightarrow> (case parse_ledger_state (ld_state row) of
          Inl e \<Rightarrow> (Inl e, tbl)
        | Inr st \<Rightarrow> (Inr (Existing \<lparr>lr_op_name = ld_op_name row, lr_state = st,
                                   lr_outcome_json = ld_outcome_json row\<rparr>), kept))
      | None \<Rightarrow> (Inr Reserved, kept(key \<mapsto>
          \<lparr>ld_op_name = op_name, ld_state = L ''pending'', ld_outcome_json = None, ld_settled_at = None\<rparr>)))"

definition apply_ledger_settle ::
  "str \<times> str \<Rightarrow> ApplyLedgerState \<Rightarrow> str \<Rightarrow> int \<Rightarrow> ledger \<Rightarrow> ledger" where
  "apply_ledger_settle key st outcome_json now_secs tbl = (case tbl key of
     None \<Rightarrow> tbl
   | Some row \<Rightarrow> tbl(key \<mapsto> row\<lparr>ld_state := ledger_state_str st, ld_outcome_json := Some outcome_json,
                                ld_settled_at := Some now_secs\<rparr>))"

definition apply_ledger_clear :: "str \<times> str \<Rightarrow> ledger \<Rightarrow> ledger" where
  "apply_ledger_clear key tbl = tbl(key := None)"

subsection \<open>Histories\<close>

datatype LedgerEvent =
  Reserve "str \<times> str" str int
| Settle "str \<times> str" ApplyLedgerState str int
| Clear "str \<times> str"

fun ledger_step :: "LedgerEvent \<Rightarrow> ledger \<Rightarrow> ledger" where
  "ledger_step (Reserve key op_name now) tbl = snd (apply_ledger_reserve key op_name now tbl)"
| "ledger_step (Settle key st outcome now) tbl = apply_ledger_settle key st outcome now tbl"
| "ledger_step (Clear key) tbl = apply_ledger_clear key tbl"

text \<open>What a history has decided for a key: the last outcome settled, or nothing yet.\<close>

fun decision :: "str \<times> str \<Rightarrow> LedgerEvent list \<Rightarrow> ApplyLedgerState \<times> str option \<Rightarrow> ApplyLedgerState \<times> str option" where
  "decision key [] d = d"
| "decision key (Settle k st outcome now # es) d = decision key es (if k = key then (st, Some outcome) else d)"
| "decision key (e # es) d = decision key es d"

text \<open>
  No clear of the key, and no reservation (which collects) later than the retention horizon of the
  earliest settlement instant \<open>since\<close>.
\<close>

definition within_horizon :: "str \<times> str \<Rightarrow> int \<Rightarrow> LedgerEvent \<Rightarrow> bool" where
  "within_horizon key since e = (case e of
     Reserve _ _ now \<Rightarrow> now \<le> since + APPLY_LEDGER_RETENTION_SECS
   | Settle k _ _ now \<Rightarrow> k = key \<longrightarrow> since \<le> now
   | Clear k \<Rightarrow> k \<noteq> key)"

definition recorded :: "str \<times> str \<Rightarrow> int \<Rightarrow> str \<Rightarrow> ApplyLedgerState \<times> str option \<Rightarrow> ledger \<Rightarrow> bool" where
  "recorded key since op_name d tbl \<longleftrightarrow> (\<exists>row. tbl key = Some row \<and> ld_op_name row = op_name \<and>
     ld_state row = ledger_state_str (fst d) \<and> ld_outcome_json row = snd d \<and>
     (case ld_settled_at row of Some at \<Rightarrow> since \<le> at | None \<Rightarrow> True))"

lemma ledger_state_roundtrip [simp]: "parse_ledger_state (ledger_state_str st) = Inr st"
  by (cases st) (simp_all add: parse_ledger_state_def ledger_state_str_def)

lemma collect_recorded:
  "recorded key since op d tbl \<Longrightarrow> now \<le> since + APPLY_LEDGER_RETENTION_SECS \<Longrightarrow>
   recorded key since op d (collect_expired now tbl)"
  by (auto simp: recorded_def collect_expired_def expired_def split: option.splits)

lemma reserve_recorded:
  assumes "recorded key since op d tbl" "now \<le> since + APPLY_LEDGER_RETENTION_SECS"
  shows "fst (apply_ledger_reserve key op' now tbl) =
      Inr (Existing \<lparr>lr_op_name = op, lr_state = fst d, lr_outcome_json = snd d\<rparr>)"
    and "recorded key since op d (snd (apply_ledger_reserve k op' now tbl))"
proof -
  note kept = collect_recorded [OF assms]
  then show "fst (apply_ledger_reserve key op' now tbl) =
      Inr (Existing \<lparr>lr_op_name = op, lr_state = fst d, lr_outcome_json = snd d\<rparr>)"
    by (auto simp: apply_ledger_reserve_def Let_def recorded_def)
  show "recorded key since op d (snd (apply_ledger_reserve k op' now tbl))"
    using kept assms(1)
    by (auto simp: apply_ledger_reserve_def Let_def recorded_def split: option.split sum.split)
qed

lemma step_recorded:
  assumes "recorded key since op d tbl" "within_horizon key since e"
  shows "recorded key since op (decision key [e] d) (ledger_step e tbl)"
proof (cases e)
  case (Reserve k op' now)
  then show ?thesis using reserve_recorded(2) [OF assms(1)] assms(2) by (simp add: within_horizon_def)
qed (use assms in \<open>auto simp: within_horizon_def recorded_def apply_ledger_settle_def
      apply_ledger_clear_def split: option.splits\<close>)

lemma decision_Cons: "decision key (e # es) d = decision key es (decision key [e] d)"
  by (cases e) simp_all

lemma run_recorded:
  "recorded key since op d tbl \<Longrightarrow> list_all (within_horizon key since) es \<Longrightarrow>
   recorded key since op (decision key es d) (fold ledger_step es tbl)"
proof (induction es arbitrary: d tbl)
  case (Cons e es)
  then show ?case
    using Cons.IH [OF step_recorded [OF Cons.prems(1)]] by (simp add: decision_Cons [of key e es d])
qed simp

text \<open>
  C28. A key is executed once. After a reservation was granted, any later reservation of the same key
  finds it taken and reports the first operation's name with the last recorded decision (or still
  pending, after a crash), through any number of redeliveries, other keys and settlements, until the
  key is cleared or thirty days have passed since it was settled. A pending key never expires.
\<close>

theorem reserved_keys_execute_once:
  assumes "apply_ledger_reserve key op_name now tbl = (Inr Reserved, tbl')"
    and "list_all (within_horizon key since) es"
    and "later \<le> since + APPLY_LEDGER_RETENTION_SECS"
  shows "fst (apply_ledger_reserve key op' later (fold ledger_step es tbl')) =
    Inr (Existing \<lparr>lr_op_name = op_name, lr_state = fst (decision key es (LPending, None)),
                   lr_outcome_json = snd (decision key es (LPending, None))\<rparr>)"
proof -
  have "recorded key since op_name (LPending, None) tbl'"
    using assms(1)
    by (auto simp: apply_ledger_reserve_def Let_def recorded_def ledger_state_str_def
        split: option.splits sum.splits)
  from reserve_recorded(1) [OF run_recorded [OF this assms(2)] assms(3)] show ?thesis .
qed

theorem reserved_keys_execute_once_witness:
  "fst (apply_ledger_reserve (L ''s'', L ''k'') (L ''message.send'') 2000000
     (fold ledger_step [Reserve (L ''s'', L ''k'') (L ''retry'') 50, Settle (L ''s'', L ''k'') LConfirmed (L ''ok'') 60,
        Clear (L ''t'', L ''k''), Reserve (L ''t'', L ''x'') (L ''y'') 70]
      (snd (apply_ledger_reserve (L ''s'', L ''k'') (L ''message.send'') 0 (\<lambda>_. None))))) =
   Inr (Existing \<lparr>lr_op_name = L ''message.send'', lr_state = LConfirmed, lr_outcome_json = Some (L ''ok'')\<rparr>)"
proof -
  have r: "apply_ledger_reserve (L ''s'', L ''k'') (L ''message.send'') 0 (\<lambda>_. None) =
      (Inr Reserved, snd (apply_ledger_reserve (L ''s'', L ''k'') (L ''message.send'') 0 (\<lambda>_. None)))"
    by (simp add: apply_ledger_reserve_def Let_def collect_expired_def)
  show ?thesis
    using reserved_keys_execute_once [OF r, of 60 "[Reserve (L ''s'', L ''k'') (L ''retry'') 50,
        Settle (L ''s'', L ''k'') LConfirmed (L ''ok'') 60, Clear (L ''t'', L ''k''),
        Reserve (L ''t'', L ''x'') (L ''y'') 70]" 2000000 "L ''message.send''"]
    by (simp add: within_horizon_def APPLY_LEDGER_RETENTION_SECS_def)
qed

end
