(* ===== verification/ImapPlan.thy ===== *)
theory ImapPlan
  imports Errors OutboxModel MailQuery
begin

text \<open>
  How an IMAP mailbox is identified and how its sync is planned: the value types of
  \<open>crates/posthaste-domain-model/src/imap\<close> (UIDs, sync state, capabilities, special-use roles), the
  provider policy of \<open>provider/imap_policy.rs\<close>, the planners and identities of
  \<open>crates/posthaste-domain-service/src/imap\<close>, mailbox discovery (\<open>posthaste-imap/src/discovery.rs\<close>)
  and the identity helpers of \<open>gateway/identity.rs\<close> and \<open>gateway/utils.rs\<close>. UIDs and UIDVALIDITY
  are 32-bit words, MODSEQ values 64-bit words. The hexadecimal encoder of the \<open>hex\<close> crate is the
  parameter \<open>hex\<close>.
\<close>

type_synonym ImapUid = "32 word"
type_synonym ImapUidValidity = "32 word"
type_synonym ImapModSeq = "64 word"

record ImapMailboxSyncState =
  is_mailbox_id :: str
  is_mailbox_name :: str
  is_uid_validity :: ImapUidValidity
  is_highest_uid :: "ImapUid option"
  is_highest_modseq :: "ImapModSeq option"
  is_partial_initial_uid :: "ImapUid option"
  is_updated_at :: str

record ImapMessageLocation =
  il_message_id :: str
  il_mailbox_id :: str
  il_uid_validity :: ImapUidValidity
  il_uid :: ImapUid
  il_modseq :: "ImapModSeq option"
  il_updated_at :: str

record ImapMessageLocationKey =
  ik_message_id :: str
  ik_mailbox_id :: str
  ik_uid_validity :: ImapUidValidity
  ik_uid :: ImapUid

definition location_key :: "ImapMessageLocation \<Rightarrow> ImapMessageLocationKey" where
  "location_key l = \<lparr>ik_message_id = il_message_id l, ik_mailbox_id = il_mailbox_id l,
     ik_uid_validity = il_uid_validity l, ik_uid = il_uid l\<rparr>"

record ImapSelectedMailbox =
  se_mailbox_id :: str
  se_mailbox_name :: str
  se_uid_validity :: ImapUidValidity
  se_uid_next :: "ImapUid option"
  se_highest_modseq :: "ImapModSeq option"

datatype ImapFullSyncReason =
    InitialSync | ResumeInitialSync | UidValidityChanged | MissingUidWatermark
  | FlagDeltaUnavailable | ProviderCanonicalizationRequired

datatype ImapMailboxSyncPlan =
    FullSnapshot ImapFullSyncReason
  | FetchNewByUid ImapUid
  | CondstoreDelta ImapModSeq "ImapUid option"
  | QresyncDelta ImapUidValidity ImapModSeq "ImapUid option"

datatype ImapMoveStrategy = UidMoveWithCopyUid | UidMoveThenResync | CopyDeleteThenResync

definition state_is_valid_for :: "ImapMailboxSyncState \<Rightarrow> ImapUidValidity \<Rightarrow> bool" where
  "state_is_valid_for s v \<longleftrightarrow> is_uid_validity s = v"

definition max_option :: "'a::linorder option \<Rightarrow> 'a \<Rightarrow> 'a option" where
  "max_option current x = Some (case current of None \<Rightarrow> x | Some c \<Rightarrow> max c x)"

definition record_seen_uid :: "ImapUid \<Rightarrow> ImapMailboxSyncState \<Rightarrow> ImapMailboxSyncState" where
  "record_seen_uid uid s = s\<lparr>is_highest_uid := max_option (is_highest_uid s) uid\<rparr>"

definition record_highest_modseq :: "ImapModSeq \<Rightarrow> ImapMailboxSyncState \<Rightarrow> ImapMailboxSyncState" where
  "record_highest_modseq m s = s\<lparr>is_highest_modseq := max_option (is_highest_modseq s) m\<rparr>"

text \<open>The literal \<open>"\X"\<close>: a name behind one backslash, as IMAP flags and attributes are written.\<close>

definition bs :: "string \<Rightarrow> str" where
  [simp]: "bs name = 92 # L name"

subsection \<open>Capabilities\<close>

definition ascii_upper :: "nat \<Rightarrow> nat" where
  "ascii_upper c = (if 97 \<le> c \<and> c \<le> 122 then c - 32 else c)"

definition to_ascii_uppercase :: "str \<Rightarrow> str" where
  "to_ascii_uppercase s = map ascii_upper s"

record ImapCapabilities =
  ca_tokens :: "str set"

definition capabilities_from_tokens :: "str list \<Rightarrow> ImapCapabilities" where
  "capabilities_from_tokens tokens = \<lparr>ca_tokens = set (map to_ascii_uppercase tokens)\<rparr>"

definition cap_contains :: "ImapCapabilities \<Rightarrow> str \<Rightarrow> bool" where
  "cap_contains c token \<longleftrightarrow> to_ascii_uppercase token \<in> ca_tokens c"

definition supports_enable :: "ImapCapabilities \<Rightarrow> bool" where
  "supports_enable c \<longleftrightarrow> cap_contains c (L ''ENABLE'')"

definition supports_idle :: "ImapCapabilities \<Rightarrow> bool" where
  "supports_idle c \<longleftrightarrow> cap_contains c (L ''IDLE'')"

definition supports_special_use :: "ImapCapabilities \<Rightarrow> bool" where
  "supports_special_use c \<longleftrightarrow> cap_contains c (L ''SPECIAL-USE'') \<or> cap_contains c (L ''IMAP4REV2'')"

definition supports_uidplus :: "ImapCapabilities \<Rightarrow> bool" where
  "supports_uidplus c \<longleftrightarrow> cap_contains c (L ''UIDPLUS'') \<or> cap_contains c (L ''IMAP4REV2'')"

definition supports_move :: "ImapCapabilities \<Rightarrow> bool" where
  "supports_move c \<longleftrightarrow> cap_contains c (L ''MOVE'') \<or> cap_contains c (L ''IMAP4REV2'')"

definition supports_qresync :: "ImapCapabilities \<Rightarrow> bool" where
  "supports_qresync c \<longleftrightarrow> cap_contains c (L ''QRESYNC'')"

definition supports_condstore :: "ImapCapabilities \<Rightarrow> bool" where
  "supports_condstore c \<longleftrightarrow> cap_contains c (L ''CONDSTORE'') \<or> supports_qresync c"

definition supports_gmail_extensions :: "ImapCapabilities \<Rightarrow> bool" where
  "supports_gmail_extensions c \<longleftrightarrow> cap_contains c (L ''X-GM-EXT-1'')"

datatype ImapMessageIdentitySource = UidValidityUid | Rfc5322MessageId | ByGmailMessageId
datatype ImapThreadIdentitySource = Rfc5322Headers | ByGmailThreadId
datatype ImapLabelSource = MailboxMembership | GmailLabels

record ImapProviderFeatures =
  pf_message_identity :: ImapMessageIdentitySource
  pf_thread_identity :: ImapThreadIdentitySource
  pf_label_source :: ImapLabelSource

subsection \<open>Mailbox roles\<close>

definition imap_special_use_role :: "str \<Rightarrow> str list \<Rightarrow> str option" where
  "imap_special_use_role mailbox_name attributes =
     (let normalized = set (map to_ascii_uppercase attributes) in
      if bs ''INBOX'' \<in> normalized \<or> eq_ignore_ascii_case mailbox_name (L ''INBOX'')
      then Some (L ''inbox'')
      else if bs ''SENT'' \<in> normalized then Some (L ''sent'')
      else if bs ''DRAFTS'' \<in> normalized then Some (L ''drafts'')
      else if bs ''TRASH'' \<in> normalized then Some (L ''trash'')
      else if bs ''JUNK'' \<in> normalized then Some (L ''junk'')
      else if bs ''ARCHIVE'' \<in> normalized then Some (L ''archive'')
      else None)"

subsection \<open>The provider policy\<close>

datatype ProviderKind = PkGeneric | PkGmail | PkOutlook | PkIcloud

definition kind_from_capabilities :: "ImapCapabilities \<Rightarrow> ProviderKind" where
  "kind_from_capabilities c = (if supports_gmail_extensions c then PkGmail else PkGeneric)"

datatype RemoteIdleScope = IdleNone | IdleAccount | IdleSelectedMailbox
datatype EmptyRemoteHintPolicy = HintIgnore | HintSync
datatype RemoteHintCompleteness = HintComplete | HintIncomplete

record RemoteObservationPolicy =
  ob_idle_scope :: RemoteIdleScope
  ob_empty_hint :: EmptyRemoteHintPolicy
  ob_hint_completeness :: RemoteHintCompleteness

definition account_push :: RemoteObservationPolicy where
  "account_push = \<lparr>ob_idle_scope = IdleAccount, ob_empty_hint = HintIgnore, ob_hint_completeness = HintComplete\<rparr>"

definition selected_mailbox_idle :: RemoteObservationPolicy where
  "selected_mailbox_idle =
     \<lparr>ob_idle_scope = IdleSelectedMailbox, ob_empty_hint = HintSync, ob_hint_completeness = HintComplete\<rparr>"

definition observation_disabled :: RemoteObservationPolicy where
  "observation_disabled =
     \<lparr>ob_idle_scope = IdleNone, ob_empty_hint = HintIgnore, ob_hint_completeness = HintComplete\<rparr>"

definition with_incomplete_hints :: "RemoteObservationPolicy \<Rightarrow> RemoteObservationPolicy" where
  "with_incomplete_hints p = p\<lparr>ob_hint_completeness := HintIncomplete\<rparr>"

definition observes_empty_hints :: "RemoteObservationPolicy \<Rightarrow> bool" where
  "observes_empty_hints p \<longleftrightarrow> ob_empty_hint p = HintSync"

definition treats_hints_as_incomplete :: "RemoteObservationPolicy \<Rightarrow> bool" where
  "treats_hints_as_incomplete p \<longleftrightarrow> ob_hint_completeness p = HintIncomplete"

datatype ImapMailboxRoleAliasPolicy = StandardOnly | GmailAliases

record ImapProviderPolicy =
  ip_features :: ImapProviderFeatures
  ip_required_full_sync_reason :: "ImapFullSyncReason option"
  ip_remote_observation :: RemoteObservationPolicy
  ip_mailbox_role_aliases :: ImapMailboxRoleAliasPolicy

definition imap_policy_for :: "ProviderKind \<Rightarrow> ImapProviderPolicy" where
  "imap_policy_for kind = (case kind of
     PkGmail \<Rightarrow>
       \<lparr>ip_features = \<lparr>pf_message_identity = ByGmailMessageId, pf_thread_identity = ByGmailThreadId,
                       pf_label_source = GmailLabels\<rparr>,
        ip_required_full_sync_reason = None,
        ip_remote_observation = with_incomplete_hints selected_mailbox_idle,
        ip_mailbox_role_aliases = GmailAliases\<rparr>
   | _ \<Rightarrow>
       \<lparr>ip_features = \<lparr>pf_message_identity = UidValidityUid, pf_thread_identity = Rfc5322Headers,
                       pf_label_source = MailboxMembership\<rparr>,
        ip_required_full_sync_reason = None,
        ip_remote_observation = selected_mailbox_idle,
        ip_mailbox_role_aliases = StandardOnly\<rparr>)"

definition allows_status_skip :: "ImapProviderPolicy \<Rightarrow> bool" where
  "allows_status_skip p \<longleftrightarrow> ip_required_full_sync_reason p = None"

definition canonicalizes_by_rfc5322_message_id :: "ImapProviderPolicy \<Rightarrow> bool" where
  "canonicalizes_by_rfc5322_message_id p \<longleftrightarrow> pf_message_identity (ip_features p) = Rfc5322MessageId"

definition canonicalizes_by_gmail_message_id :: "ImapProviderPolicy \<Rightarrow> bool" where
  "canonicalizes_by_gmail_message_id p \<longleftrightarrow> pf_message_identity (ip_features p) = ByGmailMessageId"

definition gmail_mailbox_role_alias :: "str set \<Rightarrow> str option" where
  "gmail_mailbox_role_alias attributes =
     (if bs ''SPAM'' \<in> attributes then Some (role_as_str Junk)
      else if bs ''ALL'' \<in> attributes then Some (role_as_str Archive)
      else None)"

definition mailbox_role :: "ImapProviderPolicy \<Rightarrow> str \<Rightarrow> str list \<Rightarrow> str option" where
  "mailbox_role p mailbox_name attributes =
     (let normalized = set (map to_ascii_uppercase attributes) in
      case imap_special_use_role mailbox_name (bt_collect normalized) of
        Some role \<Rightarrow> Some role
      | None \<Rightarrow> (case ip_mailbox_role_aliases p of
          StandardOnly \<Rightarrow> None | GmailAliases \<Rightarrow> gmail_mailbox_role_alias normalized))"

text \<open>The provider profile: the kind with its policies, of which sync uses the IMAP one.\<close>

record ProviderProfile =
  pp_kind :: ProviderKind
  pp_imap :: ImapProviderPolicy

definition profile_from_kind :: "ProviderKind \<Rightarrow> ProviderProfile" where
  "profile_from_kind kind = \<lparr>pp_kind = kind, pp_imap = imap_policy_for kind\<rparr>"

definition profile_from_imap_capabilities :: "ImapCapabilities \<Rightarrow> ProviderProfile" where
  "profile_from_imap_capabilities c = profile_from_kind (kind_from_capabilities c)"

subsection \<open>Discovery\<close>

record DiscoveredImapMailbox =
  dm_id :: str
  dm_name :: str
  dm_role :: "str option"
  dm_selectable :: bool
  dm_attributes :: "str list"

record DiscoveredImapAccount =
  da_capabilities :: ImapCapabilities
  da_mailboxes :: "DiscoveredImapMailbox list"

text \<open>The UTF-8 bytes of a string (\<open>str::as_bytes\<close>).\<close>

definition utf8_char :: "nat \<Rightarrow> nat list" where
  "utf8_char c =
     (if c < 128 then [c]
      else if c < 2048 then [192 + c div 64, 128 + c mod 64]
      else if c < 65536 then [224 + c div 4096, 128 + c div 64 mod 64, 128 + c mod 64]
      else [240 + c div 262144, 128 + c div 4096 mod 64, 128 + c div 64 mod 64, 128 + c mod 64])"

definition as_bytes :: "str \<Rightarrow> nat list" where
  "as_bytes s = concat (map utf8_char s)"

definition imap_mailbox_id :: "(nat list \<Rightarrow> str) \<Rightarrow> str \<Rightarrow> str" where
  "imap_mailbox_id hex name = L ''imap:mailbox:'' @ hex (as_bytes name)"

definition map_imap_mailbox_with_provider ::
  "(nat list \<Rightarrow> str) \<Rightarrow> ProviderProfile \<Rightarrow> str \<Rightarrow> str list \<Rightarrow> DiscoveredImapMailbox" where
  "map_imap_mailbox_with_provider hex provider name attributes =
     \<lparr>dm_id = imap_mailbox_id hex name,
      dm_name = name,
      dm_role = map_option (\<lambda>role. case parse_role role of Some r \<Rightarrow> role_as_str r | None \<Rightarrow> role)
                  (mailbox_role (pp_imap provider) name attributes),
      dm_selectable = \<not> list_ex (\<lambda>a. eq_ignore_ascii_case a (bs ''Noselect'')) attributes,
      dm_attributes = attributes\<rparr>"

definition map_imap_mailbox :: "(nat list \<Rightarrow> str) \<Rightarrow> str \<Rightarrow> str list \<Rightarrow> DiscoveredImapMailbox" where
  "map_imap_mailbox hex = map_imap_mailbox_with_provider hex (profile_from_kind PkGeneric)"

definition provider_profile :: "DiscoveredImapAccount \<Rightarrow> ProviderProfile" where
  "provider_profile d = profile_from_imap_capabilities (da_capabilities d)"

subsection \<open>Identities\<close>

definition hex_digit :: "nat \<Rightarrow> nat" where
  "hex_digit n = L ''0123456789abcdef'' ! n"

definition hex_encode :: "nat list \<Rightarrow> str" where
  "hex_encode bytes = concat (map (\<lambda>byte. [hex_digit (byte div 16), hex_digit (byte mod 16)]) bytes)"

definition imap_message_id :: "str \<Rightarrow> ImapUidValidity \<Rightarrow> ImapUid \<Rightarrow> str" where
  "imap_message_id mailbox_id uid_validity uid =
     L ''imap:'' @ show_nat (unat uid_validity) @ L '':'' @ show_nat (unat uid) @ L '':'' @
     hex_encode (as_bytes mailbox_id)"

definition gmail_message_id :: "64 word \<Rightarrow> str" where
  "gmail_message_id gmail_id = L ''imap:gmail:msgid:'' @ show_nat (unat gmail_id)"

definition gmail_thread_id :: "64 word \<Rightarrow> str" where
  "gmail_thread_id gmail_id = L ''imap:gmail:thrid:'' @ show_nat (unat gmail_id)"

subsection \<open>The planners\<close>

definition plan_imap_mailbox_sync ::
  "ImapCapabilities \<Rightarrow> ProviderProfile \<Rightarrow> ImapMailboxSyncState option \<Rightarrow> ImapSelectedMailbox \<Rightarrow>
   ImapMailboxSyncPlan" where
  "plan_imap_mailbox_sync capabilities provider stored selected = (case stored of
     None \<Rightarrow> FullSnapshot InitialSync
   | Some st \<Rightarrow>
       if \<not> state_is_valid_for st (se_uid_validity selected) then FullSnapshot UidValidityChanged
       else if is_partial_initial_uid st \<noteq> None then FullSnapshot ResumeInitialSync
       else (case ip_required_full_sync_reason (pp_imap provider) of
         Some reason \<Rightarrow> FullSnapshot reason
       | None \<Rightarrow>
           (let fallback = FullSnapshot
                  (if is_highest_uid st \<noteq> None then FlagDeltaUnavailable else MissingUidWatermark)
            in case (is_highest_modseq st, se_highest_modseq selected) of
              (Some since_modseq, Some _) \<Rightarrow>
                (if supports_qresync capabilities \<and> supports_enable capabilities
                 then QresyncDelta (se_uid_validity selected) since_modseq (is_highest_uid st)
                 else if supports_condstore capabilities
                 then CondstoreDelta since_modseq (is_highest_uid st)
                 else fallback)
            | _ \<Rightarrow> fallback)))"

definition plan_imap_move :: "ImapCapabilities \<Rightarrow> ImapMoveStrategy" where
  "plan_imap_move capabilities =
     (if supports_move capabilities \<and> supports_uidplus capabilities then UidMoveWithCopyUid
      else if supports_move capabilities then UidMoveThenResync
      else CopyDeleteThenResync)"

record ImapMailboxStatus =
  st_messages :: "32 word option"
  st_uid_next :: "ImapUid option"
  st_uid_validity :: "ImapUidValidity option"
  st_highest_modseq :: "ImapModSeq option"

text \<open>The local count is cast with \<open>as u32\<close>.\<close>

definition mailbox_status_proves_unchanged ::
  "ImapMailboxSyncState \<Rightarrow> nat \<Rightarrow> ImapMailboxStatus \<Rightarrow> bool" where
  "mailbox_status_proves_unchanged stored local_message_count status =
     (if st_uid_validity status \<noteq> Some (is_uid_validity stored) then False
      else if st_messages status \<noteq> Some (word_of_nat local_message_count) then False
      else (case is_highest_modseq stored of
        Some stored_modseq \<Rightarrow> st_highest_modseq status = Some stored_modseq
      | None \<Rightarrow> False))"

subsection \<open>Location identities\<close>

type_synonym uid_identity = "str \<times> ImapUidValidity \<times> ImapUid"

definition location_identity :: "ImapMessageLocation \<Rightarrow> uid_identity" where
  "location_identity l = (il_mailbox_id l, il_uid_validity l, il_uid l)"

definition missing_location_identities ::
  "ImapMessageLocation list \<Rightarrow> ImapMessageLocation list \<Rightarrow> uid_identity list" where
  "missing_location_identities local_locations remote_locations =
     map location_identity
       (filter (\<lambda>l. location_identity l \<notin> set (map location_identity remote_locations)) local_locations)"

definition missing_location_identities_from_uids ::
  "ImapMessageLocation list \<Rightarrow> ImapUid list \<Rightarrow> uid_identity list" where
  "missing_location_identities_from_uids local_locations remote_uids =
     map location_identity (filter (\<lambda>l. il_uid l \<notin> set remote_uids) local_locations)"

subsection \<open>Encodings are injective\<close>

lemma digits_value_append: "digits_value (xs @ [c]) = 10 * digits_value xs + (int c - 48)"
  by (simp add: digits_value_def)

lemma digits_value_show_nat [simp]: "digits_value (show_nat n) = int n"
proof (induction n rule: show_nat.induct)
  case (1 n)
  show ?case
  proof (cases "n < 10")
    case True
    then show ?thesis by (simp add: show_nat.simps [of n] digits_value_def)
  next
    case False
    with 1 show ?thesis
      by (simp add: show_nat.simps [of n] digits_value_append flip: of_nat_mult of_nat_add) presburger
  qed
qed

lemma show_nat_inj [simp]: "show_nat m = show_nat n \<longleftrightarrow> m = n"
  by (metis digits_value_show_nat of_nat_eq_iff)

lemma colon_splits:
  assumes "58 \<notin> set xs" "58 \<notin> set ys" "xs @ 58 # r = ys @ 58 # (t :: nat list)"
  shows "xs = ys \<and> r = t"
  using assms
proof (induction xs arbitrary: ys)
  case Nil
  then show ?case by (cases ys) auto
next
  case (Cons x xs)
  then show ?case by (cases ys) auto
qed

lemma show_nat_colon: "58 \<notin> set (show_nat n)"
  using show_nat_digits [of n] by force

lemma hex_digit_inj: "a < 16 \<Longrightarrow> b < 16 \<Longrightarrow> hex_digit a = hex_digit b \<Longrightarrow> a = b"
proof -
  have "distinct (L ''0123456789abcdef'')" by simp
  then show "a < 16 \<Longrightarrow> b < 16 \<Longrightarrow> hex_digit a = hex_digit b \<Longrightarrow> a = b"
    unfolding hex_digit_def by (subst (asm) nth_eq_iff_index_eq) simp_all
qed

lemma hex_encode_inj:
  "hex_encode xs = hex_encode ys \<Longrightarrow> list_all (\<lambda>b. b < 256) xs \<Longrightarrow> list_all (\<lambda>b. b < 256) ys \<Longrightarrow> xs = ys"
proof (induction xs arbitrary: ys)
  case Nil
  then show ?case by (cases ys) (simp_all add: hex_encode_def)
next
  case (Cons x xs)
  then obtain y ys' where ys: "ys = y # ys'" by (cases ys) (simp_all add: hex_encode_def)
  with Cons.prems have "hex_digit (x div 16) = hex_digit (y div 16)"
      "hex_digit (x mod 16) = hex_digit (y mod 16)" "hex_encode xs = hex_encode ys'"
    by (simp_all add: hex_encode_def)
  moreover have "x div 16 < 16" "y div 16 < 16" using Cons.prems ys by auto
  ultimately have "x div 16 = y div 16" "x mod 16 = y mod 16"
    by (simp_all add: hex_digit_inj)
  then have "x = y" by (metis div_mult_mod_eq)
  with Cons \<open>hex_encode xs = hex_encode ys'\<close> ys show ?case by simp
qed

text \<open>A string of Unicode scalar values; its bytes are bytes and determine it.\<close>

definition unicode :: "str \<Rightarrow> bool" where
  "unicode s = list_all (\<lambda>c. c < 1114112) s"

lemma mod64: "(c :: nat) mod 64 < 64"
  by simp

lemma utf8_char_bytes: "c < 1114112 \<Longrightarrow> list_all (\<lambda>b. b < 256) (utf8_char c)"
  using mod64 [of c] mod64 [of "c div 64"] mod64 [of "c div 4096"]
  by (auto simp: utf8_char_def less_mult_imp_div_less)

lemma as_bytes_bytes: "unicode s \<Longrightarrow> list_all (\<lambda>b. b < 256) (as_bytes s)"
  by (induction s) (simp_all add: unicode_def as_bytes_def utf8_char_bytes)

text \<open>Decoding one character: the first byte tells how many continuation bytes follow.\<close>

fun utf8_uncons :: "nat list \<Rightarrow> (nat \<times> nat list) option" where
  "utf8_uncons [] = None"
| "utf8_uncons (b # rest) =
     (if b < 128 then Some (b, rest)
      else if b < 224 then Some ((b - 192) * 64 + (rest ! 0 - 128), drop 1 rest)
      else if b < 240
      then Some ((b - 224) * 4096 + (rest ! 0 - 128) * 64 + (rest ! 1 - 128), drop 2 rest)
      else Some ((b - 240) * 262144 + (rest ! 0 - 128) * 4096 + (rest ! 1 - 128) * 64 +
                 (rest ! 2 - 128), drop 3 rest))"

lemma split64: "(c :: nat) div 64 * 64 + c mod 64 = c"
  by simp

lemma split_step: "x = y * 64 + r \<Longrightarrow> x * 64 + m = c \<Longrightarrow> y * 4096 + r * 64 + m = (c :: nat)"
  by simp

lemma split_step2:
  "x = y * 64 + r \<Longrightarrow> x * 4096 + m + n = c \<Longrightarrow> y * 262144 + r * 4096 + m + n = (c :: nat)"
  by simp

lemma split4096: "(c :: nat) div 4096 * 4096 + c div 64 mod 64 * 64 + c mod 64 = c"
proof -
  have "c div 64 div 64 = c div 4096" using div_mult2_eq [of c 64 64] by simp
  then have "c div 64 = c div 4096 * 64 + c div 64 mod 64"
    using div_mult_mod_eq [of "c div 64" 64] by metis
  from split_step [OF this split64] show ?thesis .
qed

lemma split262144:
  "(c :: nat) div 262144 * 262144 + c div 4096 mod 64 * 4096 + c div 64 mod 64 * 64 + c mod 64 = c"
proof -
  have "c div 4096 div 64 = c div 262144" using div_mult2_eq [of c 4096 64] by simp
  then have "c div 4096 = c div 262144 * 64 + c div 4096 mod 64"
    using div_mult_mod_eq [of "c div 4096" 64] by metis
  from split_step2 [OF this split4096] show ?thesis .
qed

lemma utf8_uncons_char:
  assumes "c < 1114112"
  shows "utf8_uncons (utf8_char c @ rest) = Some (c, rest)"
proof -
  consider "c < 128" | "128 \<le> c" "c < 2048" | "2048 \<le> c" "c < 65536" | "65536 \<le> c" by linarith
  then show ?thesis
  proof cases
    case 1
    then show ?thesis by (simp add: utf8_char_def)
  next
    case 2
    then have "c div 64 < 32" by (simp add: less_mult_imp_div_less)
    with 2 split64 [of c] show ?thesis by (simp add: utf8_char_def)
  next
    case 3
    then have "c div 4096 < 16" by (simp add: less_mult_imp_div_less)
    with 3 split4096 [of c] show ?thesis by (simp add: utf8_char_def)
  next
    case 4
    with split262144 [of c] show ?thesis by (simp add: utf8_char_def)
  qed
qed

lemma as_bytes_inj: "as_bytes s = as_bytes t \<Longrightarrow> unicode s \<Longrightarrow> unicode t \<Longrightarrow> s = t"
proof (induction s arbitrary: t)
  case Nil
  then show ?case by (cases t) (auto simp: as_bytes_def utf8_char_def split: if_splits)
next
  case (Cons c s)
  from Cons.prems obtain d t' where t: "t = d # t'"
    by (cases t) (auto simp: as_bytes_def utf8_char_def split: if_splits)
  have step: "utf8_uncons (as_bytes (e # u)) = Some (e, as_bytes u)" if "e < 1114112" for e u
    using utf8_uncons_char [OF that, of "as_bytes u"] by (simp add: as_bytes_def)
  have "c < 1114112" "d < 1114112" using Cons.prems t by (simp_all add: unicode_def)
  with step [of c s] step [of d t'] Cons.prems(1) t have "c = d" "as_bytes s = as_bytes t'"
    by (simp_all del: utf8_uncons.simps)
  with Cons t show ?case by (simp add: unicode_def)
qed

text \<open>
  Identities never alias: two IMAP messages get one local id only if mailbox, UIDVALIDITY and UID
  all agree, so a UID the server hands out again under a new UIDVALIDITY names a new message; and
  neither such an id nor a Gmail id of another message is ever the id of a Gmail message.
\<close>

lemma imap_identities_never_alias:
  assumes "unicode m" and "unicode m'"
  shows "(imap_message_id m v u = imap_message_id m' v' u' \<longleftrightarrow> m = m' \<and> v = v' \<and> u = u') \<and>
    imap_message_id m v u \<noteq> gmail_message_id g \<and>
    (gmail_message_id g = gmail_message_id g' \<longleftrightarrow> g = g')"
proof (intro conjI)
  show "imap_message_id m v u = imap_message_id m' v' u' \<longleftrightarrow> m = m' \<and> v = v' \<and> u = u'"
  proof
    assume "imap_message_id m v u = imap_message_id m' v' u'"
    then have "show_nat (unat v) @ 58 # (show_nat (unat u) @ 58 # hex_encode (as_bytes m)) =
        show_nat (unat v') @ 58 # (show_nat (unat u') @ 58 # hex_encode (as_bytes m'))"
      by (simp add: imap_message_id_def)
    from colon_splits [OF show_nat_colon show_nat_colon this]
    have v: "v = v'" and rest: "show_nat (unat u) @ 58 # hex_encode (as_bytes m) =
        show_nat (unat u') @ 58 # hex_encode (as_bytes m')" by (simp_all add: word_unat_eq_iff)
    from colon_splits [OF show_nat_colon show_nat_colon rest]
    have "u = u'" and "hex_encode (as_bytes m) = hex_encode (as_bytes m')"
      by (simp_all add: word_unat_eq_iff)
    with v assms show "m = m' \<and> v = v' \<and> u = u'"
      using hex_encode_inj as_bytes_bytes as_bytes_inj by blast
  qed simp
next
  have "hd (show_nat (unat v)) \<noteq> 103"
    using show_nat_digits [of "unat v"] hd_in_set [OF show_nat_nonempty, of "unat v"] by force
  moreover have "hd (show_nat (unat v) @ x) = hd (show_nat (unat v))" for x by simp
  ultimately show "imap_message_id m v u \<noteq> gmail_message_id g"
    unfolding imap_message_id_def gmail_message_id_def
    by (auto dest: arg_cong [where f = hd])
next
  show "gmail_message_id g = gmail_message_id g' \<longleftrightarrow> g = g'"
    by (simp add: gmail_message_id_def word_unat_eq_iff)
qed

lemma imap_identities_never_alias_example:
  "imap_message_id (L ''INBOX'') 1 7 \<noteq> imap_message_id (L ''INBOX'') 2 7"
  using imap_identities_never_alias [of "L ''INBOX''" "L ''INBOX''" 1 7 2 7] by (simp add: unicode_def)

lemma hex_encode_Nil [simp]: "hex_encode [] = []"
  by (simp add: hex_encode_def)

subsection \<open>When a delta is planned\<close>

text \<open>The plans that trust the stored state and fetch only changes.\<close>

definition is_delta :: "ImapMailboxSyncPlan \<Rightarrow> bool" where
  "is_delta plan \<longleftrightarrow> (\<forall>reason. plan \<noteq> FullSnapshot reason)"

text \<open>
  A delta is planned only over a completed snapshot of the same UIDVALIDITY epoch, from the stored
  MODSEQ, when the server still reports one; and the UID-only delta is never planned.
\<close>

lemma delta_plan_is_sound:
  "is_delta (plan_imap_mailbox_sync capabilities provider stored selected) \<longleftrightarrow>
     (\<exists>st m. stored = Some st \<and> is_uid_validity st = se_uid_validity selected \<and>
        is_partial_initial_uid st = None \<and> is_highest_modseq st = Some m \<and>
        ip_required_full_sync_reason (pp_imap provider) = None \<and>
        se_highest_modseq selected \<noteq> None \<and>
        ((supports_qresync capabilities \<and> supports_enable capabilities \<and>
          plan_imap_mailbox_sync capabilities provider stored selected =
            QresyncDelta (se_uid_validity selected) m (is_highest_uid st)) \<or>
         (supports_condstore capabilities \<and>
          \<not> (supports_qresync capabilities \<and> supports_enable capabilities) \<and>
          plan_imap_mailbox_sync capabilities provider stored selected =
            CondstoreDelta m (is_highest_uid st))))"
  by (auto simp: plan_imap_mailbox_sync_def is_delta_def state_is_valid_for_def Let_def
      split: option.splits)

lemma partial_snapshot_is_resumed:
  "is_uid_validity st = se_uid_validity selected \<Longrightarrow> is_partial_initial_uid st \<noteq> None \<Longrightarrow>
   plan_imap_mailbox_sync capabilities provider (Some st) selected = FullSnapshot ResumeInitialSync"
  by (simp add: plan_imap_mailbox_sync_def state_is_valid_for_def)

end
