(* ===== verification/Unsubscribe.thy ===== *)
theory Unsubscribe
  imports OutboxModel
begin

text \<open>
  The unsubscribe targets of a message, \<open>crates/posthaste-domain-model/src/model/unsubscribe.rs\<close>, and
  the metadata every ingest path derives from a parsed message,
  \<open>crates/posthaste-domain-service/src/message_metadata.rs\<close>. What the \<open>mail_parser\<close> crate returns for
  a message is the record \<open>ParsedMessage\<close>. The code slices strings at fixed byte indices; a slice
  inside a multi-byte character panics, which is the outer \<open>None\<close> of the results.
\<close>

datatype UnsubscribeUrlError = NotHttps | NonAscii | HasUserinfo | IpLiteralHost | MalformedAuthority

definition printable :: "nat \<Rightarrow> bool" where
  "printable c \<longleftrightarrow> 33 \<le> c \<and> c \<le> 126"

definition host_char :: "nat \<Rightarrow> bool" where
  "host_char c \<longleftrightarrow> is_ascii_alphanumeric c \<or> c = 45 \<or> c = 46"

definition host_malformed :: "str \<Rightarrow> bool" where
  "host_malformed host \<longleftrightarrow>
     host = [] \<or> utf8_len host > 253 \<or> \<not> list_all host_char host \<or>
     (case host of c # _ \<Rightarrow> c = 45 \<or> c = 46 | [] \<Rightarrow> False) \<or> last host = 45 \<or>
     contains_sub host (L ''..'')"

definition port_malformed :: "str \<Rightarrow> bool" where
  "port_malformed port \<longleftrightarrow> port = [] \<or> \<not> list_all is_digit port \<or> utf8_len port > 5"

definition authority_of :: "str \<Rightarrow> str" where
  "authority_of rest = takeWhile (\<lambda>c. c \<notin> {47, 63, 35}) rest"

definition validate_authority :: "str \<Rightarrow> (UnsubscribeUrlError, unit) result" where
  "validate_authority authority =
     (if 64 \<in> set authority then Inl HasUserinfo
      else if 91 \<in> set authority \<or> 93 \<in> set authority then Inl IpLiteralHost
      else (case (case split_once 58 authority of Some (h, p) \<Rightarrow> (h, Some p) | None \<Rightarrow> (authority, None)) of
        (host, port) \<Rightarrow>
          if (case port of Some p \<Rightarrow> port_malformed p | None \<Rightarrow> False) then Inl MalformedAuthority
          else if host_malformed host then Inl MalformedAuthority
          else if list_all (\<lambda>c. is_digit c \<or> c = 46) host then Inl IpLiteralHost
          else Inr ()))"

definition validate_one_click_https :: "str \<Rightarrow> (UnsubscribeUrlError, unit) result option" where
  "validate_one_click_https uri =
     (if utf8_len uri < 9 then Some (Inl NotHttps)
      else (case byte_prefix 8 uri of
        None \<Rightarrow> None
      | Some scheme \<Rightarrow>
          if \<not> eq_ignore_ascii_case scheme (L ''https://'') then Some (Inl NotHttps)
          else if \<not> list_all printable uri then Some (Inl NonAscii)
          else Some (validate_authority (authority_of (drop 8 uri)))))"

definition valid_mail_address :: "str \<Rightarrow> bool" where
  "valid_mail_address addr = (case split_once 64 addr of
     Some (local, domain) \<Rightarrow> local \<noteq> [] \<and> domain \<noteq> [] \<and> 64 \<notin> set domain
   | None \<Rightarrow> False)"

definition is_valid_mailto :: "str \<Rightarrow> bool option" where
  "is_valid_mailto uri =
     (if utf8_len uri \<le> 7 then Some False
      else (case byte_prefix 7 uri of
        None \<Rightarrow> None
      | Some scheme \<Rightarrow>
          if \<not> eq_ignore_ascii_case scheme (L ''mailto:'') then Some False
          else if \<not> list_all printable uri then Some False
          else (let to = takeWhile (\<lambda>c. c \<noteq> 63) (drop 7 uri)
                in Some (to \<noteq> [] \<and> list_all valid_mail_address (split_on 44 to)))))"

text \<open>One bracketed entry: the first valid target of each kind is kept.\<close>

definition keep_target :: "str \<Rightarrow> str option \<times> str option \<Rightarrow> (str option \<times> str option) option" where
  "keep_target uri found = (case found of (https, mailto) \<Rightarrow>
     (case (if https = None then map_option (\<lambda>r. r = Inr ()) (validate_one_click_https uri)
            else Some False) of
        None \<Rightarrow> None
      | Some True \<Rightarrow> Some (Some uri, mailto)
      | Some False \<Rightarrow>
          (case (if mailto = None then is_valid_mailto uri else Some False) of
             None \<Rightarrow> None
           | Some True \<Rightarrow> Some (https, Some uri)
           | Some False \<Rightarrow> Some found)))"

function scan_targets :: "str \<Rightarrow> str option \<times> str option \<Rightarrow> (str option \<times> str option) option" where
  "scan_targets rest found = (case split_once 60 rest of
     None \<Rightarrow> Some found
   | Some (_, after) \<Rightarrow> (case split_once 62 after of
       None \<Rightarrow> Some found
     | Some (inner, rest') \<Rightarrow>
         (case keep_target (filter (\<lambda>c. \<not> is_whitespace c) inner) found of
            None \<Rightarrow> None
          | Some (Some https, Some mailto) \<Rightarrow> Some (Some https, Some mailto)
          | Some found' \<Rightarrow> scan_targets rest' found')))"
  by pat_completeness auto
termination
  by (relation "measure (\<lambda>(rest, _). length rest)") (auto simp: split_once_Some)

declare scan_targets.simps [simp del]

definition one_click_header :: "str \<Rightarrow> bool" where
  "one_click_header v \<longleftrightarrow>
     eq_ignore_ascii_case (trim (filter (\<lambda>c. c \<noteq> 13 \<and> c \<noteq> 10) v)) (L ''List-Unsubscribe=One-Click'')"

definition parse_list_unsubscribe :: "str \<Rightarrow> str option \<Rightarrow> ListUnsubscribe option option" where
  "parse_list_unsubscribe header post_header = (case scan_targets header (None, None) of
     None \<Rightarrow> None
   | Some (https, mailto) \<Rightarrow> Some
       (if https = None \<and> mailto = None then None
        else Some \<lparr>lu_https = https, lu_mailto = mailto,
          lu_one_click = https \<noteq> None \<and>
            (case post_header of Some v \<Rightarrow> one_click_header v | None \<Rightarrow> False)\<rparr>))"

subsection \<open>Derived message metadata\<close>

text \<open>What the parser crate returns: raw headers as text, address headers as name and address.\<close>

type_synonym address = "str option \<times> str option"

record ParsedMessage =
  pm_message_id :: "str option"
  pm_in_reply_to :: "str option"
  pm_references :: "str list"
  pm_raw_header :: "str \<Rightarrow> str option"
  pm_from :: "address list"
  pm_to :: "address list"
  pm_cc :: "address list"
  pm_bcc :: "address list"
  pm_reply_to :: "address list"
  pm_subject :: "str option"
  pm_date_rfc3339_utc :: "str option"

record DerivedMessageMetadata =
  dv_cc :: "Recipient list"
  dv_bcc :: "Recipient list"
  dv_reply_to :: "Recipient list"
  dv_list_unsubscribe :: "ListUnsubscribe option"

definition metadata_is_empty :: "DerivedMessageMetadata \<Rightarrow> bool" where
  "metadata_is_empty d \<longleftrightarrow> dv_cc d = [] \<and> dv_bcc d = [] \<and> dv_reply_to d = [] \<and> dv_list_unsubscribe d = None"

definition recipients_from :: "address list \<Rightarrow> Recipient list" where
  "recipients_from addresses =
     List.map_filter (\<lambda>(name, addr). map_option (\<lambda>email. \<lparr>rc_name = name, rc_email = email\<rparr>) addr) addresses"

definition list_unsubscribe_from_parsed :: "ParsedMessage \<Rightarrow> ListUnsubscribe option option" where
  "list_unsubscribe_from_parsed parsed = (case pm_raw_header parsed (L ''List-Unsubscribe'') of
     None \<Rightarrow> Some None
   | Some header \<Rightarrow>
       parse_list_unsubscribe header (pm_raw_header parsed (L ''List-Unsubscribe-Post'')))"

definition derive_message_metadata_from_parsed :: "ParsedMessage \<Rightarrow> DerivedMessageMetadata option" where
  "derive_message_metadata_from_parsed parsed =
     map_option (\<lambda>unsubscribe.
        \<lparr>dv_cc = recipients_from (pm_cc parsed), dv_bcc = recipients_from (pm_bcc parsed),
         dv_reply_to = recipients_from (pm_reply_to parsed), dv_list_unsubscribe = unsubscribe\<rparr>)
       (list_unsubscribe_from_parsed parsed)"

definition derive_message_metadata ::
  "('raw \<Rightarrow> ParsedMessage option) \<Rightarrow> 'raw \<Rightarrow> DerivedMessageMetadata option option" where
  "derive_message_metadata parse raw_mime = (case parse raw_mime of
     None \<Rightarrow> Some None
   | Some parsed \<Rightarrow> map_option Some (derive_message_metadata_from_parsed parsed))"

subsection \<open>What a stored target is\<close>

text \<open>
  The address a browser or an HTTP client would contact: a scheme, a DNS-like host that is no IP
  literal, an optional numeric port, and a path, query or fragment. No userinfo can hide the host.
\<close>

definition https_target :: "str \<Rightarrow> bool" where
  "https_target t \<longleftrightarrow> list_all printable t \<and>
     (\<exists>scheme host port tail. t = scheme @ host @ port @ tail \<and>
        to_ascii_lowercase scheme = L ''https://'' \<and>
        host \<noteq> [] \<and> list_all host_char host \<and> list_ex (\<lambda>c. \<not> is_digit c \<and> c \<noteq> 46) host \<and>
        (port = [] \<or> (\<exists>ds. port = 58 # ds \<and> ds \<noteq> [] \<and> list_all is_digit ds \<and> length ds \<le> 5)) \<and>
        (tail = [] \<or> hd tail \<in> {47, 63, 35}))"

definition mailto_target :: "str \<Rightarrow> bool" where
  "mailto_target t \<longleftrightarrow> list_all printable t \<and>
     (\<exists>scheme to. t = scheme @ to \<and> to_ascii_lowercase scheme = L ''mailto:'' \<and> to \<noteq> [] \<and>
        list_all valid_mail_address (split_on 44 (takeWhile (\<lambda>c. c \<noteq> 63) to)))"

lemma lower_https: "to_ascii_lowercase (L ''https://'') = L ''https://''"
  by (simp add: to_ascii_lowercase_def ascii_lower_def)

lemma lower_mailto: "to_ascii_lowercase (L ''mailto:'') = L ''mailto:''"
  by (simp add: to_ascii_lowercase_def ascii_lower_def)

lemma drop_scheme:
  assumes "byte_prefix n uri = Some scheme" and "to_ascii_lowercase scheme = L lit" and "length lit = n"
  shows "uri = scheme @ drop n uri"
proof -
  from assms(2) have "length scheme = length lit"
    by (metis length_map to_ascii_lowercase_def L_def)
  then show ?thesis using byte_prefix_Some [OF assms(1)] assms(3) by auto
qed

lemma takeWhile_tail: "s = takeWhile P s @ dropWhile P s \<and> (dropWhile P s = [] \<or> \<not> P (hd (dropWhile P s)))"
  using hd_dropWhile [of P s] by (cases "dropWhile P s = []") auto

lemma validated_authority:
  assumes "validate_authority authority = Inr ()"
  shows "\<exists>host port. authority = host @ port \<and> host \<noteq> [] \<and> list_all host_char host \<and>
      list_ex (\<lambda>c. \<not> is_digit c \<and> c \<noteq> 46) host \<and>
      (port = [] \<or> (\<exists>ds. port = 58 # ds \<and> ds \<noteq> [] \<and> list_all is_digit ds \<and> length ds \<le> 5))"
proof (cases "split_once 58 authority")
  case None
  with assms show ?thesis
    by (intro exI [of _ authority] exI [of _ "[]"])
      (auto simp: validate_authority_def host_malformed_def list_ex_iff list_all_iff split: if_splits)
next
  case (Some hp)
  obtain host ds where hp: "hp = (host, ds)" by (cases hp)
  with Some have "authority = host @ 58 # ds" by (simp add: split_once_Some)
  moreover have "length ds \<le> 5" if "utf8_len ds \<le> 5" using utf8_len_ge_length [of ds] that by simp
  ultimately show ?thesis using assms Some hp
    by (intro exI [of _ host] exI [of _ "58 # ds"])
      (auto simp: validate_authority_def host_malformed_def port_malformed_def list_ex_iff list_all_iff
        split: if_splits)
qed

lemma validated_https:
  assumes "validate_one_click_https uri = Some (Inr ())"
  shows "https_target uri"
proof -
  from assms obtain scheme where p: "byte_prefix 8 uri = Some scheme"
    and s: "to_ascii_lowercase scheme = L ''https://''" and pr: "list_all printable uri"
    and v: "validate_authority (authority_of (drop 8 uri)) = Inr ()"
    by (auto simp: validate_one_click_https_def eq_ignore_ascii_case_def lower_https simp del: L_simps
        split: if_splits option.splits)
  have "uri = scheme @ drop 8 uri" by (rule drop_scheme [OF p s]) simp
  moreover obtain tail where t: "drop 8 uri = authority_of (drop 8 uri) @ tail"
    "tail = [] \<or> hd tail \<in> {47, 63, 35}"
    using takeWhile_tail [of "drop 8 uri" "\<lambda>c. c \<notin> {47, 63, 35}"] unfolding authority_of_def by blast
  moreover from validated_authority [OF v] obtain host port where
    a: "authority_of (drop 8 uri) = host @ port" "host \<noteq> []" "list_all host_char host"
      "list_ex (\<lambda>c. \<not> is_digit c \<and> c \<noteq> 46) host"
      "port = [] \<or> (\<exists>ds. port = 58 # ds \<and> ds \<noteq> [] \<and> list_all is_digit ds \<and> length ds \<le> 5)"
    by blast
  ultimately have "uri = scheme @ host @ port @ tail" by (metis append.assoc)
  with s a t(2) pr show ?thesis unfolding https_target_def by blast
qed

lemma validated_mailto:
  assumes "is_valid_mailto uri = Some True"
  shows "mailto_target uri"
proof -
  from assms obtain scheme where p: "byte_prefix 7 uri = Some scheme"
    and s: "to_ascii_lowercase scheme = L ''mailto:''" and pr: "list_all printable uri"
    and v: "takeWhile (\<lambda>c. c \<noteq> 63) (drop 7 uri) \<noteq> []"
      "list_all valid_mail_address (split_on 44 (takeWhile (\<lambda>c. c \<noteq> 63) (drop 7 uri)))"
    by (auto simp: is_valid_mailto_def eq_ignore_ascii_case_def lower_mailto Let_def simp del: L_simps
        split: if_splits option.splits)
  have "uri = scheme @ drop 7 uri" by (rule drop_scheme [OF p s]) simp
  moreover have "drop 7 uri \<noteq> []" using v(1) by (metis takeWhile.simps(1))
  ultimately show ?thesis using s pr v(2) unfolding mailto_target_def by blast
qed

definition good_targets :: "str option \<times> str option \<Rightarrow> bool" where
  "good_targets found \<longleftrightarrow> (\<forall>t. fst found = Some t \<longrightarrow> https_target t) \<and> (\<forall>t. snd found = Some t \<longrightarrow> mailto_target t)"

lemma keep_target_good:
  "keep_target uri found = Some found' \<Longrightarrow> good_targets found \<Longrightarrow> good_targets found'"
  by (auto simp: keep_target_def good_targets_def dest!: validated_https validated_mailto
      split: prod.splits option.splits bool.splits if_splits)

lemma scan_targets_good:
  "scan_targets rest found = Some found' \<Longrightarrow> good_targets found \<Longrightarrow> good_targets found'"
proof (induction rest found rule: scan_targets.induct)
  case (1 rest found)
  show ?case
  proof (cases "split_once 60 rest")
    case None
    with "1.prems"(1) "1.prems"(2) show ?thesis by (simp add: scan_targets.simps [of rest])
  next
    case (Some p)
    obtain before after where p: "p = (before, after)" by (cases p)
    show ?thesis
    proof (cases "split_once 62 after")
      case None
      with Some p "1.prems"(1) "1.prems"(2) show ?thesis by (simp add: scan_targets.simps [of rest])
    next
      case e: (Some q)
      obtain inner rest' where q: "q = (inner, rest')" by (cases q)
      let ?uri = "filter (\<lambda>c. \<not> is_whitespace c) inner"
      from "1.prems"(1) Some p e q obtain found1 where k: "keep_target ?uri found = Some found1"
        by (cases "keep_target ?uri found") (simp_all add: scan_targets.simps [of rest])
      have good: "good_targets found1" using keep_target_good [OF k "1.prems"(2)] .
      obtain h m where f: "found1 = (h, m)" by (cases found1)
      show ?thesis
      proof (cases "h \<noteq> None \<and> m \<noteq> None")
        case True
        with "1.prems"(1) Some p e q k f good show ?thesis by (auto simp: scan_targets.simps [of rest])
      next
        case False
        then have go: "scan_targets rest' (h, m) = Some found'"
          using "1.prems"(1) Some p e q k f by (cases h; cases m) (simp_all add: scan_targets.simps [of rest])
        from False show ?thesis
        proof (cases h)
          case None
          from "1.IH"(1) [OF Some p [symmetric] e q [symmetric] k f [symmetric] None] go good f None
          show ?thesis by simp
        next
          case h: (Some t)
          with False have "m = None" by simp
          with "1.IH"(2) [OF Some p [symmetric] e q [symmetric] k f [symmetric] h] go good f h
          show ?thesis by simp
        qed
      qed
    qed
  qed
qed

lemma parsed_targets_good:
  assumes "parse_list_unsubscribe header post = Some (Some u)"
  shows "good_targets (lu_https u, lu_mailto u)" and "lu_https u \<noteq> None \<or> lu_mailto u \<noteq> None"
    and "lu_one_click u \<Longrightarrow> lu_https u \<noteq> None \<and> (\<exists>v. post = Some v \<and> one_click_header v)"
proof -
  from assms obtain https mailto where s: "scan_targets header (None, None) = Some (https, mailto)"
    by (auto simp: parse_list_unsubscribe_def split: option.splits)
  from scan_targets_good [OF s] have g: "good_targets (https, mailto)" by (simp add: good_targets_def)
  from assms s have u: "u = \<lparr>lu_https = https, lu_mailto = mailto,
      lu_one_click = https \<noteq> None \<and> (case post of Some v \<Rightarrow> one_click_header v | None \<Rightarrow> False)\<rparr>"
      "https \<noteq> None \<or> mailto \<noteq> None"
    by (auto simp: parse_list_unsubscribe_def split: if_splits)
  show "good_targets (lu_https u, lu_mailto u)" using g u(1) by simp
  show "lu_https u \<noteq> None \<or> lu_mailto u \<noteq> None" using u by simp
  show "lu_https u \<noteq> None \<and> (\<exists>v. post = Some v \<and> one_click_header v)" if "lu_one_click u"
    using that u(1) by (cases post) auto
qed

text \<open>
  C29. What the parser stores can be shown and contacted: an https target is a URL with a DNS-like
  host and no hidden authority part, a mailto target lists only \<open>local@domain\<close> recipients, at least
  one of the two is present, and one-click is set only for an https target of a sender that
  announced RFC 8058.
\<close>

theorem stored_unsubscribe_targets_are_safe:
  assumes "parse_list_unsubscribe header post = Some (Some u)"
  shows "(case lu_https u of Some t \<Rightarrow> https_target t | None \<Rightarrow> lu_mailto u \<noteq> None \<and> \<not> lu_one_click u) \<and>
    (case lu_mailto u of Some t \<Rightarrow> mailto_target t | None \<Rightarrow> lu_https u \<noteq> None) \<and>
    (\<not> lu_one_click u \<or> (\<exists>v. post = Some v \<and> one_click_header v))"
  using parsed_targets_good [OF assms] by (auto simp: good_targets_def split: option.splits)

lemmas unsubscribe_eval = split_once_def keep_target_def validate_one_click_https_def is_valid_mailto_def
  is_whitespace_def utf8_width_def validate_authority_def host_malformed_def authority_of_def
  port_malformed_def eq_ignore_ascii_case_def to_ascii_lowercase_def ascii_lower_def printable_def
  host_char_def is_ascii_alphanumeric_def is_digit_def starts_with_def valid_mail_address_def
  parse_list_unsubscribe_def one_click_header_def trim_def trim_start_def trim_end_def

lemma scan_example:
  "parse_list_unsubscribe (L ''<http://x.y>, <mailto:u@l.example>, < HTTPS://l.example/u?t=1 >'')
     (Some (L '' list-unsubscribe=one-click '')) =
   Some (Some \<lparr>lu_https = Some (L ''HTTPS://l.example/u?t=1''), lu_mailto = Some (L ''mailto:u@l.example''),
     lu_one_click = True\<rparr>)"
  by (simp add: unsubscribe_eval scan_targets.simps [of "60 # _"] scan_targets.simps [of "44 # _"])

theorem stored_unsubscribe_targets_are_safe_witness:
  "https_target (L ''HTTPS://l.example/u?t=1'') \<and> mailto_target (L ''mailto:u@l.example'')"
  using stored_unsubscribe_targets_are_safe [OF scan_example] by (simp del: L_simps)

subsection \<open>Slicing inside a character\<close>

lemma slice_inside_character:
  assumes "utf8_len w = n" and "128 \<le> c"
  shows "byte_prefix (Suc n) (w @ c # t) = None"
  using assms
proof (induction w arbitrary: n)
  case Nil
  then show ?case by (simp add: utf8_width_def)
next
  case (Cons x w)
  have "1 \<le> utf8_width x" using utf8_width_pos [of x] by simp
  moreover have "Suc n - utf8_width x = Suc (utf8_len w)" using Cons.prems(1) by simp
  ultimately show ?case using Cons.IH [OF refl Cons.prems(2)] Cons.prems(1) by simp
qed

lemma ascii_utf8_len: "list_all (\<lambda>x. x < 128) w \<Longrightarrow> utf8_len w = length w"
  by (induction w) (simp_all add: utf8_width_def)

lemma ascii_byte_prefix: "list_all (\<lambda>x. x < 128) w \<Longrightarrow> n \<le> length w \<Longrightarrow> byte_prefix n w = Some (take n w)"
  using byte_prefix_append [of "take n w" n "drop n w"] ascii_utf8_len [of "take n w"]
    list_all_append [of "\<lambda>x. x < 128" "take n w" "drop n w"] by simp

lemma ascii_header_never_panics:
  "list_all (\<lambda>x. x < 128) rest \<Longrightarrow> scan_targets rest found \<noteq> None"
proof (induction rest found rule: scan_targets.induct)
  case (1 rest found)
  have keep: "\<exists>found'. keep_target uri found = Some found'" if "list_all (\<lambda>x. x < 128) uri" for uri found
    using that ascii_utf8_len [OF that] ascii_byte_prefix [OF that, of 8] ascii_byte_prefix [OF that, of 7]
    by (cases found)
      (auto simp: keep_target_def validate_one_click_https_def is_valid_mailto_def Let_def simp del: L_simps
        split: bool.splits)
  show ?case
  proof (cases "split_once 60 rest")
    case None
    then show ?thesis by (simp add: scan_targets.simps [of rest])
  next
    case p: (Some p)
    obtain before after where pe: "p = (before, after)" by (cases p)
    show ?thesis
    proof (cases "split_once 62 after")
      case None
      with p pe show ?thesis by (simp add: scan_targets.simps [of rest])
    next
      case q: (Some q)
      obtain inner rest' where qe: "q = (inner, rest')" by (cases q)
      have ascii: "list_all (\<lambda>x. x < 128) rest'" "list_all (\<lambda>x. x < 128) (filter (\<lambda>c. \<not> is_whitespace c) inner)"
        using "1.prems" p pe q qe by (auto simp: split_once_Some list_all_iff)
      from keep [OF ascii(2)] obtain h m where
        k: "keep_target (filter (\<lambda>c. \<not> is_whitespace c) inner) found = Some (h, m)" by fastforce
      show ?thesis
      proof (cases h)
        case None
        from "1.IH"(1) [OF p pe [symmetric] q qe [symmetric] k refl None ascii(1)]
        show ?thesis using p pe q qe k None by (simp add: scan_targets.simps [of rest])
      next
        case h: (Some t)
        show ?thesis
        proof (cases m)
          case None
          from "1.IH"(2) [OF p pe [symmetric] q qe [symmetric] k refl h None ascii(1)]
          show ?thesis using p pe q qe k h None by (simp add: scan_targets.simps [of rest])
        next
          case (Some t')
          then show ?thesis using p pe q qe k h by (simp add: scan_targets.simps [of rest])
        qed
      qed
    qed
  qed
qed

lemma unicode_header_panics:
  assumes "length w = 7" and "list_all printable w" and "62 \<notin> set w"
    and "128 \<le> c" and "\<not> is_whitespace c"
  shows "parse_list_unsubscribe (60 # w @ [c, 62]) post = None"
proof -
  have ascii: "list_all (\<lambda>x. x < 128) w" and ws: "filter (\<lambda>c. \<not> is_whitespace c) w = w"
    using assms(2) by (auto simp: list_all_iff printable_def is_whitespace_def intro!: filter_True)
  have len: "utf8_len w = 7" using ascii_utf8_len [OF ascii] assms(1) by simp
  have "byte_prefix (Suc 7) (w @ c # []) = None" by (rule slice_inside_character [OF len assms(4)])
  moreover have "2 \<le> utf8_width c" using assms(4) by (simp add: utf8_width_def)
  ultimately have "validate_one_click_https (w @ [c]) = None"
    using len by (simp add: validate_one_click_https_def)
  then have keep: "keep_target (w @ [c]) (None, None) = None" by (simp add: keep_target_def)
  have "split_once 60 (60 # w @ [c, 62]) = Some ([], w @ [c, 62])" by (simp add: split_once_Some)
  moreover have "split_once 62 (w @ [c, 62]) = Some (w @ [c], [])"
    using assms(3,4) by (auto simp: split_once_Some)
  ultimately show ?thesis using keep ws assms(5)
    by (simp add: parse_list_unsubscribe_def scan_targets.simps [of "60 # _"])
qed

text \<open>
  A bracketed entry of seven printable ASCII characters followed by a character outside ASCII
  makes the fixed eight byte slice of the scheme test end inside that character: the parser panics
  on the header a remote sender chose, while it never panics on an ASCII header.
\<close>

lemma unicode_unsubscribe_header_panics:
  assumes "length w = 7" and "list_all printable w" and "62 \<notin> set w"
    and "128 \<le> c" and "\<not> is_whitespace c" and "list_all (\<lambda>x. x < 128) ascii"
  shows "parse_list_unsubscribe (60 # w @ [c, 62]) post = None \<and> parse_list_unsubscribe ascii post \<noteq> None"
  using unicode_header_panics [OF assms(1-5)] ascii_header_never_panics [OF assms(6)]
  by (auto simp: parse_list_unsubscribe_def split: option.splits)

lemma unicode_unsubscribe_header_panics_example:
  "parse_list_unsubscribe (60 # L ''mailto:'' @ [233, 62]) None = None \<and>
    parse_list_unsubscribe (L ''<mailto:>'') None \<noteq> None"
  using unicode_unsubscribe_header_panics [of "L ''mailto:''" 233 "L ''<mailto:>''" None]
  by (simp add: printable_def is_whitespace_def)

end
