(* ===== verification/ImapProject.thy ===== *)
theory ImapProject
  imports ImapPlan Unsubscribe SyncStore "HOL-Library.Multiset"
begin

text \<open>
  How fetched IMAP headers become domain records and sync batches, \<open>crates/posthaste-imap/src\<close>:
  the adapter errors and their gateway mapping (\<open>error.rs\<close>, \<open>gateway/utils.rs\<close>), header mapping and
  flags (\<open>message.rs\<close>, \<open>mutation/keywords.rs\<close>), the canonicalization of Gmail copies
  (\<open>provider.rs\<close>, \<open>provider/\<close>), the deletion and membership arithmetic of a delta
  (\<open>sync/projection.rs\<close>, \<open>sync/deletions.rs\<close>, \<open>sync/cursors.rs\<close>) and the batch builders
  (\<open>sync.rs\<close>). Parameters: \<open>hex\<close>, the encoder of the hex crate; \<open>parse\<close>, the mail parser; \<open>flag_of\<close>,
  the flag parser of the protocol crate. A \<open>BTreeMap\<close> is an association list read back in key order.
\<close>

subsection \<open>Ordered maps\<close>

definition bt_entry :: "'k \<Rightarrow> 'v \<Rightarrow> ('v \<Rightarrow> 'v) \<Rightarrow> ('k \<times> 'v) list \<Rightarrow> ('k \<times> 'v) list" where
  "bt_entry k d f m = AList.update k (f (case map_of m k of Some v \<Rightarrow> v | None \<Rightarrow> d)) m"

definition bt_values :: "('k::linorder \<times> 'v) list \<Rightarrow> 'v list" where
  "bt_values m = map snd (sort_key fst m)"

subsection \<open>Adapter errors\<close>

datatype ImapAdapterError =
    MissingTransport | MissingSmtpTransport | MissingUsername | MissingSmtpSenderEmail | MissingSecret
  | AuthFailed str
  | Client str
  | InvalidMailboxName str
  | MissingSelectData str
  | UidValidityMismatch str ImapUidValidity ImapUidValidity
  | MissingFetchData str
  | InvalidUidSequence str
  | InvalidModSeq ImapModSeq
  | InvalidKeywordFlag str str
  | MissingMessageLocation str
  | InvalidBlobId str
  | ParseMessageHeaders
  | ParseMessageBody
  | MissingAttachment str nat
  | InvalidSmtpAddress str str
  | BuildSmtpMessage str
  | Smtp str
  | SmtpDispatchUncertain str
  | TimedOut str

fun adapter_display :: "ImapAdapterError \<Rightarrow> str" where
  "adapter_display MissingTransport = L ''missing IMAP transport settings''"
| "adapter_display MissingSmtpTransport = L ''missing SMTP transport settings''"
| "adapter_display MissingUsername = L ''missing IMAP username''"
| "adapter_display MissingSmtpSenderEmail =
     L ''missing concrete SMTP sender email; configure email_patterns with an address''"
| "adapter_display MissingSecret = L ''missing IMAP secret''"
| "adapter_display (AuthFailed m) = L ''IMAP authentication error: '' @ m"
| "adapter_display (Client m) = L ''IMAP client error: '' @ m"
| "adapter_display (InvalidMailboxName m) = L ''invalid IMAP mailbox name: '' @ m"
| "adapter_display (MissingSelectData m) = L ''IMAP SELECT/EXAMINE response missing '' @ m"
| "adapter_display (UidValidityMismatch name expected actual) =
     L ''IMAP UIDVALIDITY changed for '' @ name @ L '': expected '' @ show_nat (unat expected) @
     L '', got '' @ show_nat (unat actual)"
| "adapter_display (MissingFetchData m) = L ''IMAP FETCH response missing '' @ m"
| "adapter_display (InvalidUidSequence m) = L ''invalid IMAP UID sequence set: '' @ m"
| "adapter_display (InvalidModSeq m) = L ''invalid IMAP MODSEQ: '' @ show_nat (unat m)"
| "adapter_display (InvalidKeywordFlag k r) = L ''invalid IMAP keyword flag '' @ k @ L '': '' @ r"
| "adapter_display (MissingMessageLocation m) = L ''missing IMAP message location for mailbox '' @ m"
| "adapter_display (InvalidBlobId m) = L ''invalid IMAP blob id: '' @ m"
| "adapter_display ParseMessageHeaders = L ''could not parse RFC 5322 message headers''"
| "adapter_display ParseMessageBody = L ''could not parse RFC 5322 message body''"
| "adapter_display (MissingAttachment m i) =
     L ''IMAP attachment '' @ show_nat i @ L '' is missing from message '' @ m"
| "adapter_display (InvalidSmtpAddress a r) = L ''invalid SMTP email address '' @ a @ L '': '' @ r"
| "adapter_display (BuildSmtpMessage m) = L ''could not build SMTP message: '' @ m"
| "adapter_display (Smtp m) = L ''SMTP transport error: '' @ m"
| "adapter_display (SmtpDispatchUncertain m) = L ''SMTP send dispatch uncertain: '' @ m"
| "adapter_display (TimedOut operation) =
     L ''IMAP '' @ operation @ L '' did not complete within the deadline''"

definition imap_error_to_gateway :: "ImapAdapterError \<Rightarrow> 'r GatewayError" where
  "imap_error_to_gateway error = (case error of
     UidValidityMismatch _ _ _ \<Rightarrow> StateMismatch
   | AuthFailed _ \<Rightarrow> Auth
   | TimedOut operation \<Rightarrow> Network (operation @ L '' timed out'')
   | Client message \<Rightarrow> Network message
   | Smtp message \<Rightarrow> Network message
   | SmtpDispatchUncertain message \<Rightarrow> SendDispatchUncertain message
   | _ \<Rightarrow> Rejected (adapter_display error))"

definition store_error_to_gateway :: "StoreError \<Rightarrow> 'r GatewayError" where
  "store_error_to_gateway error = (case error of
     StCorruption _ \<Rightarrow>
       Corruption (L ''IMAP local state lookup hit a corrupt store: '' @ store_display error)
   | _ \<Rightarrow> Rejected (L ''IMAP local state lookup failed: '' @ store_display error))"

text \<open>A computation of the adapter fails with an adapter error or panics.\<close>

datatype fault = Failed ImapAdapterError | Panicked

subsection \<open>Keywords and flags\<close>

datatype SystemKeyword = SkSeen | SkDraft | SkFlagged | SkAnswered | SkForwarded

definition system_keyword_str :: "SystemKeyword \<Rightarrow> str" where
  "system_keyword_str k = (case k of
     SkSeen \<Rightarrow> L ''$seen'' | SkDraft \<Rightarrow> L ''$draft'' | SkFlagged \<Rightarrow> L ''$flagged''
   | SkAnswered \<Rightarrow> L ''$answered'' | SkForwarded \<Rightarrow> L ''$forwarded'')"

definition parse_system_keyword :: "str \<Rightarrow> SystemKeyword option" where
  "parse_system_keyword s =
     (if s = L ''$seen'' then Some SkSeen
      else if s = L ''$draft'' then Some SkDraft
      else if s = L ''$flagged'' then Some SkFlagged
      else if s = L ''$answered'' then Some SkAnswered
      else if s = L ''$forwarded'' then Some SkForwarded
      else None)"

text \<open>\<open>imap_types::flag::Flag\<close>; \<open>flag_of\<close> is its \<open>TryFrom<&str>\<close>.\<close>

datatype ImapFlag = FlAnswered | FlDeleted | FlDraft | FlFlagged | FlSeen | FlExtension str | FlKeyword str

type_synonym flag_parser = "str \<Rightarrow> (str, ImapFlag) result"

definition IMAP_FLAG_FORWARDED :: str where
  "IMAP_FLAG_FORWARDED = bs ''Forwarded''"

definition imap_system_flag_keyword :: "flag_parser \<Rightarrow> str \<Rightarrow> SystemKeyword option" where
  "imap_system_flag_keyword flag_of flag =
     (if eq_ignore_ascii_case flag IMAP_FLAG_FORWARDED then Some SkForwarded
      else (case flag_of flag of
        Inr FlSeen \<Rightarrow> Some SkSeen
      | Inr FlFlagged \<Rightarrow> Some SkFlagged
      | Inr FlAnswered \<Rightarrow> Some SkAnswered
      | Inr FlDraft \<Rightarrow> Some SkDraft
      | _ \<Rightarrow> None))"

definition flag_keyword :: "flag_parser \<Rightarrow> str \<Rightarrow> str option" where
  "flag_keyword flag_of flag = (case imap_system_flag_keyword flag_of flag of
     Some keyword \<Rightarrow> Some (system_keyword_str keyword)
   | None \<Rightarrow> if \<not> starts_with flag [92] then Some flag else None)"

definition imap_flag_keywords :: "flag_parser \<Rightarrow> str list \<Rightarrow> str list" where
  "imap_flag_keywords flag_of flags =
     remdups_adj (sort (List.map_filter (flag_keyword flag_of) flags))"

definition imap_flags_include_deleted :: "str list \<Rightarrow> bool" where
  "imap_flags_include_deleted flags \<longleftrightarrow>
     list_ex (\<lambda>flag. eq_ignore_ascii_case flag (bs ''Deleted'')) flags"

text \<open>The forwarded flag is parsed with \<open>expect\<close>: a refusal is a panic.\<close>

definition imap_flag_for_system_keyword :: "flag_parser \<Rightarrow> SystemKeyword \<Rightarrow> (fault, ImapFlag) result" where
  "imap_flag_for_system_keyword flag_of keyword = (case keyword of
     SkSeen \<Rightarrow> Inr FlSeen | SkFlagged \<Rightarrow> Inr FlFlagged | SkAnswered \<Rightarrow> Inr FlAnswered
   | SkDraft \<Rightarrow> Inr FlDraft
   | SkForwarded \<Rightarrow>
       (case flag_of IMAP_FLAG_FORWARDED of Inr flag \<Rightarrow> Inr flag | Inl _ \<Rightarrow> Inl Panicked))"

definition imap_flag_for_keyword :: "flag_parser \<Rightarrow> str \<Rightarrow> (fault, ImapFlag) result" where
  "imap_flag_for_keyword flag_of keyword =
     (case parse_system_keyword (to_ascii_lowercase keyword) of
        Some system_keyword \<Rightarrow> imap_flag_for_system_keyword flag_of system_keyword
      | None \<Rightarrow> (case flag_of keyword of
          Inr flag \<Rightarrow> Inr flag
        | Inl reason \<Rightarrow> Inl (Failed (InvalidKeywordFlag keyword reason))))"

definition imap_flags_for_keywords :: "flag_parser \<Rightarrow> str list \<Rightarrow> (fault, ImapFlag list) result" where
  "imap_flags_for_keywords flag_of keywords = sequence (map (imap_flag_for_keyword flag_of) keywords)"

record ImapMailboxReplacementDelta =
  rd_add :: "str list"
  rd_remove :: "str list"

definition imap_mailbox_replacement_delta :: "str list \<Rightarrow> str list \<Rightarrow> ImapMailboxReplacementDelta" where
  "imap_mailbox_replacement_delta current target =
     \<lparr>rd_add = bt_collect (set target - set current), rd_remove = bt_collect (set current - set target)\<rparr>"

subsection \<open>Mapping one header\<close>

record ImapGmailMetadata =
  gm_message_id :: "64 word option"
  gm_thread_id :: "64 word option"
  gm_labels_observed :: bool
  gm_labels :: "str list"

definition gmail_metadata_default :: ImapGmailMetadata where
  "gmail_metadata_default =
     \<lparr>gm_message_id = None, gm_thread_id = None, gm_labels_observed = False, gm_labels = []\<rparr>"

record ImapFetchedHeader =
  fh_mailbox_id :: str
  fh_uid :: ImapUid
  fh_modseq :: "ImapModSeq option"
  fh_flags :: "str list"
  fh_rfc822_size :: int
  fh_has_attachment :: bool
  fh_headers :: "nat list"
  fh_updated_at :: str

datatype ImapMailboxMembershipSource = SelectedMailbox | ProviderLabels

record ImapMappedHeader =
  mh_message :: MessageRecord
  mh_location :: ImapMessageLocation
  mh_gmail_labels :: "str list option"
  mh_source :: ImapMailboxMembershipSource
  mh_absent :: "str list"

record ImapFetchedHeaderWithMetadata =
  fm_header :: ImapFetchedHeader
  fm_gmail :: ImapGmailMetadata

definition imap_thread_id :: "(nat list \<Rightarrow> str) \<Rightarrow> str \<Rightarrow> str option \<Rightarrow> str list \<Rightarrow> str" where
  "imap_thread_id hex message_id rfc_message_id refs =
     (let root = (case refs of r # _ \<Rightarrow> r
                  | [] \<Rightarrow> (case rfc_message_id of Some r \<Rightarrow> r | None \<Rightarrow> message_id))
      in L ''imap:thread:'' @ hex (as_bytes root))"

definition draft_id_header :: "ParsedMessage \<Rightarrow> str option" where
  "draft_id_header parsed = (case pm_raw_header parsed (L ''X-Posthaste-Draft-Id'') of
     None \<Rightarrow> None
   | Some raw \<Rightarrow> if trim raw = [] then None else Some (trim raw))"

definition RFC3339_EPOCH :: str where
  "RFC3339_EPOCH = L ''1970-01-01T00:00:00Z''"

text \<open>The two libraries the mapping of a header uses, and the hex encoder.\<close>

record ImapLibs =
  lb_hex :: "nat list \<Rightarrow> str"
  lb_parse :: "nat list \<Rightarrow> ParsedMessage option"
  lb_flag_of :: flag_parser

definition imap_header_message_record_with_gmail_metadata ::
  "ImapLibs \<Rightarrow> ImapSelectedMailbox \<Rightarrow> ImapFetchedHeader \<Rightarrow> ImapGmailMetadata \<Rightarrow>
   (fault, ImapMappedHeader) result" where
  "imap_header_message_record_with_gmail_metadata libs selected fetched gmail =
     (case lb_parse libs (fh_headers fetched) of
        None \<Rightarrow> Inl (Failed ParseMessageHeaders)
      | Some parsed \<Rightarrow>
          (let message_id = (case gm_message_id gmail of
                 Some g \<Rightarrow> gmail_message_id g
               | None \<Rightarrow> imap_message_id (fh_mailbox_id fetched) (se_uid_validity selected) (fh_uid fetched));
               source_thread_id = (case gm_thread_id gmail of
                 Some g \<Rightarrow> gmail_thread_id g
               | None \<Rightarrow> imap_thread_id (lb_hex libs) message_id (pm_message_id parsed) (pm_references parsed));
               from_addr = (case pm_from parsed of a # _ \<Rightarrow> a | [] \<Rightarrow> (None, None))
           in case derive_message_metadata_from_parsed parsed of
             None \<Rightarrow> Inl Panicked
           | Some derived \<Rightarrow> Inr
               \<lparr>mh_message =
                  \<lparr>mr_id = message_id, mr_source_thread_id = source_thread_id, mr_remote_blob_id = None,
                   mr_subject = pm_subject parsed, mr_from_name = fst from_addr,
                   mr_from_email = snd from_addr, mr_to = recipients_from (pm_to parsed),
                   mr_cc = dv_cc derived, mr_bcc = dv_bcc derived, mr_reply_to = dv_reply_to derived,
                   mr_preview = None,
                   mr_received_at = (case pm_date_rfc3339_utc parsed of Some d \<Rightarrow> d | None \<Rightarrow> RFC3339_EPOCH),
                   mr_has_attachment = fh_has_attachment fetched, mr_size = fh_rfc822_size fetched,
                   mr_mailbox_ids = [fh_mailbox_id fetched],
                   mr_keywords = imap_flag_keywords (lb_flag_of libs) (fh_flags fetched),
                   mr_body_html = None, mr_body_text = None, mr_raw_mime = None,
                   mr_rfc_message_id = pm_message_id parsed, mr_in_reply_to = pm_in_reply_to parsed,
                   mr_references = pm_references parsed, mr_draft_id = draft_id_header parsed,
                   mr_list_unsubscribe = dv_list_unsubscribe derived\<rparr>,
                mh_location =
                  \<lparr>il_message_id = message_id, il_mailbox_id = fh_mailbox_id fetched,
                   il_uid_validity = se_uid_validity selected, il_uid = fh_uid fetched,
                   il_modseq = fh_modseq fetched, il_updated_at = fh_updated_at fetched\<rparr>,
                mh_gmail_labels = (if gm_labels_observed gmail then Some (gm_labels gmail) else None),
                mh_source = SelectedMailbox,
                mh_absent = []\<rparr>))"

definition imap_header_message_record ::
  "ImapLibs \<Rightarrow> ImapSelectedMailbox \<Rightarrow> ImapFetchedHeader \<Rightarrow> (fault, ImapMappedHeader) result" where
  "imap_header_message_record libs selected fetched =
     imap_header_message_record_with_gmail_metadata libs selected fetched gmail_metadata_default"

subsection \<open>Canonical messages\<close>

text \<open>\<open>sort_key\<close> of the order of message ids; the same message seen in several mailboxes is one group.\<close>

record CanonicalMessageGroup =
  cg_message :: MessageRecord
  cg_mailbox_ids :: "str set"
  cg_keywords :: "str set"
  cg_locations :: "ImapMessageLocation list"
  cg_labels_observed :: bool
  cg_absent :: "str set option"

definition group_new :: "MessageRecord \<Rightarrow> CanonicalMessageGroup" where
  "group_new message =
     \<lparr>cg_message = message, cg_mailbox_ids = {}, cg_keywords = {}, cg_locations = [],
      cg_labels_observed = False, cg_absent = None\<rparr>"

definition group_push :: "ImapMappedHeader \<Rightarrow> CanonicalMessageGroup \<Rightarrow> CanonicalMessageGroup" where
  "group_push mapped g =
     (let g = (if mh_source mapped = ProviderLabels
               then g\<lparr>cg_labels_observed := True,
                      cg_absent := Some (case cg_absent g of
                        Some current \<Rightarrow> current \<inter> set (mh_absent mapped)
                      | None \<Rightarrow> set (mh_absent mapped))\<rparr>
               else g)
      in g\<lparr>cg_mailbox_ids := cg_mailbox_ids g \<union> set (mr_mailbox_ids (mh_message mapped)),
           cg_keywords := cg_keywords g \<union> set (mr_keywords (mh_message mapped)),
           cg_locations := cg_locations g @ [mh_location mapped]\<rparr>)"

definition group_message :: "CanonicalMessageGroup \<Rightarrow> MessageRecord" where
  "group_message g = (cg_message g)\<lparr>mr_mailbox_ids := bt_collect (cg_mailbox_ids g),
                                    mr_keywords := bt_collect (cg_keywords g)\<rparr>"

definition group_into_headers :: "CanonicalMessageGroup \<Rightarrow> ImapMappedHeader list" where
  "group_into_headers g =
     map (\<lambda>location.
       \<lparr>mh_message = group_message g, mh_location = location, mh_gmail_labels = None,
        mh_source = (if cg_labels_observed g then ProviderLabels else SelectedMailbox),
        mh_absent = (case cg_absent g of Some absent \<Rightarrow> bt_collect absent | None \<Rightarrow> [])\<rparr>)
       (cg_locations g)"

definition retarget_header :: "str \<Rightarrow> ImapMappedHeader \<Rightarrow> ImapMappedHeader" where
  "retarget_header canonical_id header =
     header\<lparr>mh_message := (mh_message header)\<lparr>mr_id := canonical_id\<rparr>,
            mh_location := (mh_location header)\<lparr>il_message_id := canonical_id\<rparr>\<rparr>"

definition push_into_groups ::
  "ImapMappedHeader \<Rightarrow> (str \<times> CanonicalMessageGroup) list \<Rightarrow> (str \<times> CanonicalMessageGroup) list" where
  "push_into_groups header groups =
     bt_entry (mr_id (mh_message header)) (group_new (mh_message header)) (group_push header) groups"

definition headers_of_groups :: "(str \<times> CanonicalMessageGroup) list \<Rightarrow> ImapMappedHeader list" where
  "headers_of_groups groups = concat (map group_into_headers (bt_values groups))"

definition rfc5322_canonical_message_id :: "(nat list \<Rightarrow> str) \<Rightarrow> MessageRecord \<Rightarrow> str" where
  "rfc5322_canonical_message_id hex message = (case mr_rfc_message_id message of
     Some message_id \<Rightarrow>
       if message_id = [] then mr_id message
       else L ''imap:gmail:rfc822msgid:'' @ hex (as_bytes message_id)
   | None \<Rightarrow> mr_id message)"

definition rfc5322_project_headers ::
  "(nat list \<Rightarrow> str) \<Rightarrow> ImapMappedHeader list \<Rightarrow> ImapMappedHeader list" where
  "rfc5322_project_headers hex headers = headers_of_groups
     (fold (\<lambda>header. push_into_groups
              (retarget_header (rfc5322_canonical_message_id hex (mh_message header)) header))
        headers [])"

definition gmail_canonical_message_id :: "(nat list \<Rightarrow> str) \<Rightarrow> MessageRecord \<Rightarrow> str" where
  "gmail_canonical_message_id hex message =
     (if starts_with (mr_id message) (L ''imap:gmail:msgid:'') then mr_id message
      else rfc5322_canonical_message_id hex message)"

subsection \<open>Gmail labels\<close>

datatype GmailSystemLabel =
  LbAll | LbDrafts | LbImportant | LbInbox | LbSent | LbSpam | LbStarred | LbTrash

datatype GmailLabelKey = SystemLabel GmailSystemLabel | CustomLabel str

definition label_from_label :: "str \<Rightarrow> GmailSystemLabel option" where
  "label_from_label label =
     (let upper = to_ascii_uppercase label in
      if eq_ignore_ascii_case label (L ''INBOX'') then Some LbInbox
      else if upper = bs ''ALL'' then Some LbAll
      else if upper = bs ''DRAFTS'' then Some LbDrafts
      else if upper = L ''IMPORTANT'' then Some LbImportant
      else if upper = bs ''IMPORTANT'' then Some LbImportant
      else if upper = bs ''INBOX'' then Some LbInbox
      else if upper = bs ''SENT'' then Some LbSent
      else if upper = bs ''SPAM'' then Some LbSpam
      else if upper = bs ''STARRED'' then Some LbStarred
      else if upper = bs ''TRASH'' then Some LbTrash
      else None)"

definition label_from_mailbox_attribute :: "str \<Rightarrow> GmailSystemLabel option" where
  "label_from_mailbox_attribute attribute =
     (let upper = to_ascii_uppercase attribute in
      if upper = bs ''ALL'' then Some LbAll
      else if upper = bs ''DRAFTS'' then Some LbDrafts
      else if upper = bs ''FLAGGED'' then Some LbStarred
      else if upper = bs ''IMPORTANT'' then Some LbImportant
      else if upper = bs ''INBOX'' then Some LbInbox
      else if upper = bs ''JUNK'' then Some LbSpam
      else if upper = bs ''SENT'' then Some LbSent
      else if upper = bs ''SPAM'' then Some LbSpam
      else if upper = bs ''TRASH'' then Some LbTrash
      else None)"

definition absence_is_authoritative :: "GmailSystemLabel \<Rightarrow> bool" where
  "absence_is_authoritative label \<longleftrightarrow> label \<noteq> LbAll"

definition label_key :: "str \<Rightarrow> GmailLabelKey" where
  "label_key label = (case label_from_label label of
     Some system \<Rightarrow> SystemLabel system | None \<Rightarrow> CustomLabel label)"

definition gmail_mailbox_name_matches :: "str \<Rightarrow> str \<Rightarrow> bool" where
  "gmail_mailbox_name_matches mailbox_name expected_leaf \<longleftrightarrow>
     eq_ignore_ascii_case mailbox_name expected_leaf \<or>
     (case rsplit_once 47 mailbox_name of
        Some (_, leaf) \<Rightarrow> eq_ignore_ascii_case leaf expected_leaf | None \<Rightarrow> False)"

text \<open>The set of labels of a mailbox, listed in the order of the enum.\<close>

definition gmail_system_labels_for_mailbox :: "DiscoveredImapMailbox \<Rightarrow> GmailSystemLabel list" where
  "gmail_system_labels_for_mailbox mailbox =
     (let named = gmail_mailbox_name_matches (dm_name mailbox);
          attributes = List.map_filter label_from_mailbox_attribute (dm_attributes mailbox);
          has = (\<lambda>label. label \<in> set attributes \<or>
            (case label of
               LbInbox \<Rightarrow> eq_ignore_ascii_case (dm_name mailbox) (L ''INBOX'')
             | LbAll \<Rightarrow> named (L ''All Mail'')
             | LbDrafts \<Rightarrow> named (L ''Drafts'')
             | LbImportant \<Rightarrow> named (L ''Important'')
             | LbSent \<Rightarrow> named (L ''Sent'') \<or> named (L ''Sent Mail'')
             | LbSpam \<Rightarrow> named (L ''Spam'')
             | LbStarred \<Rightarrow> named (L ''Starred'')
             | LbTrash \<Rightarrow> named (L ''Trash'')))
      in filter has [LbAll, LbDrafts, LbImportant, LbInbox, LbSent, LbSpam, LbStarred, LbTrash])"

record GmailLabelProjector =
  lp_mailbox_ids_by_label :: "GmailLabelKey \<Rightarrow> str option"
  lp_absence_authoritative :: "str set"

definition add_system_label ::
  "DiscoveredImapMailbox \<Rightarrow> GmailSystemLabel \<Rightarrow> GmailLabelProjector \<Rightarrow> GmailLabelProjector" where
  "add_system_label mailbox label p =
     \<lparr>lp_mailbox_ids_by_label = (lp_mailbox_ids_by_label p)(SystemLabel label \<mapsto> dm_id mailbox),
      lp_absence_authoritative =
        (if absence_is_authoritative label
         then insert (dm_id mailbox) (lp_absence_authoritative p)
         else lp_absence_authoritative p)\<rparr>"

definition projector_add :: "DiscoveredImapMailbox \<Rightarrow> GmailLabelProjector \<Rightarrow> GmailLabelProjector" where
  "projector_add mailbox p =
     (let labels = gmail_system_labels_for_mailbox mailbox in
      if labels = []
      then \<lparr>lp_mailbox_ids_by_label =
              (lp_mailbox_ids_by_label p)(CustomLabel (dm_name mailbox) \<mapsto> dm_id mailbox),
            lp_absence_authoritative = insert (dm_id mailbox) (lp_absence_authoritative p)\<rparr>
      else fold (add_system_label mailbox) labels p)"

definition projector_new :: "DiscoveredImapMailbox list \<Rightarrow> GmailLabelProjector" where
  "projector_new mailboxes =
     fold projector_add (filter dm_selectable mailboxes)
       \<lparr>lp_mailbox_ids_by_label = (\<lambda>_. None), lp_absence_authoritative = {}\<rparr>"

definition project_labels :: "GmailLabelProjector \<Rightarrow> str list \<Rightarrow> ImapMappedHeader \<Rightarrow> ImapMappedHeader" where
  "project_labels p labels header =
     (let keys = map label_key labels;
          mailbox_ids = insert (il_mailbox_id (mh_location header))
            (set (List.map_filter (lp_mailbox_ids_by_label p) keys));
          flagged = system_keyword_str SkFlagged;
          keywords = set (filter (\<lambda>k. k \<noteq> flagged) (mr_keywords (mh_message header)));
          keywords = (if SystemLabel LbStarred \<in> set keys then insert flagged keywords else keywords)
      in header\<lparr>mh_message := (mh_message header)\<lparr>mr_mailbox_ids := bt_collect mailbox_ids,
                                                    mr_keywords := bt_collect keywords\<rparr>,
                mh_source := ProviderLabels,
                mh_absent := bt_collect (lp_absence_authoritative p - mailbox_ids)\<rparr>)"

definition gmail_step ::
  "(nat list \<Rightarrow> str) \<Rightarrow> GmailLabelProjector \<Rightarrow> ImapMappedHeader \<Rightarrow> ImapMappedHeader" where
  "gmail_step hex p header =
     (let header = retarget_header (gmail_canonical_message_id hex (mh_message header)) header
      in case mh_gmail_labels header of
           Some labels \<Rightarrow> project_labels p labels header | None \<Rightarrow> header)"

definition gmail_project_headers ::
  "(nat list \<Rightarrow> str) \<Rightarrow> DiscoveredImapMailbox list \<Rightarrow> ImapMappedHeader list \<Rightarrow> ImapMappedHeader list" where
  "gmail_project_headers hex mailboxes headers =
     (let p = projector_new mailboxes
      in headers_of_groups (fold (\<lambda>header. push_into_groups (gmail_step hex p header)) headers []))"

record ImapAdapterProviderProfile =
  ap_profile :: ProviderProfile
  ap_mailboxes :: "DiscoveredImapMailbox list"

definition profile_from_discovery :: "DiscoveredImapAccount \<Rightarrow> ImapAdapterProviderProfile" where
  "profile_from_discovery discovery =
     \<lparr>ap_profile = provider_profile discovery, ap_mailboxes = da_mailboxes discovery\<rparr>"

definition project_headers ::
  "(nat list \<Rightarrow> str) \<Rightarrow> ImapAdapterProviderProfile \<Rightarrow> ImapMappedHeader list \<Rightarrow> ImapMappedHeader list" where
  "project_headers hex profile headers =
     (if canonicalizes_by_gmail_message_id (pp_imap (ap_profile profile))
      then gmail_project_headers hex (ap_mailboxes profile) headers
      else if canonicalizes_by_rfc5322_message_id (pp_imap (ap_profile profile))
      then rfc5322_project_headers hex headers
      else headers)"

subsection \<open>Messages and locations of a batch\<close>

type_synonym absent_map = "(str \<times> str set) list"

record ProjectedMessages =
  pj_messages :: "MessageRecord list"
  pj_locations :: "ImapMessageLocation list"
  pj_absent :: absent_map

definition collect_message ::
  "ImapMappedHeader \<Rightarrow> (str \<times> MessageRecord) list \<Rightarrow> (str \<times> MessageRecord) list" where
  "collect_message header messages =
     bt_entry (mr_id (mh_message header)) (mh_message header) (\<lambda>m. m) messages"

definition collect_absent :: "ImapMappedHeader \<Rightarrow> absent_map \<Rightarrow> absent_map" where
  "collect_absent header absent =
     (if mh_source header = ProviderLabels
      then bt_entry (mr_id (mh_message header)) {} (\<lambda>s. s \<union> set (mh_absent header)) absent
      else absent)"

definition messages_and_locations_from_headers :: "ImapMappedHeader list \<Rightarrow> ProjectedMessages" where
  "messages_and_locations_from_headers headers =
     \<lparr>pj_messages = bt_values (fold collect_message headers []),
      pj_locations = map mh_location headers,
      pj_absent = fold collect_absent headers []\<rparr>"

definition project_imap_headers ::
  "(nat list \<Rightarrow> str) \<Rightarrow> DiscoveredImapAccount \<Rightarrow> ImapMappedHeader list \<Rightarrow> ImapMappedHeader list" where
  "project_imap_headers hex discovery headers = project_headers hex (profile_from_discovery discovery) headers"

definition messages_and_locations_for_batch ::
  "(nat list \<Rightarrow> str) \<Rightarrow> DiscoveredImapAccount \<Rightarrow> ImapMappedHeader list \<Rightarrow> ProjectedMessages" where
  "messages_and_locations_for_batch hex discovery headers =
     messages_and_locations_from_headers (project_imap_headers hex discovery headers)"

subsection \<open>Deletions of a delta\<close>

definition deleted_locations_missing_from_remote ::
  "ImapMessageLocation list \<Rightarrow> ImapMessageLocationKey set \<Rightarrow> ImapMessageLocationKey list" where
  "deleted_locations_missing_from_remote local_locations remote_locations =
     filter (\<lambda>key. key \<notin> remote_locations) (map location_key local_locations)"

definition deleted_locations_matching_vanished_uids ::
  "ImapMessageLocation list \<Rightarrow> uid_identity set \<Rightarrow> ImapMessageLocationKey list" where
  "deleted_locations_matching_vanished_uids local_locations vanished =
     filter (\<lambda>key. (ik_mailbox_id key, ik_uid_validity key, ik_uid key) \<in> vanished)
       (map location_key local_locations)"

definition provider_absent :: "absent_map \<Rightarrow> ImapMessageLocation \<Rightarrow> bool" where
  "provider_absent absent location = (case map_of absent (il_message_id location) of
     Some mailbox_ids \<Rightarrow> il_mailbox_id location \<in> mailbox_ids | None \<Rightarrow> False)"

fun dedup_from :: "'a set \<Rightarrow> 'a list \<Rightarrow> 'a list" where
  "dedup_from seen [] = []"
| "dedup_from seen (k # ks) =
     (if k \<in> seen then dedup_from seen ks else k # dedup_from (insert k seen) ks)"

definition deduplicate_location_keys :: "ImapMessageLocationKey list \<Rightarrow> ImapMessageLocationKey list" where
  "deduplicate_location_keys keys = dedup_from {} keys"

definition deduplicate_message_ids :: "str list \<Rightarrow> str list" where
  "deduplicate_message_ids message_ids = remdups_adj (sort message_ids)"

definition deleted_locations_for_delta ::
  "ImapMessageLocation list \<Rightarrow> ImapMessageLocationKey list \<Rightarrow> absent_map \<Rightarrow> ImapMessageLocationKey list" where
  "deleted_locations_for_delta local_locations base_deleted absent =
     deduplicate_location_keys
       (base_deleted @ map location_key (filter (provider_absent absent) local_locations))"

definition surviving_locations ::
  "ImapMessageLocationKey set \<Rightarrow> ImapMessageLocation list \<Rightarrow> ImapMessageLocation list" where
  "surviving_locations deleted_keys local_locations =
     filter (\<lambda>location. location_key location \<notin> deleted_keys) local_locations"

definition deleted_message_ids_for_deleted_locations ::
  "ImapMessageLocation list \<Rightarrow> ImapMessageLocationKey list \<Rightarrow> ImapMessageLocation list \<Rightarrow> str list" where
  "deleted_message_ids_for_deleted_locations local_locations deleted_locations new_locations =
     (let remaining = fold (\<lambda>location. bt_entry (il_message_id location) 0 Suc)
            (surviving_locations (set deleted_locations) local_locations @ new_locations) []
      in deduplicate_message_ids
           (map ik_message_id
             (filter (\<lambda>key. (case map_of remaining (ik_message_id key) of Some n \<Rightarrow> n | None \<Rightarrow> 0) = 0)
               deleted_locations)))"

definition partition_deleted_message_ids_by_origin ::
  "ImapMessageLocation list \<Rightarrow> str list \<Rightarrow> ImapMessageLocationKey set \<Rightarrow> ImapMessageLocationKey set \<Rightarrow>
   str list \<times> str list" where
  "partition_deleted_message_ids_by_origin local_locations fully_gone_ids authoritative absence =
     (let fully_gone = set fully_gone_ids;
          removed = fold (\<lambda>location. bt_entry (il_message_id location) [] (\<lambda>ks. ks @ [location_key location]))
            (filter (\<lambda>location.
               (location_key location \<in> authoritative \<or> location_key location \<in> absence) \<and>
               il_message_id location \<in> fully_gone) local_locations) [];
          all_authoritative = (\<lambda>message_id. case map_of removed message_id of
             Some keys \<Rightarrow> list_all (\<lambda>key. key \<in> authoritative) keys | None \<Rightarrow> False)
      in (filter all_authoritative (bt_collect fully_gone),
          filter (\<lambda>message_id. \<not> all_authoritative message_id) (bt_collect fully_gone)))"

text \<open>Each message takes its entry out of the map, so a second record of the same id keeps its own.\<close>

fun assign_mailboxes :: "(str \<times> str set) list \<Rightarrow> MessageRecord list \<Rightarrow> MessageRecord list" where
  "assign_mailboxes memberships [] = []"
| "assign_mailboxes memberships (message # messages) = (case map_of memberships (mr_id message) of
     Some mailbox_ids \<Rightarrow> message\<lparr>mr_mailbox_ids := bt_collect mailbox_ids\<rparr> #
       assign_mailboxes (AList.delete (mr_id message) memberships) messages
   | None \<Rightarrow> message # assign_mailboxes memberships messages)"

definition preserve_delta_mailboxes_from_locations ::
  "MessageRecord list \<Rightarrow> ImapMessageLocation list \<Rightarrow> ImapMessageLocationKey list \<Rightarrow>
   ImapMessageLocation list \<Rightarrow> absent_map \<Rightarrow> MessageRecord list" where
  "preserve_delta_mailboxes_from_locations messages local_locations deleted_locations new_locations absent =
     assign_mailboxes
       (fold (\<lambda>location. bt_entry (il_message_id location) {} (insert (il_mailbox_id location)))
          (filter (\<lambda>location. \<not> provider_absent absent location)
             (surviving_locations (set deleted_locations) local_locations) @ new_locations) [])
       messages"

subsection \<open>Batches\<close>

record MailboxRecord =
  mb_id :: str
  mb_name :: str
  mb_role :: "str option"
  mb_unread_emails :: int
  mb_total_emails :: int

record ImapSyncBatch = SyncBatch +
  ib_mailboxes :: "MailboxRecord list"
  ib_mailbox_states :: "ImapMailboxSyncState list"
  ib_message_locations :: "ImapMessageLocation list"
  ib_deleted_message_locations :: "ImapMessageLocationKey list"
  ib_deleted_mailbox_ids :: "str list"
  ib_absence_deleted_message_locations :: "ImapMessageLocationKey list"
  ib_replace_all_mailboxes :: bool

definition mailbox_cursor_state :: "(nat list \<Rightarrow> str) \<Rightarrow> MailboxRecord list \<Rightarrow> str" where
  "mailbox_cursor_state hex mailboxes =
     L ''imap-mailboxes:'' @ hex (as_bytes (concat (map (\<lambda>mailbox.
        mb_id mailbox @ [0] @ mb_name mailbox @ [0] @
        (case mb_role mailbox of Some role \<Rightarrow> role | None \<Rightarrow> []) @ [0]) mailboxes)))"

definition message_cursor_state ::
  "(nat list \<Rightarrow> str) \<Rightarrow> MessageRecord list \<Rightarrow> ImapMessageLocation list \<Rightarrow> str" where
  "message_cursor_state hex messages locations =
     L ''imap-messages:'' @ hex (as_bytes
       (concat (map (\<lambda>message. mr_id message @ [0]) messages) @
        concat (map (\<lambda>location.
          il_message_id location @ [0] @ il_mailbox_id location @ [0] @
          show_nat (unat (il_uid_validity location)) @ [0] @ show_nat (unat (il_uid location)) @ [0])
          locations)))"

definition imap_mailbox_sync_batch ::
  "(nat list \<Rightarrow> str) \<Rightarrow> DiscoveredImapAccount \<Rightarrow> str \<Rightarrow> ImapSyncBatch" where
  "imap_mailbox_sync_batch hex discovery updated_at =
     (let mailboxes = map (\<lambda>mailbox.
            \<lparr>mb_id = dm_id mailbox, mb_name = dm_name mailbox, mb_role = dm_role mailbox,
             mb_unread_emails = 0, mb_total_emails = 0\<rparr>)
            (filter dm_selectable (da_mailboxes discovery))
      in \<lparr>sb_messages = [], sb_deleted_message_ids = [], sb_absence_deleted_message_ids = [],
          sb_replace_all_messages = False,
          sb_cursors = [\<lparr>cu_object_type = SMailbox, cu_state = mailbox_cursor_state hex mailboxes,
                         cu_updated_at = updated_at\<rparr>],
          ib_mailboxes = mailboxes, ib_mailbox_states = [], ib_message_locations = [],
          ib_deleted_message_locations = [], ib_deleted_mailbox_ids = [],
          ib_absence_deleted_message_locations = [], ib_replace_all_mailboxes = True\<rparr>)"

definition push_message_cursor :: "(nat list \<Rightarrow> str) \<Rightarrow> str \<Rightarrow> ImapSyncBatch \<Rightarrow> ImapSyncBatch" where
  "push_message_cursor hex updated_at batch =
     batch\<lparr>sb_cursors := sb_cursors batch @
       [\<lparr>cu_object_type = SMessage,
         cu_state = message_cursor_state hex (sb_messages batch) (ib_message_locations batch),
         cu_updated_at = updated_at\<rparr>]\<rparr>"

definition imap_full_sync_batch ::
  "(nat list \<Rightarrow> str) \<Rightarrow> DiscoveredImapAccount \<Rightarrow> ImapMappedHeader list \<Rightarrow>
   ImapMailboxSyncState list \<Rightarrow> str \<Rightarrow> ImapSyncBatch" where
  "imap_full_sync_batch hex discovery headers mailbox_states updated_at =
     (let projected = messages_and_locations_for_batch hex discovery headers
      in push_message_cursor hex updated_at
           ((imap_mailbox_sync_batch hex discovery updated_at)
              \<lparr>ib_mailbox_states := mailbox_states, sb_messages := pj_messages projected,
               ib_message_locations := pj_locations projected, sb_replace_all_messages := True\<rparr>))"

definition imap_delta_sync_batch ::
  "(nat list \<Rightarrow> str) \<Rightarrow> DiscoveredImapAccount \<Rightarrow> ImapMappedHeader list \<Rightarrow>
   ImapMailboxSyncState list \<Rightarrow> ImapMessageLocation list \<Rightarrow> str \<Rightarrow> ImapSyncBatch" where
  "imap_delta_sync_batch hex discovery headers mailbox_states local_locations updated_at =
     (let headers = project_imap_headers hex discovery headers;
          remote_locations = set (map (\<lambda>h. location_key (mh_location h)) headers);
          projected = messages_and_locations_from_headers headers;
          deleted = deleted_locations_for_delta local_locations
            (deleted_locations_missing_from_remote local_locations remote_locations)
            (pj_absent projected)
      in push_message_cursor hex updated_at
           ((imap_mailbox_sync_batch hex discovery updated_at)
              \<lparr>ib_mailbox_states := mailbox_states,
               sb_messages := preserve_delta_mailboxes_from_locations (pj_messages projected)
                 local_locations deleted (pj_locations projected) (pj_absent projected),
               ib_message_locations := pj_locations projected,
               ib_deleted_message_locations := deleted,
               sb_deleted_message_ids := deleted_message_ids_for_deleted_locations
                 local_locations deleted (pj_locations projected),
               sb_replace_all_messages := False\<rparr>))"

definition imap_condstore_delta_sync_batch ::
  "(nat list \<Rightarrow> str) \<Rightarrow> DiscoveredImapAccount \<Rightarrow> ImapMappedHeader list \<Rightarrow>
   ImapMailboxSyncState list \<Rightarrow> ImapMessageLocation list \<Rightarrow> uid_identity list \<Rightarrow> uid_identity list \<Rightarrow>
   str \<Rightarrow> ImapSyncBatch" where
  "imap_condstore_delta_sync_batch hex discovery headers mailbox_states local_locations
     vanished_uids absence_uids updated_at =
     (let projected = messages_and_locations_for_batch hex discovery headers;
          authoritative_keys = deleted_locations_for_delta local_locations
            (deleted_locations_matching_vanished_uids local_locations (set vanished_uids))
            (pj_absent projected);
          absence_keys = filter (\<lambda>key. key \<notin> set authoritative_keys)
            (deleted_locations_matching_vanished_uids local_locations (set absence_uids));
          union_keys = authoritative_keys @ absence_keys;
          fully_gone = deleted_message_ids_for_deleted_locations local_locations union_keys
            (pj_locations projected)
      in case partition_deleted_message_ids_by_origin local_locations fully_gone
                (set authoritative_keys) (set absence_keys) of
           (deleted_message_ids, absence_deleted_message_ids) \<Rightarrow>
             push_message_cursor hex updated_at
               ((imap_mailbox_sync_batch hex discovery updated_at)
                  \<lparr>ib_mailbox_states := mailbox_states,
                   sb_messages := preserve_delta_mailboxes_from_locations (pj_messages projected)
                     local_locations union_keys (pj_locations projected) (pj_absent projected),
                   ib_message_locations := pj_locations projected,
                   ib_deleted_message_locations := authoritative_keys,
                   sb_deleted_message_ids := deleted_message_ids,
                   ib_absence_deleted_message_locations := absence_keys,
                   sb_absence_deleted_message_ids := absence_deleted_message_ids,
                   sb_replace_all_messages := False\<rparr>))"

subsection \<open>Mailbox states after a fetch\<close>

record ImapMailboxHeaderSnapshot =
  hs_selected :: ImapSelectedMailbox
  hs_headers :: "ImapMappedHeader list"

record ImapMailboxUidDeltaSnapshot =
  us_selected :: ImapSelectedMailbox
  us_headers :: "ImapMappedHeader list"
  us_current_uids :: "ImapUid list"

record ImapChangedSinceSnapshot =
  cs_selected :: ImapSelectedMailbox
  cs_headers :: "ImapMappedHeader list"
  cs_vanished_uids :: "ImapUid list"
  cs_is_full_snapshot :: bool

definition list_max :: "'a::linorder list \<Rightarrow> 'a option" where
  "list_max xs = fold (\<lambda>x acc. max_option acc x) xs None"

definition header_uids :: "ImapMappedHeader list \<Rightarrow> ImapUid list" where
  "header_uids headers = map (\<lambda>h. il_uid (mh_location h)) headers"

definition header_modseqs :: "ImapMappedHeader list \<Rightarrow> ImapModSeq list" where
  "header_modseqs headers = List.map_filter (\<lambda>h. il_modseq (mh_location h)) headers"

definition imap_mailbox_state_from_header_snapshot ::
  "ImapMailboxHeaderSnapshot \<Rightarrow> str \<Rightarrow> ImapMailboxSyncState" where
  "imap_mailbox_state_from_header_snapshot snapshot updated_at =
     \<lparr>is_mailbox_id = se_mailbox_id (hs_selected snapshot),
      is_mailbox_name = se_mailbox_name (hs_selected snapshot),
      is_uid_validity = se_uid_validity (hs_selected snapshot),
      is_highest_uid = list_max (header_uids (hs_headers snapshot)),
      is_highest_modseq = (case se_highest_modseq (hs_selected snapshot) of
         Some m \<Rightarrow> Some m | None \<Rightarrow> list_max (header_modseqs (hs_headers snapshot))),
      is_partial_initial_uid = None, is_updated_at = updated_at\<rparr>"

definition imap_initial_snapshot_chunk_batch ::
  "(nat list \<Rightarrow> str) \<Rightarrow> DiscoveredImapAccount \<Rightarrow> ImapMappedHeader list \<Rightarrow> ImapMailboxSyncState \<Rightarrow>
   ImapSyncBatch" where
  "imap_initial_snapshot_chunk_batch hex discovery headers state =
     (let projected = messages_and_locations_for_batch hex discovery headers
      in \<lparr>sb_messages = pj_messages projected, sb_deleted_message_ids = [],
          sb_absence_deleted_message_ids = [], sb_replace_all_messages = False, sb_cursors = [],
          ib_mailboxes = [], ib_mailbox_states = [state],
          ib_message_locations = pj_locations projected, ib_deleted_message_locations = [],
          ib_deleted_mailbox_ids = [], ib_absence_deleted_message_locations = [],
          ib_replace_all_mailboxes = False\<rparr>)"

definition record_header_seen :: "ImapMappedHeader \<Rightarrow> ImapMailboxSyncState \<Rightarrow> ImapMailboxSyncState" where
  "record_header_seen header state =
     (let state = record_seen_uid (il_uid (mh_location header)) state
      in case il_modseq (mh_location header) of
           Some modseq \<Rightarrow> record_highest_modseq modseq state | None \<Rightarrow> state)"

definition imap_mailbox_state_from_changed_since_snapshot ::
  "ImapMailboxSyncState \<Rightarrow> ImapChangedSinceSnapshot \<Rightarrow> str \<Rightarrow> ImapMailboxSyncState" where
  "imap_mailbox_state_from_changed_since_snapshot stored snapshot updated_at =
     (let state = fold record_header_seen (cs_headers snapshot)
            \<lparr>is_mailbox_id = se_mailbox_id (cs_selected snapshot),
             is_mailbox_name = se_mailbox_name (cs_selected snapshot),
             is_uid_validity = se_uid_validity (cs_selected snapshot),
             is_highest_uid = is_highest_uid stored, is_highest_modseq = is_highest_modseq stored,
             is_partial_initial_uid = is_partial_initial_uid stored, is_updated_at = updated_at\<rparr>
      in case se_highest_modseq (cs_selected snapshot) of
           Some m \<Rightarrow> record_highest_modseq m state | None \<Rightarrow> state)"

subsection \<open>Facts on ordered maps\<close>

lemma map_of_bt_entry [simp]:
  "map_of (bt_entry k d f m) = (map_of m)(k \<mapsto> f (case map_of m k of Some v \<Rightarrow> v | None \<Rightarrow> d))"
  by (simp add: bt_entry_def update_conv')

lemma distinct_bt_entry [simp]: "distinct (map fst m) \<Longrightarrow> distinct (map fst (bt_entry k d f m))"
  by (simp add: bt_entry_def distinct_update)

lemma distinct_fold_entry:
  "distinct (map fst m) \<Longrightarrow> distinct (map fst (fold (\<lambda>x. bt_entry (k x) (d x) (f x)) xs m))"
  by (induction xs arbitrary: m) simp_all

lemma set_bt_values: "distinct (map fst m) \<Longrightarrow> v \<in> set (bt_values m) \<longleftrightarrow> (\<exists>k. map_of m k = Some v)"
  by (force simp: bt_values_def)

lemma map_of_fold_count:
  "map_of (fold (\<lambda>x. bt_entry (k x) 0 Suc) xs m) a =
     (if a \<in> set (map k xs)
      then Some (length (filter (\<lambda>x. k x = a) xs) + (case map_of m a of Some n \<Rightarrow> n | None \<Rightarrow> 0))
      else map_of m a)"
  by (induction xs arbitrary: m) (auto split: option.splits simp: filter_empty_conv image_iff)

lemma map_of_fold_insert:
  "map_of (fold (\<lambda>x. bt_entry (k x) {} (insert (v x))) xs m) a =
     (if a \<in> set (map k xs)
      then Some (v ` {x \<in> set xs. k x = a} \<union> (case map_of m a of Some s \<Rightarrow> s | None \<Rightarrow> {}))
      else map_of m a)"
  by (induction xs arbitrary: m) (auto split: option.splits simp: image_iff)

lemma map_of_fold_append:
  "map_of (fold (\<lambda>x. bt_entry (k x) [] (\<lambda>ks. ks @ [v x])) xs m) a =
     (if a \<in> set (map k xs)
      then Some ((case map_of m a of Some ks \<Rightarrow> ks | None \<Rightarrow> []) @ map v (filter (\<lambda>x. k x = a) xs))
      else map_of m a)"
  by (induction xs arbitrary: m) (auto split: option.splits simp: filter_empty_conv image_iff)

lemma set_dedup_from: "set (dedup_from seen xs) = set xs - seen"
  by (induction xs arbitrary: seen) auto

lemma set_deduplicate [simp]:
  "set (deduplicate_location_keys ks) = set ks" "set (deduplicate_message_ids ms) = set ms"
  by (simp_all add: deduplicate_location_keys_def set_dedup_from deduplicate_message_ids_def)

subsection \<open>What a delta deletes\<close>

text \<open>A message is gone when a local location of it is removed and no local or new one is left.\<close>

definition has_location :: "str \<Rightarrow> ImapMessageLocation list \<Rightarrow> bool" where
  "has_location m locations \<longleftrightarrow> m \<in> set (map il_message_id locations)"

lemma fully_gone_iff:
  "m \<in> set (deleted_message_ids_for_deleted_locations local deleted new) \<longleftrightarrow>
     (\<exists>key \<in> set deleted. ik_message_id key = m) \<and>
     \<not> has_location m (surviving_locations (set deleted) local) \<and> \<not> has_location m new"
proof -
  have "(case map_of (fold (\<lambda>location. bt_entry (il_message_id location) 0 Suc) xs []) i of
      Some n \<Rightarrow> n | None \<Rightarrow> 0) = 0 \<longleftrightarrow> \<not> has_location i xs" for xs i
    by (auto simp: map_of_fold_count has_location_def filter_empty_conv)
  then show ?thesis
    by (auto simp: deleted_message_ids_for_deleted_locations_def Let_def has_location_def simp del: fold_append)
qed

lemma location_key_message [simp]: "ik_message_id (location_key l) = il_message_id l"
  by (simp add: location_key_def)

lemma partition_members:
  assumes "partition_deleted_message_ids_by_origin local gone auth abse = (A, B)"
  shows "m \<in> set A \<longleftrightarrow> m \<in> set gone \<and>
      (\<exists>l \<in> set local. il_message_id l = m \<and> location_key l \<in> auth \<union> abse) \<and>
      (\<forall>l \<in> set local. il_message_id l = m \<and> location_key l \<in> auth \<union> abse \<longrightarrow> location_key l \<in> auth)"
    and "m \<in> set B \<longleftrightarrow> m \<in> set gone \<and> m \<notin> set A"
proof -
  let ?sel = "filter (\<lambda>l. (location_key l \<in> auth \<or> location_key l \<in> abse) \<and> il_message_id l \<in> set gone) local"
  let ?all = "\<lambda>m. case map_of (fold (\<lambda>l. bt_entry (il_message_id l) [] (\<lambda>ks. ks @ [location_key l])) ?sel []) m of
      Some keys \<Rightarrow> list_all (\<lambda>key. key \<in> auth) keys | None \<Rightarrow> False"
  have A: "A = filter ?all (bt_collect (set gone))" and B: "B = filter (\<lambda>m. \<not> ?all m) (bt_collect (set gone))"
    using assms by (simp_all add: partition_deleted_message_ids_by_origin_def Let_def)
  have all: "?all m \<longleftrightarrow> (\<exists>l \<in> set ?sel. il_message_id l = m) \<and>
      (\<forall>l \<in> set ?sel. il_message_id l = m \<longrightarrow> location_key l \<in> auth)"
    by (auto simp: map_of_fold_append list_all_iff)
  have mem: "m \<in> set A \<longleftrightarrow> m \<in> set gone \<and> ?all m" by (simp add: A)
  show "m \<in> set A \<longleftrightarrow> m \<in> set gone \<and>
      (\<exists>l \<in> set local. il_message_id l = m \<and> location_key l \<in> auth \<union> abse) \<and>
      (\<forall>l \<in> set local. il_message_id l = m \<and> location_key l \<in> auth \<union> abse \<longrightarrow> location_key l \<in> auth)"
    using mem all by auto
  show "m \<in> set B \<longleftrightarrow> m \<in> set gone \<and> m \<notin> set A" unfolding A B by (simp del: not_None_eq) blast
qed

lemma matching_vanished_iff:
  "key \<in> set (deleted_locations_matching_vanished_uids local van) \<longleftrightarrow>
     (\<exists>l \<in> set local. key = location_key l \<and> location_identity l \<in> van)"
  by (auto simp: deleted_locations_matching_vanished_uids_def location_key_def location_identity_def)

lemma for_delta_iff:
  "key \<in> set (deleted_locations_for_delta local base absent) \<longleftrightarrow>
     key \<in> set base \<or> (\<exists>l \<in> set local. key = location_key l \<and> provider_absent absent l)"
  by (auto simp: deleted_locations_for_delta_def)

text \<open>What the server asserts about a local location, and what is only inferred from a listing.\<close>

definition asserted_gone :: "absent_map \<Rightarrow> uid_identity list \<Rightarrow> ImapMessageLocation \<Rightarrow> bool" where
  "asserted_gone absent vanished l \<longleftrightarrow> location_identity l \<in> set vanished \<or> provider_absent absent l"

text \<open>The keys a partial delta removes: the asserted ones, then those only inferred.\<close>

definition asserted_keys :: "ImapMessageLocation list \<Rightarrow> uid_identity list \<Rightarrow> absent_map \<Rightarrow> ImapMessageLocationKey list" where
  "asserted_keys local_locations vanished absent =
     deleted_locations_for_delta local_locations
       (deleted_locations_matching_vanished_uids local_locations (set vanished)) absent"

definition inferred_keys ::
  "ImapMessageLocation list \<Rightarrow> uid_identity list \<Rightarrow> uid_identity list \<Rightarrow> absent_map \<Rightarrow> ImapMessageLocationKey list" where
  "inferred_keys local_locations vanished absence absent =
     filter (\<lambda>key. key \<notin> set (asserted_keys local_locations vanished absent))
       (deleted_locations_matching_vanished_uids local_locations (set absence))"

lemma asserted_keys_iff:
  assumes "inj_on location_key (set local_locations)" and "l \<in> set local_locations"
  shows "location_key l \<in> set (asserted_keys local_locations vanished absent) \<longleftrightarrow> asserted_gone absent vanished l"
  using assms
  by (auto simp: asserted_keys_def for_delta_iff matching_vanished_iff asserted_gone_def dest: inj_onD)

lemma removed_keys_iff:
  assumes "inj_on location_key (set local_locations)" and "l \<in> set local_locations"
  shows "location_key l \<in> set (asserted_keys local_locations vanished absent) \<union>
      set (inferred_keys local_locations vanished absence absent) \<longleftrightarrow>
    asserted_gone absent vanished l \<or> location_identity l \<in> set absence"
  using assms asserted_keys_iff [OF assms, of vanished absent]
  by (auto simp: inferred_keys_def matching_vanished_iff dest: inj_onD)

lemma condstore_batch_deletions:
  fixes local_locations hex discovery headers states vanished absence updated_at
  defines "b \<equiv> imap_condstore_delta_sync_batch hex discovery headers states local_locations vanished absence updated_at"
    and "pj \<equiv> messages_and_locations_for_batch hex discovery headers"
  defines "gone \<equiv> \<lambda>l. asserted_gone (pj_absent pj) vanished l \<or> location_identity l \<in> set absence"
  assumes keys: "inj_on location_key (set local_locations)"
  shows "m \<in> set (sb_deleted_message_ids b) \<longleftrightarrow>
      (\<exists>l \<in> set local_locations. il_message_id l = m) \<and> \<not> has_location m (pj_locations pj) \<and>
      (\<forall>l \<in> set local_locations. il_message_id l = m \<longrightarrow> asserted_gone (pj_absent pj) vanished l)"
    and "m \<in> set (sb_absence_deleted_message_ids b) \<longleftrightarrow>
      (\<exists>l \<in> set local_locations. il_message_id l = m) \<and> \<not> has_location m (pj_locations pj) \<and>
      (\<forall>l \<in> set local_locations. il_message_id l = m \<longrightarrow> gone l) \<and>
      \<not> (\<forall>l \<in> set local_locations. il_message_id l = m \<longrightarrow> asserted_gone (pj_absent pj) vanished l)"
proof -
  let ?auth = "asserted_keys local_locations vanished (pj_absent pj)"
  let ?abs = "inferred_keys local_locations vanished absence (pj_absent pj)"
  let ?gone = "deleted_message_ids_for_deleted_locations local_locations (?auth @ ?abs) (pj_locations pj)"
  obtain A B where p: "partition_deleted_message_ids_by_origin local_locations ?gone (set ?auth) (set ?abs) = (A, B)"
    by (cases "partition_deleted_message_ids_by_origin local_locations ?gone (set ?auth) (set ?abs)")
  have b: "sb_deleted_message_ids b = A" "sb_absence_deleted_message_ids b = B"
    using p by (simp_all add: b_def pj_def imap_condstore_delta_sync_batch_def Let_def push_message_cursor_def
        asserted_keys_def inferred_keys_def)
  note auth = asserted_keys_iff [OF keys, of _ vanished "pj_absent pj"]
  have union: "location_key l \<in> set ?auth \<union> set ?abs \<longleftrightarrow> gone l" if "l \<in> set local_locations" for l
    unfolding gone_def by (rule removed_keys_iff [OF keys that])
  have some: "(\<exists>key \<in> set (?auth @ ?abs). ik_message_id key = m) \<longleftrightarrow>
      (\<exists>l \<in> set local_locations. il_message_id l = m \<and> gone l)" for m
  proof -
    have sub: "set ?auth \<union> set ?abs \<subseteq> location_key ` set local_locations"
      by (auto simp: asserted_keys_def inferred_keys_def for_delta_iff matching_vanished_iff)
    have "(\<exists>key \<in> set ?auth \<union> set ?abs. ik_message_id key = m) \<longleftrightarrow>
        (\<exists>l \<in> set local_locations. location_key l \<in> set ?auth \<union> set ?abs \<and> il_message_id l = m)"
    proof
      assume "\<exists>key \<in> set ?auth \<union> set ?abs. ik_message_id key = m"
      then obtain key where k: "key \<in> set ?auth \<union> set ?abs" "ik_message_id key = m" by blast
      with sub obtain l where "l \<in> set local_locations" "key = location_key l" by blast
      with k show "\<exists>l \<in> set local_locations. location_key l \<in> set ?auth \<union> set ?abs \<and> il_message_id l = m"
        by (intro bexI [of _ l]) simp_all
    next
      assume "\<exists>l \<in> set local_locations. location_key l \<in> set ?auth \<union> set ?abs \<and> il_message_id l = m"
      then obtain l where l: "location_key l \<in> set ?auth \<union> set ?abs" "il_message_id l = m" by blast
      then show "\<exists>key \<in> set ?auth \<union> set ?abs. ik_message_id key = m"
        by (intro bexI [of _ "location_key l"]) simp_all
    qed
    also have "\<dots> \<longleftrightarrow> (\<exists>l \<in> set local_locations. il_message_id l = m \<and> gone l)"
      using union by blast
    finally show ?thesis by (simp only: set_append)
  qed
  have surv: "has_location m (surviving_locations (set (?auth @ ?abs)) local_locations) \<longleftrightarrow>
      (\<exists>l \<in> set local_locations. il_message_id l = m \<and> \<not> gone l)" for m
    using union by (auto simp: has_location_def surviving_locations_def image_iff)
  have gone: "m \<in> set ?gone \<longleftrightarrow> (\<exists>l \<in> set local_locations. il_message_id l = m) \<and>
      \<not> has_location m (pj_locations pj) \<and> (\<forall>l \<in> set local_locations. il_message_id l = m \<longrightarrow> gone l)" for m
    unfolding fully_gone_iff some surv by blast
  have A: "m \<in> set A \<longleftrightarrow> m \<in> set ?gone \<and>
      (\<forall>l \<in> set local_locations. il_message_id l = m \<longrightarrow> asserted_gone (pj_absent pj) vanished l)"
    using partition_members(1) [OF p, of m] gone union auth by blast
  have imp: "asserted_gone (pj_absent pj) vanished l \<Longrightarrow> gone l" for l by (simp add: gone_def)
  show "m \<in> set (sb_deleted_message_ids b) \<longleftrightarrow>
      (\<exists>l \<in> set local_locations. il_message_id l = m) \<and> \<not> has_location m (pj_locations pj) \<and>
      (\<forall>l \<in> set local_locations. il_message_id l = m \<longrightarrow> asserted_gone (pj_absent pj) vanished l)"
    unfolding b A gone using imp by blast
  show "m \<in> set (sb_absence_deleted_message_ids b) \<longleftrightarrow>
      (\<exists>l \<in> set local_locations. il_message_id l = m) \<and> \<not> has_location m (pj_locations pj) \<and>
      (\<forall>l \<in> set local_locations. il_message_id l = m \<longrightarrow> gone l) \<and>
      \<not> (\<forall>l \<in> set local_locations. il_message_id l = m \<longrightarrow> asserted_gone (pj_absent pj) vanished l)"
    unfolding b partition_members(2) [OF p] A gone by blast
qed

subsection \<open>Projection keeps every location once\<close>

text \<open>A header's record and its location name the same message.\<close>

definition consistent :: "ImapMappedHeader \<Rightarrow> bool" where
  "consistent h \<longleftrightarrow> mr_id (mh_message h) = il_message_id (mh_location h)"

lemma mapped_header_consistent:
  "imap_header_message_record_with_gmail_metadata libs selected fetched gmail = Inr h \<Longrightarrow> consistent h"
  by (auto simp: imap_header_message_record_with_gmail_metadata_def Let_def consistent_def
      split: option.splits)

lemma retarget_consistent [simp]: "consistent (retarget_header i h)"
  by (simp add: consistent_def retarget_header_def)

lemma retarget_identity [simp]:
  "location_identity (mh_location (retarget_header i h)) = location_identity (mh_location h)"
  by (simp add: retarget_header_def location_identity_def)

lemma project_labels_frame [simp]:
  "mh_location (project_labels p labels h) = mh_location h"
  "mr_id (mh_message (project_labels p labels h)) = mr_id (mh_message h)"
  by (simp_all add: project_labels_def Let_def)

lemma gmail_step_consistent: "consistent (gmail_step hex p h)"
  by (simp add: gmail_step_def Let_def consistent_def split: option.splits)
    (simp add: retarget_header_def)

lemma gmail_step_identity:
  "location_identity (mh_location (gmail_step hex p h)) = location_identity (mh_location h)"
  by (simp add: gmail_step_def Let_def split: option.splits)

text \<open>The groups: keyed by the message id their record and their locations carry.\<close>

definition groups_ok :: "(str \<times> CanonicalMessageGroup) list \<Rightarrow> bool" where
  "groups_ok groups \<longleftrightarrow> distinct (map fst groups) \<and>
     (\<forall>(k, g) \<in> set groups. mr_id (cg_message g) = k \<and> (\<forall>l \<in> set (cg_locations g). il_message_id l = k))"

lemma group_push_frame [simp]:
  "cg_message (group_push h g) = cg_message g"
  "cg_locations (group_push h g) = cg_locations g @ [mh_location h]"
  by (simp_all add: group_push_def Let_def)

lemma groups_ok_get: "groups_ok groups \<Longrightarrow> map_of groups k = Some g \<Longrightarrow>
    mr_id (cg_message g) = k \<and> (\<forall>l \<in> set (cg_locations g). il_message_id l = k)"
  by (auto simp: groups_ok_def dest!: map_of_SomeD)

lemma groups_ok_push:
  assumes "groups_ok groups" and "consistent h"
  shows "groups_ok (push_into_groups h groups)"
proof -
  have d: "distinct (map fst (push_into_groups h groups))"
    using assms(1) by (simp add: push_into_groups_def groups_ok_def)
  have all: "mr_id (cg_message g) = k \<and> (\<forall>l \<in> set (cg_locations g). il_message_id l = k)"
    if "(k, g) \<in> set (push_into_groups h groups)" for k g
  proof -
    from that d have "map_of (push_into_groups h groups) k = Some g" by simp
    then consider "k \<noteq> mr_id (mh_message h)" "map_of groups k = Some g"
      | g' where "k = mr_id (mh_message h)" "map_of groups k = Some g'" "g = group_push h g'"
      | "k = mr_id (mh_message h)" "g = group_push h (group_new (mh_message h))"
      by (auto simp: push_into_groups_def split: if_splits option.splits)
    then show ?thesis
    proof cases
      case 1
      then show ?thesis using groups_ok_get [OF assms(1)] by blast
    next
      case 2
      then show ?thesis using groups_ok_get [OF assms(1) 2(2)] assms(2) by (simp add: consistent_def)
    next
      case 3
      then show ?thesis using assms(2) by (simp add: consistent_def group_new_def)
    qed
  qed
  show ?thesis unfolding groups_ok_def
  proof (intro conjI d ballI)
    fix p assume "p \<in> set (push_into_groups h groups)"
    then show "case p of (k, g) \<Rightarrow> mr_id (cg_message g) = k \<and> (\<forall>l \<in> set (cg_locations g). il_message_id l = k)"
      using all [of "fst p" "snd p"] by (simp add: case_prod_beta)
  qed
qed

definition group_locations :: "(str \<times> CanonicalMessageGroup) list \<Rightarrow> ImapMessageLocation multiset" where
  "group_locations groups = mset (concat (map (\<lambda>p. cg_locations (snd p)) groups))"

lemma group_locations_push:
  "distinct (map fst groups) \<Longrightarrow>
   group_locations (push_into_groups h groups) = add_mset (mh_location h) (group_locations groups)"
proof (induction groups)
  case Nil
  then show ?case by (simp add: push_into_groups_def bt_entry_def group_locations_def group_new_def)
next
  case (Cons p groups)
  obtain k g where p: "p = (k, g)" by (cases p)
  show ?case
  proof (cases "k = mr_id (mh_message h)")
    case True
    then show ?thesis using p by (simp add: push_into_groups_def bt_entry_def group_locations_def)
  next
    case False
    then have "push_into_groups h (p # groups) = p # push_into_groups h groups"
      using p by (simp add: push_into_groups_def bt_entry_def)
    with Cons p show ?thesis by (simp add: group_locations_def)
  qed
qed

lemma groups_fold:
  assumes "\<And>h. consistent (step h)"
  shows "groups_ok groups \<Longrightarrow> groups_ok (fold (\<lambda>h. push_into_groups (step h)) hs groups) \<and>
    group_locations (fold (\<lambda>h. push_into_groups (step h)) hs groups) =
      mset (map (\<lambda>h. mh_location (step h)) hs) + group_locations groups"
proof (induction hs arbitrary: groups)
  case (Cons h hs)
  from groups_ok_push [OF Cons.prems assms, of h] Cons.IH
  have "groups_ok (fold (\<lambda>h. push_into_groups (step h)) hs (push_into_groups (step h) groups))"
    and "group_locations (fold (\<lambda>h. push_into_groups (step h)) hs (push_into_groups (step h) groups)) =
      mset (map (\<lambda>h. mh_location (step h)) hs) + group_locations (push_into_groups (step h) groups)"
    by blast+
  moreover have "distinct (map fst groups)" using Cons.prems by (simp add: groups_ok_def)
  ultimately show ?case by (simp add: group_locations_push)
qed simp

lemma headers_of_groups_locations:
  "mset (map mh_location (headers_of_groups groups)) = group_locations groups"
proof -
  have "mset (concat (map f (sort_key fst groups))) = mset (concat (map f groups))"
    for f :: "_ \<Rightarrow> ImapMessageLocation list"
    by (simp add: mset_concat flip: sum_mset_sum_list)
  then show ?thesis
    by (simp add: headers_of_groups_def bt_values_def group_locations_def map_concat comp_def
        group_into_headers_def case_prod_beta)
qed

lemma headers_of_groups_mem:
  assumes "groups_ok groups" and "h \<in> set (headers_of_groups groups)"
  obtains g where "map_of groups (il_message_id (mh_location h)) = Some g"
    "mh_message h = group_message g" "consistent h"
proof -
  from assms(2) obtain k g where g: "(k, g) \<in> set groups" "h \<in> set (group_into_headers g)"
    by (auto simp: headers_of_groups_def bt_values_def)
  then have m: "map_of groups k = Some g" using assms(1) by (simp add: groups_ok_def)
  have "mh_location h \<in> set (cg_locations g)" "mh_message h = group_message g"
    using g(2) by (auto simp: group_into_headers_def)
  moreover from this groups_ok_get [OF assms(1) m] have "il_message_id (mh_location h) = k"
    and "mr_id (cg_message g) = k" by auto
  ultimately show thesis using m by (intro that [of g]) (simp_all add: consistent_def group_message_def)
qed

lemma canonical_headers:
  fixes headers :: "ImapMappedHeader list"
  assumes "\<And>h. consistent (step h)" and "\<And>h. location_identity (mh_location (step h)) = location_identity (mh_location h)"
  defines "out \<equiv> headers_of_groups (fold (\<lambda>h. push_into_groups (step h)) headers [])"
  shows "mset (map (\<lambda>h. location_identity (mh_location h)) out) =
      mset (map (\<lambda>h. location_identity (mh_location h)) headers)"
    and "\<And>h. h \<in> set out \<Longrightarrow> consistent h"
    and "\<And>h h'. h \<in> set out \<Longrightarrow> h' \<in> set out \<Longrightarrow>
      il_message_id (mh_location h) = il_message_id (mh_location h') \<Longrightarrow> mh_message h = mh_message h'"
proof -
  have "groups_ok []" by (simp add: groups_ok_def)
  from groups_fold [OF assms(1) this, where hs = headers]
  have ok: "groups_ok (fold (\<lambda>h. push_into_groups (step h)) headers [])"
    and locs: "group_locations (fold (\<lambda>h. push_into_groups (step h)) headers []) =
      mset (map (\<lambda>h. mh_location (step h)) headers)"
    by (simp_all add: group_locations_def)
  have "mset (map mh_location out) = mset (map (\<lambda>h. mh_location (step h)) headers)"
    using locs by (simp only: out_def headers_of_groups_locations)
  from arg_cong [OF this, of "image_mset location_identity"]
  show "mset (map (\<lambda>h. location_identity (mh_location h)) out) =
      mset (map (\<lambda>h. location_identity (mh_location h)) headers)"
    using assms(2) by (simp add: multiset.map_comp comp_def)
  show "consistent h" if "h \<in> set out" for h
    using headers_of_groups_mem [OF ok that [unfolded out_def]] by blast
  show "mh_message h = mh_message h'"
    if "h \<in> set out" "h' \<in> set out" "il_message_id (mh_location h) = il_message_id (mh_location h')" for h h'
    using headers_of_groups_mem [OF ok that(1) [unfolded out_def]]
      headers_of_groups_mem [OF ok that(2) [unfolded out_def]] that(3) by (metis option.inject)
qed

lemma rfc5322_step:
  "rfc5322_project_headers hex headers = headers_of_groups (fold (\<lambda>h. push_into_groups
     (retarget_header (rfc5322_canonical_message_id hex (mh_message h)) h)) headers [])"
  by (simp add: rfc5322_project_headers_def)

lemmas gmail_canonical = canonical_headers [OF gmail_step_consistent gmail_step_identity]
lemmas rfc5322_canonical = canonical_headers [where step = "\<lambda>h. retarget_header (f h) h" for f,
  OF retarget_consistent retarget_identity]

lemma project_imap_cases:
  obtains (gmail) mailboxes where "project_imap_headers hex discovery headers =
      headers_of_groups (fold (\<lambda>h. push_into_groups (gmail_step hex (projector_new mailboxes) h)) headers [])"
  | (rfc) "project_imap_headers hex discovery headers = headers_of_groups (fold (\<lambda>h. push_into_groups
      (retarget_header (rfc5322_canonical_message_id hex (mh_message h)) h)) headers [])"
  | (plain) "project_imap_headers hex discovery headers = headers"
proof -
  let ?p = "profile_from_discovery discovery"
  consider "canonicalizes_by_gmail_message_id (pp_imap (ap_profile ?p))"
    | "\<not> canonicalizes_by_gmail_message_id (pp_imap (ap_profile ?p))"
      "canonicalizes_by_rfc5322_message_id (pp_imap (ap_profile ?p))"
    | "\<not> canonicalizes_by_gmail_message_id (pp_imap (ap_profile ?p))"
      "\<not> canonicalizes_by_rfc5322_message_id (pp_imap (ap_profile ?p))" by blast
  then show thesis
  proof cases
    case 1
    then show thesis
      by (intro gmail [of "ap_mailboxes ?p"])
        (simp add: project_imap_headers_def project_headers_def gmail_project_headers_def Let_def)
  next
    case 2
    then show thesis by (intro rfc) (simp add: project_imap_headers_def project_headers_def rfc5322_step)
  next
    case 3
    then show thesis by (intro plain) (simp add: project_imap_headers_def project_headers_def)
  qed
qed

lemma projected_identities:
  "mset (map (\<lambda>h. location_identity (mh_location h)) (project_imap_headers hex discovery headers)) =
   mset (map (\<lambda>h. location_identity (mh_location h)) headers)"
  by (cases rule: project_imap_cases [of hex discovery headers])
    (simp_all only: gmail_canonical(1) rfc5322_canonical(1))

lemma projected_consistent:
  assumes "list_all consistent headers"
  shows "list_all consistent (project_imap_headers hex discovery headers)"
  using assms
  by (cases rule: project_imap_cases [of hex discovery headers])
    (auto simp: list_all_iff intro: gmail_canonical(2) rfc5322_canonical(2))

lemma gmail_headers:
  assumes "canonicalizes_by_gmail_message_id (pp_imap (provider_profile discovery))"
    and "h \<in> set (project_imap_headers hex discovery headers)"
    and "h' \<in> set (project_imap_headers hex discovery headers)"
    and "il_message_id (mh_location h) = il_message_id (mh_location h')"
  shows "mh_message h = mh_message h'"
  using assms
  by (auto simp: project_imap_headers_def project_headers_def gmail_project_headers_def Let_def
      profile_from_discovery_def
      intro: gmail_canonical(3))

subsection \<open>Membership after a delta\<close>

lemma collected_messages:
  fixes hs :: "ImapMappedHeader list"
  defines "m \<equiv> fold collect_message hs []"
  shows "distinct (map fst m)"
    and "map_of m i = map_option mh_message (List.find (\<lambda>h. mr_id (mh_message h) = i) hs)"
proof -
  have "map_of (fold collect_message hs acc) i = (case map_of acc i of Some v \<Rightarrow> Some v
      | None \<Rightarrow> map_option mh_message (List.find (\<lambda>h. mr_id (mh_message h) = i) hs))" for acc
    by (induction hs arbitrary: acc) (auto simp: collect_message_def split: option.splits)
  from this [of "[]"] show "map_of m i = map_option mh_message (List.find (\<lambda>h. mr_id (mh_message h) = i) hs)"
    by (simp add: m_def)
  have "distinct (map fst acc) \<Longrightarrow> distinct (map fst (fold collect_message hs acc))" for acc
    by (induction hs arbitrary: acc) (simp_all add: collect_message_def)
  from this [of "[]"] show "distinct (map fst m)" by (simp add: m_def)
qed

lemma projected_messages:
  fixes hs :: "ImapMappedHeader list"
  assumes "list_all consistent hs"
  defines "pj \<equiv> messages_and_locations_from_headers hs"
  shows "distinct (map mr_id (pj_messages pj))"
    and "has_location i (pj_locations pj) \<longleftrightarrow> i \<in> set (map mr_id (pj_messages pj))"
proof -
  let ?m = "fold collect_message hs []"
  have key: "mr_id v = k" if "(k, v) \<in> set ?m" for k v
    using that collected_messages [of hs] by (auto simp: find_Some_iff dest!: map_of_is_SomeI [rotated])
  then have "map mr_id (pj_messages pj) = map fst (sort_key fst ?m)"
    by (auto simp: pj_def messages_and_locations_from_headers_def bt_values_def)
  then have ids: "set (map mr_id (pj_messages pj)) = fst ` set ?m" "distinct (map mr_id (pj_messages pj))"
    using collected_messages(1) [of hs] by (simp_all add: distinct_map)
  then show "distinct (map mr_id (pj_messages pj))" by simp
  have "i \<in> fst ` set ?m \<longleftrightarrow> map_of ?m i \<noteq> None" by (simp add: map_of_eq_None_iff)
  also have "\<dots> \<longleftrightarrow> (\<exists>h \<in> set hs. mr_id (mh_message h) = i)"
    by (auto simp: collected_messages(2) find_None_iff)
  also have "\<dots> \<longleftrightarrow> has_location i (pj_locations pj)"
    using assms(1) by (auto simp: pj_def has_location_def messages_and_locations_from_headers_def
        list_all_iff consistent_def)
  finally show "has_location i (pj_locations pj) \<longleftrightarrow> i \<in> set (map mr_id (pj_messages pj))"
    using ids(1) by simp
qed

lemma assign_mailboxes_map:
  "distinct (map mr_id messages) \<Longrightarrow> assign_mailboxes memberships messages =
     map (\<lambda>m. case map_of memberships (mr_id m) of
            Some s \<Rightarrow> m\<lparr>mr_mailbox_ids := bt_collect s\<rparr> | None \<Rightarrow> m) messages"
proof (induction messages arbitrary: memberships)
  case (Cons m ms)
  then have ne: "mr_id m' \<noteq> mr_id m" if "m' \<in> set ms" for m' 
    using Cons.prems imageI [OF that, of mr_id] by auto
  have "map_of (AList.delete (mr_id m) memberships) (mr_id m') = map_of memberships (mr_id m')"
    if "m' \<in> set ms" for m' using ne [OF that] by (simp add: delete_conv')
  then show ?case using Cons by (auto split: option.splits)
qed simp

lemma delta_membership:
  assumes "distinct (map mr_id messages)" and "msg \<in> set
      (preserve_delta_mailboxes_from_locations messages local_locations deleted new_locations absent)"
    and "has_location (mr_id msg) new_locations"
  shows "mr_mailbox_ids msg = bt_collect (il_mailbox_id `
      ({l \<in> set local_locations. il_message_id l = mr_id msg \<and> location_key l \<notin> set deleted \<and>
         \<not> provider_absent absent l} \<union> {l \<in> set new_locations. il_message_id l = mr_id msg}))"
proof -
  let ?ls = "filter (\<lambda>l. \<not> provider_absent absent l) (surviving_locations (set deleted) local_locations) @
      new_locations"
  let ?m = "fold (\<lambda>l. bt_entry (il_message_id l) {} (insert (il_mailbox_id l))) ?ls []"
  have get: "map_of ?m i = (if i \<in> set (map il_message_id ?ls)
      then Some (il_mailbox_id ` {l \<in> set ?ls. il_message_id l = i} \<union> {}) else None)" for i
    by (subst map_of_fold_insert) (simp only: map_of.simps option.case(1))
  from assms(2) obtain m where m: "m \<in> set messages"
    "msg = (case map_of ?m (mr_id m) of Some s \<Rightarrow> m\<lparr>mr_mailbox_ids := bt_collect s\<rparr> | None \<Rightarrow> m)"
    by (auto simp only: preserve_delta_mailboxes_from_locations_def assign_mailboxes_map [OF assms(1)] set_map)
  then have id: "mr_id msg = mr_id m" by (simp split: option.splits)
  have "mr_id m \<in> set (map il_message_id ?ls)" using assms(3) by (auto simp: has_location_def id)
  with get have "mr_mailbox_ids msg = bt_collect (il_mailbox_id ` {l \<in> set ?ls. il_message_id l = mr_id m})"
    using m(2) by (simp del: fold_append)
  also have "{l \<in> set ?ls. il_message_id l = mr_id m} =
      {l \<in> set local_locations. il_message_id l = mr_id m \<and> location_key l \<notin> set deleted \<and>
         \<not> provider_absent absent l} \<union> {l \<in> set new_locations. il_message_id l = mr_id m}"
    by (auto simp: surviving_locations_def)
  finally show ?thesis by (simp add: id)
qed

text \<open>
  C30. A partial delta deletes a message exactly when it has local locations, no fetched location, and
  every local location is removed; it is deleted unconditionally only if the server asserted every one
  of these removals (VANISHED, or a label set that leaves the mailbox out), and goes to the floor
  guarded bucket as soon as one of them is only inferred from a listing.
\<close>

theorem delta_deletes_by_origin:
  fixes local_locations hex discovery headers states vanished absence updated_at
  defines "b \<equiv> imap_condstore_delta_sync_batch hex discovery headers states local_locations vanished absence updated_at"
    and "absent \<equiv> pj_absent (messages_and_locations_for_batch hex discovery headers)"
  defines "lost \<equiv> {m. has_location m local_locations \<and> \<not> has_location m (ib_message_locations b) \<and>
      (\<forall>l \<in> set local_locations. il_message_id l = m \<longrightarrow>
         asserted_gone absent vanished l \<or> location_identity l \<in> set absence)}"
    and "asserted \<equiv> {m. \<forall>l \<in> set local_locations. il_message_id l = m \<longrightarrow> asserted_gone absent vanished l}"
  assumes "inj_on location_key (set local_locations)"
  shows "set (sb_deleted_message_ids b) = lost \<inter> asserted \<and>
    set (sb_absence_deleted_message_ids b) = lost - asserted"
proof -
  have locs: "ib_message_locations b = pj_locations (messages_and_locations_for_batch hex discovery headers)"
    by (simp add: b_def imap_condstore_delta_sync_batch_def Let_def push_message_cursor_def split: prod.split)
  note d = condstore_batch_deletions [OF assms(5), of _ hex discovery headers states vanished absence updated_at,
    folded b_def absent_def]
  have "m \<in> set (sb_deleted_message_ids b) \<longleftrightarrow> m \<in> lost \<inter> asserted"
    and "m \<in> set (sb_absence_deleted_message_ids b) \<longleftrightarrow> m \<in> lost - asserted" for m
    unfolding d lost_def asserted_def locs by (auto simp: has_location_def)
  then show ?thesis by blast
qed

text \<open>One message in two mailboxes, removed from both: once asserted twice, once inferred for one.\<close>

definition example_location :: "str \<Rightarrow> str \<Rightarrow> ImapUid \<Rightarrow> ImapMessageLocation" where
  "example_location m mailbox uid = \<lparr>il_message_id = m, il_mailbox_id = mailbox, il_uid_validity = 1,
     il_uid = uid, il_modseq = None, il_updated_at = []\<rparr>"

definition example_discovery :: DiscoveredImapAccount where
  "example_discovery = \<lparr>da_capabilities = capabilities_from_tokens [], da_mailboxes = []\<rparr>"

lemma example_projection: "messages_and_locations_for_batch id example_discovery [] =
    \<lparr>pj_messages = [], pj_locations = [], pj_absent = []\<rparr>"
  by code_simp

definition example_local :: "ImapMessageLocation list" where
  "example_local = [example_location [5] [9] 4, example_location [5] [8] 5, example_location [2] [9] 6]"

lemma example_local_facts:
  "inj_on location_key (set example_local)"
  "has_location m example_local \<longleftrightarrow> m = [5] \<or> m = [2]"
  "(\<forall>l \<in> set example_local. il_message_id l = [5] \<longrightarrow> P l) \<longleftrightarrow>
     P (example_location [5] [9] 4) \<and> P (example_location [5] [8] 5)"
  "(\<forall>l \<in> set example_local. il_message_id l = [2] \<longrightarrow> P l) \<longleftrightarrow> P (example_location [2] [9] 6)"
  by (simp_all add: example_local_def example_location_def location_key_def has_location_def)

theorem delta_deletes_by_origin_witness:
  "set (sb_deleted_message_ids (imap_condstore_delta_sync_batch id example_discovery [] []
      example_local [([9], 1, 4), ([9], 1, 6)] [([8], 1, 5)] [])) = {[2]}"
proof -
  let ?b = "imap_condstore_delta_sync_batch id example_discovery [] [] example_local
      [([9], 1, 4), ([9], 1, 6)] [([8], 1, 5)] []"
  have locs: "ib_message_locations ?b = []"
    by (simp add: imap_condstore_delta_sync_batch_def Let_def push_message_cursor_def example_projection split: prod.split)
  have "set (sb_deleted_message_ids ?b) =
     {m. has_location m example_local \<and> \<not> has_location m (ib_message_locations ?b) \<and>
        (\<forall>l \<in> set example_local. il_message_id l = m \<longrightarrow>
          asserted_gone [] [([9], 1, 4), ([9], 1, 6)] l \<or> location_identity l \<in> set [([8], 1, 5)])} \<inter>
     {m. \<forall>l \<in> set example_local. il_message_id l = m \<longrightarrow> asserted_gone [] [([9], 1, 4), ([9], 1, 6)] l}"
    using delta_deletes_by_origin [OF example_local_facts(1), of id example_discovery "[]" "[]"
        "[([9], 1, 4), ([9], 1, 6)]" "[([8], 1, 5)]" "[]"]
    unfolding example_projection ProjectedMessages.select_convs by blast
  also have "\<dots> = {[2]}"
  proof (rule set_eqI)
    fix m :: str
    consider "m = [5]" | "m = [2]" | "m \<noteq> [5]" "m \<noteq> [2]" by blast
    then show "m \<in> {m. has_location m example_local \<and> \<not> has_location m (ib_message_locations ?b) \<and>
        (\<forall>l \<in> set example_local. il_message_id l = m \<longrightarrow>
          asserted_gone [] [([9], 1, 4), ([9], 1, 6)] l \<or> location_identity l \<in> set [([8], 1, 5)])} \<inter>
     {m. \<forall>l \<in> set example_local. il_message_id l = m \<longrightarrow> asserted_gone [] [([9], 1, 4), ([9], 1, 6)] l} \<longleftrightarrow>
        m \<in> {[2]}"
      by cases (simp_all add: example_local_facts locs, simp_all add: asserted_gone_def provider_absent_def
          location_identity_def example_location_def has_location_def)
  qed
  finally show ?thesis .
qed

text \<open>
  After a partial delta a message is in exactly the mailboxes where it has a location the delta
  leaves or brings: a mailbox it was removed from, by assertion or by inference, is gone from its
  membership, every other stays, and the membership is never empty.
\<close>

lemma delta_membership_follows_locations:
  fixes local_locations hex discovery headers states vanished absence updated_at
  defines "b \<equiv> imap_condstore_delta_sync_batch hex discovery headers states local_locations vanished absence updated_at"
    and "absent \<equiv> pj_absent (messages_and_locations_for_batch hex discovery headers)"
  assumes "inj_on location_key (set local_locations)" and "list_all consistent headers"
    and "msg \<in> set (sb_messages b)"
  shows "mr_mailbox_ids msg \<noteq> [] \<and> mr_mailbox_ids msg = bt_collect (il_mailbox_id `
      ({l \<in> set local_locations. il_message_id l = mr_id msg \<and>
          \<not> asserted_gone absent vanished l \<and> location_identity l \<notin> set absence} \<union>
       {l \<in> set (ib_message_locations b). il_message_id l = mr_id msg}))"
proof -
  let ?pj = "messages_and_locations_for_batch hex discovery headers"
  let ?auth = "asserted_keys local_locations vanished absent"
  let ?abs = "inferred_keys local_locations vanished absence absent"
  have b: "ib_message_locations b = pj_locations ?pj" "sb_messages b =
      preserve_delta_mailboxes_from_locations (pj_messages ?pj) local_locations (?auth @ ?abs)
        (pj_locations ?pj) absent"
    by (simp_all add: b_def absent_def imap_condstore_delta_sync_batch_def Let_def push_message_cursor_def
        asserted_keys_def inferred_keys_def split: prod.split)
  note pm = projected_messages [OF projected_consistent [OF assms(4), of hex discovery],
    folded messages_and_locations_for_batch_def]
  have "mr_id msg \<in> set (map mr_id (pj_messages ?pj))"
    using assms(5) unfolding b(2) preserve_delta_mailboxes_from_locations_def assign_mailboxes_map [OF pm(1)]
    by (auto split: option.splits)
  then have loc: "has_location (mr_id msg) (pj_locations ?pj)" using pm(2) by blast
  have "mr_mailbox_ids msg = bt_collect (il_mailbox_id `
      ({l \<in> set local_locations. il_message_id l = mr_id msg \<and> location_key l \<notin> set (?auth @ ?abs) \<and>
         \<not> provider_absent absent l} \<union> {l \<in> set (pj_locations ?pj). il_message_id l = mr_id msg}))"
    by (rule delta_membership [OF pm(1) assms(5) [unfolded b(2)] loc])
  moreover have "{l \<in> set local_locations. il_message_id l = mr_id msg \<and> location_key l \<notin> set (?auth @ ?abs) \<and>
        \<not> provider_absent absent l} = {l \<in> set local_locations. il_message_id l = mr_id msg \<and>
        \<not> asserted_gone absent vanished l \<and> location_identity l \<notin> set absence}"
    using removed_keys_iff [OF assms(3), of _ vanished absent absence] by (auto simp: asserted_gone_def)
  moreover have "{l \<in> set (pj_locations ?pj). il_message_id l = mr_id msg} \<noteq> {}"
    using loc by (auto simp: has_location_def)
  ultimately show ?thesis unfolding b(1) by simp
qed

definition example_header :: ImapMappedHeader where
  "example_header = \<lparr>mh_message = (default_record [5])\<lparr>mr_mailbox_ids := [[7]]\<rparr>,
     mh_location = example_location [5] [7] 9, mh_gmail_labels = None, mh_source = SelectedMailbox,
     mh_absent = []\<rparr>"

definition example_delta :: ImapSyncBatch where
  "example_delta = imap_condstore_delta_sync_batch id example_discovery [example_header] []
     example_local [] [([8], 1, 5)] []"

lemma example_header_projection: "messages_and_locations_for_batch id example_discovery [example_header] =
    \<lparr>pj_messages = [mh_message example_header], pj_locations = [mh_location example_header], pj_absent = []\<rparr>"
  by code_simp

lemma example_delta_messages: "\<exists>msg. sb_messages example_delta = [msg] \<and> mr_id msg = [5]"
  by (simp add: example_delta_def imap_condstore_delta_sync_batch_def Let_def push_message_cursor_def
      example_header_projection preserve_delta_mailboxes_from_locations_def split: prod.split option.split)
    (simp add: example_header_def default_record_def)

lemma delta_membership_follows_locations_example:
  "map mr_mailbox_ids (sb_messages example_delta) = [bt_collect {[7], [9]}]"
proof -
  obtain msg where msg: "sb_messages example_delta = [msg]" "mr_id msg = [5]"
    using example_delta_messages by blast
  have locs: "ib_message_locations example_delta = [example_location [5] [7] 9]"
    by (simp add: example_delta_def imap_condstore_delta_sync_batch_def Let_def push_message_cursor_def
        example_header_projection split: prod.split)
      (simp add: example_header_def)
  have "list_all consistent [example_header]"
    by (simp add: consistent_def example_header_def example_location_def default_record_def)
  from delta_membership_follows_locations [OF example_local_facts(1) this, of msg id example_discovery "[]"
      "[]" "[([8], 1, 5)]" "[]", folded example_delta_def] msg(1)
  have "mr_mailbox_ids msg = bt_collect (il_mailbox_id `
      ({l \<in> set example_local. il_message_id l = mr_id msg \<and>
          \<not> asserted_gone [] [] l \<and> location_identity l \<notin> set [([8], 1, 5)]} \<union>
       {l \<in> set (ib_message_locations example_delta). il_message_id l = mr_id msg}))"
    by (simp add: example_header_projection)
  also have "{l \<in> set example_local. il_message_id l = mr_id msg \<and> \<not> asserted_gone [] [] l \<and>
      location_identity l \<notin> set [([8], 1, 5)]} = {example_location [5] [9] 4}"
    by (auto simp: msg(2) example_local_def asserted_gone_def provider_absent_def location_identity_def
        example_location_def)
  also have "{l \<in> set (ib_message_locations example_delta). il_message_id l = mr_id msg} =
      {example_location [5] [7] 9}"
    by (auto simp: locs msg(2) example_location_def)
  finally show ?thesis by (simp add: msg(1) example_location_def insert_commute)
qed

text \<open>
  Copies become one message: projecting a batch of Gmail headers keeps every location (mailbox,
  UIDVALIDITY, UID) exactly as often as it was fetched, and two copies that get one canonical id carry
  one record, so the batch cannot write conflicting rows for a message.
\<close>

lemma gmail_copies_share_one_record:
  fixes hex :: "nat list \<Rightarrow> str" and headers :: "ImapMappedHeader list"
  assumes "canonicalizes_by_gmail_message_id (pp_imap (provider_profile discovery))"
  defines "out \<equiv> project_imap_headers hex discovery headers"
  shows "mset (map (\<lambda>h. location_identity (mh_location h)) out) =
      mset (map (\<lambda>h. location_identity (mh_location h)) headers) \<and>
    (\<forall>h \<in> set out. \<forall>h' \<in> set out. il_message_id (mh_location h) = il_message_id (mh_location h') \<longrightarrow>
       mh_message h = mh_message h')"
  unfolding out_def using projected_identities gmail_headers [OF assms(1)] by blast

definition gmail_account :: DiscoveredImapAccount where
  "gmail_account = \<lparr>da_capabilities = capabilities_from_tokens [L ''X-GM-EXT-1''], da_mailboxes = []\<rparr>"

lemma gmail_account_is_gmail:
  "canonicalizes_by_gmail_message_id (pp_imap (provider_profile gmail_account))"
  by code_simp

lemma gmail_copies_share_one_record_example:
  "mset (map (\<lambda>h. location_identity (mh_location h))
     (project_imap_headers id gmail_account [example_header, example_header])) =
   {#([7], 1, 9), ([7], 1, 9)#}"
  using gmail_copies_share_one_record [OF gmail_account_is_gmail, where hex = id and headers = "[example_header, example_header]"]
  by (simp add: example_header_def location_identity_def example_location_def)

subsection \<open>Keywords survive the server\<close>

text \<open>
  What the protocol crate documents: \<open>display\<close> (\<open>Flag::to_string\<close>) writes the system flags with their
  backslash, \<open>flag_of\<close> reads back what was written, and an atom is a keyword.
\<close>

definition imap_atom :: "str \<Rightarrow> bool" where
  "imap_atom s \<longleftrightarrow> s \<noteq> [] \<and>
     list_all (\<lambda>c. 33 \<le> c \<and> c \<le> 126 \<and> c \<notin> {34, 37, 40, 41, 42, 92, 93, 123}) s"

definition flag_codec_ok :: "flag_parser \<Rightarrow> (ImapFlag \<Rightarrow> str) \<Rightarrow> bool" where
  "flag_codec_ok flag_of display \<longleftrightarrow>
     display FlSeen = bs ''Seen'' \<and> display FlAnswered = bs ''Answered'' \<and>
     display FlFlagged = bs ''Flagged'' \<and> display FlDraft = bs ''Draft'' \<and>
     (\<forall>e. display (FlExtension e) = 92 # e) \<and> (\<forall>k. display (FlKeyword k) = k) \<and>
     flag_of (bs ''Seen'') = Inr FlSeen \<and> flag_of (bs ''Answered'') = Inr FlAnswered \<and>
     flag_of (bs ''Flagged'') = Inr FlFlagged \<and> flag_of (bs ''Draft'') = Inr FlDraft \<and>
     flag_of IMAP_FLAG_FORWARDED = Inr (FlExtension (L ''Forwarded'')) \<and>
     (\<forall>s. imap_atom s \<longrightarrow> flag_of s = Inr (FlKeyword s))"

text \<open>A keyword in its stored form: a system keyword, or an atom no case variant of which is one.\<close>

definition stored_keyword :: "str \<Rightarrow> bool" where
  "stored_keyword k \<longleftrightarrow> (\<exists>sk. k = system_keyword_str sk) \<or>
     (imap_atom k \<and> parse_system_keyword (to_ascii_lowercase k) = None)"

lemma parse_system_keyword_str [simp]:
  "parse_system_keyword (to_ascii_lowercase (system_keyword_str sk)) = Some sk"
  by (cases sk) (simp_all add: system_keyword_str_def parse_system_keyword_def to_ascii_lowercase_def ascii_lower_def)

lemma atom_no_backslash: "imap_atom s \<Longrightarrow> \<not> starts_with s [92]"
  by (cases s) (auto simp: imap_atom_def)

lemma atom_not_forwarded: "imap_atom s \<Longrightarrow> \<not> eq_ignore_ascii_case s IMAP_FLAG_FORWARDED"
  by (cases s) (auto simp: imap_atom_def eq_ignore_ascii_case_def IMAP_FLAG_FORWARDED_def
      to_ascii_lowercase_def ascii_lower_def split: if_splits)

lemma keyword_round_trip:
  assumes "flag_codec_ok flag_of display" and "stored_keyword k"
  shows "\<exists>flag. imap_flag_for_keyword flag_of k = Inr flag \<and> flag_keyword flag_of (display flag) = Some k"
  using assms(2) unfolding stored_keyword_def
proof
  assume "\<exists>sk. k = system_keyword_str sk"
  then obtain sk where sk: "k = system_keyword_str sk" by blast
  then have k: "imap_flag_for_keyword flag_of k = imap_flag_for_system_keyword flag_of sk"
    by (simp add: imap_flag_for_keyword_def)
  define flag where "flag = (case sk of SkSeen \<Rightarrow> FlSeen | SkDraft \<Rightarrow> FlDraft | SkFlagged \<Rightarrow> FlFlagged
    | SkAnswered \<Rightarrow> FlAnswered | SkForwarded \<Rightarrow> FlExtension (L ''Forwarded''))"
  have "imap_flag_for_system_keyword flag_of sk = Inr flag"
    using assms(1) by (cases sk) (simp_all add: flag_def flag_codec_ok_def imap_flag_for_system_keyword_def)
  moreover have "imap_system_flag_keyword flag_of (display flag) = Some sk"
    using assms(1)
    by (cases sk) (simp_all add: flag_def flag_codec_ok_def imap_system_flag_keyword_def
        eq_ignore_ascii_case_def IMAP_FLAG_FORWARDED_def to_ascii_lowercase_def ascii_lower_def)
  ultimately show ?thesis using k sk by (simp add: flag_keyword_def)
next
  assume k: "imap_atom k \<and> parse_system_keyword (to_ascii_lowercase k) = None"
  then have "flag_of k = Inr (FlKeyword k)" "display (FlKeyword k) = k"
    using assms(1) by (simp_all add: flag_codec_ok_def)
  with k atom_no_backslash [of k] atom_not_forwarded [of k] show ?thesis
    by (simp add: imap_flag_for_keyword_def flag_keyword_def imap_system_flag_keyword_def)
qed

text \<open>
  Keywords survive the server: translating stored keywords to IMAP flags never fails, and reading
  the flags back as the server reports them gives the same keywords, in order and without duplicates.
\<close>

lemma keywords_survive_the_server:
  assumes "flag_codec_ok flag_of display" and "list_all stored_keyword ks"
  shows "\<exists>flags. imap_flags_for_keywords flag_of ks = Inr flags \<and>
    imap_flag_keywords flag_of (map display flags) = remdups_adj (sort ks)"
proof -
  have "\<exists>flags. sequence (map (imap_flag_for_keyword flag_of) ks) = Inr flags \<and>
      List.map_filter (flag_keyword flag_of) (map display flags) = ks"
    using assms(2)
  proof (induction ks)
    case (Cons k ks')
    then obtain flag flags where "imap_flag_for_keyword flag_of k = Inr flag"
      "flag_keyword flag_of (display flag) = Some k"
      "sequence (map (imap_flag_for_keyword flag_of) ks') = Inr flags"
      "List.map_filter (flag_keyword flag_of) (map display flags) = ks'"
      using keyword_round_trip [OF assms(1), of k] by auto
    then show ?case by (intro exI [of _ "flag # flags"]) (simp add: List.map_filter_def)
  qed (simp add: List.map_filter_def)
  then show ?thesis by (auto simp: imap_flags_for_keywords_def imap_flag_keywords_def)
qed

definition example_display :: "ImapFlag \<Rightarrow> str" where
  "example_display f = (case f of FlAnswered \<Rightarrow> bs ''Answered'' | FlDeleted \<Rightarrow> bs ''Deleted''
   | FlDraft \<Rightarrow> bs ''Draft'' | FlFlagged \<Rightarrow> bs ''Flagged'' | FlSeen \<Rightarrow> bs ''Seen''
   | FlExtension e \<Rightarrow> 92 # e | FlKeyword k \<Rightarrow> k)"

definition example_flag_of :: flag_parser where
  "example_flag_of s =
     (if s = bs ''Seen'' then Inr FlSeen else if s = bs ''Answered'' then Inr FlAnswered
      else if s = bs ''Flagged'' then Inr FlFlagged else if s = bs ''Draft'' then Inr FlDraft
      else if s = IMAP_FLAG_FORWARDED then Inr (FlExtension (L ''Forwarded''))
      else if imap_atom s then Inr (FlKeyword s) else Inl [])"

lemma example_codec_ok: "flag_codec_ok example_flag_of example_display"
  by (auto simp: flag_codec_ok_def example_flag_of_def example_display_def IMAP_FLAG_FORWARDED_def imap_atom_def)

lemma keywords_survive_the_server_example:
  "\<exists>flags. imap_flags_for_keywords example_flag_of [L ''$seen'', L ''work'', L ''$forwarded''] = Inr flags \<and>
     imap_flag_keywords example_flag_of (map example_display flags) =
       remdups_adj (sort [L ''$seen'', L ''work'', L ''$forwarded''])"
proof (rule keywords_survive_the_server [OF example_codec_ok])
  have "stored_keyword (L ''$seen'')" "stored_keyword (L ''$forwarded'')"
    unfolding stored_keyword_def
    by (rule disjI1, rule exI [of _ SkSeen], simp add: system_keyword_str_def)
      (rule disjI1, rule exI [of _ SkForwarded], simp add: system_keyword_str_def)
  moreover have "stored_keyword (L ''work'')"
    by (simp add: stored_keyword_def imap_atom_def parse_system_keyword_def to_ascii_lowercase_def ascii_lower_def)
  ultimately show "list_all stored_keyword [L ''$seen'', L ''work'', L ''$forwarded'']" by simp
qed

subsection \<open>A user label that ends in a system name\<close>

lemma last_component:
  "rsplit_once 47 (pre @ L ''/Trash'') = Some (pre, L ''Trash'')"
  by (simp add: rsplit_once_def)

lemma trash_leaf_is_system:
  "dm_name mailbox = pre @ L ''/Trash'' \<Longrightarrow> LbTrash \<in> set (gmail_system_labels_for_mailbox mailbox)"
proof -
  assume "dm_name mailbox = pre @ L ''/Trash''"
  then have "gmail_mailbox_name_matches (dm_name mailbox) (L ''Trash'')"
    using last_component [of pre] by (simp add: gmail_mailbox_name_matches_def eq_ignore_ascii_case_def)
  then show ?thesis
    unfolding gmail_system_labels_for_mailbox_def Let_def set_filter
    by (intro CollectI conjI disjI2) (simp_all only: GmailSystemLabel.case list.set insert_iff simp_thms)
qed

lemma add_system_label_simps [simp]:
  "lp_mailbox_ids_by_label (add_system_label mailbox label p) (CustomLabel name) =
     lp_mailbox_ids_by_label p (CustomLabel name)"
  "lp_absence_authoritative (add_system_label mailbox label p) =
     (if absence_is_authoritative label then insert (dm_id mailbox) else id) (lp_absence_authoritative p)"
  by (simp_all add: add_system_label_def)

lemma fold_system_labels:
  "lp_mailbox_ids_by_label (fold (add_system_label mailbox) labels p) (CustomLabel name) =
     lp_mailbox_ids_by_label p (CustomLabel name)"
  "lp_absence_authoritative (fold (add_system_label mailbox) labels p) =
     (if list_ex absence_is_authoritative labels then insert (dm_id mailbox) else id) (lp_absence_authoritative p)"
  by (induction labels arbitrary: p) auto

lemma projector_add_custom:
  "gmail_system_labels_for_mailbox mailbox \<noteq> [] \<or> dm_name mailbox \<noteq> name \<Longrightarrow>
   lp_mailbox_ids_by_label (projector_add mailbox p) (CustomLabel name) =
     lp_mailbox_ids_by_label p (CustomLabel name)"
  by (auto simp: projector_add_def Let_def fold_system_labels)

lemma projector_add_authoritative:
  "lp_absence_authoritative (projector_add mailbox p) =
     (if gmail_system_labels_for_mailbox mailbox = [] \<or>
         list_ex absence_is_authoritative (gmail_system_labels_for_mailbox mailbox)
      then insert (dm_id mailbox) else id) (lp_absence_authoritative p)"
  by (simp add: projector_add_def Let_def fold_system_labels)

lemma projector_authoritative:
  "lp_absence_authoritative (fold projector_add ms p) = lp_absence_authoritative p \<union>
     dm_id ` {m \<in> set ms. gmail_system_labels_for_mailbox m = [] \<or>
       list_ex absence_is_authoritative (gmail_system_labels_for_mailbox m)}"
  by (induction ms arbitrary: p) (auto simp: projector_add_authoritative)

lemma projector_new_facts:
  assumes "\<And>m. m \<in> set mailboxes \<Longrightarrow> dm_name m = name \<Longrightarrow> LbTrash \<in> set (gmail_system_labels_for_mailbox m)"
  shows "lp_mailbox_ids_by_label (projector_new mailboxes) (CustomLabel name) = None"
    and "m \<in> set mailboxes \<Longrightarrow> dm_selectable m \<Longrightarrow> dm_name m = name \<Longrightarrow>
      dm_id m \<in> lp_absence_authoritative (projector_new mailboxes)"
proof -
  have "lp_mailbox_ids_by_label (fold projector_add ms p) (CustomLabel name) =
      lp_mailbox_ids_by_label p (CustomLabel name)" if "set ms \<subseteq> set mailboxes" for ms p
    using that
  proof (induction ms arbitrary: p)
    case (Cons m ms)
    then have "gmail_system_labels_for_mailbox m \<noteq> [] \<or> dm_name m \<noteq> name"
      using assms [of m] by (auto dest: length_pos_if_in_set)
    with Cons show ?case by (simp add: projector_add_custom)
  qed simp
  then show "lp_mailbox_ids_by_label (projector_new mailboxes) (CustomLabel name) = None"
    by (simp add: projector_new_def)
  show "m \<in> set mailboxes \<Longrightarrow> dm_selectable m \<Longrightarrow> dm_name m = name \<Longrightarrow>
      dm_id m \<in> lp_absence_authoritative (projector_new mailboxes)"
    using assms [of m] by (auto simp: projector_new_def projector_authoritative list_ex_iff absence_is_authoritative_def)
qed

lemma nested_label_is_custom: "label_key (pre @ L ''/Trash'') = CustomLabel (pre @ L ''/Trash'')"
proof -
  have "47 \<in> set (to_ascii_uppercase (pre @ L ''/Trash''))" "47 \<in> set (to_ascii_lowercase (pre @ L ''/Trash''))"
    by (simp_all add: to_ascii_uppercase_def ascii_upper_def to_ascii_lowercase_def ascii_lower_def)
  then show ?thesis
    by (auto simp: label_key_def label_from_label_def Let_def eq_ignore_ascii_case_def
        to_ascii_lowercase_def ascii_lower_def split: option.splits if_splits)
qed

text \<open>
  A user label whose last path component is a system name (here \<open>pre/Trash\<close>) is taken for that
  system label when the mailbox is registered but not when it is read from a message: a message that
  carries the label, seen in any other mailbox, is reported as authoritatively absent from the
  label's mailbox and loses its membership there.
\<close>

lemma nested_label_reported_absent:
  assumes "mailbox \<in> set mailboxes" and "dm_selectable mailbox" and "dm_name mailbox = pre @ L ''/Trash''"
    and "il_mailbox_id (mh_location header) \<noteq> dm_id mailbox"
  defines "out \<equiv> project_labels (projector_new mailboxes) [dm_name mailbox] header"
  shows "dm_id mailbox \<in> set (mh_absent out) \<and> dm_id mailbox \<notin> set (mr_mailbox_ids (mh_message out))"
proof -
  have trash: "dm_name m = dm_name mailbox \<Longrightarrow> LbTrash \<in> set (gmail_system_labels_for_mailbox m)" for m
    using trash_leaf_is_system [of m pre] assms(3) by simp
  note facts = projector_new_facts [of mailboxes "dm_name mailbox", OF trash]
  have fin: "finite (lp_absence_authoritative (projector_new mailboxes))"
    by (simp add: projector_new_def projector_authoritative)
  have "label_key (dm_name mailbox) = CustomLabel (dm_name mailbox)"
    using nested_label_is_custom [of pre] assms(3) by simp
  with facts(1) have "List.map_filter (lp_mailbox_ids_by_label (projector_new mailboxes))
      (map label_key [dm_name mailbox]) = []" by (simp add: List.map_filter_def)
  then show ?thesis using facts(2) [OF _ assms(1,2)] fin assms(4)
    by (simp add: out_def project_labels_def Let_def)
qed

lemma nested_label_reported_absent_example:
  "[8] \<in> set (mh_absent (project_labels
     (projector_new [\<lparr>dm_id = [8], dm_name = L ''Old/Trash'', dm_role = None, dm_selectable = True,
        dm_attributes = []\<rparr>]) [L ''Old/Trash''] example_header))"
  using nested_label_reported_absent [of "\<lparr>dm_id = [8], dm_name = L ''Old/Trash'', dm_role = None,
      dm_selectable = True, dm_attributes = []\<rparr>" "[\<lparr>dm_id = [8], dm_name = L ''Old/Trash'', dm_role = None,
      dm_selectable = True, dm_attributes = []\<rparr>]" "L ''Old''" example_header]
  by (simp add: example_header_def example_location_def)

end
