(* ===== verification/ImapStore.thy ===== *)
theory ImapStore
  imports ImapProject
begin

text \<open>
  The store side of a sync, with the tables SyncStore leaves out: mailboxes and their role overrides
  (\<open>mutations/mailbox_cleanup.rs\<close>, \<open>message_apply.rs\<close>, \<open>commands.rs\<close>), the IMAP sync states and message
  coordinates (\<open>store/imap.rs\<close>), and the whole transaction of a batch
  (\<open>mutations/sync_batch.rs\<close>, \<open>projection_tracking.rs\<close>). A table is the association list of its rows
  under their primary key, in insertion order. The index of mailbox roles that MailDb holds as a map
  is recomputed from the mailbox rows. Projections, the body cache and event payloads stay out.
\<close>

subsection \<open>Tables\<close>

record MailboxRow =
  mbr_name :: str
  mbr_role :: "str option"

record SyncDb =
  sd_mail :: MailDb
  sd_mailboxes :: "((str \<times> str) \<times> MailboxRow) list"
  sd_role_overrides :: "((str \<times> str) \<times> str option) list"
  sd_states :: "((str \<times> str) \<times> ImapMailboxSyncState) list"
  sd_locations :: "((str \<times> str \<times> str) \<times> ImapMessageLocation) list"

definition with_mail :: "(MailDb \<Rightarrow> MailDb) \<Rightarrow> SyncDb \<Rightarrow> SyncDb" where
  "with_mail f db = db\<lparr>sd_mail := f (sd_mail db)\<rparr>"

definition mailbox_by_role :: "((str \<times> str) \<times> MailboxRow) list \<Rightarrow> str \<Rightarrow> str \<Rightarrow> str option" where
  "mailbox_by_role rows account_id role =
     map_option (\<lambda>row. snd (fst row))
       (List.find (\<lambda>row. fst (fst row) = account_id \<and> mbr_role (snd row) = Some role) rows)"

definition set_mailboxes :: "((str \<times> str) \<times> MailboxRow) list \<Rightarrow> SyncDb \<Rightarrow> SyncDb" where
  "set_mailboxes rows db = with_mail
     (\<lambda>mail. mail\<lparr>db_role_mailbox := (\<lambda>(account_id, role). mailbox_by_role rows account_id role)\<rparr>)
     (db\<lparr>sd_mailboxes := rows\<rparr>)"

subsection \<open>Sync states and coordinates\<close>

definition list_imap_mailbox_states :: "str \<Rightarrow> SyncDb \<Rightarrow> ImapMailboxSyncState list" where
  "list_imap_mailbox_states account_id db =
     sort_key is_mailbox_name (sort_key is_mailbox_id
       (map snd (filter (\<lambda>row. fst (fst row) = account_id) (sd_states db))))"

definition get_imap_mailbox_state :: "str \<Rightarrow> str \<Rightarrow> SyncDb \<Rightarrow> ImapMailboxSyncState option" where
  "get_imap_mailbox_state account_id mailbox_id db = map_of (sd_states db) (account_id, mailbox_id)"

definition put_imap_mailbox_state :: "str \<Rightarrow> ImapMailboxSyncState \<Rightarrow> SyncDb \<Rightarrow> SyncDb" where
  "put_imap_mailbox_state account_id state db =
     db\<lparr>sd_states := AList.update (account_id, is_mailbox_id state) state (sd_states db)\<rparr>"

definition delete_imap_mailbox_state :: "str \<Rightarrow> str \<Rightarrow> SyncDb \<Rightarrow> SyncDb" where
  "delete_imap_mailbox_state account_id mailbox_id db =
     db\<lparr>sd_states := AList.delete (account_id, mailbox_id) (sd_states db)\<rparr>"

definition list_imap_message_locations :: "str \<Rightarrow> str \<Rightarrow> SyncDb \<Rightarrow> ImapMessageLocation list" where
  "list_imap_message_locations account_id message_id db =
     sort_key il_mailbox_id
       (map snd (filter (\<lambda>((account, message, mailbox), _). account = account_id \<and> message = message_id)
          (sd_locations db)))"

definition list_imap_mailbox_message_locations :: "str \<Rightarrow> str \<Rightarrow> SyncDb \<Rightarrow> ImapMessageLocation list" where
  "list_imap_mailbox_message_locations account_id mailbox_id db =
     sort_key il_uid
       (map snd (filter (\<lambda>((account, message, mailbox), _). account = account_id \<and> mailbox = mailbox_id)
          (sd_locations db)))"

definition put_imap_message_location :: "str \<Rightarrow> ImapMessageLocation \<Rightarrow> SyncDb \<Rightarrow> SyncDb" where
  "put_imap_message_location account_id location db =
     db\<lparr>sd_locations := AList.update (account_id, il_message_id location, il_mailbox_id location)
          location (sd_locations db)\<rparr>"

definition delete_imap_message_locations :: "str \<Rightarrow> str \<Rightarrow> SyncDb \<Rightarrow> SyncDb" where
  "delete_imap_message_locations account_id message_id db =
     db\<lparr>sd_locations := filter (\<lambda>((account, message, mailbox), _).
          \<not> (account = account_id \<and> message = message_id)) (sd_locations db)\<rparr>"

definition prune_stale_imap_message_locations ::
  "str \<Rightarrow> ImapMessageLocation list \<Rightarrow> SyncDb \<Rightarrow> SyncDb" where
  "prune_stale_imap_message_locations account_id remote_locations db =
     (let remote_keys = set (map (\<lambda>l. (il_message_id l, il_mailbox_id l)) remote_locations)
      in db\<lparr>sd_locations := filter (\<lambda>((account, message, mailbox), _).
           account \<noteq> account_id \<or> (message, mailbox) \<in> remote_keys) (sd_locations db)\<rparr>)"

subsection \<open>Mailboxes\<close>

definition drop_membership :: "(str \<times> str \<Rightarrow> bool) \<Rightarrow> str \<Rightarrow> MailDb \<Rightarrow> MailDb" where
  "drop_membership P mailbox_id mail =
     mail\<lparr>db_base := map (\<lambda>(key, row). (key,
        if P key then row\<lparr>mr_mailbox_ids := filter (\<lambda>m. m \<noteq> mailbox_id) (mr_mailbox_ids row)\<rparr> else row))
        (db_base mail)\<rparr>"

definition delete_mailbox :: "str \<Rightarrow> str \<Rightarrow> SyncDb \<Rightarrow> SyncDb" where
  "delete_mailbox account_id mailbox_id db =
     (let db = with_mail (drop_membership (\<lambda>key. fst key = account_id) mailbox_id) db;
          db = delete_imap_mailbox_state account_id mailbox_id db;
          db = db\<lparr>sd_locations := filter (\<lambda>((account, message, mailbox), _).
                 \<not> (account = account_id \<and> mailbox = mailbox_id)) (sd_locations db)\<rparr>;
          db = db\<lparr>sd_role_overrides := AList.delete (account_id, mailbox_id) (sd_role_overrides db)\<rparr>
      in set_mailboxes (AList.delete (account_id, mailbox_id) (sd_mailboxes db)) db)"

definition local_mailbox_ids :: "str \<Rightarrow> SyncDb \<Rightarrow> str set" where
  "local_mailbox_ids account_id db =
     snd ` set (filter (\<lambda>key. fst key = account_id) (map fst (sd_mailboxes db)))"

definition prune_mailboxes_absent_from_remote :: "str \<Rightarrow> str set \<Rightarrow> SyncDb \<Rightarrow> SyncDb" where
  "prune_mailboxes_absent_from_remote account_id remote db =
     (let local = local_mailbox_ids account_id db;
          doomed = bt_collect (local - remote)
      in if card local > 0 \<and> (remote = {} \<or> over_floor (length doomed) (card local)) then db
         else fold (delete_mailbox account_id) doomed db)"

definition effective_mailbox_role :: "str \<Rightarrow> str \<Rightarrow> str option \<Rightarrow> SyncDb \<Rightarrow> str option" where
  "effective_mailbox_role account_id mailbox_id discovered_role db =
     (case map_of (sd_role_overrides db) (account_id, mailbox_id) of
        Some role \<Rightarrow> role | None \<Rightarrow> discovered_role)"

definition upsert_mailbox :: "str \<Rightarrow> MailboxRecord \<Rightarrow> SyncDb \<Rightarrow> SyncDb" where
  "upsert_mailbox account_id mailbox db =
     set_mailboxes (AList.update (account_id, mb_id mailbox)
       \<lparr>mbr_name = mb_name mailbox,
        mbr_role = effective_mailbox_role account_id (mb_id mailbox) (mb_role mailbox) db\<rparr>
       (sd_mailboxes db)) db"

definition upsert_mailbox_role_override :: "str \<Rightarrow> str \<Rightarrow> str option \<Rightarrow> SyncDb \<Rightarrow> SyncDb" where
  "upsert_mailbox_role_override account_id mailbox_id role db =
     db\<lparr>sd_role_overrides := AList.update (account_id, mailbox_id) role (sd_role_overrides db)\<rparr>"

definition validate_mailbox_role :: "str option \<Rightarrow> (StoreError, unit) result" where
  "validate_mailbox_role role = (case role of
     None \<Rightarrow> Inr ()
   | Some r \<Rightarrow> if parse_role r = None then Inl (StConflict (L ''unsupported mailbox role: '' @ r)) else Inr ())"

definition ensure_mailbox_role_is_available ::
  "str \<Rightarrow> str \<Rightarrow> str option \<Rightarrow> SyncDb \<Rightarrow> (StoreError, unit) result" where
  "ensure_mailbox_role_is_available account_id mailbox_id role db = (case role of
     None \<Rightarrow> Inr ()
   | Some r \<Rightarrow>
       (case mailbox_by_role (filter (\<lambda>row. snd (fst row) \<noteq> mailbox_id) (sd_mailboxes db)) account_id r of
          Some owner \<Rightarrow> Inl (StConflict (L ''mailbox role '' @ r @ L '' already assigned to mailbox:'' @ owner))
        | None \<Rightarrow> Inr ()))"

definition update_mailbox_role ::
  "str \<Rightarrow> str \<Rightarrow> str option \<Rightarrow> SyncDb \<Rightarrow> (StoreError, SyncDb) result" where
  "update_mailbox_role account_id mailbox_id role db =
     (case map_of (sd_mailboxes db) (account_id, mailbox_id) of
        None \<Rightarrow> Inl (StNotFound (L ''mailbox:'' @ mailbox_id))
      | Some row \<Rightarrow> Inr (set_mailboxes
          (AList.update (account_id, mailbox_id) (row\<lparr>mbr_role := role\<rparr>) (sd_mailboxes db)) db))"

text \<open>One transaction: an error leaves the tables as they were.\<close>

definition set_mailbox_role_override ::
  "str \<Rightarrow> str \<Rightarrow> str option \<Rightarrow> str option \<Rightarrow> SyncDb \<Rightarrow> (StoreError, unit) result \<times> SyncDb" where
  "set_mailbox_role_override account_id mailbox_id role clear_role_from db =
     (case validate_mailbox_role role of
        Inl e \<Rightarrow> (Inl e, db)
      | Inr _ \<Rightarrow>
         (case (case clear_role_from of
                  Some other \<Rightarrow>
                    if other = mailbox_id then Inr db
                    else update_mailbox_role account_id other None
                           (upsert_mailbox_role_override account_id other None db)
                | None \<Rightarrow> Inr db) of
            Inl e \<Rightarrow> (Inl e, db)
          | Inr db1 \<Rightarrow>
             (case ensure_mailbox_role_is_available account_id mailbox_id role db1 of
                Inl e \<Rightarrow> (Inl e, db)
              | Inr _ \<Rightarrow>
                 (case update_mailbox_role account_id mailbox_id role
                         (upsert_mailbox_role_override account_id mailbox_id role db1) of
                    Inl e \<Rightarrow> (Inl e, db)
                  | Inr db2 \<Rightarrow> (Inr (), db2)))))"

subsection \<open>Deleting messages and coordinates\<close>

definition delete_message_and_locations :: "str \<Rightarrow> str \<Rightarrow> SyncDb \<Rightarrow> SyncDb" where
  "delete_message_and_locations account_id message_id db =
     delete_imap_message_locations account_id message_id
       (with_mail (delete_and_write_through account_id message_id) db)"

definition prune_messages :: "str \<Rightarrow> str set \<Rightarrow> SyncDb \<Rightarrow> SyncDb" where
  "prune_messages account_id remote db =
     (let local = local_message_ids account_id (sd_mail db);
          doomed = bt_collect (local - remote)
      in if card local > 0 \<and> (remote = {} \<or> over_floor (length doomed) (card local)) then db
         else fold (delete_message_and_locations account_id) doomed db)"

definition location_hit :: "str \<Rightarrow> ImapMessageLocationKey \<Rightarrow> SyncDb \<Rightarrow> bool" where
  "location_hit account_id key db =
     (case map_of (sd_locations db) (account_id, ik_message_id key, ik_mailbox_id key) of
        Some l \<Rightarrow> il_uid_validity l = ik_uid_validity key \<and> il_uid l = ik_uid key | None \<Rightarrow> False)"

definition delete_imap_message_location :: "str \<Rightarrow> ImapMessageLocationKey \<Rightarrow> SyncDb \<Rightarrow> SyncDb" where
  "delete_imap_message_location account_id key db =
     (if \<not> location_hit account_id key db then db
      else (let existed = ik_message_id key \<in> local_message_ids account_id (sd_mail db);
                db = db\<lparr>sd_locations := AList.delete (account_id, ik_message_id key, ik_mailbox_id key)
                       (sd_locations db)\<rparr>
            in if existed
               then with_mail (drop_membership (\<lambda>k. k = (account_id, ik_message_id key)) (ik_mailbox_id key)) db
               else db))"

subsection \<open>The batch transaction\<close>

definition apply_imap_sync_batch :: "str \<Rightarrow> ImapSyncBatch \<Rightarrow> SyncDb \<Rightarrow> SyncDb" where
  "apply_imap_sync_batch account_id batch db =
     (let db = (if ib_replace_all_mailboxes batch
                then prune_mailboxes_absent_from_remote account_id (set (map mb_id (ib_mailboxes batch))) db
                else db);
          db = (if sb_replace_all_messages batch
                then prune_stale_imap_message_locations account_id (ib_message_locations batch)
                       (prune_messages account_id (set (map mr_id (sb_messages batch))) db)
                else db);
          db = fold (delete_mailbox account_id) (ib_deleted_mailbox_ids batch) db;
          allowed = imap_absence_prune_allowed account_id
                      (length (sb_absence_deleted_message_ids batch)) (sd_mail db);
          deleted = set (sb_deleted_message_ids batch) \<union>
                      (if allowed then set (sb_absence_deleted_message_ids batch) else {});
          locations = ib_deleted_message_locations batch @
                      (if allowed then ib_absence_deleted_message_locations batch else []);
          db = fold (delete_imap_message_location account_id)
                 (filter (\<lambda>key. ik_message_id key \<notin> deleted) locations) db;
          db = fold (delete_message_and_locations account_id) (bt_collect deleted) db;
          db = fold (upsert_mailbox account_id) (ib_mailboxes batch) db;
          db = fold (\<lambda>message. with_mail (apply_and_write_through account_id message))
                 (sb_messages batch) db;
          db = fold (put_imap_message_location account_id) (ib_message_locations batch) db;
          db = fold (put_imap_mailbox_state account_id) (ib_mailbox_states batch) db
      in fold (\<lambda>cursor. with_mail (upsert_sync_cursor account_id cursor)) (sb_cursors batch) db)"

record ImapSyncReconciliation = SyncReconciliation +
  ir_remote_mailbox_ids :: "str list"
  ir_prune_mailboxes :: bool

definition reconcile_imap_sync :: "str \<Rightarrow> ImapSyncReconciliation \<Rightarrow> SyncDb \<Rightarrow> SyncDb" where
  "reconcile_imap_sync account_id reconciliation db =
     (let db = (if ir_prune_mailboxes reconciliation
                then prune_mailboxes_absent_from_remote account_id
                       (set (ir_remote_mailbox_ids reconciliation)) db
                else db);
          db = (if rn_prune_messages reconciliation
                then prune_messages account_id (set (rn_remote_message_ids reconciliation)) db
                else db)
      in fold (\<lambda>cursor. with_mail (upsert_sync_cursor account_id cursor)) (rn_cursors reconciliation) db)"

subsection \<open>What the steps leave alone\<close>

named_theorems sync_db_simps \<open>how the steps act on single tables\<close>

lemma with_mail_simps [sync_db_simps]:
  "sd_mail (with_mail f db) = f (sd_mail db)"
  "sd_locations (with_mail f db) = sd_locations db"
  "sd_states (with_mail f db) = sd_states db"
  "sd_mailboxes (with_mail f db) = sd_mailboxes db"
  by (simp_all add: with_mail_def)

lemma set_mailboxes_simps [sync_db_simps]:
  "sd_locations (set_mailboxes rows db) = sd_locations db"
  "sd_states (set_mailboxes rows db) = sd_states db"
  "sd_mailboxes (set_mailboxes rows db) = rows"
  "db_base (sd_mail (set_mailboxes rows db)) = db_base (sd_mail db)"
  by (simp_all add: set_mailboxes_def with_mail_def)

lemma put_simps [sync_db_simps]:
  "sd_mail (put_imap_message_location a l db) = sd_mail db"
  "sd_mail (put_imap_mailbox_state a s db) = sd_mail db"
  "sd_locations (put_imap_mailbox_state a s db) = sd_locations db"
  "sd_states (put_imap_message_location a l db) = sd_states db"
  "sd_mail (delete_imap_mailbox_state a i db) = sd_mail db"
  "sd_locations (delete_imap_mailbox_state a i db) = sd_locations db"
  "sd_mail (delete_imap_message_locations a i db) = sd_mail db"
  "sd_mail (prune_stale_imap_message_locations a ls db) = sd_mail db"
  by (simp_all add: put_imap_message_location_def put_imap_mailbox_state_def delete_imap_mailbox_state_def
      delete_imap_message_locations_def prune_stale_imap_message_locations_def Let_def)

lemma fold_put_locations [sync_db_simps]:
  "sd_mail (fold (put_imap_message_location a) ls db) = sd_mail db"
  "sd_mail (fold (put_imap_mailbox_state a) ss db) = sd_mail db"
  "sd_locations (fold (put_imap_mailbox_state a) ss db) = sd_locations db"
  "sd_mail (fold (\<lambda>x. with_mail (g x)) xs db) = fold g xs (sd_mail db)"
  "sd_locations (fold (\<lambda>x. with_mail (g x)) xs db) = sd_locations db"
  by (induction ls arbitrary: db; induction ss arbitrary: db; induction xs arbitrary: db;
      simp add: sync_db_simps)+

abbreviation local_ids :: "str \<Rightarrow> SyncDb \<Rightarrow> str set" where
  "local_ids a db \<equiv> local_message_ids a (sd_mail db)"

lemma local_ids_base: "db_base mail = db_base mail' \<Longrightarrow> local_message_ids a mail = local_message_ids a mail'"
  by (simp add: local_message_ids_def)

lemma drop_membership_ids [sync_db_simps]:
  "local_message_ids a (drop_membership P m mail) = local_message_ids a mail"
proof -
  have "map fst (map (\<lambda>(key, row). (key, if P key then f row else row)) rows) = map fst rows"
    for f :: "MessageRecord \<Rightarrow> MessageRecord" and rows by (induction rows) auto
  then show ?thesis by (simp add: local_message_ids_def drop_membership_def)
qed

lemma delete_mailbox_facts [sync_db_simps]:
  "local_ids a' (delete_mailbox a i db) = local_ids a' db"
  "sd_locations (delete_mailbox a i db) = filter (\<lambda>((account, message, mailbox), _).
     \<not> (account = a \<and> mailbox = i)) (sd_locations db)"
  by (simp_all add: delete_mailbox_def Let_def sync_db_simps local_ids_base [OF set_mailboxes_simps(4)]
      delete_imap_mailbox_state_def) 

lemma fold_delete_mailbox [sync_db_simps]:
  "local_ids a' (fold (delete_mailbox a) is db) = local_ids a' db"
  "sd_locations (fold (delete_mailbox a) is db) = filter (\<lambda>((account, message, mailbox), _).
     \<not> (account = a \<and> mailbox \<in> set is)) (sd_locations db)"
  by (induction "is" arbitrary: db) (auto simp: sync_db_simps case_prod_unfold intro!: filter_cong)

lemma upsert_mailbox_facts [sync_db_simps]:
  "local_ids a' (upsert_mailbox a m db) = local_ids a' db"
  "sd_locations (upsert_mailbox a m db) = sd_locations db"
  by (simp_all add: upsert_mailbox_def sync_db_simps local_ids_base [OF set_mailboxes_simps(4)])

lemma fold_upsert_mailbox [sync_db_simps]:
  "local_ids a' (fold (upsert_mailbox a) ms db) = local_ids a' db"
  "sd_locations (fold (upsert_mailbox a) ms db) = sd_locations db"
  by (induction ms arbitrary: db) (simp_all add: sync_db_simps)

lemma delete_message_facts [sync_db_simps]:
  "sd_mail (delete_message_and_locations a m db) = delete_and_write_through a m (sd_mail db)"
  "sd_locations (delete_message_and_locations a m db) = filter (\<lambda>((account, message, mailbox), _).
     \<not> (account = a \<and> message = m)) (sd_locations db)"
  by (simp_all add: delete_message_and_locations_def delete_imap_message_locations_def with_mail_def)

lemma fold_delete_message [sync_db_simps]:
  "sd_mail (fold (delete_message_and_locations a) ms db) = fold (delete_and_write_through a) ms (sd_mail db)"
  "sd_locations (fold (delete_message_and_locations a) ms db) = filter (\<lambda>((account, message, mailbox), _).
     \<not> (account = a \<and> message \<in> set ms)) (sd_locations db)"
  by (induction ms arbitrary: db) (auto simp: sync_db_simps case_prod_unfold intro!: filter_cong)

lemma prune_messages_mail [sync_db_simps]:
  "sd_mail (prune_messages a remote db) = prune_messages_absent_from_remote a remote False (sd_mail db)"
  by (simp add: prune_messages_def prune_messages_absent_from_remote_def Let_def sync_db_simps)

lemma delete_location_ids [sync_db_simps]:
  "local_ids a' (delete_imap_message_location a key db) = local_ids a' db"
  by (simp add: delete_imap_message_location_def Let_def sync_db_simps)

lemma fold_delete_location [sync_db_simps]:
  "local_ids a' (fold (delete_imap_message_location a) keys db) = local_ids a' db"
  by (induction keys arbitrary: db) (simp_all add: sync_db_simps)

lemma delete_location_rows:
  "set (sd_locations (delete_imap_message_location a key db)) \<subseteq> set (sd_locations db)"
  by (auto simp: delete_imap_message_location_def Let_def sync_db_simps AList.delete_eq)

lemma fold_delete_location_rows:
  "set (sd_locations (fold (delete_imap_message_location a) keys db)) \<subseteq> set (sd_locations db)"
  by (induction keys arbitrary: db) (auto dest!: subsetD [OF delete_location_rows])

lemma prune_mailboxes_facts [sync_db_simps]:
  "local_ids a' (prune_mailboxes_absent_from_remote a remote db) = local_ids a' db"
  by (simp add: prune_mailboxes_absent_from_remote_def Let_def sync_db_simps)

lemma no_deleted_locations_fold [sync_db_simps]:
  "fold (delete_imap_message_location a) [] db = db"
  "sd_mail (fold (\<lambda>cursor. with_mail (upsert_sync_cursor a cursor)) cs db) =
     fold (upsert_sync_cursor a) cs (sd_mail db)"
  by (simp_all add: sync_db_simps)

subsection \<open>The batch on the message tables\<close>

text \<open>
  The whole transaction refines the message half: a batch that carries no mailbox changes and
  no coordinate deletions (any coordinates and sync states it may carry) does to the message tables
  exactly what \<open>apply_sync_batch\<close> does.
\<close>

lemma batch_refines_message_apply:
  assumes "ib_mailboxes batch = []" and "ib_deleted_mailbox_ids batch = []"
    and "ib_deleted_message_locations batch = []" and "ib_absence_deleted_message_locations batch = []"
    and "\<not> ib_replace_all_mailboxes batch"
  shows "sd_mail (apply_imap_sync_batch a batch db) =
    apply_sync_batch a (SyncBatch.truncate batch) (sd_mail db)"
  using assms
  by (cases "sb_replace_all_messages batch")
    (simp_all add: apply_imap_sync_batch_def apply_sync_batch_def Let_def sync_db_simps
      batch_deletions_def SyncBatch.truncate_def)

subsection \<open>Which messages a batch leaves\<close>

lemma allowed_local_ids:
  "local_message_ids a mail = local_message_ids a mail' \<Longrightarrow>
   imap_absence_prune_allowed a n mail = imap_absence_prune_allowed a n mail'"
  by (simp add: imap_absence_prune_allowed_def)

text \<open>The messages a batch deletes by name: the asserted ones, and the inferred ones past the guard.\<close>

definition batch_deleted :: "str \<Rightarrow> ImapSyncBatch \<Rightarrow> SyncDb \<Rightarrow> str set" where
  "batch_deleted a batch db = set (sb_deleted_message_ids batch) \<union>
     (if imap_absence_prune_allowed a (length (sb_absence_deleted_message_ids batch)) (sd_mail db)
      then set (sb_absence_deleted_message_ids batch) else {})"

text \<open>The transaction after its prunes by absence, in two halves.\<close>

definition batch_removals :: "str \<Rightarrow> ImapSyncBatch \<Rightarrow> SyncDb \<Rightarrow> SyncDb" where
  "batch_removals a batch db =
     (let db = fold (delete_mailbox a) (ib_deleted_mailbox_ids batch) db;
          locations = ib_deleted_message_locations batch @
            (if imap_absence_prune_allowed a (length (sb_absence_deleted_message_ids batch)) (sd_mail db)
             then ib_absence_deleted_message_locations batch else [])
      in fold (delete_message_and_locations a) (bt_collect (batch_deleted a batch db))
           (fold (delete_imap_message_location a)
             (filter (\<lambda>key. ik_message_id key \<notin> batch_deleted a batch db) locations) db))"

definition batch_additions :: "str \<Rightarrow> ImapSyncBatch \<Rightarrow> SyncDb \<Rightarrow> SyncDb" where
  "batch_additions a batch db =
     fold (\<lambda>cursor. with_mail (upsert_sync_cursor a cursor)) (sb_cursors batch)
       (fold (put_imap_mailbox_state a) (ib_mailbox_states batch)
         (fold (put_imap_message_location a) (ib_message_locations batch)
           (fold (\<lambda>message. with_mail (apply_and_write_through a message)) (sb_messages batch)
             (fold (upsert_mailbox a) (ib_mailboxes batch) db))))"

lemma apply_batch_split:
  "\<not> sb_replace_all_messages batch \<Longrightarrow> apply_imap_sync_batch a batch db =
     batch_additions a batch (batch_removals a batch
       (if ib_replace_all_mailboxes batch
        then prune_mailboxes_absent_from_remote a (set (map mb_id (ib_mailboxes batch))) db else db))"
  by (simp add: apply_imap_sync_batch_def batch_additions_def batch_removals_def batch_deleted_def Let_def)

lemma removals_ids [sync_db_simps]:
  "local_ids a (batch_removals a batch db) = local_ids a db - batch_deleted a batch db"
  by (simp add: batch_removals_def Let_def sync_db_simps batch_deleted_def
      allowed_local_ids [OF fold_delete_mailbox(1)])

lemma additions_ids [sync_db_simps]:
  "local_ids a (batch_additions a batch db) = mr_id ` set (sb_messages batch) \<union> local_ids a db"
  by (simp add: batch_additions_def sync_db_simps)

lemma batch_local_ids:
  assumes "\<not> sb_replace_all_messages batch"
  shows "local_ids a (apply_imap_sync_batch a batch db) =
    mr_id ` set (sb_messages batch) \<union> (local_ids a db - batch_deleted a batch db)"
  by (simp add: apply_batch_split [OF assms] sync_db_simps batch_deleted_def
      allowed_local_ids [OF prune_mailboxes_facts])

subsection \<open>Coordinates belong to stored messages\<close>

text \<open>
  A coordinate of account \<open>a\<close> is well filed when its message is stored and its key repeats the
  message and the mailbox it records. Saving a draft files the coordinate of a message the next sync
  stores, so a table may hold dangling rows; the lemmas below are relative to a set \<open>X\<close> of such rows.
\<close>

definition well_filed :: "str \<Rightarrow> SyncDb \<Rightarrow> (str \<times> str \<times> str) \<times> ImapMessageLocation \<Rightarrow> bool" where
  "well_filed a db = (\<lambda>((account, message, mailbox), l).
     account = a \<longrightarrow> message \<in> local_ids a db \<and> il_message_id l = message \<and> il_mailbox_id l = mailbox)"

definition dangling :: "str \<Rightarrow> SyncDb \<Rightarrow> ((str \<times> str \<times> str) \<times> ImapMessageLocation) set" where
  "dangling a db = {row \<in> set (sd_locations db). \<not> well_filed a db row}"

definition coordinates_point :: "str \<Rightarrow> SyncDb \<Rightarrow> bool" where
  "coordinates_point a db \<longleftrightarrow> (\<forall>message mailbox l.
     ((a, message, mailbox), l) \<in> set (sd_locations db) \<longrightarrow> message \<in> local_ids a db)"

abbreviation coordinates_ok :: "str \<Rightarrow> SyncDb \<Rightarrow> bool" where
  "coordinates_ok a db \<equiv> dangling a db \<subseteq> {}"

lemma coordinates_okD:
  "dangling a db \<subseteq> X \<Longrightarrow> ((a, message, mailbox), l) \<in> set (sd_locations db) \<Longrightarrow>
   ((a, message, mailbox), l) \<in> X \<or>
     message \<in> local_ids a db \<and> il_message_id l = message \<and> il_mailbox_id l = mailbox"
  by (force simp: dangling_def well_filed_def)

lemma coordinates_okI:
  "(\<And>message mailbox l. ((a, message, mailbox), l) \<in> set (sd_locations db) \<Longrightarrow>
     ((a, message, mailbox), l) \<in> X \<or>
       message \<in> local_ids a db \<and> il_message_id l = message \<and> il_mailbox_id l = mailbox) \<Longrightarrow>
   dangling a db \<subseteq> X"
  by (auto simp: dangling_def well_filed_def)

lemma coordinates_ok_mono:
  assumes "dangling a db \<subseteq> X" and "set (sd_locations db') \<subseteq> set (sd_locations db)"
    and "\<And>m mb l. ((a, m, mb), l) \<in> set (sd_locations db') \<Longrightarrow> m \<in> local_ids a db \<Longrightarrow> m \<in> local_ids a db'"
  shows "dangling a db' \<subseteq> X"
  using assms by (intro coordinates_okI) (blast dest: coordinates_okD)

lemma prune_mailboxes_rows:
  "set (sd_locations (prune_mailboxes_absent_from_remote a remote db)) \<subseteq> set (sd_locations db)"
  by (auto simp: prune_mailboxes_absent_from_remote_def Let_def sync_db_simps)

lemma coordinates_ok_delete_messages:
  "dangling a db \<subseteq> X \<Longrightarrow> dangling a (fold (delete_message_and_locations a) ms db) \<subseteq> X"
  by (erule coordinates_ok_mono) (auto simp: sync_db_simps)

lemma coordinates_ok_removals:
  assumes "dangling a db \<subseteq> X"
  shows "dangling a (batch_removals a batch db) \<subseteq> X"
proof -
  have "dangling a (fold (delete_imap_message_location a) keys db') \<subseteq> X" if "dangling a db' \<subseteq> X" for keys db'
    by (rule coordinates_ok_mono [OF that fold_delete_location_rows]) (simp add: sync_db_simps)
  moreover have "dangling a (fold (delete_mailbox a) (ib_deleted_mailbox_ids batch) db) \<subseteq> X"
    by (rule coordinates_ok_mono [OF assms]) (auto simp: sync_db_simps)
  ultimately show ?thesis
    by (simp add: batch_removals_def Let_def coordinates_ok_delete_messages)
qed

lemma coordinates_ok_prune_mailboxes:
  "dangling a db \<subseteq> X \<Longrightarrow> dangling a (prune_mailboxes_absent_from_remote a remote db) \<subseteq> X"
  by (erule coordinates_ok_mono) (simp_all add: sync_db_simps prune_mailboxes_rows)

lemma put_location_rows:
  "set (sd_locations (put_imap_message_location a l db)) \<subseteq>
   insert ((a, il_message_id l, il_mailbox_id l), l) (set (sd_locations db))"
proof -
  have "set (AList.update k v al) \<subseteq> insert (k, v) (set al)" for k v and al :: "('x \<times> 'y) list"
    by (induction al) auto
  then show ?thesis by (simp add: put_imap_message_location_def)
qed

lemma coordinates_ok_put:
  "dangling a db \<subseteq> X \<Longrightarrow> il_message_id ` set ls \<subseteq> local_ids a db \<Longrightarrow>
   dangling a (fold (put_imap_message_location a) ls db) \<subseteq> X"
proof (induction ls arbitrary: db)
  case (Cons l ls)
  have "dangling a (put_imap_message_location a l db) \<subseteq> X"
  proof (rule coordinates_okI)
    fix m mb l' assume "((a, m, mb), l') \<in> set (sd_locations (put_imap_message_location a l db))"
    with put_location_rows [of a l db] have "(m = il_message_id l \<and> mb = il_mailbox_id l \<and> l' = l) \<or>
        ((a, m, mb), l') \<in> set (sd_locations db)" by auto
    then show "((a, m, mb), l') \<in> X \<or> m \<in> local_ids a (put_imap_message_location a l db) \<and> il_message_id l' = m \<and> il_mailbox_id l' = mb"
      using Cons.prems coordinates_okD [OF Cons.prems(1)] by (auto simp: sync_db_simps)
  qed
  with Cons show ?case by (simp add: sync_db_simps)
qed simp

lemma coordinates_ok_additions:
  assumes "dangling a db \<subseteq> X"
    and "il_message_id ` set (ib_message_locations batch) \<subseteq> mr_id ` set (sb_messages batch) \<union> local_ids a db"
  shows "dangling a (batch_additions a batch db) \<subseteq> X"
proof -
  let ?upserted = "fold (\<lambda>message. with_mail (apply_and_write_through a message)) (sb_messages batch)
      (fold (upsert_mailbox a) (ib_mailboxes batch) db)"
  have "dangling a ?upserted \<subseteq> X"
    by (rule coordinates_ok_mono [OF assms(1)]) (auto simp: sync_db_simps)
  from coordinates_ok_put [OF this, of "ib_message_locations batch"] assms(2)
  have "dangling a (fold (put_imap_message_location a) (ib_message_locations batch) ?upserted) \<subseteq> X"
    by (simp add: sync_db_simps)
  then show ?thesis
    by (rule coordinates_ok_mono) (auto simp: batch_additions_def sync_db_simps)
qed

lemma coordinates_ok_prune_messages:
  "dangling a db \<subseteq> X \<Longrightarrow> dangling a (prune_messages a remote db) \<subseteq> X"
  by (simp add: prune_messages_def Let_def coordinates_ok_delete_messages)

lemma coordinates_ok_prune_stale:
  "dangling a db \<subseteq> X \<Longrightarrow> dangling a (prune_stale_imap_message_locations a ls db) \<subseteq> X"
  by (erule coordinates_ok_mono) (auto simp: prune_stale_imap_message_locations_def sync_db_simps Let_def)

lemma apply_batch_coordinates:
  assumes "dangling a db \<subseteq> X"
    and "il_message_id ` set (ib_message_locations batch) \<subseteq> mr_id ` set (sb_messages batch)"
  shows "dangling a (apply_imap_sync_batch a batch db) \<subseteq> X"
proof -
  let ?pruned = "if ib_replace_all_mailboxes batch
    then prune_mailboxes_absent_from_remote a (set (map mb_id (ib_mailboxes batch))) db else db"
  let ?kept = "if sb_replace_all_messages batch
    then prune_stale_imap_message_locations a (ib_message_locations batch)
           (prune_messages a (set (map mr_id (sb_messages batch))) ?pruned) else ?pruned"
  have split: "apply_imap_sync_batch a batch db = batch_additions a batch (batch_removals a batch ?kept)"
    by (simp add: apply_imap_sync_batch_def batch_additions_def batch_removals_def batch_deleted_def Let_def)
  have kept: "dangling a ?kept \<subseteq> X"
    using assms(1)
    by (simp add: coordinates_ok_prune_mailboxes coordinates_ok_prune_messages coordinates_ok_prune_stale)
  show ?thesis unfolding split
    by (rule coordinates_ok_additions [OF coordinates_ok_removals [OF kept]]) (use assms(2) in blast)
qed

lemma batch_removals_rows:
  "set (sd_locations (batch_removals a batch db)) \<subseteq> set (sd_locations db)"
proof -
  have "set (sd_locations (fold (delete_mailbox a) ids db)) \<subseteq> set (sd_locations db)" for ids
    by (auto simp: sync_db_simps)
  moreover have "set (sd_locations (fold (delete_message_and_locations a) ms db')) \<subseteq> set (sd_locations db')" for ms db'
    by (auto simp: sync_db_simps)
  ultimately show ?thesis
    unfolding batch_removals_def Let_def by (meson fold_delete_location_rows order_trans)
qed

lemma put_locations_rows:
  "set (sd_locations (fold (put_imap_message_location a) ls db)) \<subseteq>
   (\<lambda>l. ((a, il_message_id l, il_mailbox_id l), l)) ` set ls \<union> set (sd_locations db)"
proof (induction ls arbitrary: db)
  case (Cons l ls)
  from Cons [of "put_imap_message_location a l db"] put_location_rows [of a l db] show ?case by auto
qed simp

lemma full_batch_points:
  assumes "sb_replace_all_messages batch"
    and "il_message_id ` set (ib_message_locations batch) \<subseteq> mr_id ` set (sb_messages batch)"
  shows "coordinates_point a (apply_imap_sync_batch a batch db)"
proof -
  let ?pruned = "if ib_replace_all_mailboxes batch
    then prune_mailboxes_absent_from_remote a (set (map mb_id (ib_mailboxes batch))) db else db"
  let ?kept = "prune_stale_imap_message_locations a (ib_message_locations batch)
           (prune_messages a (set (map mr_id (sb_messages batch))) ?pruned)"
  have split: "apply_imap_sync_batch a batch db = batch_additions a batch (batch_removals a batch ?kept)"
    using assms(1)
    by (simp add: apply_imap_sync_batch_def batch_additions_def batch_removals_def batch_deleted_def Let_def)
  have kept: "m \<in> il_message_id ` set (ib_message_locations batch)"
    if "((a, m, mb), l) \<in> set (sd_locations ?kept)" for m mb l
    using that by (auto simp: prune_stale_imap_message_locations_def Let_def)
  let ?upserted = "fold (\<lambda>message. with_mail (apply_and_write_through a message)) (sb_messages batch)
      (fold (upsert_mailbox a) (ib_mailboxes batch) (batch_removals a batch ?kept))"
  have rows: "m \<in> mr_id ` set (sb_messages batch)"
    if "((a, m, mb), l) \<in> set (sd_locations (batch_additions a batch (batch_removals a batch ?kept)))" for m mb l
  proof -
    from that have "((a, m, mb), l) \<in> set (sd_locations (fold (put_imap_message_location a) (ib_message_locations batch) ?upserted))"
      by (simp add: batch_additions_def sync_db_simps)
    then have "m \<in> il_message_id ` set (ib_message_locations batch) \<or>
        ((a, m, mb), l) \<in> set (sd_locations ?upserted)"
      using put_locations_rows [of a "ib_message_locations batch" ?upserted] by auto
    moreover have "sd_locations ?upserted = sd_locations (batch_removals a batch ?kept)"
      by (simp add: sync_db_simps)
    ultimately have "m \<in> il_message_id ` set (ib_message_locations batch)"
      using kept batch_removals_rows [of a batch ?kept] by auto
    with assms(2) show ?thesis by blast
  qed
  then show ?thesis
    unfolding coordinates_point_def split additions_ids by blast
qed

lemma condstore_batch_fields:
  fixes hex discovery headers states local_locations vanished absence updated_at
  defines "b \<equiv> imap_condstore_delta_sync_batch hex discovery headers states local_locations vanished absence updated_at"
    and "pj \<equiv> messages_and_locations_for_batch hex discovery headers"
  shows "ib_message_locations b = pj_locations pj" "\<not> sb_replace_all_messages b"
    "ib_replace_all_mailboxes b" "ib_mailboxes b = ib_mailboxes (imap_mailbox_sync_batch hex discovery updated_at)"
    "ib_deleted_message_locations b = asserted_keys local_locations vanished (pj_absent pj)"
    "ib_deleted_mailbox_ids b = []"
    "map mr_id (sb_messages b) = map mr_id (pj_messages pj)"
    "distinct (sb_absence_deleted_message_ids b)"
proof -
  have ids: "map mr_id (assign_mailboxes ms xs) = map mr_id xs" for ms xs
    by (induction xs arbitrary: ms) (auto split: option.splits)
  show "ib_message_locations b = pj_locations pj" "\<not> sb_replace_all_messages b"
    "ib_replace_all_mailboxes b" "ib_mailboxes b = ib_mailboxes (imap_mailbox_sync_batch hex discovery updated_at)"
    "ib_deleted_message_locations b = asserted_keys local_locations vanished (pj_absent pj)"
    "ib_deleted_mailbox_ids b = []"
    "map mr_id (sb_messages b) = map mr_id (pj_messages pj)"
    "distinct (sb_absence_deleted_message_ids b)"
    by (simp_all add: b_def pj_def imap_condstore_delta_sync_batch_def Let_def push_message_cursor_def
        asserted_keys_def imap_mailbox_sync_batch_def preserve_delta_mailboxes_from_locations_def ids
        partition_deleted_message_ids_by_origin_def bt_collect_def split: prod.splits)
qed

text \<open>
  C31. A sync makes no message coordinate dangle. Whatever the tables hold, applying a delta or a
  chunk of an initial snapshot that the adapter builds from headers (each carrying the location of its
  own message) leaves every coordinate of the account pointing at a stored message and filed under
  that message's and its mailbox's key, except rows that dangled before, such as the one that saving a
  draft files before its message is stored. After a full account snapshot no exception is left:
  every coordinate points at a stored message.
\<close>

theorem coordinates_never_dangle:
  assumes "list_all consistent headers"
  shows "dangling a (apply_imap_sync_batch a (imap_condstore_delta_sync_batch hex discovery headers
      states local_locations vanished absence updated_at) db) \<subseteq> dangling a db \<and>
    dangling a (apply_imap_sync_batch a
      (imap_initial_snapshot_chunk_batch hex discovery headers state) db) \<subseteq> dangling a db \<and>
    dangling a (apply_imap_sync_batch a
      (imap_full_sync_batch hex discovery headers states updated_at) db) \<subseteq> dangling a db \<and>
    coordinates_point a (apply_imap_sync_batch a
      (imap_full_sync_batch hex discovery headers states updated_at) db)"
proof -
  let ?pj = "messages_and_locations_for_batch hex discovery headers"
  have sub: "il_message_id ` set (pj_locations ?pj) \<subseteq> mr_id ` set (pj_messages ?pj)"
    using projected_messages(2) [OF projected_consistent [OF assms], of _ hex discovery]
    unfolding messages_and_locations_for_batch_def has_location_def set_map by blast
  have "mr_id ` set (sb_messages (imap_condstore_delta_sync_batch hex discovery headers states
      local_locations vanished absence updated_at)) = mr_id ` set (pj_messages ?pj)"
    using condstore_batch_fields(7) [of hex discovery headers states local_locations vanished absence updated_at]
    by (metis set_map)
  with sub show ?thesis
    by (intro conjI apply_batch_coordinates full_batch_points)
      (simp_all add: imap_full_sync_batch_def imap_initial_snapshot_chunk_batch_def Let_def
        push_message_cursor_def imap_mailbox_sync_batch_def condstore_batch_fields)
qed

subsection \<open>Example tables\<close>

text \<open>Two messages of account \<open>[1]\<close> in the mailbox \<open>[7]\<close>, fetched under UIDVALIDITY 1.\<close>

definition example_sync_db :: SyncDb where
  "example_sync_db =
     \<lparr>sd_mail = (example_db [] [])\<lparr>db_base := [(([1], [2]), default_record [2]), (([1], [3]), default_record [3])]\<rparr>,
      sd_mailboxes = [(([1], [7]), \<lparr>mbr_name = [7], mbr_role = None\<rparr>)], sd_role_overrides = [],
      sd_states = [],
      sd_locations = [(([1], [2], [7]), example_location [2] [7] 9), (([1], [3], [7]), example_location [3] [7] 10)]\<rparr>"

lemma example_sync_facts:
  "local_ids [1] example_sync_db = {[2], [3]}"
  "coordinates_ok [1] example_sync_db"
  "list_imap_mailbox_message_locations [1] [7] example_sync_db = [example_location [2] [7] 9, example_location [3] [7] 10]"
proof -
  show "local_ids [1] example_sync_db = {[2], [3]}"
    by (simp add: local_message_ids_def example_sync_db_def)
  then show "coordinates_ok [1] example_sync_db"
    by (intro coordinates_okI) (auto simp: example_sync_db_def example_location_def local_message_ids_def)
  show "list_imap_mailbox_message_locations [1] [7] example_sync_db = [example_location [2] [7] 9, example_location [3] [7] 10]"
    by (simp add: list_imap_mailbox_message_locations_def example_sync_db_def example_location_def)
qed

definition example_sync_state :: ImapMailboxSyncState where
  "example_sync_state = \<lparr>is_mailbox_id = [7], is_mailbox_name = [7], is_uid_validity = 1,
     is_highest_uid = Some 9, is_highest_modseq = None, is_partial_initial_uid = None, is_updated_at = []\<rparr>"

theorem coordinates_never_dangle_witness:
  "dangling [1] (apply_imap_sync_batch [1]
     (imap_initial_snapshot_chunk_batch id example_discovery [example_header] example_sync_state) example_sync_db) \<subseteq> {} \<and>
   coordinates_point [1] (apply_imap_sync_batch [1]
     (imap_full_sync_batch id example_discovery [example_header] [] []) example_sync_db)"
proof -
  have "list_all consistent [example_header]"
    by (simp add: consistent_def example_header_def default_record_def example_location_def)
  from coordinates_never_dangle [OF this, of "[1]" id example_discovery "[]" "[]" "[]" "[]" "[]" example_sync_db
      example_sync_state] example_sync_facts(2)
  show ?thesis by blast
qed

lemma batch_refines_message_apply_example:
  "sd_mail (apply_imap_sync_batch [1]
     (imap_initial_snapshot_chunk_batch id example_discovery [example_header] example_sync_state) example_sync_db) =
   apply_sync_batch [1] (SyncBatch.truncate
     (imap_initial_snapshot_chunk_batch id example_discovery [example_header] example_sync_state)) (sd_mail example_sync_db)"
  by (rule batch_refines_message_apply) (simp_all add: imap_initial_snapshot_chunk_batch_def Let_def)

subsection \<open>After a UIDVALIDITY change\<close>

text \<open>The coordinates of a mailbox, as the gateway reads them before a sync.\<close>

abbreviation mailbox_locations :: "str \<Rightarrow> str \<Rightarrow> SyncDb \<Rightarrow> ImapMessageLocation list" where
  "mailbox_locations \<equiv> list_imap_mailbox_message_locations"

lemma mailbox_locations_iff:
  "l \<in> set (mailbox_locations a mailbox db) \<longleftrightarrow> (\<exists>m. ((a, m, mailbox), l) \<in> set (sd_locations db))"
  by (force simp: list_imap_mailbox_message_locations_def)

text \<open>Headers of plain IMAP servers carry no label information, so nothing is asserted absent.\<close>

lemma plain_headers_absent:
  assumes "\<not> canonicalizes_by_gmail_message_id (pp_imap (provider_profile discovery))"
    and "\<not> canonicalizes_by_rfc5322_message_id (pp_imap (provider_profile discovery))"
    and "\<forall>h \<in> set headers. mh_source h = SelectedMailbox"
  shows "pj_absent (messages_and_locations_for_batch hex discovery headers) = []"
    "pj_locations (messages_and_locations_for_batch hex discovery headers) = map mh_location headers"
proof -
  have p: "project_imap_headers hex discovery headers = headers"
    using assms(1,2) by (simp add: project_imap_headers_def project_headers_def profile_from_discovery_def)
  have "fold collect_absent headers acc = acc" for acc
    using assms(3) by (induction headers arbitrary: acc) (simp_all add: collect_absent_def)
  then show "pj_absent (messages_and_locations_for_batch hex discovery headers) = []"
    by (simp add: messages_and_locations_for_batch_def p messages_and_locations_from_headers_def)
  show "pj_locations (messages_and_locations_for_batch hex discovery headers) = map mh_location headers"
    by (simp add: messages_and_locations_for_batch_def p messages_and_locations_from_headers_def)
qed

lemma put_keeps_rows:
  assumes "k \<notin> (\<lambda>l. (a, il_message_id l, il_mailbox_id l)) ` set ls"
  shows "(k, v) \<in> set (sd_locations (fold (put_imap_message_location a) ls db)) \<longleftrightarrow>
    (k, v) \<in> set (sd_locations db)"
  using assms
proof (induction ls arbitrary: db)
  case (Cons l ls)
  have "(k, v) \<in> set (AList.update k' v' al) \<longleftrightarrow> (k, v) \<in> set al" if "k \<noteq> k'" for k' v' al
    using that by (induction al) auto
  with Cons show ?case by (auto simp: put_imap_message_location_def)
qed simp

lemma additions_keep_rows:
  assumes "k \<notin> (\<lambda>l. (a, il_message_id l, il_mailbox_id l)) ` set (ib_message_locations batch)"
  shows "(k, v) \<in> set (sd_locations (batch_additions a batch db)) \<longleftrightarrow> (k, v) \<in> set (sd_locations db)"
  using put_keeps_rows [OF assms] by (simp add: batch_additions_def sync_db_simps)

lemma prune_mailboxes_keeps_rows:
  assumes "mailbox \<in> remote" and "((a, m, mailbox), l) \<in> set (sd_locations db)"
  shows "((a, m, mailbox), l) \<in> set (sd_locations (prune_mailboxes_absent_from_remote a remote db))"
  using assms by (auto simp: prune_mailboxes_absent_from_remote_def Let_def sync_db_simps local_mailbox_ids_def bt_collect_def)

text \<open>A batch whose removals are all refused keeps every row and every coordinate it does not rewrite.\<close>

lemma refused_batch_keeps_rows:
  assumes "\<not> sb_replace_all_messages batch" and "batch_deleted a batch db = {}"
    and "ib_deleted_message_locations batch = []" and "ib_deleted_mailbox_ids batch = []"
    and "\<not> imap_absence_prune_allowed a (length (sb_absence_deleted_message_ids batch)) (sd_mail db)"
    and "mailbox \<in> mb_id ` set (ib_mailboxes batch)"
    and "m \<notin> il_message_id ` set (ib_message_locations batch)"
    and "((a, m, mailbox), l) \<in> set (sd_locations db)"
  shows "((a, m, mailbox), l) \<in> set (sd_locations (apply_imap_sync_batch a batch db))"
proof -
  let ?pruned = "if ib_replace_all_mailboxes batch
    then prune_mailboxes_absent_from_remote a (set (map mb_id (ib_mailboxes batch))) db else db"
  have ids: "local_ids a ?pruned = local_ids a db" by (simp add: sync_db_simps)
  have "batch_removals a batch ?pruned = ?pruned"
    using assms(2-5)
    by (simp add: batch_removals_def Let_def batch_deleted_def allowed_local_ids [OF ids] split del: if_split)
      (simp add: bt_collect_def)
  moreover have "((a, m, mailbox), l) \<in> set (sd_locations ?pruned)"
    using assms(6,8) by (simp add: prune_mailboxes_keeps_rows)
  ultimately show ?thesis
    using assms(7) by (subst apply_batch_split [OF assms(1)], subst additions_keep_rows) auto
qed

text \<open>
  When the server renumbers a mailbox (a new UIDVALIDITY) that holds more than half of the
  account's messages, the full snapshot infers that every old message is gone, the floor guard refuses
  to believe it, and the old rows stay beside the new ones. Later deltas look for missing UIDs only by
  number, so as soon as the server reuses the numbers the stale copies are never reported missing.
\<close>

lemma uidvalidity_change_keeps_stale_copies:
  fixes a mailbox db hex discovery headers states updated_at
  defines "old \<equiv> mailbox_locations a mailbox db"
  defines "batch \<equiv> imap_condstore_delta_sync_batch hex discovery headers states old []
      (missing_location_identities old (map mh_location headers)) updated_at"
  assumes ok: "coordinates_ok a db" "inj_on location_key (set old)"
    and plain: "\<not> canonicalizes_by_gmail_message_id (pp_imap (provider_profile discovery))"
      "\<not> canonicalizes_by_rfc5322_message_id (pp_imap (provider_profile discovery))"
      "\<forall>h \<in> set headers. mh_source h = SelectedMailbox"
    and listed: "mailbox \<in> set (map dm_id (filter dm_selectable (da_mailboxes discovery)))"
    and renumbered: "\<forall>h \<in> set headers. \<forall>l \<in> set old.
      il_uid_validity (mh_location h) \<noteq> il_uid_validity l \<and> il_message_id (mh_location h) \<noteq> il_message_id l"
    and most: "card (local_ids a db) < 2 * card (il_message_id ` set old)" "1 < card (il_message_id ` set old)"
    and l: "l \<in> set old"
  defines "db' \<equiv> apply_imap_sync_batch a batch db"
  shows "l \<in> set (mailbox_locations a mailbox db') \<and> il_message_id l \<in> local_ids a db' \<and>
    (\<forall>uids. il_uid ` set old \<subseteq> set uids \<longrightarrow> location_identity l \<notin> set (missing_location_identities_from_uids old uids))"
proof -
  note pj = plain_headers_absent [OF plain, of hex]
  note fields = condstore_batch_fields [of hex discovery headers states old "[]"
      "missing_location_identities old (map mh_location headers)" updated_at, folded batch_def]
  note dels = condstore_batch_deletions [of old _ hex discovery headers states "[]"
      "missing_location_identities old (map mh_location headers)" updated_at, folded batch_def, OF ok(2)]
  obtain m where row: "((a, m, mailbox), l) \<in> set (sd_locations db)"
    using l by (auto simp: old_def mailbox_locations_iff)
  from coordinates_okD [OF ok(1) row] have m: "m \<in> local_ids a db" "il_message_id l = m" by auto
  have none: "\<not> asserted_gone (pj_absent (messages_and_locations_for_batch hex discovery headers)) [] x" for x
    by (simp add: asserted_gone_def pj provider_absent_def)
  have "location_identity x \<notin> set (map location_identity (map mh_location headers))" if "x \<in> set old" for x
    using that renumbered by (force simp: location_identity_def)
  then have gone: "location_identity x \<in> set (missing_location_identities old (map mh_location headers))"
    if "x \<in> set old" for x
    using that unfolding missing_location_identities_def by simp
  have fresh: "\<not> has_location (il_message_id x) (map mh_location headers)" if "x \<in> set old" for x
    using that renumbered by (force simp: has_location_def)
  have deleted: "sb_deleted_message_ids batch = []"
    using dels(1) none by (metis equals0I set_empty)
  have absence: "set (sb_absence_deleted_message_ids batch) = il_message_id ` set old"
    unfolding dels(2) set_eq_iff using none gone fresh by (auto simp: pj)
  then have "length (sb_absence_deleted_message_ids batch) = card (il_message_id ` set old)"
    using fields(8) by (metis distinct_card)
  moreover have "card (local_ids a db) > 0" using m by (auto simp: card_gt_0_iff)
  ultimately have refused: "\<not> imap_absence_prune_allowed a (length (sb_absence_deleted_message_ids batch)) (sd_mail db)"
    using most by (auto simp: imap_absence_prune_allowed_def over_floor_def Let_def)
  then have nodel: "batch_deleted a batch db = {}" by (simp add: batch_deleted_def deleted)
  have keys: "ib_deleted_message_locations batch = []"
    unfolding fields(5) asserted_keys_def
    by (simp add: pj deleted_locations_for_delta_def deleted_locations_matching_vanished_uids_def
        provider_absent_def deduplicate_location_keys_def)
  have "mailbox \<in> mb_id ` set (ib_mailboxes batch)"
    unfolding fields(4) using listed by (force simp: imap_mailbox_sync_batch_def Let_def)
  moreover have "m \<notin> il_message_id ` set (ib_message_locations batch)"
    using fresh [OF l] m by (simp add: fields(1) pj has_location_def image_image)
  ultimately have "((a, m, mailbox), l) \<in> set (sd_locations db')"
    unfolding db'_def by (intro refused_batch_keeps_rows fields nodel keys refused row)
  moreover have "il_message_id l \<in> local_ids a db'"
    using m nodel by (simp add: db'_def batch_local_ids fields)
  ultimately show ?thesis
    using l by (auto simp: mailbox_locations_iff missing_location_identities_from_uids_def)
qed


definition renumbered_discovery :: DiscoveredImapAccount where
  "renumbered_discovery = \<lparr>da_capabilities = capabilities_from_tokens [],
     da_mailboxes = [\<lparr>dm_id = [7], dm_name = [7], dm_role = None, dm_selectable = True, dm_attributes = []\<rparr>]\<rparr>"

definition renumbered_header :: ImapMappedHeader where
  "renumbered_header = \<lparr>mh_message = default_record [4],
     mh_location = (example_location [4] [7] 9)\<lparr>il_uid_validity := 2\<rparr>, mh_gmail_labels = None,
     mh_source = SelectedMailbox, mh_absent = []\<rparr>"

lemma renumbered_plain:
  "\<not> canonicalizes_by_gmail_message_id (pp_imap (provider_profile renumbered_discovery))"
  "\<not> canonicalizes_by_rfc5322_message_id (pp_imap (provider_profile renumbered_discovery))"
  by code_simp+

lemma uidvalidity_change_keeps_stale_copies_example:
  "[2] \<in> local_ids [1] (apply_imap_sync_batch [1]
     (imap_condstore_delta_sync_batch id renumbered_discovery [renumbered_header] []
        (mailbox_locations [1] [7] example_sync_db) []
        (missing_location_identities (mailbox_locations [1] [7] example_sync_db)
           (map mh_location [renumbered_header])) []) example_sync_db)"
  using uidvalidity_change_keeps_stale_copies [OF example_sync_facts(2) _ renumbered_plain,
      where mailbox = "[7]" and l = "example_location [2] [7] 9" and headers = "[renumbered_header]"]
  unfolding example_sync_facts
  by (simp add: renumbered_header_def renumbered_discovery_def example_location_def location_key_def)

end
