(* ===== verification/ImapFetch.thy ===== *)
theory ImapFetch
  imports ImapStore
begin

text \<open>
  Talking to an IMAP server, \<open>crates/posthaste-imap/src\<close>: deadlines (\<open>timeout.rs\<close>), the command tasks
  for STATUS, EXAMINE, CREATE and DELETE (\<open>mailbox.rs\<close>), header fetches and searches
  (\<open>fetch/headers.rs\<close>, \<open>fetch/items.rs\<close>), CONDSTORE and QRESYNC deltas (\<open>fetch/changed_since.rs\<close>) and
  the validated UID mutations (\<open>mutation.rs\<close>, \<open>mutation/validation.rs\<close>).

  The protocol client is a crate, so it is a record of functions on a world \<open>'w\<close>, which holds the
  connection and the server. A round trip ends in time with a value or a transport error, or misses
  its deadline. A task of this adapter is a command with the events the server sent before the tagged
  status: the code folds its \<open>process_data\<close> and \<open>process_untagged\<close> over them.
\<close>

subsection \<open>The wire\<close>

datatype 'a wire = WireTimeout | WireError str | WireDone 'a

datatype TaskError = UnexpectedNoResponse | UnexpectedBadResponse | MissingTaskData str

datatype StatusKind = TagOk | TagNo | TagBad

datatype FlagFetch = FetchedFlag ImapFlag | FetchedRecent

text \<open>
  A body structure part: its parameters, its media type when it is neither text nor a message, and the
  kind of its disposition, when the extension data carry one.
\<close>

record BodyFields =
  bd_parameters :: "(str \<times> str) list"
  bd_basic_type :: "str option"
  bd_disposition :: "str option"

datatype BodyStructure = BodySingle BodyFields | BodyMulti "BodyStructure list"

datatype MessageDataItem =
    MdFlags "FlagFetch list"
  | MdRfc822Header "nat list option"
  | MdRfc822Size "32 word"
  | MdBodyStructure BodyStructure
  | MdUid ImapUid
  | MdModSeq ImapModSeq
  | MdGmailMessageId "64 word"
  | MdGmailThreadId "64 word"
  | MdGmailLabels "str list"
  | MdOther

datatype MessageDataItemName =
    MnFlags | MnBodyStructure | MnRfc822Header | MnRfc822Size | MnUid | MnModSeq
  | MnGmailMessageId | MnGmailThreadId | MnGmailLabels

datatype StatusDataItem =
    SiMessages "32 word" | SiUidNext ImapUid | SiUidValidity ImapUidValidity
  | SiHighestModSeq "64 word" | SiOther

datatype StatusDataItemName = SnMessages | SnUidNext | SnUidValidity | SnHighestModSeq

datatype ImapCode =
    CdUnseen nat | CdPermanentFlags "FlagFetch list" | CdUidNext ImapUid
  | CdUidValidity ImapUidValidity | CdHighestModSeq ImapModSeq | CdOther

datatype ImapData =
    DtFlags "ImapFlag list" | DtExists nat | DtRecent nat | DtStatus "StatusDataItem list"
  | DtFetch nat "MessageDataItem list" | DtVanished "ImapUid list" | DtExpunge nat | DtOther

datatype ServerEvent = EvData ImapData | EvUntagged StatusKind "ImapCode option"

datatype ImapCommand =
    CmdStatus str "StatusDataItemName list"
  | CmdCreate str
  | CmdDelete str
  | CmdExamine str
  | CmdUidFetchChangedSince "MessageDataItemName list" ImapModSeq bool
  | CmdUidExpunge ImapUid

datatype StoreType = StoreAdd | StoreRemove

record SelectData =
  sl_flags :: "ImapFlag list option"
  sl_exists :: "nat option"
  sl_recent :: "nat option"
  sl_unseen :: "nat option"
  sl_permanent_flags :: "FlagFetch list option"
  sl_uid_next :: "ImapUid option"
  sl_uid_validity :: "ImapUidValidity option"

definition select_data_default :: SelectData where
  "select_data_default = \<lparr>sl_flags = None, sl_exists = None, sl_recent = None, sl_unseen = None,
     sl_permanent_flags = None, sl_uid_next = None, sl_uid_validity = None\<rparr>"

text \<open>
  The protocol client: \<open>cl_uid_fetch\<close> returns the responses by sequence number in an arbitrary order
  (a hash map), \<open>cl_uid_fetch_first\<close> returns \<open>None\<close> when the response carries no data.
\<close>

record 'w ImapClient =
  cl_resolve :: "ImapCommand \<Rightarrow> 'w \<Rightarrow> (ServerEvent list \<times> StatusKind) wire \<times> 'w"
  cl_uid_search_undeleted :: "'w \<Rightarrow> ImapUid list wire \<times> 'w"
  cl_uid_fetch :: "ImapUid list \<Rightarrow> MessageDataItemName list \<Rightarrow> 'w \<Rightarrow> (nat \<times> MessageDataItem list) list wire \<times> 'w"
  cl_uid_fetch_first :: "ImapUid \<Rightarrow> MessageDataItemName list \<Rightarrow> 'w \<Rightarrow> MessageDataItem list option wire \<times> 'w"
  cl_enable :: "str list \<Rightarrow> 'w \<Rightarrow> str list option wire \<times> 'w"
  cl_select :: "str \<Rightarrow> 'w \<Rightarrow> SelectData wire \<times> 'w"
  cl_uid_silent_store :: "ImapUid \<Rightarrow> StoreType \<Rightarrow> ImapFlag list \<Rightarrow> 'w \<Rightarrow> unit wire \<times> 'w"
  cl_uid_copy :: "ImapUid \<Rightarrow> str \<Rightarrow> 'w \<Rightarrow> unit wire \<times> 'w"
  cl_uid_move :: "ImapUid \<Rightarrow> str \<Rightarrow> 'w \<Rightarrow> unit wire \<times> 'w"
  cl_append :: "str \<Rightarrow> ImapFlag list \<Rightarrow> nat list \<Rightarrow> 'w \<Rightarrow> ImapUid option wire \<times> 'w"
  cl_refresh_capabilities :: "'w \<Rightarrow> unit wire \<times> 'w"
  cl_capabilities :: "'w \<Rightarrow> str list"
  cl_mailbox_name_ok :: "str \<Rightarrow> bool"
  cl_validate_select :: "SelectData \<Rightarrow> (TaskError, unit) result"
  cl_task_error_display :: "TaskError \<Rightarrow> str"
  cl_empty_sequence_error :: str

text \<open>The libraries of the header mapping, with the printer of flags.\<close>

record ImapFetchLibs = ImapLibs +
  lb_flag_display :: "ImapFlag \<Rightarrow> str"

type_synonym ('a, 'w) imap_result = "(fault, 'a) result \<times> 'w"

definition with_deadline :: "str \<Rightarrow> 'a wire \<times> 'w \<Rightarrow> ('a, 'w) imap_result" where
  "with_deadline operation r = (case r of
     (WireTimeout, w) \<Rightarrow> (Inl (Failed (TimedOut operation)), w)
   | (WireError message, w) \<Rightarrow> (Inl (Failed (Client message)), w)
   | (WireDone x, w) \<Rightarrow> (Inr x, w))"

text \<open>\<open>client.resolve(task)\<close> under a deadline, with the task's handlers folded over the events.\<close>

definition with_deadline_resolve ::
  "'w ImapClient \<Rightarrow> str \<Rightarrow> ImapCommand \<Rightarrow> (ServerEvent \<Rightarrow> 's \<Rightarrow> 's) \<Rightarrow> 's \<Rightarrow>
   (StatusKind \<Rightarrow> 's \<Rightarrow> (TaskError, 'a) result) \<Rightarrow> 'w \<Rightarrow> ('a, 'w) imap_result" where
  "with_deadline_resolve client operation command process output process_tagged w =
     and_then (with_deadline operation (cl_resolve client command w))
       (\<lambda>(events, status) w. case process_tagged status (fold process events output) of
          Inl error \<Rightarrow> (Inl (Failed (Client (cl_task_error_display client error))), w)
        | Inr x \<Rightarrow> (Inr x, w))"

definition tagged :: "StatusKind \<Rightarrow> 's \<Rightarrow> (TaskError, 's) result" where
  "tagged status output = (case status of
     TagOk \<Rightarrow> Inr output | TagNo \<Rightarrow> Inl UnexpectedNoResponse | TagBad \<Rightarrow> Inl UnexpectedBadResponse)"

definition wire_mailbox :: "'w ImapClient \<Rightarrow> str \<Rightarrow> 'w \<Rightarrow> (unit, 'w) imap_result" where
  "wire_mailbox client mailbox_name w =
     (if cl_mailbox_name_ok client mailbox_name then (Inr (), w)
      else (Inl (Failed (InvalidMailboxName mailbox_name)), w))"

subsection \<open>STATUS, CREATE, DELETE, EXAMINE\<close>

definition mailbox_status_default :: ImapMailboxStatus where
  "mailbox_status_default =
     \<lparr>st_messages = None, st_uid_next = None, st_uid_validity = None, st_highest_modseq = None\<rparr>"

definition status_item_names :: "bool \<Rightarrow> StatusDataItemName list" where
  "status_item_names include_highest_modseq =
     [SnMessages, SnUidNext, SnUidValidity] @ (if include_highest_modseq then [SnHighestModSeq] else [])"

definition status_item :: "StatusDataItem \<Rightarrow> ImapMailboxStatus \<Rightarrow> ImapMailboxStatus" where
  "status_item item s = (case item of
     SiMessages n \<Rightarrow> s\<lparr>st_messages := Some n\<rparr>
   | SiUidNext u \<Rightarrow> s\<lparr>st_uid_next := Some u\<rparr>
   | SiUidValidity v \<Rightarrow> s\<lparr>st_uid_validity := Some v\<rparr>
   | SiHighestModSeq m \<Rightarrow> if m > 0 then s\<lparr>st_highest_modseq := Some m\<rparr> else s
   | SiOther \<Rightarrow> s)"

definition status_process :: "ServerEvent \<Rightarrow> ImapMailboxStatus \<Rightarrow> ImapMailboxStatus" where
  "status_process event s = (case event of
     EvData (DtStatus items) \<Rightarrow> fold status_item items s | _ \<Rightarrow> s)"

definition status_imap_mailbox ::
  "'w ImapClient \<Rightarrow> str \<Rightarrow> bool \<Rightarrow> 'w \<Rightarrow> (ImapMailboxStatus, 'w) imap_result" where
  "status_imap_mailbox client mailbox_name include_highest_modseq w =
     and_then (wire_mailbox client mailbox_name w)
       (\<lambda>_. with_deadline_resolve client (L ''status'')
          (CmdStatus mailbox_name (status_item_names include_highest_modseq))
          status_process mailbox_status_default tagged)"

definition create_imap_mailbox :: "'w ImapClient \<Rightarrow> str \<Rightarrow> 'w \<Rightarrow> (unit, 'w) imap_result" where
  "create_imap_mailbox client mailbox_name w =
     and_then (wire_mailbox client mailbox_name w)
       (\<lambda>_. with_deadline_resolve client (L ''create'') (CmdCreate mailbox_name) (\<lambda>_ s. s) () tagged)"

definition delete_imap_mailbox :: "'w ImapClient \<Rightarrow> str \<Rightarrow> 'w \<Rightarrow> (unit, 'w) imap_result" where
  "delete_imap_mailbox client mailbox_name w =
     and_then (wire_mailbox client mailbox_name w)
       (\<lambda>_. with_deadline_resolve client (L ''delete'') (CmdDelete mailbox_name) (\<lambda>_ s. s) () tagged)"

record ExamineState =
  ex_select :: SelectData
  ex_highest_modseq :: "ImapModSeq option"

definition examine_process :: "ServerEvent \<Rightarrow> ExamineState \<Rightarrow> ExamineState" where
  "examine_process event s = (case event of
     EvData (DtFlags flags) \<Rightarrow> s\<lparr>ex_select := (ex_select s)\<lparr>sl_flags := Some flags\<rparr>\<rparr>
   | EvData (DtExists n) \<Rightarrow> s\<lparr>ex_select := (ex_select s)\<lparr>sl_exists := Some n\<rparr>\<rparr>
   | EvData (DtRecent n) \<Rightarrow> s\<lparr>ex_select := (ex_select s)\<lparr>sl_recent := Some n\<rparr>\<rparr>
   | EvUntagged TagOk (Some (CdUnseen n)) \<Rightarrow> s\<lparr>ex_select := (ex_select s)\<lparr>sl_unseen := Some n\<rparr>\<rparr>
   | EvUntagged TagOk (Some (CdPermanentFlags flags)) \<Rightarrow>
       s\<lparr>ex_select := (ex_select s)\<lparr>sl_permanent_flags := Some flags\<rparr>\<rparr>
   | EvUntagged TagOk (Some (CdUidNext u)) \<Rightarrow> s\<lparr>ex_select := (ex_select s)\<lparr>sl_uid_next := Some u\<rparr>\<rparr>
   | EvUntagged TagOk (Some (CdUidValidity v)) \<Rightarrow> s\<lparr>ex_select := (ex_select s)\<lparr>sl_uid_validity := Some v\<rparr>\<rparr>
   | EvUntagged TagOk (Some (CdHighestModSeq m)) \<Rightarrow> s\<lparr>ex_highest_modseq := Some m\<rparr>
   | _ \<Rightarrow> s)"

definition examine_tagged ::
  "'w ImapClient \<Rightarrow> StatusKind \<Rightarrow> ExamineState \<Rightarrow> (TaskError, ExamineState) result" where
  "examine_tagged client status output = (case status of
     TagOk \<Rightarrow> (case cl_validate_select client (ex_select output) of
        Inl error \<Rightarrow> Inl error | Inr _ \<Rightarrow> Inr output)
   | TagNo \<Rightarrow> Inl UnexpectedNoResponse | TagBad \<Rightarrow> Inl UnexpectedBadResponse)"

definition selected_mailbox_from_examine_state ::
  "(nat list \<Rightarrow> str) \<Rightarrow> str \<Rightarrow> ExamineState \<Rightarrow> (fault, ImapSelectedMailbox) result" where
  "selected_mailbox_from_examine_state hex mailbox_name data =
     (case sl_uid_validity (ex_select data) of
        None \<Rightarrow> Inl (Failed (MissingSelectData (L ''UIDVALIDITY'')))
      | Some uid_validity \<Rightarrow> Inr
          \<lparr>se_mailbox_id = imap_mailbox_id hex mailbox_name, se_mailbox_name = mailbox_name,
           se_uid_validity = uid_validity, se_uid_next = sl_uid_next (ex_select data),
           se_highest_modseq = ex_highest_modseq data\<rparr>)"

definition selected_mailbox_from_examine ::
  "(nat list \<Rightarrow> str) \<Rightarrow> str \<Rightarrow> SelectData \<Rightarrow> (fault, ImapSelectedMailbox) result" where
  "selected_mailbox_from_examine hex mailbox_name data =
     selected_mailbox_from_examine_state hex mailbox_name \<lparr>ex_select = data, ex_highest_modseq = None\<rparr>"

definition examine_selected_mailbox ::
  "'w ImapClient \<Rightarrow> (nat list \<Rightarrow> str) \<Rightarrow> str \<Rightarrow> 'w \<Rightarrow> (ImapSelectedMailbox, 'w) imap_result" where
  "examine_selected_mailbox client hex mailbox_name w =
     and_then (wire_mailbox client mailbox_name w) (\<lambda>_ w.
     and_then (with_deadline_resolve client (L ''examine'') (CmdExamine mailbox_name) examine_process
                 \<lparr>ex_select = select_data_default, ex_highest_modseq = None\<rparr> (examine_tagged client) w)
       (\<lambda>data w. (selected_mailbox_from_examine_state hex mailbox_name data, w)))"

subsection \<open>FETCH items\<close>

definition fetch_item_names :: "bool \<Rightarrow> bool \<Rightarrow> MessageDataItemName list" where
  "fetch_item_names fetch_modseq fetch_gmail_metadata =
     [MnFlags, MnBodyStructure, MnRfc822Header, MnRfc822Size, MnUid] @
     (if fetch_modseq then [MnModSeq] else []) @
     (if fetch_gmail_metadata then [MnGmailMessageId, MnGmailThreadId, MnGmailLabels] else [])"

fun body_structure_has_attachment :: "BodyStructure \<Rightarrow> bool" where
  "body_structure_has_attachment (BodySingle body) \<longleftrightarrow>
     (case bd_disposition body of
        Some kind \<Rightarrow> eq_ignore_ascii_case kind (L ''attachment'') | None \<Rightarrow> False) \<or>
     list_ex (\<lambda>(key, _). eq_ignore_ascii_case key (L ''name'')) (bd_parameters body) \<or>
     (case bd_basic_type body of
        Some type \<Rightarrow> \<not> eq_ignore_ascii_case type (L ''text'') | None \<Rightarrow> False)"
| "body_structure_has_attachment (BodyMulti bodies) \<longleftrightarrow> list_ex body_structure_has_attachment bodies"

definition imap_flag_fetch_name :: "(ImapFlag \<Rightarrow> str) \<Rightarrow> FlagFetch \<Rightarrow> str" where
  "imap_flag_fetch_name display flag = (case flag of
     FetchedFlag f \<Rightarrow> display f | FetchedRecent \<Rightarrow> bs ''Recent'')"

text \<open>What the loop over the items of one FETCH response collects; a later item replaces an earlier one.\<close>

record FetchedItems =
  fi_uid :: "ImapUid option"
  fi_modseq :: "ImapModSeq option"
  fi_gmail :: ImapGmailMetadata
  fi_flags :: "str list"
  fi_rfc822_size :: "int option"
  fi_has_attachment :: bool
  fi_headers :: "nat list option"

definition collect_item :: "(ImapFlag \<Rightarrow> str) \<Rightarrow> MessageDataItem \<Rightarrow> FetchedItems \<Rightarrow> FetchedItems" where
  "collect_item display item s = (case item of
     MdFlags flags \<Rightarrow> s\<lparr>fi_flags := map (imap_flag_fetch_name display) flags\<rparr>
   | MdRfc822Header nstring \<Rightarrow> s\<lparr>fi_headers := Some (case nstring of Some h \<Rightarrow> h | None \<Rightarrow> [])\<rparr>
   | MdRfc822Size octets \<Rightarrow> s\<lparr>fi_rfc822_size := Some (uint octets)\<rparr>
   | MdBodyStructure b \<Rightarrow> s\<lparr>fi_has_attachment := body_structure_has_attachment b\<rparr>
   | MdUid u \<Rightarrow> s\<lparr>fi_uid := Some u\<rparr>
   | MdModSeq m \<Rightarrow> s\<lparr>fi_modseq := Some m\<rparr>
   | MdGmailMessageId g \<Rightarrow> s\<lparr>fi_gmail := (fi_gmail s)\<lparr>gm_message_id := Some g\<rparr>\<rparr>
   | MdGmailThreadId g \<Rightarrow> s\<lparr>fi_gmail := (fi_gmail s)\<lparr>gm_thread_id := Some g\<rparr>\<rparr>
   | MdGmailLabels labels \<Rightarrow>
       s\<lparr>fi_gmail := (fi_gmail s)\<lparr>gm_labels_observed := True, gm_labels := labels\<rparr>\<rparr>
   | MdOther \<Rightarrow> s)"

definition collect_items :: "(ImapFlag \<Rightarrow> str) \<Rightarrow> MessageDataItem list \<Rightarrow> FetchedItems" where
  "collect_items display items = fold (collect_item display) items
     \<lparr>fi_uid = None, fi_modseq = None, fi_gmail = gmail_metadata_default, fi_flags = [],
      fi_rfc822_size = None, fi_has_attachment = False, fi_headers = None\<rparr>"

definition fetched_header_from_items_with_metadata ::
  "(ImapFlag \<Rightarrow> str) \<Rightarrow> ImapSelectedMailbox \<Rightarrow> MessageDataItem list \<Rightarrow> str \<Rightarrow>
   (fault, ImapFetchedHeaderWithMetadata) result" where
  "fetched_header_from_items_with_metadata display selected items updated_at =
     (let s = collect_items display items
      in case fi_uid s of
           None \<Rightarrow> Inl (Failed (MissingFetchData (L ''UID'')))
         | Some uid \<Rightarrow> (case fi_rfc822_size s of
             None \<Rightarrow> Inl (Failed (MissingFetchData (L ''RFC822.SIZE'')))
           | Some octets \<Rightarrow> (case fi_headers s of
               None \<Rightarrow> Inl (Failed (MissingFetchData (L ''RFC822.HEADER'')))
             | Some headers \<Rightarrow> Inr
                 \<lparr>fm_header = \<lparr>fh_mailbox_id = se_mailbox_id selected, fh_uid = uid, fh_modseq = fi_modseq s,
                    fh_flags = fi_flags s, fh_rfc822_size = octets, fh_has_attachment = fi_has_attachment s,
                    fh_headers = headers, fh_updated_at = updated_at\<rparr>,
                  fm_gmail = fi_gmail s\<rparr>)))"

subsection \<open>Header fetches\<close>

definition UID_FETCH_CHUNK_SIZE :: nat where
  "UID_FETCH_CHUNK_SIZE = 128"

text \<open>\<open>slice::chunks\<close>, for a positive size.\<close>

fun chunks_of :: "nat \<Rightarrow> 'a list \<Rightarrow> 'a list list" where
  "chunks_of n [] = []"
| "chunks_of n (x # xs) = (x # take (n - 1) xs) # chunks_of n (drop (n - 1) xs)"

definition search_uids :: "'w ImapClient \<Rightarrow> 'w \<Rightarrow> (ImapUid list, 'w) imap_result" where
  "search_uids client w =
     and_then (with_deadline (L ''uid_search'') (cl_uid_search_undeleted client w))
       (\<lambda>uids w. (Inr (remdups_adj (sort uids)), w))"

definition search_undeleted_uids ::
  "'w ImapClient \<Rightarrow> (nat list \<Rightarrow> str) \<Rightarrow> str \<Rightarrow> 'w \<Rightarrow> (ImapSelectedMailbox \<times> ImapUid list, 'w) imap_result" where
  "search_undeleted_uids client hex mailbox_name w =
     and_then (examine_selected_mailbox client hex mailbox_name w) (\<lambda>selected w.
     and_then (search_uids client w) (\<lambda>uids w. (Inr (selected, uids), w)))"

definition header_from_response ::
  "ImapFetchLibs \<Rightarrow> ImapSelectedMailbox \<Rightarrow> str \<Rightarrow> MessageDataItem list \<Rightarrow> (fault, ImapMappedHeader) result" where
  "header_from_response libs selected updated_at items =
     (case fetched_header_from_items_with_metadata (lb_flag_display libs) selected items updated_at of
        Inl e \<Rightarrow> Inl e
      | Inr fetched \<Rightarrow> imap_header_message_record_with_gmail_metadata (ImapLibs.truncate libs) selected
          (fm_header fetched) (fm_gmail fetched))"

definition fetch_header_chunk ::
  "'w ImapClient \<Rightarrow> ImapFetchLibs \<Rightarrow> ImapSelectedMailbox \<Rightarrow> ImapUid list \<Rightarrow> bool \<Rightarrow> bool \<Rightarrow> str \<Rightarrow> 'w \<Rightarrow>
   (ImapMappedHeader list, 'w) imap_result" where
  "fetch_header_chunk client libs selected chunk fetch_modseq fetch_gmail_metadata updated_at w =
     (if chunk = [] then (Inl (Failed (InvalidUidSequence (cl_empty_sequence_error client))), w)
      else and_then (with_deadline (L ''uid_fetch'')
             (cl_uid_fetch client chunk (fetch_item_names fetch_modseq fetch_gmail_metadata) w))
        (\<lambda>responses w. (sequence (map (header_from_response libs selected updated_at) (map snd responses)), w)))"

fun fetch_chunks ::
  "'w ImapClient \<Rightarrow> ImapFetchLibs \<Rightarrow> ImapSelectedMailbox \<Rightarrow> ImapUid list list \<Rightarrow> bool \<Rightarrow> bool \<Rightarrow> str \<Rightarrow> 'w \<Rightarrow>
   (ImapMappedHeader list, 'w) imap_result" where
  "fetch_chunks client libs selected [] fetch_modseq fetch_gmail updated_at w = (Inr [], w)"
| "fetch_chunks client libs selected (chunk # chunks) fetch_modseq fetch_gmail updated_at w =
     and_then (fetch_header_chunk client libs selected chunk fetch_modseq fetch_gmail updated_at w)
       (\<lambda>records w. and_then (fetch_chunks client libs selected chunks fetch_modseq fetch_gmail updated_at w)
         (\<lambda>rest w. (Inr (records @ rest), w)))"

definition fetch_selected_mailbox_headers ::
  "'w ImapClient \<Rightarrow> ImapFetchLibs \<Rightarrow> ImapSelectedMailbox \<Rightarrow> ImapUid list \<Rightarrow> bool \<Rightarrow> bool \<Rightarrow> str \<Rightarrow> 'w \<Rightarrow>
   (ImapMappedHeader list, 'w) imap_result" where
  "fetch_selected_mailbox_headers client libs selected uids fetch_modseq fetch_gmail updated_at w =
     and_then (fetch_chunks client libs selected (chunks_of UID_FETCH_CHUNK_SIZE uids) fetch_modseq
                 fetch_gmail updated_at w)
       (\<lambda>records w. (Inr (sort_key (\<lambda>record. il_uid (mh_location record)) records), w))"

definition fetch_mailbox_header_snapshot ::
  "'w ImapClient \<Rightarrow> ImapFetchLibs \<Rightarrow> str \<Rightarrow> bool \<Rightarrow> bool \<Rightarrow> str \<Rightarrow> 'w \<Rightarrow>
   (ImapMailboxHeaderSnapshot, 'w) imap_result" where
  "fetch_mailbox_header_snapshot client libs mailbox_name fetch_modseq fetch_gmail updated_at w =
     and_then (search_undeleted_uids client (lb_hex libs) mailbox_name w) (\<lambda>(selected, uids) w.
     and_then (fetch_selected_mailbox_headers client libs selected uids fetch_modseq fetch_gmail updated_at w)
       (\<lambda>headers w. (Inr \<lparr>hs_selected = selected, hs_headers = headers\<rparr>, w)))"

definition uids_above :: "ImapUid list \<Rightarrow> ImapUid \<Rightarrow> ImapUid list" where
  "uids_above uids after_uid = filter (\<lambda>uid. uid > after_uid) uids"

definition fetch_mailbox_headers_after_uid ::
  "'w ImapClient \<Rightarrow> ImapFetchLibs \<Rightarrow> str \<Rightarrow> ImapUid \<Rightarrow> bool \<Rightarrow> bool \<Rightarrow> str \<Rightarrow> 'w \<Rightarrow>
   (ImapMailboxUidDeltaSnapshot, 'w) imap_result" where
  "fetch_mailbox_headers_after_uid client libs mailbox_name after_uid fetch_modseq fetch_gmail updated_at w =
     and_then (search_undeleted_uids client (lb_hex libs) mailbox_name w) (\<lambda>(selected, uids) w.
     and_then (fetch_selected_mailbox_headers client libs selected (uids_above uids after_uid) fetch_modseq
                 fetch_gmail updated_at w)
       (\<lambda>headers w. (Inr \<lparr>us_selected = selected, us_headers = headers, us_current_uids = uids\<rparr>, w)))"

subsection \<open>CONDSTORE and QRESYNC\<close>

definition enable_qresync :: "'w ImapClient \<Rightarrow> 'w \<Rightarrow> (bool, 'w) imap_result" where
  "enable_qresync client w =
     and_then (with_deadline (L ''enable'') (cl_enable client [L ''QRESYNC''] w))
       (\<lambda>enabled w. (Inr (list_ex (\<lambda>capability. eq_ignore_ascii_case capability (L ''QRESYNC''))
          (case enabled of Some capabilities \<Rightarrow> capabilities | None \<Rightarrow> [])), w))"

text \<open>
  The output of the task: the items of every sequence number (a hash map of hash sets, here in the order
  of arrival without repetition) and the vanished UIDs.
\<close>

record ChangedSinceOutput =
  co_headers :: "(nat \<times> MessageDataItem list) list"
  co_vanished_uids :: "ImapUid list"

definition changed_since_process :: "ServerEvent \<Rightarrow> ChangedSinceOutput \<Rightarrow> ChangedSinceOutput" where
  "changed_since_process event s = (case event of
     EvData (DtFetch seq items) \<Rightarrow>
       s\<lparr>co_headers := bt_entry seq [] (\<lambda>previous. previous @ filter (\<lambda>i. i \<notin> set previous) (remdups items))
          (co_headers s)\<rparr>
   | EvData (DtVanished uids) \<Rightarrow> s\<lparr>co_vanished_uids := co_vanished_uids s @ uids\<rparr>
   | _ \<Rightarrow> s)"

definition changed_since_fetch ::
  "'w ImapClient \<Rightarrow> ImapModSeq \<Rightarrow> bool \<Rightarrow> bool \<Rightarrow> 'w \<Rightarrow> (ChangedSinceOutput, 'w) imap_result" where
  "changed_since_fetch client since_modseq include_vanished fetch_gmail =
     with_deadline_resolve client (L ''changed_since_fetch'')
       (CmdUidFetchChangedSince (fetch_item_names True fetch_gmail) since_modseq include_vanished)
       changed_since_process \<lparr>co_headers = [], co_vanished_uids = []\<rparr> tagged"

text \<open>One changed message: a header to keep, or the UID of one flagged deleted.\<close>

definition changed_header ::
  "ImapFetchLibs \<Rightarrow> ImapSelectedMailbox \<Rightarrow> str \<Rightarrow> MessageDataItem list \<Rightarrow>
   (fault, ImapUid + ImapMappedHeader) result" where
  "changed_header libs selected updated_at items =
     (case fetched_header_from_items_with_metadata (lb_flag_display libs) selected items updated_at of
        Inl e \<Rightarrow> Inl e
      | Inr fetched \<Rightarrow>
          if imap_flags_include_deleted (fh_flags (fm_header fetched))
          then Inr (Inl (fh_uid (fm_header fetched)))
          else (case imap_header_message_record_with_gmail_metadata (ImapLibs.truncate libs) selected
                  (fm_header fetched) (fm_gmail fetched) of
             Inl e \<Rightarrow> Inl e | Inr header \<Rightarrow> Inr (Inr header)))"

definition kept_headers :: "(ImapUid + ImapMappedHeader) list \<Rightarrow> ImapMappedHeader list" where
  "kept_headers changed = List.map_filter (\<lambda>c. case c of Inr header \<Rightarrow> Some header | Inl _ \<Rightarrow> None) changed"

definition deleted_uids :: "(ImapUid + ImapMappedHeader) list \<Rightarrow> ImapUid list" where
  "deleted_uids changed = List.map_filter (\<lambda>c. case c of Inl uid \<Rightarrow> Some uid | Inr _ \<Rightarrow> None) changed"

definition by_uid :: "ImapMappedHeader list \<Rightarrow> ImapMappedHeader list" where
  "by_uid headers = sort_key (\<lambda>record. il_uid (mh_location record)) headers"

definition fetch_mailbox_changed_since_snapshot ::
  "'w ImapClient \<Rightarrow> ImapFetchLibs \<Rightarrow> str \<Rightarrow> ImapModSeq \<Rightarrow> bool \<Rightarrow> bool \<Rightarrow> str \<Rightarrow> 'w \<Rightarrow>
   (ImapChangedSinceSnapshot, 'w) imap_result" where
  "fetch_mailbox_changed_since_snapshot client libs mailbox_name since_modseq include_vanished fetch_gmail
     updated_at w =
     (if since_modseq = 0 then (Inl (Failed (InvalidModSeq since_modseq)), w) else
      and_then (if include_vanished then enable_qresync client w else (Inr False, w)) (\<lambda>fetch_vanished w.
      and_then (examine_selected_mailbox client (lb_hex libs) mailbox_name w) (\<lambda>selected w.
      if include_vanished \<and> \<not> fetch_vanished
      then and_then (search_uids client w) (\<lambda>uids w.
           and_then (fetch_selected_mailbox_headers client libs selected uids True fetch_gmail updated_at w)
             (\<lambda>headers w. (Inr \<lparr>cs_selected = selected, cs_headers = headers, cs_vanished_uids = [],
                               cs_is_full_snapshot = True\<rparr>, w)))
      else and_then (changed_since_fetch client since_modseq fetch_vanished fetch_gmail w) (\<lambda>snapshot w.
           case sequence (map (changed_header libs selected updated_at) (map snd (co_headers snapshot))) of
             Inl e \<Rightarrow> (Inl e, w)
           | Inr changed \<Rightarrow>
               (Inr \<lparr>cs_selected = selected, cs_headers = by_uid (kept_headers changed),
                     cs_vanished_uids = remdups_adj (sort (co_vanished_uids snapshot @ deleted_uids changed)),
                     cs_is_full_snapshot = False\<rparr>, w)))))"

definition missed_new_uids :: "ImapUid list \<Rightarrow> ImapMappedHeader list \<Rightarrow> ImapUid option \<Rightarrow> ImapUid list" where
  "missed_new_uids uids headers after_uid =
     filter (\<lambda>uid. uid > (case after_uid of Some u \<Rightarrow> u | None \<Rightarrow> 0) \<and> uid \<notin> set (header_uids headers)) uids"

definition fetch_mailbox_condstore_delta_snapshot ::
  "'w ImapClient \<Rightarrow> ImapFetchLibs \<Rightarrow> str \<Rightarrow> ImapModSeq \<Rightarrow> ImapUid option \<Rightarrow> bool \<Rightarrow> str \<Rightarrow> 'w \<Rightarrow>
   (ImapMailboxUidDeltaSnapshot, 'w) imap_result" where
  "fetch_mailbox_condstore_delta_snapshot client libs mailbox_name since_modseq after_uid fetch_gmail
     updated_at w =
     (if since_modseq = 0 then (Inl (Failed (InvalidModSeq since_modseq)), w) else
      and_then (examine_selected_mailbox client (lb_hex libs) mailbox_name w) (\<lambda>selected w.
      and_then (search_uids client w) (\<lambda>uids w.
      and_then (changed_since_fetch client since_modseq False fetch_gmail w) (\<lambda>snapshot w.
      case sequence (map (changed_header libs selected updated_at) (map snd (co_headers snapshot))) of
        Inl e \<Rightarrow> (Inl e, w)
      | Inr changed \<Rightarrow>
          (let headers = kept_headers changed;
               missed = missed_new_uids uids headers after_uid
           in and_then (if missed = [] then (Inr [], w)
                        else fetch_selected_mailbox_headers client libs selected missed True fetch_gmail updated_at w)
                (\<lambda>swept w. (Inr \<lparr>us_selected = selected, us_headers = by_uid (headers @ swept),
                                us_current_uids = uids\<rparr>, w)))))))"

subsection \<open>Validated mutations of one UID\<close>

definition uid_sequence_set :: "ImapMessageLocation \<Rightarrow> (fault, ImapUid) result" where
  "uid_sequence_set location =
     (if il_uid location = 0 then Inl (Failed (InvalidUidSequence (L ''UID 0''))) else Inr (il_uid location))"

definition select_validated_mailbox ::
  "'w ImapClient \<Rightarrow> (nat list \<Rightarrow> str) \<Rightarrow> str \<Rightarrow> ImapMessageLocation \<Rightarrow> 'w \<Rightarrow> (unit, 'w) imap_result" where
  "select_validated_mailbox client hex mailbox_name location w =
     and_then (with_deadline (L ''select'') (cl_select client mailbox_name w)) (\<lambda>data w.
       case selected_mailbox_from_examine hex mailbox_name data of
         Inl e \<Rightarrow> (Inl e, w)
       | Inr selected \<Rightarrow>
           if se_uid_validity selected \<noteq> il_uid_validity location
           then (Inl (Failed (UidValidityMismatch mailbox_name (il_uid_validity location)
                   (se_uid_validity selected))), w)
           else (Inr (), w))"

definition verify_message_data_contains_uid ::
  "ImapMessageLocation \<Rightarrow> MessageDataItem list \<Rightarrow> str \<Rightarrow> (fault, unit) result" where
  "verify_message_data_contains_uid location items missing_label =
     (if list_ex (\<lambda>item. case item of MdUid uid \<Rightarrow> uid = il_uid location | _ \<Rightarrow> False) items
      then Inr () else Inl (Failed (MissingFetchData missing_label)))"

text \<open>A response without data is the answer for a UID that is gone: an empty list of items.\<close>

definition verify_uid_fetch_response ::
  "'w ImapClient \<Rightarrow> ImapMessageLocation \<Rightarrow> 'w \<Rightarrow> (unit, 'w) imap_result" where
  "verify_uid_fetch_response client location w = (case uid_sequence_set location of
     Inl e \<Rightarrow> (Inl e, w)
   | Inr probe_uid \<Rightarrow>
       and_then (with_deadline (L ''uid_fetch_first'') (cl_uid_fetch_first client probe_uid [MnUid] w))
         (\<lambda>items w. (verify_message_data_contains_uid location
            (case items of Some items \<Rightarrow> items | None \<Rightarrow> []) (L ''matching UID FETCH response''), w)))"

definition uid_expunge :: "'w ImapClient \<Rightarrow> ImapMessageLocation \<Rightarrow> 'w \<Rightarrow> (nat list, 'w) imap_result" where
  "uid_expunge client location w = (case uid_sequence_set location of
     Inl e \<Rightarrow> (Inl e, w)
   | Inr uid \<Rightarrow> with_deadline_resolve client (L ''uid_expunge'') (CmdUidExpunge uid)
       (\<lambda>event output. case event of EvData (DtExpunge seq) \<Rightarrow> output @ [seq] | _ \<Rightarrow> output) [] tagged w)"

definition store_flags ::
  "'w ImapClient \<Rightarrow> ImapUid \<Rightarrow> StoreType \<Rightarrow> ImapFlag list \<Rightarrow> 'w \<Rightarrow> (unit, 'w) imap_result" where
  "store_flags client uid kind flags w =
     with_deadline (L ''uid_store'') (cl_uid_silent_store client uid kind flags w)"

definition apply_imap_keyword_delta_by_location ::
  "'w ImapClient \<Rightarrow> ImapFetchLibs \<Rightarrow> str \<Rightarrow> ImapMessageLocation \<Rightarrow> SetKeywordsCommand \<Rightarrow> 'w \<Rightarrow>
   (unit, 'w) imap_result" where
  "apply_imap_keyword_delta_by_location client libs mailbox_name location command w =
     and_then (select_validated_mailbox client (lb_hex libs) mailbox_name location w) (\<lambda>_ w.
     case uid_sequence_set location of Inl e \<Rightarrow> (Inl e, w) | Inr uid \<Rightarrow>
    (case imap_flags_for_keywords (lb_flag_of libs) (skc_add command) of Inl e \<Rightarrow> (Inl e, w) | Inr add_flags \<Rightarrow>
    (case imap_flags_for_keywords (lb_flag_of libs) (skc_remove command) of Inl e \<Rightarrow> (Inl e, w) | Inr remove_flags \<Rightarrow>
     and_then (if add_flags \<noteq> [] then store_flags client uid StoreAdd add_flags w else (Inr (), w)) (\<lambda>_ w.
       if remove_flags \<noteq> [] then store_flags client uid StoreRemove remove_flags w else (Inr (), w)))))"

text \<open>Select, check the epoch and probe the UID before acting on it.\<close>

definition on_validated_uid ::
  "'w ImapClient \<Rightarrow> (nat list \<Rightarrow> str) \<Rightarrow> str \<Rightarrow> ImapMessageLocation \<Rightarrow> (ImapUid \<Rightarrow> 'w \<Rightarrow> ('a, 'w) imap_result) \<Rightarrow>
   'w \<Rightarrow> ('a, 'w) imap_result" where
  "on_validated_uid client hex mailbox_name location act w =
     and_then (select_validated_mailbox client hex mailbox_name location w) (\<lambda>_ w.
     and_then (verify_uid_fetch_response client location w) (\<lambda>_ w.
       case uid_sequence_set location of Inl e \<Rightarrow> (Inl e, w) | Inr uid \<Rightarrow> act uid w))"

definition copy_imap_message_to_mailbox_by_location ::
  "'w ImapClient \<Rightarrow> (nat list \<Rightarrow> str) \<Rightarrow> str \<Rightarrow> ImapMessageLocation \<Rightarrow> str \<Rightarrow> 'w \<Rightarrow> (unit, 'w) imap_result" where
  "copy_imap_message_to_mailbox_by_location client hex source_mailbox_name location target_mailbox_name =
     on_validated_uid client hex source_mailbox_name location
       (\<lambda>uid w. with_deadline (L ''uid_copy'') (cl_uid_copy client uid target_mailbox_name w))"

definition move_imap_message_to_mailbox_by_location ::
  "'w ImapClient \<Rightarrow> (nat list \<Rightarrow> str) \<Rightarrow> str \<Rightarrow> ImapMessageLocation \<Rightarrow> str \<Rightarrow> 'w \<Rightarrow> (unit, 'w) imap_result" where
  "move_imap_message_to_mailbox_by_location client hex source_mailbox_name location target_mailbox_name =
     on_validated_uid client hex source_mailbox_name location
       (\<lambda>uid w. with_deadline (L ''uid_move'') (cl_uid_move client uid target_mailbox_name w))"

definition mark_imap_message_deleted_by_location ::
  "'w ImapClient \<Rightarrow> (nat list \<Rightarrow> str) \<Rightarrow> str \<Rightarrow> ImapMessageLocation \<Rightarrow> 'w \<Rightarrow> (unit, 'w) imap_result" where
  "mark_imap_message_deleted_by_location client hex mailbox_name location =
     on_validated_uid client hex mailbox_name location
       (\<lambda>uid. store_flags client uid StoreAdd [FlDeleted])"

definition expunge_imap_message_by_location ::
  "'w ImapClient \<Rightarrow> (nat list \<Rightarrow> str) \<Rightarrow> str \<Rightarrow> ImapMessageLocation \<Rightarrow> 'w \<Rightarrow> (unit, 'w) imap_result" where
  "expunge_imap_message_by_location client hex mailbox_name location =
     on_validated_uid client hex mailbox_name location
       (\<lambda>uid w. and_then (store_flags client uid StoreAdd [FlDeleted] w)
         (\<lambda>_ w. and_then (uid_expunge client location w) (\<lambda>_ w. (Inr (), w))))"

end
