(* ===== verification/ImapSync.thy ===== *)
theory ImapSync
  imports ImapFetch OutboxFlush
begin

text \<open>
  The IMAP gateway, \<open>crates/posthaste-imap/src/gateway\<close>: planning every mailbox from its stored state
  (\<open>planning.rs\<close>), executing the plans into one accumulated batch (\<open>execution.rs\<close>, \<open>types.rs\<close>,
  \<open>sync.rs\<close>), the streamed and resumable initial snapshot (\<open>streaming.rs\<close>), mailbox and destroy
  mutations (\<open>mutations.rs\<close>) and drafts (\<open>draft.rs\<close>).

  The gateway acts on a pair: the network with the server, and the tables of the store. Planning and
  mutations read the tables as they are when they run; only the sink of a sync and the draft
  registration write them. Progress reports and logging are left out, and so are the reads that fail
  inside the store. The session manager that lends the connection is not part of this theory.
\<close>

subsection \<open>Faults of the gateway\<close>

datatype gfault = GwFailed gw_error | GwPanicked

definition gateway_fault :: "fault \<Rightarrow> gfault" where
  "gateway_fault f = (case f of Failed e \<Rightarrow> GwFailed (imap_error_to_gateway e) | Panicked \<Rightarrow> GwPanicked)"

type_synonym ('a, 'n) gateway_result = "(gfault, 'a) result \<times> ('n \<times> SyncDb)"

text \<open>A step on the network alone, with \<open>map_err(imap_error_to_gateway)\<close>.\<close>

definition on_net :: "('n \<Rightarrow> ('a, 'n) imap_result) \<Rightarrow> 'n \<times> SyncDb \<Rightarrow> ('a, 'n) gateway_result" where
  "on_net act w = (case act (fst w) of
     (Inl f, n) \<Rightarrow> (Inl (gateway_fault f), (n, snd w))
   | (Inr x, n) \<Rightarrow> (Inr x, (n, snd w)))"

record 'n ImapEnv =
  ev_client :: "'n ImapClient"
  ev_libs :: ImapFetchLibs
  ev_discovery :: DiscoveredImapAccount
  ev_has_store :: bool
  ev_now :: "(str, str) result"

subsection \<open>Plans\<close>

datatype PlannedImapMailboxSync = SkipUnchanged | SyncPlan ImapMailboxSyncPlan

record PlannedImapMailbox =
  pl_id :: str
  pl_name :: str
  pl_stored_state :: "ImapMailboxSyncState option"
  pl_local_locations :: "ImapMessageLocation list"
  pl_plan :: PlannedImapMailboxSync

definition requires_partial_delta_batch :: "PlannedImapMailboxSync \<Rightarrow> bool" where
  "requires_partial_delta_batch plan = (case plan of
     SkipUnchanged \<Rightarrow> True
   | SyncPlan (QresyncDelta _ _ _) \<Rightarrow> True
   | SyncPlan (CondstoreDelta _ _) \<Rightarrow> True
   | SyncPlan (FetchNewByUid _) \<Rightarrow> True
   | SyncPlan (FullSnapshot _) \<Rightarrow> False)"

definition is_full_snapshot :: "PlannedImapMailboxSync \<Rightarrow> bool" where
  "is_full_snapshot plan = (case plan of SyncPlan (FullSnapshot _) \<Rightarrow> True | _ \<Rightarrow> False)"

definition planned_mailboxes_include_full_snapshot :: "PlannedImapMailbox list \<Rightarrow> bool" where
  "planned_mailboxes_include_full_snapshot planned \<longleftrightarrow> list_ex (\<lambda>m. is_full_snapshot (pl_plan m)) planned"

definition planned_mailboxes_require_partial_delta_batch :: "PlannedImapMailbox list \<Rightarrow> bool" where
  "planned_mailboxes_require_partial_delta_batch planned \<longleftrightarrow>
     list_ex (\<lambda>m. requires_partial_delta_batch (pl_plan m)) planned"

definition unsupported :: "str \<Rightarrow> gfault" where
  "unsupported operation = GwFailed (Rejected (L ''IMAP/SMTP '' @ operation @
     L '' is not implemented yet; discovery is available''))"

definition plan_mailbox ::
  "'n ImapEnv \<Rightarrow> str \<Rightarrow> DiscoveredImapMailbox \<Rightarrow> ImapCapabilities \<Rightarrow> ProviderProfile \<Rightarrow> 'n \<times> SyncDb \<Rightarrow>
   (PlannedImapMailbox, 'n) gateway_result" where
  "plan_mailbox env account_id mailbox capabilities provider w =
     (if \<not> ev_has_store env
      then (Inr \<lparr>pl_id = dm_id mailbox, pl_name = dm_name mailbox, pl_stored_state = None,
                 pl_local_locations = [], pl_plan = SyncPlan (FullSnapshot InitialSync)\<rparr>, w)
      else (let stored_state = get_imap_mailbox_state account_id (dm_id mailbox) (snd w);
                local_locations = list_imap_mailbox_message_locations account_id (dm_id mailbox) (snd w);
                planned = (\<lambda>plan. \<lparr>pl_id = dm_id mailbox, pl_name = dm_name mailbox,
                  pl_stored_state = stored_state, pl_local_locations = local_locations, pl_plan = plan\<rparr>)
            in and_then (case stored_state of
                 Some state \<Rightarrow>
                   if allows_status_skip (pp_imap provider)
                   then and_then (on_net (status_imap_mailbox (ev_client env) (dm_name mailbox)
                           (supports_condstore capabilities \<and> is_highest_modseq state \<noteq> None)) w)
                          (\<lambda>status w. (Inr (mailbox_status_proves_unchanged state (length local_locations) status), w))
                   else (Inr False, w)
               | None \<Rightarrow> (Inr False, w)) (\<lambda>unchanged w.
               if unchanged then (Inr (planned SkipUnchanged), w)
               else and_then (on_net (examine_selected_mailbox (ev_client env) (lb_hex (ev_libs env))
                       (dm_name mailbox)) w)
                 (\<lambda>selected w. (Inr (planned (SyncPlan
                    (plan_imap_mailbox_sync capabilities provider stored_state selected))), w)))))"

fun plan_each ::
  "'n ImapEnv \<Rightarrow> str \<Rightarrow> ImapCapabilities \<Rightarrow> ProviderProfile \<Rightarrow> DiscoveredImapMailbox list \<Rightarrow> 'n \<times> SyncDb \<Rightarrow>
   (PlannedImapMailbox list, 'n) gateway_result" where
  "plan_each env account_id capabilities provider [] w = (Inr [], w)"
| "plan_each env account_id capabilities provider (mailbox # mailboxes) w =
     and_then (plan_mailbox env account_id mailbox capabilities provider w) (\<lambda>planned w.
     and_then (plan_each env account_id capabilities provider mailboxes w)
       (\<lambda>rest w. (Inr (planned # rest), w)))"

definition plan_mailboxes ::
  "'n ImapEnv \<Rightarrow> str \<Rightarrow> DiscoveredImapAccount \<Rightarrow> 'n \<times> SyncDb \<Rightarrow> (PlannedImapMailbox list, 'n) gateway_result" where
  "plan_mailboxes env account_id discovery =
     plan_each env account_id (da_capabilities discovery) (provider_profile discovery)
       (filter dm_selectable (da_mailboxes discovery))"

subsection \<open>The accumulated batch\<close>

record SyncBatchAccumulator =
  ac_headers :: "ImapMappedHeader list"
  ac_local_locations :: "ImapMessageLocation list"
  ac_mailbox_states :: "ImapMailboxSyncState list"
  ac_vanished_deleted_uids :: "uid_identity list"
  ac_absence_deleted_uids :: "uid_identity list"

definition accumulator_default :: SyncBatchAccumulator where
  "accumulator_default = \<lparr>ac_headers = [], ac_local_locations = [], ac_mailbox_states = [],
     ac_vanished_deleted_uids = [], ac_absence_deleted_uids = []\<rparr>"

definition add_local_locations ::
  "ImapMessageLocation list \<Rightarrow> SyncBatchAccumulator \<Rightarrow> SyncBatchAccumulator" where
  "add_local_locations locations acc = acc\<lparr>ac_local_locations := ac_local_locations acc @ locations\<rparr>"

definition add_vanished_uid_identities :: "uid_identity list \<Rightarrow> SyncBatchAccumulator \<Rightarrow> SyncBatchAccumulator" where
  "add_vanished_uid_identities ids acc =
     acc\<lparr>ac_vanished_deleted_uids := ac_vanished_deleted_uids acc @ ids\<rparr>"

definition add_absence_uid_identities :: "uid_identity list \<Rightarrow> SyncBatchAccumulator \<Rightarrow> SyncBatchAccumulator" where
  "add_absence_uid_identities ids acc =
     acc\<lparr>ac_absence_deleted_uids := ac_absence_deleted_uids acc @ ids\<rparr>"

definition record_header_snapshot ::
  "ImapMailboxHeaderSnapshot \<Rightarrow> str \<Rightarrow> SyncBatchAccumulator \<Rightarrow> SyncBatchAccumulator" where
  "record_header_snapshot snapshot updated_at acc =
     acc\<lparr>ac_mailbox_states := ac_mailbox_states acc @
            [imap_mailbox_state_from_header_snapshot snapshot updated_at],
         ac_headers := ac_headers acc @ hs_headers snapshot\<rparr>"

definition push_delta_state ::
  "PlannedImapMailbox \<Rightarrow> ImapChangedSinceSnapshot \<Rightarrow> str \<Rightarrow> SyncBatchAccumulator \<Rightarrow> SyncBatchAccumulator" where
  "push_delta_state mailbox snapshot updated_at acc = (case pl_stored_state mailbox of
     Some stored \<Rightarrow> acc\<lparr>ac_mailbox_states := ac_mailbox_states acc @
       [imap_mailbox_state_from_changed_since_snapshot stored snapshot updated_at]\<rparr>
   | None \<Rightarrow> acc)"

definition record_changed_since_snapshot ::
  "PlannedImapMailbox \<Rightarrow> ImapChangedSinceSnapshot \<Rightarrow> str \<Rightarrow> SyncBatchAccumulator \<Rightarrow> SyncBatchAccumulator" where
  "record_changed_since_snapshot mailbox snapshot updated_at acc =
     (let acc = push_delta_state mailbox snapshot updated_at acc;
          acc = (if cs_is_full_snapshot snapshot
                 then add_absence_uid_identities (missing_location_identities (pl_local_locations mailbox)
                        (map mh_location (cs_headers snapshot))) acc
                 else add_vanished_uid_identities (map (\<lambda>uid. (pl_id mailbox,
                        se_uid_validity (cs_selected snapshot), uid)) (cs_vanished_uids snapshot)) acc)
      in acc\<lparr>ac_headers := ac_headers acc @ cs_headers snapshot\<rparr>)"

definition record_uid_delta_snapshot ::
  "PlannedImapMailbox \<Rightarrow> ImapMailboxUidDeltaSnapshot \<Rightarrow> str \<Rightarrow> SyncBatchAccumulator \<Rightarrow> SyncBatchAccumulator" where
  "record_uid_delta_snapshot mailbox snapshot updated_at acc =
     (let acc = add_absence_uid_identities (missing_location_identities_from_uids
            (pl_local_locations mailbox) (us_current_uids snapshot)) acc;
          acc = push_delta_state mailbox
            \<lparr>cs_selected = us_selected snapshot, cs_headers = us_headers snapshot, cs_vanished_uids = [],
             cs_is_full_snapshot = False\<rparr> updated_at acc
      in acc\<lparr>ac_headers := ac_headers acc @ us_headers snapshot\<rparr>)"

definition into_sync_batch ::
  "(nat list \<Rightarrow> str) \<Rightarrow> DiscoveredImapAccount \<Rightarrow> bool \<Rightarrow> bool \<Rightarrow> bool \<Rightarrow> str \<Rightarrow> SyncBatchAccumulator \<Rightarrow>
   ImapSyncBatch" where
  "into_sync_batch hex discovery account_full requires_partial has_full updated_at acc =
     (let use_explicit_deletion_batch = requires_partial \<or> ac_vanished_deleted_uids acc \<noteq> [] \<or>
            ac_absence_deleted_uids acc \<noteq> [] \<or> has_full
      in if account_full
         then imap_full_sync_batch hex discovery (ac_headers acc) (ac_mailbox_states acc) updated_at
         else if use_explicit_deletion_batch
         then imap_condstore_delta_sync_batch hex discovery (ac_headers acc) (ac_mailbox_states acc)
                (ac_local_locations acc) (ac_vanished_deleted_uids acc) (ac_absence_deleted_uids acc) updated_at
         else imap_delta_sync_batch hex discovery (ac_headers acc) (ac_mailbox_states acc)
                (ac_local_locations acc) updated_at)"

subsection \<open>Executing plans\<close>

record MailboxPlanExecutionContext =
  xc_fetch_modseq :: bool
  xc_fetch_gmail_metadata :: bool
  xc_account_full_message_snapshot :: bool
  xc_updated_at :: str

definition execute_mailbox_plan ::
  "'n ImapEnv \<Rightarrow> MailboxPlanExecutionContext \<Rightarrow> PlannedImapMailbox \<Rightarrow> SyncBatchAccumulator \<Rightarrow> 'n \<times> SyncDb \<Rightarrow>
   (SyncBatchAccumulator, 'n) gateway_result" where
  "execute_mailbox_plan env ctx mailbox acc w =
     (let acc = add_local_locations (pl_local_locations mailbox) acc;
          client = ev_client env; libs = ev_libs env;
          gmail = xc_fetch_gmail_metadata ctx; updated_at = xc_updated_at ctx
      in case pl_plan mailbox of
        SkipUnchanged \<Rightarrow> (Inr acc, w)
      | SyncPlan (FullSnapshot _) \<Rightarrow>
          and_then (on_net (fetch_mailbox_header_snapshot client libs (pl_name mailbox)
              (xc_fetch_modseq ctx) gmail updated_at) w) (\<lambda>snapshot w.
            (Inr (record_header_snapshot snapshot updated_at
               (if xc_account_full_message_snapshot ctx then acc
                else add_absence_uid_identities (missing_location_identities (pl_local_locations mailbox)
                       (map mh_location (hs_headers snapshot))) acc)), w))
      | SyncPlan (QresyncDelta _ since_modseq _) \<Rightarrow>
          and_then (on_net (fetch_mailbox_changed_since_snapshot client libs (pl_name mailbox) since_modseq
              True gmail updated_at) w)
            (\<lambda>snapshot w. (Inr (record_changed_since_snapshot mailbox snapshot updated_at acc), w))
      | SyncPlan (CondstoreDelta since_modseq after_uid) \<Rightarrow>
          and_then (on_net (fetch_mailbox_condstore_delta_snapshot client libs (pl_name mailbox) since_modseq
              after_uid gmail updated_at) w)
            (\<lambda>snapshot w. (Inr (record_uid_delta_snapshot mailbox snapshot updated_at acc), w))
      | SyncPlan (FetchNewByUid after_uid) \<Rightarrow>
          and_then (on_net (fetch_mailbox_headers_after_uid client libs (pl_name mailbox) after_uid
              (xc_fetch_modseq ctx) gmail updated_at) w)
            (\<lambda>snapshot w. (Inr (record_uid_delta_snapshot mailbox snapshot updated_at acc), w)))"

fun execute_from ::
  "'n ImapEnv \<Rightarrow> MailboxPlanExecutionContext \<Rightarrow> PlannedImapMailbox list \<Rightarrow> SyncBatchAccumulator \<Rightarrow>
   'n \<times> SyncDb \<Rightarrow> (SyncBatchAccumulator, 'n) gateway_result" where
  "execute_from env ctx [] acc w = (Inr acc, w)"
| "execute_from env ctx (mailbox # mailboxes) acc w =
     and_then (execute_mailbox_plan env ctx mailbox acc w)
       (\<lambda>acc w. execute_from env ctx mailboxes acc w)"

definition execute_mailbox_plans ::
  "'n ImapEnv \<Rightarrow> MailboxPlanExecutionContext \<Rightarrow> PlannedImapMailbox list \<Rightarrow> 'n \<times> SyncDb \<Rightarrow>
   (SyncBatchAccumulator, 'n) gateway_result" where
  "execute_mailbox_plans env ctx planned = execute_from env ctx planned accumulator_default"

subsection \<open>A sync cycle\<close>

record PlannedSync =
  ps_discovery :: DiscoveredImapAccount
  ps_planned_mailboxes :: "PlannedImapMailbox list"
  ps_context :: MailboxPlanExecutionContext

definition prepare_planned_sync :: "'n ImapEnv \<Rightarrow> str \<Rightarrow> 'n \<times> SyncDb \<Rightarrow> (PlannedSync, 'n) gateway_result" where
  "prepare_planned_sync env account_id w =
     and_then (on_net (\<lambda>n. with_deadline (L ''refresh_capabilities'')
         (cl_refresh_capabilities (ev_client env) n)) w) (\<lambda>_ w.
       let capabilities = capabilities_from_tokens (cl_capabilities (ev_client env) (fst w));
           discovery = (ev_discovery env)\<lparr>da_capabilities := capabilities\<rparr>
       in case ev_now env of
            Inl message \<Rightarrow> (Inl (GwFailed (Rejected message)), w)
          | Inr updated_at \<Rightarrow>
              and_then (plan_mailboxes env account_id discovery w) (\<lambda>planned w.
                (Inr \<lparr>ps_discovery = discovery, ps_planned_mailboxes = planned,
                      ps_context = \<lparr>xc_fetch_modseq = supports_condstore capabilities,
                        xc_fetch_gmail_metadata = supports_gmail_extensions capabilities,
                        xc_account_full_message_snapshot = \<not> ev_has_store env,
                        xc_updated_at = updated_at\<rparr>\<rparr>, w)))"

text \<open>The batch of a group of planned mailboxes, executed together.\<close>

definition execute_into_batch ::
  "'n ImapEnv \<Rightarrow> DiscoveredImapAccount \<Rightarrow> MailboxPlanExecutionContext \<Rightarrow> bool \<Rightarrow> PlannedImapMailbox list \<Rightarrow>
   'n \<times> SyncDb \<Rightarrow> (ImapSyncBatch, 'n) gateway_result" where
  "execute_into_batch env discovery ctx has_full planned w =
     and_then (execute_mailbox_plans env ctx planned w) (\<lambda>acc w.
       (Inr (into_sync_batch (lb_hex (ev_libs env)) discovery (xc_account_full_message_snapshot ctx)
          (planned_mailboxes_require_partial_delta_batch planned) has_full (xc_updated_at ctx) acc), w))"

definition sync_imap_account :: "'n ImapEnv \<Rightarrow> str \<Rightarrow> 'n \<times> SyncDb \<Rightarrow> (ImapSyncBatch, 'n) gateway_result" where
  "sync_imap_account env account_id w =
     and_then (prepare_planned_sync env account_id w) (\<lambda>prepared w.
       execute_into_batch env (ps_discovery prepared) (ps_context prepared)
         (xc_account_full_message_snapshot (ps_context prepared) \<or>
          planned_mailboxes_include_full_snapshot (ps_planned_mailboxes prepared))
         (ps_planned_mailboxes prepared) w)"

subsection \<open>The streamed cycle\<close>

text \<open>The sink applies one chunk to the store; it may fail, and then the cycle stops.\<close>

type_synonym 'n sink = "ImapSyncBatch \<Rightarrow> 'n \<times> SyncDb \<Rightarrow> (unit, 'n) gateway_result"

definition INITIAL_SNAPSHOT_CHUNK_SIZE :: nat where
  "INITIAL_SNAPSHOT_CHUNK_SIZE = UID_FETCH_CHUNK_SIZE"

definition is_streaming_initial_snapshot :: "PlannedImapMailbox \<Rightarrow> bool" where
  "is_streaming_initial_snapshot mailbox \<longleftrightarrow>
     pl_plan mailbox = SyncPlan (FullSnapshot InitialSync) \<or>
     pl_plan mailbox = SyncPlan (FullSnapshot ResumeInitialSync)"

definition partial_state :: "ImapSelectedMailbox \<Rightarrow> ImapUid option \<Rightarrow> str \<Rightarrow> ImapMailboxSyncState" where
  "partial_state selected checkpoint updated_at =
     \<lparr>is_mailbox_id = se_mailbox_id selected, is_mailbox_name = se_mailbox_name selected,
      is_uid_validity = se_uid_validity selected, is_highest_uid = None, is_highest_modseq = None,
      is_partial_initial_uid = checkpoint, is_updated_at = updated_at\<rparr>"

definition finalized_state ::
  "ImapSelectedMailbox \<Rightarrow> ImapUid option \<Rightarrow> ImapModSeq option \<Rightarrow> str \<Rightarrow> ImapMailboxSyncState" where
  "finalized_state selected highest_uid highest_modseq_seen updated_at =
     \<lparr>is_mailbox_id = se_mailbox_id selected, is_mailbox_name = se_mailbox_name selected,
      is_uid_validity = se_uid_validity selected, is_highest_uid = highest_uid,
      is_highest_modseq = (case se_highest_modseq selected of
         Some m \<Rightarrow> Some m | None \<Rightarrow> highest_modseq_seen),
      is_partial_initial_uid = None, is_updated_at = updated_at\<rparr>"

text \<open>Fetch a chunk, commit it with its state, then the next; the last one commits the final state.\<close>

fun stream_chunks ::
  "'n ImapEnv \<Rightarrow> 'n sink \<Rightarrow> DiscoveredImapAccount \<Rightarrow> MailboxPlanExecutionContext \<Rightarrow> ImapSelectedMailbox \<Rightarrow>
   ImapUid option \<Rightarrow> ImapModSeq option \<Rightarrow> ImapUid list list \<Rightarrow> 'n \<times> SyncDb \<Rightarrow> (unit, 'n) gateway_result" where
  "stream_chunks env sink discovery ctx selected overall_highest seen [] w = (Inr (), w)"
| "stream_chunks env sink discovery ctx selected overall_highest seen (chunk # chunks) w =
     and_then (on_net (fetch_header_chunk (ev_client env) (ev_libs env) selected chunk (xc_fetch_modseq ctx)
         (xc_fetch_gmail_metadata ctx) (xc_updated_at ctx)) w) (\<lambda>headers w.
       let seen = fold (\<lambda>m acc. max_option acc m) (header_modseqs headers) seen;
           state = (if chunks = []
             then finalized_state selected overall_highest seen (xc_updated_at ctx)
             else partial_state selected (list_max chunk) (xc_updated_at ctx))
       in and_then (sink (imap_initial_snapshot_chunk_batch (lb_hex (ev_libs env)) discovery headers state) w)
            (\<lambda>_ w. stream_chunks env sink discovery ctx selected overall_highest seen chunks w))"

definition stream_initial_mailbox_snapshot ::
  "'n ImapEnv \<Rightarrow> 'n sink \<Rightarrow> DiscoveredImapAccount \<Rightarrow> MailboxPlanExecutionContext \<Rightarrow> PlannedImapMailbox \<Rightarrow>
   'n \<times> SyncDb \<Rightarrow> (unit, 'n) gateway_result" where
  "stream_initial_mailbox_snapshot env sink discovery ctx mailbox w =
     (let after_uid = (case Option.bind (pl_stored_state mailbox) is_partial_initial_uid of
            Some uid \<Rightarrow> uid | None \<Rightarrow> 0)
      in and_then (on_net (search_undeleted_uids (ev_client env) (lb_hex (ev_libs env)) (pl_name mailbox)) w)
           (\<lambda>(selected, all_uids) w.
             let overall_highest = list_max all_uids;
                 pending = uids_above all_uids after_uid
             in and_then (stream_chunks env sink discovery ctx selected overall_highest None
                   (chunks_of INITIAL_SNAPSHOT_CHUNK_SIZE pending) w)
                  (\<lambda>_ w. if pending = []
                     then sink (imap_initial_snapshot_chunk_batch (lb_hex (ev_libs env)) discovery []
                            (finalized_state selected overall_highest None (xc_updated_at ctx))) w
                     else (Inr (), w))))"

fun stream_each ::
  "'n ImapEnv \<Rightarrow> 'n sink \<Rightarrow> DiscoveredImapAccount \<Rightarrow> MailboxPlanExecutionContext \<Rightarrow> PlannedImapMailbox list \<Rightarrow>
   'n \<times> SyncDb \<Rightarrow> (unit, 'n) gateway_result" where
  "stream_each env sink discovery ctx [] w = (Inr (), w)"
| "stream_each env sink discovery ctx (mailbox # mailboxes) w =
     and_then (stream_initial_mailbox_snapshot env sink discovery ctx mailbox w)
       (\<lambda>_ w. stream_each env sink discovery ctx mailboxes w)"

text \<open>Every outcome of the streamed cycle is a single batch outcome; it carries no reconciliation.\<close>

definition sync_imap_account_streamed ::
  "'n ImapEnv \<Rightarrow> 'n sink \<Rightarrow> str \<Rightarrow> 'n \<times> SyncDb \<Rightarrow> (unit, 'n) gateway_result" where
  "sync_imap_account_streamed env sink account_id w =
     and_then (prepare_planned_sync env account_id w) (\<lambda>prepared w.
       let discovery = ps_discovery prepared; ctx = ps_context prepared;
           initial = filter is_streaming_initial_snapshot (ps_planned_mailboxes prepared);
           rest = filter (\<lambda>m. \<not> is_streaming_initial_snapshot m) (ps_planned_mailboxes prepared)
       in if initial = []
          then and_then (execute_into_batch env discovery ctx (xc_account_full_message_snapshot ctx \<or>
                   planned_mailboxes_include_full_snapshot rest) rest w) (\<lambda>batch w. sink batch w)
          else and_then (sink (imap_mailbox_sync_batch (lb_hex (ev_libs env)) discovery (xc_updated_at ctx)) w)
                 (\<lambda>_ w. and_then (stream_each env sink discovery ctx initial w) (\<lambda>_ w.
                    if rest = [] then (Inr (), w)
                    else and_then (execute_into_batch env discovery ctx
                             (planned_mailboxes_include_full_snapshot rest) rest w)
                           (\<lambda>batch w. sink (batch\<lparr>ib_mailboxes := [], ib_replace_all_mailboxes := False\<rparr>) w))))"

subsection \<open>Mailbox names and mutations\<close>

definition mailbox_name_for_id ::
  "'n ImapEnv \<Rightarrow> str \<Rightarrow> str \<Rightarrow> 'n \<times> SyncDb \<Rightarrow> (gfault, str) result" where
  "mailbox_name_for_id env account_id mailbox_id w =
     (if \<not> ev_has_store env then Inl (unsupported (L ''mailbox name lookup''))
      else (case get_imap_mailbox_state account_id mailbox_id (snd w) of
        Some state \<Rightarrow> Inr (is_mailbox_name state)
      | None \<Rightarrow>
          (case List.find (\<lambda>mailbox. dm_id mailbox = mailbox_id) (da_mailboxes (ev_discovery env)) of
             Some mailbox \<Rightarrow> Inr (dm_name mailbox)
           | None \<Rightarrow> Inl (GwFailed (Rejected (L ''missing IMAP mailbox name for '' @ mailbox_id))))))"

definition locations_of ::
  "'n ImapEnv \<Rightarrow> str \<Rightarrow> str \<Rightarrow> str \<Rightarrow> 'n \<times> SyncDb \<Rightarrow> (gfault, ImapMessageLocation list) result" where
  "locations_of env operation account_id message_id w =
     (if \<not> ev_has_store env then Inl (unsupported operation)
      else Inr (list_imap_message_locations account_id message_id (snd w)))"

definition missing_location_fault :: "str \<Rightarrow> gfault" where
  "missing_location_fault message_id = GwFailed (Rejected (L ''missing IMAP location for message '' @ message_id))"

definition location_and_mailbox_name ::
  "'n ImapEnv \<Rightarrow> str \<Rightarrow> str \<Rightarrow> 'n \<times> SyncDb \<Rightarrow> (gfault, ImapMessageLocation \<times> str) result" where
  "location_and_mailbox_name env account_id message_id w =
     (case locations_of env (L ''message location lookup'') account_id message_id w of
        Inl e \<Rightarrow> Inl e
      | Inr [] \<Rightarrow> Inl (missing_location_fault message_id)
      | Inr (location # _) \<Rightarrow>
          (case mailbox_name_for_id env account_id (il_mailbox_id location) w of
             Inl e \<Rightarrow> Inl e | Inr name \<Rightarrow> Inr (location, name)))"

definition simple_imap_move_mailboxes ::
  "ImapCapabilities \<Rightarrow> ImapMailboxReplacementDelta \<Rightarrow> (str \<times> str) option" where
  "simple_imap_move_mailboxes capabilities change =
     (if plan_imap_move capabilities = CopyDeleteThenResync then None
      else (case (rd_remove change, rd_add change) of
        ([source], [target]) \<Rightarrow> Some (source, target) | _ \<Rightarrow> None))"

text \<open>A UID that is gone already counts as removed.\<close>

definition uid_already_gone :: "fault \<Rightarrow> bool" where
  "uid_already_gone f = (case f of Failed (MissingFetchData _) \<Rightarrow> True | _ \<Rightarrow> False)"

definition remove_imap_message_from_mailbox ::
  "'n ImapEnv \<Rightarrow> str \<Rightarrow> ImapMessageLocation \<Rightarrow> 'n \<times> SyncDb \<Rightarrow> (unit, 'n) gateway_result" where
  "remove_imap_message_from_mailbox env mailbox_name location w =
     (let hex = lb_hex (ev_libs env);
          act = (if supports_uidplus (da_capabilities (ev_discovery env))
                 then expunge_imap_message_by_location (ev_client env) hex mailbox_name location
                 else mark_imap_message_deleted_by_location (ev_client env) hex mailbox_name location)
      in case act (fst w) of
           (Inr _, n) \<Rightarrow> (Inr (), (n, snd w))
         | (Inl f, n) \<Rightarrow> (if uid_already_gone f then Inr () else Inl (gateway_fault f), (n, snd w)))"

definition find_location :: "str \<Rightarrow> ImapMessageLocation list \<Rightarrow> (gfault, ImapMessageLocation) result" where
  "find_location mailbox_id locations =
     (case List.find (\<lambda>l. il_mailbox_id l = mailbox_id) locations of
        Some l \<Rightarrow> Inr l | None \<Rightarrow> Inl (gateway_fault (Failed (MissingMessageLocation mailbox_id))))"

fun copy_to_each ::
  "'n ImapEnv \<Rightarrow> str \<Rightarrow> str \<Rightarrow> ImapMessageLocation \<Rightarrow> str list \<Rightarrow> 'n \<times> SyncDb \<Rightarrow> (unit, 'n) gateway_result" where
  "copy_to_each env account_id source_name source [] w = (Inr (), w)"
| "copy_to_each env account_id source_name source (mailbox_id # ids) w =
     (case mailbox_name_for_id env account_id mailbox_id w of
        Inl e \<Rightarrow> (Inl e, w)
      | Inr target_name \<Rightarrow>
          and_then (on_net (copy_imap_message_to_mailbox_by_location (ev_client env) (lb_hex (ev_libs env))
              source_name source target_name) w)
            (\<lambda>_ w. copy_to_each env account_id source_name source ids w))"

fun remove_from_each ::
  "'n ImapEnv \<Rightarrow> str \<Rightarrow> ImapMessageLocation list \<Rightarrow> str list \<Rightarrow> 'n \<times> SyncDb \<Rightarrow> (unit, 'n) gateway_result" where
  "remove_from_each env account_id locations [] w = (Inr (), w)"
| "remove_from_each env account_id locations (mailbox_id # ids) w =
     (case find_location mailbox_id locations of
        Inl e \<Rightarrow> (Inl e, w)
      | Inr location \<Rightarrow>
          (case mailbox_name_for_id env account_id mailbox_id w of
             Inl e \<Rightarrow> (Inl e, w)
           | Inr mailbox_name \<Rightarrow>
               and_then (remove_imap_message_from_mailbox env mailbox_name location w)
                 (\<lambda>_ w. remove_from_each env account_id locations ids w)))"

definition replace_message_mailboxes ::
  "'n ImapEnv \<Rightarrow> str \<Rightarrow> str \<Rightarrow> str list \<Rightarrow> 'n \<times> SyncDb \<Rightarrow> (unit, 'n) gateway_result" where
  "replace_message_mailboxes env account_id message_id mailbox_ids w =
     (case locations_of env (L ''mailbox replacement state lookup'') account_id message_id w of
        Inl e \<Rightarrow> (Inl e, w)
      | Inr locations \<Rightarrow>
         (let change = imap_mailbox_replacement_delta (map il_mailbox_id locations) mailbox_ids
          in case simple_imap_move_mailboxes (da_capabilities (ev_discovery env)) change of
            Some (source_id, target_id) \<Rightarrow>
              (case find_location source_id locations of Inl e \<Rightarrow> (Inl e, w) | Inr source \<Rightarrow>
              (case mailbox_name_for_id env account_id source_id w of Inl e \<Rightarrow> (Inl e, w) | Inr source_name \<Rightarrow>
              (case mailbox_name_for_id env account_id target_id w of Inl e \<Rightarrow> (Inl e, w) | Inr target_name \<Rightarrow>
                 on_net (move_imap_message_to_mailbox_by_location (ev_client env) (lb_hex (ev_libs env))
                   source_name source target_name) w)))
          | None \<Rightarrow> (case locations of
              [] \<Rightarrow> (Inl (missing_location_fault message_id), w)
            | source # _ \<Rightarrow>
               (case mailbox_name_for_id env account_id (il_mailbox_id source) w of
                  Inl e \<Rightarrow> (Inl e, w)
                | Inr source_name \<Rightarrow>
                    and_then (copy_to_each env account_id source_name source (rd_add change) w)
                      (\<lambda>_ w. remove_from_each env account_id locations (rd_remove change) w)))))"

text \<open>Removing a list of locations, each from its own mailbox.\<close>

fun remove_each ::
  "'n ImapEnv \<Rightarrow> str \<Rightarrow> ImapMessageLocation list \<Rightarrow> 'n \<times> SyncDb \<Rightarrow> (unit, 'n) gateway_result" where
  "remove_each env account_id [] w = (Inr (), w)"
| "remove_each env account_id (location # locations) w =
     (case mailbox_name_for_id env account_id (il_mailbox_id location) w of
        Inl e \<Rightarrow> (Inl e, w)
      | Inr mailbox_name \<Rightarrow>
          and_then (remove_imap_message_from_mailbox env mailbox_name location w)
            (\<lambda>_ w. remove_each env account_id locations w))"

definition destroy_message_by_imap ::
  "'n ImapEnv \<Rightarrow> str \<Rightarrow> str \<Rightarrow> 'n \<times> SyncDb \<Rightarrow> (unit, 'n) gateway_result" where
  "destroy_message_by_imap env account_id message_id w =
     (case locations_of env (L ''message deletion state lookup'') account_id message_id w of
        Inl e \<Rightarrow> (Inl e, w)
      | Inr [] \<Rightarrow> (Inl (missing_location_fault message_id), w)
      | Inr locations \<Rightarrow> remove_each env account_id locations w)"

definition imap_set_keywords ::
  "'n ImapEnv \<Rightarrow> str \<Rightarrow> str \<Rightarrow> SetKeywordsCommand \<Rightarrow> 'n \<times> SyncDb \<Rightarrow> (unit, 'n) gateway_result" where
  "imap_set_keywords env account_id message_id command w =
     (case location_and_mailbox_name env account_id message_id w of
        Inl e \<Rightarrow> (Inl e, w)
      | Inr (location, mailbox_name) \<Rightarrow>
          on_net (apply_imap_keyword_delta_by_location (ev_client env) (ev_libs env) mailbox_name location
            command) w)"

definition imap_set_mailbox_role ::
  "'n ImapEnv \<Rightarrow> str \<Rightarrow> str \<Rightarrow> str option \<Rightarrow> str option \<Rightarrow> 'n \<times> SyncDb \<Rightarrow> (unit, 'n) gateway_result" where
  "imap_set_mailbox_role env account_id mailbox_id role clear_role_from w =
     (if \<not> ev_has_store env then (Inl (unsupported (L ''mailbox role override'')), w)
      else (case set_mailbox_role_override account_id mailbox_id role clear_role_from (snd w) of
        (Inl e, db) \<Rightarrow> (Inl (GwFailed (store_error_to_gateway e)), (fst w, db))
      | (Inr _, db) \<Rightarrow> (Inr (), (fst w, db))))"

definition imap_create_mailbox :: "'n ImapEnv \<Rightarrow> str \<Rightarrow> 'n \<times> SyncDb \<Rightarrow> (str, 'n) gateway_result" where
  "imap_create_mailbox env name w =
     and_then (on_net (create_imap_mailbox (ev_client env) name) w)
       (\<lambda>_ w. (Inr (imap_mailbox_id (lb_hex (ev_libs env)) name), w))"

definition imap_rename_mailbox :: "(gfault, unit) result" where
  "imap_rename_mailbox =
     Inl (GwFailed (Rejected (L ''renaming mailboxes is not supported on IMAP accounts'')))"

definition imap_destroy_mailbox :: "'n ImapEnv \<Rightarrow> str \<Rightarrow> str \<Rightarrow> 'n \<times> SyncDb \<Rightarrow> (unit, 'n) gateway_result" where
  "imap_destroy_mailbox env account_id mailbox_id w =
     (case mailbox_name_for_id env account_id mailbox_id w of
        Inl e \<Rightarrow> (Inl e, w)
      | Inr name \<Rightarrow> on_net (delete_imap_mailbox (ev_client env) name) w)"

subsection \<open>Drafts\<close>

definition drafts_mailbox :: "'n ImapEnv \<Rightarrow> (gfault, DiscoveredImapMailbox) result" where
  "drafts_mailbox env =
     (case List.find (\<lambda>m. dm_selectable m \<and> dm_role m = Some (L ''drafts'')) (da_mailboxes (ev_discovery env)) of
        Some m \<Rightarrow> Inr m
      | None \<Rightarrow> Inl (GwFailed (Rejected (L ''no selectable IMAP Drafts mailbox was discovered''))))"

definition DRAFT_ID_HEADER :: str where
  "DRAFT_ID_HEADER = L ''X-Posthaste-Draft-Id''"

definition stamp_draft_id :: "SendMessageRequest \<Rightarrow> nat list \<Rightarrow> nat list" where
  "stamp_draft_id request raw_message = (case rq_draft_id request of
     None \<Rightarrow> raw_message
   | Some draft_id \<Rightarrow>
       if trim draft_id = [] then raw_message
       else as_bytes (DRAFT_ID_HEADER @ L '': '' @ trim draft_id @ [13, 10]) @ raw_message)"

text \<open>Strings back from their bytes (\<open>String::from_utf8\<close>): one well-formed character at a time.\<close>

definition scalar_value :: "nat \<Rightarrow> bool" where
  "scalar_value c \<longleftrightarrow> c < 55296 \<or> (57344 \<le> c \<and> c < 1114112)"

lemma utf8_char_nonempty: "0 < length (utf8_char c)"
  by (simp add: utf8_char_def)

function utf8_decode :: "nat list \<Rightarrow> str option" where
  "utf8_decode [] = Some []"
| "utf8_decode (b # bytes) = (case utf8_uncons (b # bytes) of
     None \<Rightarrow> None
   | Some (c, rest) \<Rightarrow>
       if scalar_value c \<and> b # bytes = utf8_char c @ rest
       then map_option ((#) c) (utf8_decode rest) else None)"
  by pat_completeness auto

termination
proof (relation "measure length")
  fix b bytes x c rest
  assume "scalar_value c \<and> b # bytes = utf8_char c @ rest"
  then have "length (b # bytes) = length (utf8_char c) + length rest" by simp
  with utf8_char_nonempty [of c] show "(rest, b # bytes) \<in> measure length" by simp
qed simp

text \<open>\<open>str::parse::<u32>\<close>: an optional plus sign, then digits, within the range.\<close>

definition parse_u32 :: "str \<Rightarrow> 32 word option" where
  "parse_u32 s =
     (let ds = (case s of c # rest \<Rightarrow> if c = 43 then rest else s | [] \<Rightarrow> [])
      in if ds = [] \<or> \<not> list_all (\<lambda>c. 48 \<le> c \<and> c \<le> 57) ds \<or> digits_value ds \<ge> 2 ^ 32 then None
         else Some (word_of_int (digits_value ds)))"

text \<open>\<open>unhex\<close> is the decoder of the hex crate.\<close>

definition decode_imap_message_location ::
  "(str \<Rightarrow> nat list option) \<Rightarrow> str \<Rightarrow> ImapMessageLocation option" where
  "decode_imap_message_location unhex message_id =
     (if \<not> starts_with message_id (L ''imap:'') then None
      else (case split_once 58 (drop 5 message_id) of
        None \<Rightarrow> None
      | Some (validity, rest) \<Rightarrow>
         (case (parse_u32 validity, split_once 58 rest) of
            (Some uid_validity, Some (uid_part, encoded)) \<Rightarrow>
              (case (parse_u32 uid_part, Option.bind (unhex encoded) utf8_decode) of
                 (Some uid, Some mailbox_id) \<Rightarrow> Some \<lparr>il_message_id = message_id, il_mailbox_id = mailbox_id, il_uid_validity = uid_validity,
                      il_uid = uid, il_modseq = None, il_updated_at = RFC3339_EPOCH\<rparr>
               | _ \<Rightarrow> None)
          | _ \<Rightarrow> None)))"

definition delete_imap_draft ::
  "'n ImapEnv \<Rightarrow> (str \<Rightarrow> nat list option) \<Rightarrow> str \<Rightarrow> str \<Rightarrow> 'n \<times> SyncDb \<Rightarrow> (unit, 'n) gateway_result" where
  "delete_imap_draft env unhex account_id message_id w =
     (let locations = (if ev_has_store env then list_imap_message_locations account_id message_id (snd w) else [])
      in if locations \<noteq> [] then remove_each env account_id locations w
         else (case decode_imap_message_location unhex message_id of
           None \<Rightarrow> (Inr (), w)
         | Some location \<Rightarrow>
            (case List.find (\<lambda>m. dm_id m = il_mailbox_id location) (da_mailboxes (ev_discovery env)) of
               None \<Rightarrow> (Inl (GwFailed (Rejected (L ''unknown IMAP mailbox for draft '' @ message_id @ L '' deletion''))), w)
             | Some mailbox \<Rightarrow> remove_imap_message_from_mailbox env (dm_name mailbox) location w)))"

definition register_saved_draft_location ::
  "'n ImapEnv \<Rightarrow> ImapSelectedMailbox \<Rightarrow> str \<Rightarrow> ImapUid \<Rightarrow> str \<Rightarrow> 'n \<times> SyncDb \<Rightarrow> (str, 'n) gateway_result" where
  "register_saved_draft_location env selected account_id uid uid_fallback_id w =
     (if \<not> ev_has_store env then (Inr uid_fallback_id, w)
      else (case ev_now env of
        Inl message \<Rightarrow> (Inl (GwFailed (Rejected message)), w)
      | Inr updated_at \<Rightarrow>
         (let capabilities = da_capabilities (ev_discovery env)
          in and_then (on_net (fetch_selected_mailbox_headers (ev_client env) (ev_libs env) selected [uid]
                 (supports_condstore capabilities) (supports_gmail_extensions capabilities) updated_at) w)
               (\<lambda>headers w.
                 case List.find (\<lambda>h. il_uid (mh_location h) = uid)
                        (project_imap_headers (lb_hex (ev_libs env)) (ev_discovery env) headers) of
                   None \<Rightarrow> (Inr uid_fallback_id, w)
                 | Some header \<Rightarrow> (Inr (il_message_id (mh_location header)),
                     (fst w, put_imap_message_location account_id (mh_location header) (snd w)))))))"

text \<open>\<open>build\<close> renders the request into an RFC 5322 message (\<open>smtp/message.rs\<close>, the lettre crate).\<close>

definition save_imap_draft ::
  "'n ImapEnv \<Rightarrow> (str \<Rightarrow> nat list option) \<Rightarrow> (SendMessageRequest \<Rightarrow> (ImapAdapterError, nat list) result) \<Rightarrow>
   str \<Rightarrow> SendMessageRequest \<Rightarrow> str option \<Rightarrow> 'n \<times> SyncDb \<Rightarrow> (str, 'n) gateway_result" where
  "save_imap_draft env unhex build account_id request replaced w =
     (case drafts_mailbox env of Inl e \<Rightarrow> (Inl e, w) | Inr drafts \<Rightarrow>
     (case build request of Inl e \<Rightarrow> (Inl (gateway_fault (Failed e)), w) | Inr raw_message \<Rightarrow>
      and_then (on_net (examine_selected_mailbox (ev_client env) (lb_hex (ev_libs env)) (dm_name drafts)) w)
        (\<lambda>selected w.
      and_then (on_net (\<lambda>n. with_deadline (L ''append'') (cl_append (ev_client env) (dm_name drafts) [FlDraft]
          (stamp_draft_id request raw_message) n)) w) (\<lambda>appended w.
      case appended of
        None \<Rightarrow> (Inl (GwFailed (Rejected (L ''IMAP APPEND did not yield a draft UID''))), w)
      | Some uid \<Rightarrow>
          and_then (register_saved_draft_location env selected account_id uid
              (imap_message_id (dm_id drafts) (se_uid_validity selected) uid) w) (\<lambda>new_message_id w.
            and_then (case replaced of Some old \<Rightarrow> delete_imap_draft env unhex account_id old w
                      | None \<Rightarrow> (Inr (), w))
              (\<lambda>_ w. (Inr new_message_id, w)))))))"

end
