(* ===== verification/ImapStream.thy ===== *)
theory ImapStream
  imports ImapSync
begin

text \<open>
  The streamed initial snapshot of ImapSync. An interrupted run keeps every message it committed, its
  checkpoint never runs ahead of the committed prefix, and a run that succeeds has every listed message
  in the store; what a resumed run does not look at again. The server and the sink are parameters: what
  they promise are the two predicates \<open>answers_uid_fetch\<close> and \<open>store_sink\<close>, which an example server meets.
\<close>

subsection \<open>Chunks\<close>

lemma concat_chunks_of [simp]: "concat (chunks_of n xs) = xs"
  by (induction n xs rule: chunks_of.induct) simp_all

lemma chunks_of_nonempty: "[] \<notin> set (chunks_of n xs)"
  by (induction n xs rule: chunks_of.induct) simp_all

lemma chunks_of_Nil_iff [simp]: "chunks_of n xs = [] \<longleftrightarrow> xs = []"
  by (cases xs) simp_all

lemma chunks_of_length: "0 < n \<Longrightarrow> c \<in> set (chunks_of n xs) \<Longrightarrow> length c \<le> n"
  by (induction n xs rule: chunks_of.induct) auto

lemma fold_max_option:
  "fold (\<lambda>x acc. max_option acc x) xs (Some m) = Some (fold max xs m)"
  by (induction xs arbitrary: m) (simp_all add: max_option_def max.commute)

lemma list_max_Max: "list_max xs = (if xs = [] then None else Some (Max (set xs)))"
proof (cases xs)
  case (Cons y ys)
  then have "list_max xs = fold (\<lambda>x acc. max_option acc x) ys (Some y)"
    by (simp add: list_max_def max_option_def)
  then show ?thesis using Cons by (simp only: fold_max_option Max.set_eq_fold) simp
qed (simp add: list_max_def)

subsection \<open>Chunk commits\<close>

text \<open>The batch of one chunk only adds: rows, coordinates and the new state of the mailbox.\<close>

lemma chunk_batch_apply:
  fixes hex discovery headers
  defines "pj \<equiv> messages_and_locations_for_batch hex discovery headers"
  shows "sd_locations (apply_imap_sync_batch a (imap_initial_snapshot_chunk_batch hex discovery headers state) db) =
      sd_locations (fold (put_imap_message_location a) (pj_locations pj) db)"
    and "sd_states (apply_imap_sync_batch a (imap_initial_snapshot_chunk_batch hex discovery headers state) db) =
      AList.update (a, is_mailbox_id state) state (sd_states db)"
    and "local_ids a (apply_imap_sync_batch a (imap_initial_snapshot_chunk_batch hex discovery headers state) db) =
      mr_id ` set (pj_messages pj) \<union> local_ids a db"
    and "sd_mail (apply_imap_sync_batch a (imap_initial_snapshot_chunk_batch hex discovery headers state) db) =
      fold (apply_and_write_through a) (pj_messages pj) (sd_mail db)"
proof -
  let ?b = "imap_initial_snapshot_chunk_batch hex discovery headers state"
  have b: "\<not> sb_replace_all_messages ?b" "\<not> ib_replace_all_mailboxes ?b" "ib_mailboxes ?b = []"
    "sb_cursors ?b = []" "sb_messages ?b = pj_messages pj" "ib_message_locations ?b = pj_locations pj"
    "ib_mailbox_states ?b = [state]"
    by (simp_all add: imap_initial_snapshot_chunk_batch_def Let_def pj_def)
  have "batch_removals a ?b db = db"
    by (simp add: batch_removals_def batch_deleted_def imap_initial_snapshot_chunk_batch_def Let_def
        bt_collect_def)
  then have *: "apply_imap_sync_batch a ?b db = batch_additions a ?b db"
    by (simp add: apply_batch_split b)
  have states: "sd_states (fold (\<lambda>m. with_mail (g m)) ms db) = sd_states db" 
    "sd_states (fold (put_imap_message_location a) ls db) = sd_states db" for g ms ls db
    by (induction ms arbitrary: db; induction ls arbitrary: db; simp add: sync_db_simps)+
  have locs: "sd_locations (fold (put_imap_message_location a) ls db1) =
      sd_locations (fold (put_imap_message_location a) ls db2)"
    if "sd_locations db1 = sd_locations db2" for ls db1 db2
    using that by (induction ls arbitrary: db1 db2) (simp_all add: put_imap_message_location_def)
  show "sd_states (apply_imap_sync_batch a ?b db) = AList.update (a, is_mailbox_id state) state (sd_states db)"
    by (simp add: * batch_additions_def b put_imap_mailbox_state_def states)
  show "sd_locations (apply_imap_sync_batch a ?b db) = sd_locations (fold (put_imap_message_location a) (pj_locations pj) db)"
    unfolding * batch_additions_def b by (simp add: sync_db_simps, rule locs) (simp add: sync_db_simps)
  show "local_ids a (apply_imap_sync_batch a ?b db) = mr_id ` set (pj_messages pj) \<union> local_ids a db"
    by (simp add: * additions_ids b)
  show "sd_mail (apply_imap_sync_batch a ?b db) = fold (apply_and_write_through a) (pj_messages pj) (sd_mail db)"
    by (simp add: * batch_additions_def b sync_db_simps)
qed

lemma apply_other_rows:
  "m \<notin> mr_id ` set rs \<Longrightarrow>
   map_of (db_base (fold (apply_and_write_through a) rs mail)) (a, m) = map_of (db_base mail) (a, m)"
  by (induction rs arbitrary: mail) (auto simp: apply_and_write_through_def registry_on_upsert_def
      apply_message_record_def Let_def update_conv split: option.splits)

lemma put_locations_lookup:
  "map_of (sd_locations (fold (put_imap_message_location a) ls db)) k =
     (case List.find (\<lambda>l. (a, il_message_id l, il_mailbox_id l) = k) (rev ls) of
        Some l \<Rightarrow> Some l | None \<Rightarrow> map_of (sd_locations db) k)"
proof (induction ls arbitrary: db)
  case (Cons l ls)
  have "List.find P (xs @ [x]) = (case List.find P xs of Some y \<Rightarrow> Some y | None \<Rightarrow> if P x then Some x else None)"
    for P :: "ImapMessageLocation \<Rightarrow> bool" and xs x by (induction xs) simp_all
  with Cons show ?case
    by (auto simp: put_imap_message_location_def update_conv split: option.splits)
qed simp

text \<open>A header of the selected mailbox as a plain server yields it: the id is built from the UID.\<close>

definition plain_header :: "ImapSelectedMailbox \<Rightarrow> ImapMappedHeader \<Rightarrow> bool" where
  "plain_header sel h \<longleftrightarrow> consistent h \<and> mh_source h = SelectedMailbox \<and>
     il_mailbox_id (mh_location h) = se_mailbox_id sel \<and> il_uid_validity (mh_location h) = se_uid_validity sel \<and>
     il_message_id (mh_location h) =
       imap_message_id (se_mailbox_id sel) (se_uid_validity sel) (il_uid (mh_location h))"

lemma imap_message_id_uid [simp]: "imap_message_id m v u = imap_message_id m v u' \<longleftrightarrow> u = u'"
proof
  assume "imap_message_id m v u = imap_message_id m v u'"
  then have "show_nat (unat u) @ 58 # hex_encode (as_bytes m) = show_nat (unat u') @ 58 # hex_encode (as_bytes m)"
    by (simp add: imap_message_id_def)
  from colon_splits [OF show_nat_colon show_nat_colon this] show "u = u'" by (simp add: word_unat_eq_iff)
qed simp

text \<open>A message of the listing is in the store: its row, and its coordinate in this mailbox and epoch.\<close>

definition committed :: "str \<Rightarrow> ImapSelectedMailbox \<Rightarrow> ImapUid \<Rightarrow> SyncDb \<Rightarrow> bool" where
  "committed a sel u db \<longleftrightarrow>
     imap_message_id (se_mailbox_id sel) (se_uid_validity sel) u \<in> local_message_ids a (sd_mail db) \<and>
     (case map_of (sd_locations db)
             (a, imap_message_id (se_mailbox_id sel) (se_uid_validity sel) u, se_mailbox_id sel) of
        Some l \<Rightarrow> il_uid l = u \<and> il_uid_validity l = se_uid_validity sel | None \<Rightarrow> False)"

lemma plain_chunk:
  assumes plain: "\<not> canonicalizes_by_gmail_message_id (pp_imap (provider_profile discovery))"
      "\<not> canonicalizes_by_rfc5322_message_id (pp_imap (provider_profile discovery))"
    and headers: "\<forall>h \<in> set headers. plain_header sel h"
  defines "pj \<equiv> \<lambda>hex. messages_and_locations_for_batch hex discovery headers"
  shows "pj_locations (pj hex) = map mh_location headers"
    and "imap_message_id (se_mailbox_id sel) (se_uid_validity sel) u \<in> mr_id ` set (pj_messages (pj hex))
      \<longleftrightarrow> u \<in> set (header_uids headers)"
proof -
  show locs: "pj_locations (pj hex) = map mh_location headers"
    using plain_headers_absent(2) [OF plain] headers by (simp add: plain_header_def pj_def)
  show "imap_message_id (se_mailbox_id sel) (se_uid_validity sel) u \<in> mr_id ` set (pj_messages (pj hex))
      \<longleftrightarrow> u \<in> set (header_uids headers)"
    using projected_messages(2) [OF projected_consistent, of headers
        "imap_message_id (se_mailbox_id sel) (se_uid_validity sel) u" hex discovery] headers
    by (auto simp: list_all_iff plain_header_def has_location_def messages_and_locations_for_batch_def pj_def
        locs [unfolded messages_and_locations_for_batch_def pj_def] header_uids_def)
qed

lemma chunk_committed:
  assumes plain: "\<not> canonicalizes_by_gmail_message_id (pp_imap (provider_profile discovery))"
      "\<not> canonicalizes_by_rfc5322_message_id (pp_imap (provider_profile discovery))"
    and headers: "\<forall>h \<in> set headers. plain_header sel h"
  shows "committed a sel u (apply_imap_sync_batch a (imap_initial_snapshot_chunk_batch hex discovery headers state) db)
    \<longleftrightarrow> u \<in> set (header_uids headers) \<or> committed a sel u db"
proof -
  let ?k = "\<lambda>u. imap_message_id (se_mailbox_id sel) (se_uid_validity sel) u"
  have found: "List.find (\<lambda>l. (a, il_message_id l, il_mailbox_id l) = (a, ?k u, se_mailbox_id sel))
        (rev (map mh_location headers)) = Some l \<Longrightarrow> il_uid l = u \<and> il_uid_validity l = se_uid_validity sel" for l
    using headers by (auto simp: find_Some_iff plain_header_def rev_nth)
  have none: "List.find (\<lambda>l. (a, il_message_id l, il_mailbox_id l) = (a, ?k u, se_mailbox_id sel))
        (rev (map mh_location headers)) = None \<longleftrightarrow> u \<notin> set (header_uids headers)"
    using headers by (auto simp: find_None_iff plain_header_def header_uids_def)
  show ?thesis
    unfolding committed_def chunk_batch_apply plain_chunk(1) [OF assms] put_locations_lookup
    using found none plain_chunk(2) [OF assms, where hex = hex] by (auto split: option.splits)
qed

text \<open>The row and the coordinate of a message are the same in two states of the tables.\<close>

definition untouched :: "str \<Rightarrow> ImapSelectedMailbox \<Rightarrow> ImapUid \<Rightarrow> SyncDb \<Rightarrow> SyncDb \<Rightarrow> bool" where
  "untouched a sel u db db' \<longleftrightarrow>
     (let m = imap_message_id (se_mailbox_id sel) (se_uid_validity sel) u
      in map_of (db_base (sd_mail db')) (a, m) = map_of (db_base (sd_mail db)) (a, m) \<and>
         map_of (sd_locations db') (a, m, se_mailbox_id sel) = map_of (sd_locations db) (a, m, se_mailbox_id sel))"

lemma untouched_trans: "untouched a sel u db db' \<Longrightarrow> untouched a sel u db' db'' \<Longrightarrow> untouched a sel u db db''"
  and untouched_same: "untouched a sel u db db"
  by (simp_all add: untouched_def Let_def)

lemma chunk_untouched:
  assumes plain: "\<not> canonicalizes_by_gmail_message_id (pp_imap (provider_profile discovery))"
      "\<not> canonicalizes_by_rfc5322_message_id (pp_imap (provider_profile discovery))"
    and headers: "\<forall>h \<in> set headers. plain_header sel h" and u: "u \<notin> set (header_uids headers)"
  shows "untouched a sel u db (apply_imap_sync_batch a (imap_initial_snapshot_chunk_batch hex discovery headers state) db)"
proof -
  let ?m = "imap_message_id (se_mailbox_id sel) (se_uid_validity sel) u"
  have "List.find (\<lambda>l. (a, il_message_id l, il_mailbox_id l) = (a, ?m, se_mailbox_id sel))
      (rev (map mh_location headers)) = None"
    using headers u by (auto simp: find_None_iff plain_header_def header_uids_def)
  moreover have "?m \<notin> mr_id ` set (pj_messages (messages_and_locations_for_batch hex discovery headers))"
    using plain_chunk(2) [OF plain headers] u by simp
  ultimately show ?thesis
    unfolding untouched_def Let_def chunk_batch_apply plain_chunk(1) [OF plain headers] put_locations_lookup
    by (simp add: apply_other_rows)
qed

subsection \<open>What the server and the sink promise\<close>

text \<open>
  UID FETCH (RFC 3501): a response describes one message, so it names one UID, and it holds items that
  were asked for. A UID that names no message is not an error, it is just not answered (6.4.8), so what
  a completed command promises is relative to the set \<open>H\<close> of messages that stay in the mailbox
  while it is read: those of \<open>H\<close> that were asked for are answered. Nothing is said of the others, which
  may be expunged at any time. A server may also report messages nobody asked for; \<open>answers_only_asked\<close>
  holds of one that does not.
\<close>

definition describes :: "MessageDataItemName list \<Rightarrow> MessageDataItem list \<Rightarrow> ImapUid \<Rightarrow> bool" where
  "describes names items u \<longleftrightarrow> (\<forall>item \<in> set items. case item of
     MdUid v \<Rightarrow> v = u | MdGmailMessageId _ \<Rightarrow> MnGmailMessageId \<in> set names | _ \<Rightarrow> True)"

definition answers_uid_fetch :: "ImapUid set \<Rightarrow> 'n ImapClient \<Rightarrow> bool" where
  "answers_uid_fetch H client \<longleftrightarrow>
     (\<forall>uids names n responses n'. cl_uid_fetch client uids names n = (WireDone responses, n') \<longrightarrow>
        (\<forall>items \<in> snd ` set responses. \<exists>u. describes names items u) \<and>
        (\<forall>u \<in> set uids \<inter> H. \<exists>items \<in> snd ` set responses. MdUid u \<in> set items))"

definition answers_only_asked :: "'n ImapClient \<Rightarrow> bool" where
  "answers_only_asked client \<longleftrightarrow>
     (\<forall>uids names n responses n'. cl_uid_fetch client uids names n = (WireDone responses, n') \<longrightarrow>
        (\<forall>items \<in> snd ` set responses. \<forall>u. MdUid u \<in> set items \<longrightarrow> u \<in> set uids))"

lemma describes_uid: "describes names items u \<Longrightarrow> MdUid v \<in> set items \<Longrightarrow> v = u"
  by (force simp: describes_def)

lemma describes_gmail: "describes names items u \<Longrightarrow> MdGmailMessageId g \<in> set items \<Longrightarrow> MnGmailMessageId \<in> set names"
  by (force simp: describes_def)

text \<open>The sink applies a batch in one transaction of the store, or fails and changes no table.\<close>

definition store_sink :: "str \<Rightarrow> 'n sink \<Rightarrow> bool" where
  "store_sink a sink \<longleftrightarrow> (\<forall>batch w. case sink batch w of
     (Inl _, w') \<Rightarrow> snd w' = snd w
   | (Inr _, w') \<Rightarrow> snd w' = apply_imap_sync_batch a batch (snd w))"

lemma store_sinkD:
  assumes "store_sink a sink"
  shows "sink batch w = (Inl e, w') \<Longrightarrow> snd w' = snd w"
    and "sink batch w = (Inr x, w') \<Longrightarrow> snd w' = apply_imap_sync_batch a batch (snd w)"
proof -
  from assms have *: "case sink batch w of (Inl _, w') \<Rightarrow> snd w' = snd w
      | (Inr _, w') \<Rightarrow> snd w' = apply_imap_sync_batch a batch (snd w)"
    unfolding store_sink_def by (elim allE [where x = batch] allE [where x = w])
  show "sink batch w = (Inl e, w') \<Longrightarrow> snd w' = snd w" using * by simp
  show "sink batch w = (Inr x, w') \<Longrightarrow> snd w' = apply_imap_sync_batch a batch (snd w)" using * by simp
qed

lemma with_deadline_Inr: "with_deadline operation r = (Inr x, w) \<longleftrightarrow> r = (WireDone x, w)"
  by (cases r; cases "fst r") (auto simp: with_deadline_def)

lemma collected_uid:
  "\<forall>v. MdUid v \<in> set items \<longrightarrow> v = u \<Longrightarrow> MdUid u \<in> set items \<or> fi_uid s = Some u \<Longrightarrow>
   fi_uid (fold (collect_item display) items s) = Some u"
proof (induction items arbitrary: s)
  case (Cons i items)
  then show ?case
    by (cases i) (auto simp: collect_item_def)
qed simp

lemma collected_gmail:
  "\<forall>g. MdGmailMessageId g \<notin> set items \<Longrightarrow>
   gm_message_id (fi_gmail (fold (collect_item display) items s)) = gm_message_id (fi_gmail s)"
proof (induction items arbitrary: s)
  case (Cons i items)
  then show ?case by (cases i) (auto simp: collect_item_def)
qed simp

lemma record_location:
  assumes "imap_header_message_record_with_gmail_metadata libs sel fetched gmail = Inr h"
    and "gm_message_id gmail = None" and "fh_mailbox_id fetched = se_mailbox_id sel"
  shows "plain_header sel h" and "il_uid (mh_location h) = fh_uid fetched"
proof -
  from assms(1,2) have loc: "mh_location h =
      \<lparr>il_message_id = imap_message_id (fh_mailbox_id fetched) (se_uid_validity sel) (fh_uid fetched),
       il_mailbox_id = fh_mailbox_id fetched, il_uid_validity = se_uid_validity sel, il_uid = fh_uid fetched,
       il_modseq = fh_modseq fetched, il_updated_at = fh_updated_at fetched\<rparr>"
    by (auto simp: imap_header_message_record_with_gmail_metadata_def Let_def split: option.splits)
  from assms(1,2) have "mh_source h = SelectedMailbox"
    by (auto simp: imap_header_message_record_with_gmail_metadata_def Let_def split: option.splits)
  then show "plain_header sel h" "il_uid (mh_location h) = fh_uid fetched"
    using loc assms(3) mapped_header_consistent [OF assms(1)] by (simp_all add: plain_header_def)
qed

lemma response_header:
  assumes "header_from_response libs sel updated_at items = Inr h"
    and "\<forall>g. MdGmailMessageId g \<notin> set items"
  shows "plain_header sel h"
    and "\<forall>v. MdUid v \<in> set items \<longrightarrow> v = u \<Longrightarrow> MdUid u \<in> set items \<Longrightarrow> il_uid (mh_location h) = u"
proof -
  let ?s = "collect_items (lb_flag_display libs) items"
  have gm: "gm_message_id (fi_gmail ?s) = None"
    using collected_gmail [OF assms(2)] by (simp add: collect_items_def gmail_metadata_default_def)
  from assms(1) obtain fetched where
    f: "fetched_header_from_items_with_metadata (lb_flag_display libs) sel items updated_at = Inr fetched"
    and h: "imap_header_message_record_with_gmail_metadata (ImapLibs.truncate libs) sel (fm_header fetched)
      (fm_gmail fetched) = Inr h"
    by (auto simp: header_from_response_def split: sum.splits)
  have fs: "fm_gmail fetched = fi_gmail ?s" "fh_mailbox_id (fm_header fetched) = se_mailbox_id sel"
    "Some (fh_uid (fm_header fetched)) = fi_uid ?s"
    using f by (auto simp: fetched_header_from_items_with_metadata_def Let_def split: option.splits)
  show "plain_header sel h" by (rule record_location(1) [OF h]) (simp_all add: fs gm)
  assume "\<forall>v. MdUid v \<in> set items \<longrightarrow> v = u" "MdUid u \<in> set items"
  then have "fi_uid ?s = Some u" unfolding collect_items_def by (intro collected_uid disjI1) blast+
  moreover have "il_uid (mh_location h) = fh_uid (fm_header fetched)"
    by (rule record_location(2) [OF h]) (simp_all add: fs gm)
  ultimately show "il_uid (mh_location h) = u" using fs(3) by simp
qed

lemma header_names_uid:
  assumes "header_from_response libs sel updated_at items = Inr h"
  shows "\<exists>v. MdUid v \<in> set items"
proof (rule ccontr)
  assume "\<nexists>v. MdUid v \<in> set items"
  then have "fi_uid (fold (collect_item display) items s) = fi_uid s" for display s
  proof (induction items arbitrary: s)
    case (Cons i items)
    then show ?case by (cases i) (auto simp: collect_item_def)
  qed simp
  then show False
    using assms by (auto simp: header_from_response_def fetched_header_from_items_with_metadata_def
        collect_items_def Let_def split: sum.splits option.splits)
qed

lemma sequence_mem: "sequence (map f xs) = Inr ys \<Longrightarrow> x \<in> set xs \<Longrightarrow> \<exists>y \<in> set ys. f x = Inr y"
  by (induction xs arbitrary: ys) (auto split: sum.splits)

lemma fetched_chunk:
  assumes law: "answers_uid_fetch H client"
    and ok: "fetch_header_chunk client libs sel chunk modseq False updated_at n = (Inr headers, n')"
  shows "\<forall>h \<in> set headers. plain_header sel h" and "set chunk \<inter> H \<subseteq> set (header_uids headers)"
    and "answers_only_asked client \<Longrightarrow> set (header_uids headers) \<subseteq> set chunk"
proof -
  from ok obtain responses where fetched: "cl_uid_fetch client chunk (fetch_item_names modseq False) n = (WireDone responses, n')"
    and seq: "sequence (map (header_from_response libs sel updated_at \<circ> snd) responses) = Inr headers"
    by (auto simp: fetch_header_chunk_def with_deadline_Inr split: if_splits elim!: and_then_InrE)
  let ?about = "\<lambda>items u. describes (fetch_item_names modseq False) items u"
  note responses = law [unfolded answers_uid_fetch_def, THEN spec, THEN spec, THEN spec, THEN spec, THEN spec,
    THEN mp, OF fetched]
  from responses have one: "\<forall>items \<in> snd ` set responses. \<exists>u. ?about items u"
    and all: "\<forall>u \<in> set chunk \<inter> H. \<exists>items \<in> snd ` set responses. MdUid u \<in> set items"
    by (rule conjunct1, rule conjunct2)
  have nogm: "\<forall>g. MdGmailMessageId g \<notin> set items" if "?about items u" for items u
    using describes_gmail [OF that] by (auto simp: fetch_item_names_def)
  have uid: "il_uid (mh_location h) = u \<and> MdUid u \<in> set items"
    if h: "header_from_response libs sel updated_at items = Inr h" and u: "?about items u" for items h u
  proof -
    obtain v where "MdUid v \<in> set items" using header_names_uid [OF h] by blast
    with describes_uid [OF u] have "MdUid u \<in> set items" by blast
    then show ?thesis using response_header(2) [OF h nogm [OF u]] describes_uid [OF u] by blast
  qed
  have source: "\<exists>items u. items \<in> snd ` set responses \<and>
      header_from_response libs sel updated_at items = Inr h \<and> ?about items u"
    if h: "h \<in> set headers" for h
  proof -
    from sequence_map_mem [OF seq h] obtain items where "items \<in> snd ` set responses"
      "header_from_response libs sel updated_at items = Inr h" by force
    with one show ?thesis by blast
  qed
  show "\<forall>h \<in> set headers. plain_header sel h"
    using source response_header(1) nogm by blast
  show "set chunk \<inter> H \<subseteq> set (header_uids headers)"
  proof
    fix u assume "u \<in> set chunk \<inter> H"
    with all obtain items where items: "items \<in> snd ` set responses" "MdUid u \<in> set items" by blast
    with one obtain u' where u': "?about items u'" by blast
    obtain h where h: "h \<in> set headers" "header_from_response libs sel updated_at items = Inr h"
      using sequence_mem [OF seq] items(1) by force
    with uid [OF h(2) u'] describes_uid [OF u' items(2)] show "u \<in> set (header_uids headers)"
      by (auto simp: header_uids_def)
  qed
  assume asked: "answers_only_asked client"
  show "set (header_uids headers) \<subseteq> set chunk"
  proof
    fix u assume "u \<in> set (header_uids headers)"
    then obtain h where h: "h \<in> set headers" "u = il_uid (mh_location h)" by (auto simp: header_uids_def)
    with source uid obtain items where "items \<in> snd ` set responses" "MdUid u \<in> set items" by metis
    with asked fetched show "u \<in> set chunk" unfolding answers_only_asked_def by blast
  qed
qed

subsection \<open>The streamed snapshot\<close>

text \<open>
  What a stored checkpoint promises about a listing \<open>U\<close> of the mailbox: every message up to the
  checkpoint is in the store, and every message when the snapshot is finalised.
\<close>

definition snapshot_ok :: "str \<Rightarrow> ImapSelectedMailbox \<Rightarrow> ImapUid set \<Rightarrow> SyncDb \<Rightarrow> bool" where
  "snapshot_ok a sel U db \<longleftrightarrow> (case get_imap_mailbox_state a (se_mailbox_id sel) db of
     None \<Rightarrow> True
   | Some st \<Rightarrow> is_uid_validity st = se_uid_validity sel \<longrightarrow>
       (\<forall>u \<in> U. (case is_partial_initial_uid st of Some p \<Rightarrow> u \<le> p | None \<Rightarrow> True) \<longrightarrow> committed a sel u db))"

definition snapshot_complete :: "str \<Rightarrow> ImapSelectedMailbox \<Rightarrow> ImapUid set \<Rightarrow> ImapUid option \<Rightarrow> SyncDb \<Rightarrow> bool" where
  "snapshot_complete a sel U highest db \<longleftrightarrow>
     (\<exists>seen updated_at. get_imap_mailbox_state a (se_mailbox_id sel) db =
        Some (finalized_state sel highest seen updated_at)) \<and>
     (\<forall>u \<in> U. committed a sel u db)"

lemma state_simps [simp]:
  "is_mailbox_id (finalized_state sel highest seen t) = se_mailbox_id sel"
  "is_uid_validity (finalized_state sel highest seen t) = se_uid_validity sel"
  "is_partial_initial_uid (finalized_state sel highest seen t) = None"
  "is_highest_uid (finalized_state sel highest seen t) = highest"
  "se_highest_modseq sel = Some m \<Longrightarrow> is_highest_modseq (finalized_state sel highest seen t) = Some m"
  "is_mailbox_id (partial_state sel p t) = se_mailbox_id sel"
  "is_uid_validity (partial_state sel p t) = se_uid_validity sel"
  "is_partial_initial_uid (partial_state sel p t) = p"
  by (simp_all add: finalized_state_def partial_state_def)

lemma chunk_state:
  "is_mailbox_id state = se_mailbox_id sel \<Longrightarrow> get_imap_mailbox_state a (se_mailbox_id sel)
     (apply_imap_sync_batch a (imap_initial_snapshot_chunk_batch hex discovery headers state) db) = Some state"
  by (simp add: get_imap_mailbox_state_def chunk_batch_apply(2) update_conv)

text \<open>A checkpoint written with a chunk does not run ahead of what is committed with it.\<close>

lemma checkpoint_ok:
  assumes "is_mailbox_id st = se_mailbox_id sel" and "is_uid_validity st = se_uid_validity sel"
    and later: "\<forall>x \<in> D \<union> set c. \<forall>y \<in> R. x < y" and c: "c \<noteq> []"
    and point: "(case is_partial_initial_uid st of Some p \<Rightarrow> p = Max (set c) | None \<Rightarrow> R = {}) \<and> U = D \<union> set c \<union> R"
    and ready: "\<forall>u \<in> (D \<union> set c) \<inter> H. committed a sel u
      (apply_imap_sync_batch a (imap_initial_snapshot_chunk_batch hex discovery headers st) db)"
  shows "snapshot_ok a sel (U \<inter> H) (apply_imap_sync_batch a (imap_initial_snapshot_chunk_batch hex discovery headers st) db)"
proof -
  have "u \<in> D \<union> set c" if "u \<in> U" "\<forall>p. is_partial_initial_uid st = Some p \<longrightarrow> u \<le> p" for u
  proof (rule ccontr)
    assume u: "u \<notin> D \<union> set c"
    with that(1) point have "u \<in> R" by blast
    moreover have "Max (set c) \<in> set c" using c by simp
    ultimately have "Max (set c) < u" using later by blast
    with that(2) point \<open>u \<in> R\<close> show False by (auto split: option.splits)
  qed
  then show ?thesis
    using ready assms(1,2) by (auto simp: snapshot_ok_def chunk_state split: option.splits)
qed

lemma on_net_Inr: "on_net act w = (Inr x, w') \<longleftrightarrow> act (fst w) = (Inr x, fst w') \<and> snd w' = snd w"
  and on_net_tables: "on_net act w = (r, w') \<Longrightarrow> snd w' = snd w"
  by (cases w; cases w'; cases "act (fst w)"; cases "fst (act (fst w))"; auto simp: on_net_def)+

lemma stream_chunks_ok:
  assumes server: "answers_uid_fetch H (ev_client env)" and sink: "store_sink a sink"
    and plain: "\<not> canonicalizes_by_gmail_message_id (pp_imap (provider_profile discovery))"
      "\<not> canonicalizes_by_rfc5322_message_id (pp_imap (provider_profile discovery))"
      "\<not> xc_fetch_gmail_metadata ctx"
    and run: "stream_chunks env sink discovery ctx sel highest seen cs w = (r, w')"
    and chunks: "D \<union> set (concat cs) = U" "\<forall>x \<in> D. \<forall>y \<in> set (concat cs). x < y"
      "sorted_wrt (<) (concat cs)" "[] \<notin> set cs"
    and before: "\<forall>u \<in> D \<inter> H. committed a sel u (snd w)" "snapshot_ok a sel (U \<inter> H) (snd w)"
  shows "snapshot_ok a sel (U \<inter> H) (snd w') \<and> (\<forall>u. committed a sel u (snd w) \<longrightarrow> committed a sel u (snd w')) \<and>
    (answers_only_asked (ev_client env) \<longrightarrow> (\<forall>u. u \<notin> set (concat cs) \<longrightarrow> untouched a sel u (snd w) (snd w'))) \<and>
    (r = Inr () \<and> cs \<noteq> [] \<longrightarrow> snapshot_complete a sel (U \<inter> H) highest (snd w'))"
  using run chunks before
proof (induction cs arbitrary: seen w D)
  case (Cons c cs)
  let ?fetch = "on_net (fetch_header_chunk (ev_client env) (ev_libs env) sel c (xc_fetch_modseq ctx)
      (xc_fetch_gmail_metadata ctx) (xc_updated_at ctx)) w"
  show ?case
  proof (cases "fst ?fetch")
    case (Inl e)
    then have "r = Inl e" "snd w' = snd w"
      using Cons.prems(1) on_net_tables [of _ w] by (cases ?fetch; force)+
    with Cons.prems(7) show ?thesis by (simp add: untouched_same)
  next
    case (Inr headers)
    then obtain w1 where f: "?fetch = (Inr headers, w1)" by (cases ?fetch) auto
    then have w1: "snd w1 = snd w" by (simp add: on_net_Inr)
    from f plain(3) have "fetch_header_chunk (ev_client env) (ev_libs env) sel c (xc_fetch_modseq ctx) False
        (xc_updated_at ctx) (fst w) = (Inr headers, fst w1)" by (simp add: on_net_Inr)
    note hs = fetched_chunk [OF server this]
    define seen' where "seen' = fold (\<lambda>m acc. max_option acc m) (header_modseqs headers) seen"
    define st where "st = (if cs = [] then finalized_state sel highest seen' (xc_updated_at ctx)
        else partial_state sel (list_max c) (xc_updated_at ctx))"
    let ?b = "imap_initial_snapshot_chunk_batch (lb_hex (ev_libs env)) discovery headers st"
    have rest: "and_then (sink ?b w1) (\<lambda>_ w. stream_chunks env sink discovery ctx sel highest seen' cs w) = (r, w')"
      using Cons.prems(1) f unfolding st_def seen'_def by (simp add: Let_def split del: if_split)
    show ?thesis
    proof (cases "fst (sink ?b w1)")
      case (Inl e)
      then have "r = Inl e" "snd w' = snd w"
        using rest store_sinkD(1) [OF sink, of ?b w1] w1 by (cases "sink ?b w1"; force)+
      with Cons.prems(7) show ?thesis by (simp add: untouched_same)
    next
      case (Inr x)
      then obtain w2 where applied: "sink ?b w1 = (Inr x, w2)" by (cases "sink ?b w1") auto
      have w2: "snd w2 = apply_imap_sync_batch a ?b (snd w)"
        using store_sinkD(2) [OF sink applied] w1 by simp
      have run': "stream_chunks env sink discovery ctx sel highest seen' cs w2 = (r, w')"
        using rest applied by simp
      have comm: "committed a sel u (snd w2) \<longleftrightarrow> u \<in> set (header_uids headers) \<or> committed a sel u (snd w)" for u
        unfolding w2 by (rule chunk_committed [OF plain(1,2) hs(1)])
      have st: "is_mailbox_id st = se_mailbox_id sel" "is_uid_validity st = se_uid_validity sel"
        by (simp_all add: st_def)
      have same: "untouched a sel u (snd w) (snd w2)" if "answers_only_asked (ev_client env)" "u \<notin> set c" for u
        unfolding w2 by (rule chunk_untouched [OF plain(1,2) hs(1)]) (use that hs(3) in blast)
      have c: "c \<noteq> []" using Cons.prems(5) by auto
      have later: "\<forall>x \<in> D \<union> set c. \<forall>y \<in> set (concat cs). x < y"
        using Cons.prems(3,4) by (auto simp: sorted_wrt_append)
      have ready: "\<forall>u \<in> (D \<union> set c) \<inter> H. committed a sel u (snd w2)" using comm Cons.prems(6) hs(2) by blast
      have ok: "snapshot_ok a sel (U \<inter> H) (snd w2)"
        unfolding w2
        by (rule checkpoint_ok [OF st later c _ ready [unfolded w2]])
          (use Cons.prems(2) c in \<open>auto simp: st_def list_max_Max\<close>)
      have IH: "snapshot_ok a sel (U \<inter> H) (snd w') \<and>
          (\<forall>u. committed a sel u (snd w2) \<longrightarrow> committed a sel u (snd w')) \<and>
          (answers_only_asked (ev_client env) \<longrightarrow> (\<forall>u. u \<notin> set (concat cs) \<longrightarrow> untouched a sel u (snd w2) (snd w'))) \<and>
          (r = Inr () \<and> cs \<noteq> [] \<longrightarrow> snapshot_complete a sel (U \<inter> H) highest (snd w'))"
      proof (rule Cons.IH [OF run' _ later _ _ ready ok])
        show "D \<union> set c \<union> set (concat cs) = U" using Cons.prems(2) by auto
        show "sorted_wrt (<) (concat cs)" using Cons.prems(4) by (simp add: sorted_wrt_append)
        show "[] \<notin> set cs" using Cons.prems(5) by simp
      qed
      have frame: "untouched a sel u (snd w) (snd w')"
        if "answers_only_asked (ev_client env)" "u \<notin> set (concat (c # cs))" for u
        using that by (intro untouched_trans [OF same]) (simp_all add: IH)
      show ?thesis
      proof (cases cs)
        case Nil
        then have "w' = w2" using run' by simp
        moreover have "snapshot_complete a sel (U \<inter> H) highest (snd w2)"
          using ready Cons.prems(2) Nil
          by (auto simp: snapshot_complete_def w2 chunk_state st st_def)
        ultimately show ?thesis using ok comm same by simp
      qed (use IH comm frame in auto)
    qed
  qed
qed (simp add: untouched_same)

text \<open>A mailbox whose messages are all in the store is finalised by a chunk without headers.\<close>

lemma finalize_ok:
  fixes a sel highest hex seen updated_at discovery db
  assumes "\<not> canonicalizes_by_gmail_message_id (pp_imap (provider_profile discovery))"
    and "\<not> canonicalizes_by_rfc5322_message_id (pp_imap (provider_profile discovery))"
    and "\<forall>u \<in> U. committed a sel u db"
  defines "db' \<equiv> apply_imap_sync_batch a
      (imap_initial_snapshot_chunk_batch hex discovery [] (finalized_state sel highest seen updated_at)) db"
  shows "snapshot_ok a sel U db'" and "snapshot_complete a sel U highest db'"
    and "committed a sel u db \<longrightarrow> committed a sel u db'"
proof -
  have comm: "committed a sel u db' \<longleftrightarrow> committed a sel u db" for u
    by (simp add: db'_def chunk_committed [OF assms(1,2)] header_uids_def)
  have st: "get_imap_mailbox_state a (se_mailbox_id sel) db' =
      Some (finalized_state sel highest seen updated_at)"
    unfolding db'_def by (rule chunk_state) simp
  show "snapshot_ok a sel U db'" "snapshot_complete a sel U highest db'"
    "committed a sel u db \<longrightarrow> committed a sel u db'"
    using assms(3) by (auto simp: snapshot_ok_def snapshot_complete_def st comm)
qed

lemma search_uids_sorted:
  "search_undeleted_uids client hex name n = (Inr (sel, uids), n') \<Longrightarrow> sorted_wrt (<) uids"
proof -
  have "sorted_wrt (<) (remdups_adj xs)" if "sorted xs" for xs :: "ImapUid list"
    using that by (induction xs rule: remdups_adj.induct) (auto simp: order.strict_iff_order)
  then show "search_undeleted_uids client hex name n = (Inr (sel, uids), n') \<Longrightarrow> sorted_wrt (<) uids"
    by (auto simp: search_undeleted_uids_def search_uids_def elim!: and_then_InrE)
qed

text \<open>How one run over a mailbox ends, and what it leaves alone.\<close>

lemma stream_snapshot_ok:
  assumes "answers_uid_fetch H (ev_client env)" and "store_sink a sink"
    and plain: "\<not> canonicalizes_by_gmail_message_id (pp_imap (provider_profile discovery))"
      "\<not> canonicalizes_by_rfc5322_message_id (pp_imap (provider_profile discovery))"
      "\<not> xc_fetch_gmail_metadata ctx"
    and listed: "search_undeleted_uids (ev_client env) (lb_hex (ev_libs env)) (pl_name mailbox) (fst w) =
        (Inr (sel, uids), n)" "0 \<notin> set uids"
    and stored: "pl_stored_state mailbox = get_imap_mailbox_state a (se_mailbox_id sel) (snd w)"
      "\<forall>st. pl_stored_state mailbox = Some st \<longrightarrow>
         is_uid_validity st = se_uid_validity sel \<and> is_partial_initial_uid st \<noteq> None"
    and ok: "snapshot_ok a sel (set uids \<inter> H) (snd w)"
    and run: "stream_initial_mailbox_snapshot env sink discovery ctx mailbox w = (r, w')"
  defines "after_uid \<equiv> case Option.bind (pl_stored_state mailbox) is_partial_initial_uid of Some uid \<Rightarrow> uid | None \<Rightarrow> 0"
  shows "snapshot_ok a sel (set uids \<inter> H) (snd w') \<and> 
    (answers_only_asked (ev_client env) \<longrightarrow> (\<forall>u \<le> after_uid. untouched a sel u (snd w) (snd w'))) \<and>
    (\<forall>u. committed a sel u (snd w) \<longrightarrow> committed a sel u (snd w')) \<and>
    (r = Inr () \<longrightarrow> snapshot_complete a sel (set uids \<inter> H) (list_max uids) (snd w'))"
proof -
  let ?pending = "uids_above uids after_uid"
  obtain w1 where w1: "snd w1 = snd w"
    and body: "and_then (stream_chunks env sink discovery ctx sel (list_max uids) None
        (chunks_of INITIAL_SNAPSHOT_CHUNK_SIZE ?pending) w1) (\<lambda>_ w. if ?pending = []
        then sink (imap_initial_snapshot_chunk_batch (lb_hex (ev_libs env)) discovery []
               (finalized_state sel (list_max uids) None (xc_updated_at ctx))) w
        else (Inr (), w)) = (r, w')"
    using run listed(1) by (auto simp: stream_initial_mailbox_snapshot_def on_net_def Let_def after_uid_def)
  have prefix: "\<forall>u \<in> (set uids - set ?pending) \<inter> H. committed a sel u (snd w1)"
  proof (cases "pl_stored_state mailbox")
    case None
    then have "u \<in> set ?pending" if "u \<in> set uids" for u
      using that listed(2) by (auto simp: uids_above_def word_gt_0 after_uid_def)
    then show ?thesis by blast
  next
    case (Some st)
    with stored(2) obtain p where "is_uid_validity st = se_uid_validity sel" "is_partial_initial_uid st = Some p"
      by blast
    with ok Some w1 show ?thesis
      by (auto simp: snapshot_ok_def stored(1) [symmetric] uids_above_def after_uid_def)
        (meson IntI not_le)
  qed
  show ?thesis
  proof (cases "?pending = []")
    case True
    with body have sink: "sink (imap_initial_snapshot_chunk_batch (lb_hex (ev_libs env)) discovery []
        (finalized_state sel (list_max uids) None (xc_updated_at ctx))) w1 = (r, w')" by simp
    show ?thesis
    proof (cases r)
      case (Inl e)
      with sink store_sinkD(1) [OF assms(2)] have "snd w' = snd w" by (simp add: w1)
      with ok Inl show ?thesis by (simp add: untouched_same)
    next
      case (Inr x)
      with sink store_sinkD(2) [OF assms(2)] w1 have w': "snd w' = apply_imap_sync_batch a
          (imap_initial_snapshot_chunk_batch (lb_hex (ev_libs env)) discovery []
            (finalized_state sel (list_max uids) None (xc_updated_at ctx))) (snd w)" by simp
      from prefix True w1 have "\<forall>u \<in> set uids \<inter> H. committed a sel u (snd w)" by simp
      from finalize_ok [OF plain(1,2) this] chunk_untouched [OF plain(1,2)] show ?thesis
        by (simp add: w' header_uids_def)
    qed
  next
    case False
    have "snapshot_ok a sel (set uids \<inter> H) (snd w') \<and>
      (\<forall>u. committed a sel u (snd w1) \<longrightarrow> committed a sel u (snd w')) \<and>
      (answers_only_asked (ev_client env) \<longrightarrow>
        (\<forall>u. u \<notin> set (concat (chunks_of INITIAL_SNAPSHOT_CHUNK_SIZE ?pending)) \<longrightarrow> untouched a sel u (snd w1) (snd w'))) \<and>
      (r = Inr () \<and> chunks_of INITIAL_SNAPSHOT_CHUNK_SIZE ?pending \<noteq> [] \<longrightarrow>
        snapshot_complete a sel (set uids \<inter> H) (list_max uids) (snd w'))"
    proof (rule stream_chunks_ok [OF assms(1,2) plain _ _ _ _ _ prefix])
      show "stream_chunks env sink discovery ctx sel (list_max uids) None
          (chunks_of INITIAL_SNAPSHOT_CHUNK_SIZE ?pending) w1 = (r, w')"
        using body False unfolding and_then_def by (auto split: prod.splits sum.splits)
      show "sorted_wrt (<) (concat (chunks_of INITIAL_SNAPSHOT_CHUNK_SIZE ?pending))"
        using search_uids_sorted [OF listed(1)] by (simp add: uids_above_def sorted_wrt_filter)
      show "snapshot_ok a sel (set uids \<inter> H) (snd w1)" using ok w1 by simp
    qed (auto simp: chunks_of_nonempty uids_above_def)
    then show ?thesis using False w1 by (simp add: uids_above_def not_less)
  qed
qed

subsection \<open>An example server\<close>

text \<open>A server with one mailbox of epoch 1 at HIGHESTMODSEQ 9, whose messages have no header at all.\<close>

definition example_imap_client :: "ImapUid list \<Rightarrow> unit ImapClient" where
  "example_imap_client uids =
     \<lparr>cl_resolve = (\<lambda>command n. (WireDone (case command of
        CmdExamine _ \<Rightarrow> [EvUntagged TagOk (Some (CdUidValidity 1)), EvUntagged TagOk (Some (CdHighestModSeq 9))]
      | _ \<Rightarrow> [], TagOk), n)),
      cl_uid_search_undeleted = (\<lambda>n. (WireDone uids, n)),
      cl_uid_fetch = (\<lambda>us names n. (WireDone (map (\<lambda>u.
        (unat u, [MdUid u, MdRfc822Size 10, MdRfc822Header None])) us), n)),
      cl_uid_fetch_first = (\<lambda>u names n. (WireDone (Some [MdUid u]), n)),
      cl_enable = (\<lambda>names n. (WireDone (Some names), n)),
      cl_select = (\<lambda>name n. (WireDone (select_data_default\<lparr>sl_uid_validity := Some 1\<rparr>), n)),
      cl_uid_silent_store = (\<lambda>u kind flags n. (WireDone (), n)),
      cl_uid_copy = (\<lambda>u name n. (WireDone (), n)), cl_uid_move = (\<lambda>u name n. (WireDone (), n)),
      cl_append = (\<lambda>name flags bytes n. (WireDone (Some 4), n)),
      cl_refresh_capabilities = (\<lambda>n. (WireDone (), n)), cl_capabilities = (\<lambda>n. []),
      cl_mailbox_name_ok = (\<lambda>name. True), cl_validate_select = (\<lambda>data. Inr ()),
      cl_task_error_display = (\<lambda>e. []), cl_empty_sequence_error = []\<rparr>"

definition example_parsed :: ParsedMessage where
  "example_parsed = \<lparr>pm_message_id = None, pm_in_reply_to = None, pm_references = [],
     pm_raw_header = (\<lambda>name. None), pm_from = [], pm_to = [], pm_cc = [], pm_bcc = [], pm_reply_to = [],
     pm_subject = None, pm_date_rfc3339_utc = None\<rparr>"

definition example_imap_env :: "ImapUid list \<Rightarrow> unit ImapEnv" where
  "example_imap_env uids =
     \<lparr>ev_client = example_imap_client uids,
      ev_libs = \<lparr>lb_hex = (\<lambda>_. []), lb_parse = (\<lambda>_. Some example_parsed), lb_flag_of = example_flag_of,
                 lb_flag_display = example_display\<rparr>,
      ev_discovery = example_discovery, ev_has_store = True, ev_now = Inr []\<rparr>"

definition example_selected :: ImapSelectedMailbox where
  "example_selected = \<lparr>se_mailbox_id = L ''imap:mailbox:'', se_mailbox_name = [7], se_uid_validity = 1,
     se_uid_next = None, se_highest_modseq = Some 9\<rparr>"

definition example_context :: MailboxPlanExecutionContext where
  "example_context = \<lparr>xc_fetch_modseq = True, xc_fetch_gmail_metadata = False,
     xc_account_full_message_snapshot = False, xc_updated_at = []\<rparr>"

definition example_sink :: "unit sink" where
  "example_sink batch w = (Inr (), (fst w, apply_imap_sync_batch [1] batch (snd w)))"

text \<open>A run that was interrupted after it had committed UID 1.\<close>

definition resumed_state :: ImapMailboxSyncState where
  "resumed_state = partial_state example_selected (Some 1) []"

definition resumed_db :: SyncDb where
  "resumed_db = (let m = imap_message_id (L ''imap:mailbox:'') 1 1
     in example_sync_db\<lparr>sd_mail := (example_db [] [])\<lparr>db_base := [(([1], m), default_record m)]\<rparr>,
        sd_states := [(([1], L ''imap:mailbox:''), resumed_state)],
        sd_locations := [(([1], m, L ''imap:mailbox:''), example_location m (L ''imap:mailbox:'') 1)]\<rparr>)"

definition resumed_mailbox :: PlannedImapMailbox where
  "resumed_mailbox = \<lparr>pl_id = L ''imap:mailbox:'', pl_name = [7], pl_stored_state = Some resumed_state,
     pl_local_locations = [], pl_plan = SyncPlan (FullSnapshot ResumeInitialSync)\<rparr>"

lemma example_server_answers:
  "answers_uid_fetch H (ev_client (example_imap_env uids))" "answers_only_asked (ev_client (example_imap_env uids))"
  by (auto simp: answers_uid_fetch_def answers_only_asked_def example_imap_env_def example_imap_client_def describes_def)

lemma example_sink_stores: "store_sink [1] example_sink"
  by (simp add: store_sink_def example_sink_def)

lemma example_search:
  "search_undeleted_uids (ev_client (example_imap_env [1, 2, 3])) (lb_hex (ev_libs (example_imap_env [1, 2, 3]))) [7] () =
     (Inr (example_selected, [1, 2, 3]), ())"
  by (simp add: search_undeleted_uids_def examine_selected_mailbox_def wire_mailbox_def example_imap_env_def
      example_imap_client_def with_deadline_resolve_def with_deadline_def examine_process_def select_data_default_def
      examine_tagged_def selected_mailbox_from_examine_state_def search_uids_def example_selected_def imap_mailbox_id_def)

lemma resumed_ok: "snapshot_ok [1] example_selected (set [1, 2, 3]) resumed_db"
  by (auto simp: snapshot_ok_def resumed_db_def example_selected_def get_imap_mailbox_state_def resumed_state_def
      committed_def local_message_ids_def example_location_def Let_def word_le_nat_alt)

lemma sequence_total: "\<forall>x \<in> set xs. \<exists>y. f x = Inr y \<Longrightarrow> \<exists>ys. sequence (map f xs) = Inr ys"
  by (induction xs) auto

lemma example_fetch:
  assumes "chunk \<noteq> []"
  shows "\<exists>headers. fetch_header_chunk (ev_client (example_imap_env uids)) (ev_libs (example_imap_env uids)) sel chunk
    modseq gmail t n = (Inr headers, n)"
proof -
  have "\<exists>h. header_from_response (ev_libs (example_imap_env uids)) sel t
      [MdUid u, MdRfc822Size 10, MdRfc822Header None] = Inr h" for u
    by (simp add: header_from_response_def fetched_header_from_items_with_metadata_def collect_items_def
        collect_item_def example_imap_env_def imap_header_message_record_with_gmail_metadata_def Let_def
        example_parsed_def derive_message_metadata_from_parsed_def list_unsubscribe_from_parsed_def
        ImapLibs.truncate_def)
  then have "\<exists>headers. sequence (map (\<lambda>u. header_from_response (ev_libs (example_imap_env uids)) sel t
      [MdUid u, MdRfc822Size 10, MdRfc822Header None]) chunk) = Inr headers" by (intro sequence_total) blast
  then show ?thesis
    using assms by (auto simp: fetch_header_chunk_def example_imap_env_def example_imap_client_def with_deadline_def comp_def)
qed

lemma resumed_run:
  "\<exists>w. stream_initial_mailbox_snapshot (example_imap_env [1, 2, 3]) example_sink renumbered_discovery
     example_context resumed_mailbox ((), resumed_db) = (Inr (), w)"
proof -
  have pending: "uids_above [1, 2, 3] 1 = [2, 3::ImapUid]" by (simp add: uids_above_def word_less_nat_alt)
  obtain headers where "fetch_header_chunk (ev_client (example_imap_env [1, 2, 3])) (ev_libs (example_imap_env [1, 2, 3]))
      example_selected [2, 3] True False [] () = (Inr headers, ())"
    using example_fetch [of "[2, 3]"] by blast
  then show ?thesis
    by (simp add: stream_initial_mailbox_snapshot_def on_net_def resumed_mailbox_def example_search Let_def
      resumed_state_def partial_state_def pending INITIAL_SNAPSHOT_CHUNK_SIZE_def UID_FETCH_CHUNK_SIZE_def
      example_context_def example_sink_def)
qed

text \<open>
  C32. The initial snapshot is resumable, on accounts whose message ids are not shared between
  mailboxes (not Gmail, not the profiles that match by Message-ID). Let \<open>H\<close> be messages that stay in
  the mailbox during the run: the server answers a fetch of them, and may ignore UIDs it no longer
  has. Suppose the stored checkpoint promises its prefix of the listing, as far as \<open>H\<close> goes, and the
  run it resumes belongs to the same epoch. However the next run ends -- a failed fetch, a refused
  commit, or success -- the checkpoint it leaves still promises its prefix and no committed message is
  lost; when it succeeds, the state is final and every listed message of \<open>H\<close> is in the store,
  whatever part of the mailbox earlier runs had fetched.
\<close>

theorem interrupted_snapshot_resumes:
  assumes "answers_uid_fetch H (ev_client env)" and "store_sink a sink"
    and plain: "\<not> canonicalizes_by_gmail_message_id (pp_imap (provider_profile discovery))"
      "\<not> canonicalizes_by_rfc5322_message_id (pp_imap (provider_profile discovery))"
      "\<not> xc_fetch_gmail_metadata ctx"
    and listed: "search_undeleted_uids (ev_client env) (lb_hex (ev_libs env)) (pl_name mailbox) (fst w) =
        (Inr (sel, uids), n)" "0 \<notin> set uids"
    and stored: "pl_stored_state mailbox = get_imap_mailbox_state a (se_mailbox_id sel) (snd w)"
      "\<forall>st. pl_stored_state mailbox = Some st \<longrightarrow>
         is_uid_validity st = se_uid_validity sel \<and> is_partial_initial_uid st \<noteq> None"
    and ok: "snapshot_ok a sel (set uids \<inter> H) (snd w)"
    and run: "stream_initial_mailbox_snapshot env sink discovery ctx mailbox w = (r, w')"
  shows "snapshot_ok a sel (set uids \<inter> H) (snd w') \<and>
    (\<forall>u. committed a sel u (snd w) \<longrightarrow> committed a sel u (snd w')) \<and>
    (r = Inr () \<longrightarrow> snapshot_complete a sel (set uids \<inter> H) (list_max uids) (snd w'))"
  using stream_snapshot_ok [OF assms(1,2) plain listed stored ok run] by blast


text \<open>The hypotheses of the two properties at the example, in their order.\<close>

lemma resumed_facts:
  "\<not> xc_fetch_gmail_metadata example_context"
  "search_undeleted_uids (ev_client (example_imap_env [1, 2, 3])) (lb_hex (ev_libs (example_imap_env [1, 2, 3])))
     (pl_name resumed_mailbox) (fst ((), resumed_db)) = (Inr (example_selected, [1, 2, 3]), ())"
  "0 \<notin> set [1, 2, 3::ImapUid]"
  "pl_stored_state resumed_mailbox = get_imap_mailbox_state [1] (se_mailbox_id example_selected) (snd ((), resumed_db))"
  and resumed_stored:
  "pl_stored_state resumed_mailbox = Some resumed_state"
  "is_uid_validity resumed_state = se_uid_validity example_selected"
  "is_partial_initial_uid resumed_state = Some 1"
  and resumed_snapshot: "snapshot_ok [1] example_selected (set [1, 2, 3] \<inter> UNIV) (snd ((), resumed_db))"
  using example_search resumed_ok by (simp_all add: resumed_mailbox_def get_imap_mailbox_state_def
      resumed_db_def example_selected_def resumed_state_def Let_def example_context_def)

theorem interrupted_snapshot_resumes_witness:
  "\<exists>w. stream_initial_mailbox_snapshot (example_imap_env [1, 2, 3]) example_sink renumbered_discovery
     example_context resumed_mailbox ((), resumed_db) = (Inr (), w) \<and>
   snapshot_complete [1] example_selected (set [1, 2, 3]) (list_max [1, 2, 3]) (snd w)"
proof -
  obtain w where run: "stream_initial_mailbox_snapshot (example_imap_env [1, 2, 3]) example_sink renumbered_discovery
     example_context resumed_mailbox ((), resumed_db) = (Inr (), w)" using resumed_run by blast
  have "\<forall>st. pl_stored_state resumed_mailbox = Some st \<longrightarrow>
      is_uid_validity st = se_uid_validity example_selected \<and> is_partial_initial_uid st \<noteq> None"
    using resumed_stored by simp
  note interrupted_snapshot_resumes [OF example_server_answers(1) example_sink_stores renumbered_plain resumed_facts
      this resumed_snapshot run]
  with run show ?thesis unfolding Int_UNIV_right by blast
qed


end
