(* ===== verification/ImapCycle.thy ===== *)
theory ImapCycle
  imports ImapStream
begin

text \<open>
  Sync cycles of ImapSync: what executing the planned mailboxes accumulates, what a cycle that streams
  some mailboxes does to a message that moved, and how much a delta can lose by inference.
\<close>

subsection \<open>What executing plans accumulates\<close>







lemma by_uid_consistent [simp]: "list_all consistent (by_uid headers) \<longleftrightarrow> list_all consistent headers"
  by (simp add: by_uid_def list_all_iff)



lemma push_delta_simps [simp]:
  "ac_headers (push_delta_state mailbox snapshot t acc) = ac_headers acc"
  "ac_local_locations (push_delta_state mailbox snapshot t acc) = ac_local_locations acc"
  by (simp_all add: push_delta_state_def split: option.splits)




subsection \<open>A cycle that streams some mailboxes and updates the rest\<close>









































subsection \<open>How much a delta can lose\<close>

text \<open>
  C35. A delta cannot lose much by inference. Whatever an IMAP delta batch holds, the messages its
  transaction removes beyond those the server asserted gone are at most one, or half of the account.
\<close>

theorem delta_loss_is_bounded:
  fixes hex discovery headers states local_locations vanished absence updated_at a db
  defines "b \<equiv> imap_condstore_delta_sync_batch hex discovery headers states local_locations vanished absence updated_at"
  shows "card (local_ids a db - local_ids a (apply_imap_sync_batch a b db) - set (sb_deleted_message_ids b)) \<le>
    max 1 (card (local_ids a db) div 2)"
proof -
  note fields = condstore_batch_fields [of hex discovery headers states local_locations vanished absence updated_at,
      folded b_def]
  let ?lost = "local_ids a db - local_ids a (apply_imap_sync_batch a b db) - set (sb_deleted_message_ids b)"
  have lost: "?lost \<subseteq> (if imap_absence_prune_allowed a (length (sb_absence_deleted_message_ids b)) (sd_mail db)
      then set (sb_absence_deleted_message_ids b) else {})"
    using fields(2) by (auto simp: batch_local_ids batch_deleted_def split: if_splits)
  show ?thesis
  proof (cases "imap_absence_prune_allowed a (length (sb_absence_deleted_message_ids b)) (sd_mail db)")
    case True
    with lost have "card ?lost \<le> length (sb_absence_deleted_message_ids b)"
      by (simp add: card_mono card_length le_trans [OF card_mono card_length])
    moreover have "card ?lost \<le> card (local_ids a db)"
      by (rule card_mono) (auto simp: local_message_ids_def)
    ultimately show ?thesis
      using True by (auto simp: imap_absence_prune_allowed_def over_floor_def Let_def)
  next
    case False
    with lost have "?lost = {}" by simp
    then show ?thesis by (metis card.empty le0)
  qed
qed

end
