(* ===== verification/ImapMutate.thy ===== *)
theory ImapMutate
  imports ImapCycle
begin

text \<open>
  Drafts and mutations of the gateway: draft ids read back as coordinates, no command acts on a
  coordinate of another UIDVALIDITY epoch, and a mailbox replacement that succeeds reaches its target.
  What the server does to one message is a view of its state with laws for the commands that complete;
  an example server meets them.
\<close>

subsection \<open>Ids of drafts\<close>

lemma parse_u32_show: "parse_u32 (show_nat (unat (x :: 32 word))) = Some x"
proof -
  have "hd (show_nat (unat x)) \<noteq> 43"
    using show_nat_digits [of "unat x"] hd_in_set [OF show_nat_nonempty, of "unat x"] by force
  then have ds: "(case show_nat (unat x) of c # rest \<Rightarrow> if c = 43 then rest else show_nat (unat x) | [] \<Rightarrow> []) =
      show_nat (unat x)" by (cases "show_nat (unat x)") auto
  have "int (unat x) < 2 ^ 32" using unsigned_less [of x] by simp
  moreover have "list_all (\<lambda>c. 48 \<le> c \<and> c \<le> 57) (show_nat (unat x))"
    using show_nat_digits [of "unat x"] by (simp add: list_all_iff)
  ultimately show ?thesis
    by (simp add: parse_u32_def ds digits_value_show_nat Let_def)
qed

lemma utf8_decode_as_bytes: "list_all scalar_value s \<Longrightarrow> utf8_decode (as_bytes s) = Some s"
proof (induction s)
  case (Cons c s)
  have c: "c < 1114112" using Cons.prems by (auto simp: scalar_value_def)
  obtain b bytes where b: "as_bytes (c # s) = b # bytes"
    using utf8_char_nonempty [of c] by (cases "as_bytes (c # s)") (auto simp: as_bytes_def)
  have "utf8_uncons (b # bytes) = Some (c, as_bytes s)"
    using utf8_uncons_char [OF c, of "as_bytes s"] b by (simp add: as_bytes_def del: utf8_uncons.simps)
  then show ?case
    using Cons b by (simp add: as_bytes_def del: utf8_uncons.simps)
qed (simp add: as_bytes_def)

text \<open>
  C38. Draft ids read back: the id that a save derives from a Drafts mailbox, its UIDVALIDITY and the
  appended UID decodes to exactly these coordinates, so a draft that is deleted before any sync has
  seen it is found; a Gmail id decodes to nothing, so deleting one that has no coordinate is a no-op.
\<close>

theorem draft_ids_read_back:
  assumes "list_all scalar_value mailbox_id"
    and "unhex (hex_encode (as_bytes mailbox_id)) = Some (as_bytes mailbox_id)"
  shows "decode_imap_message_location unhex (imap_message_id mailbox_id uid_validity uid) =
      Some \<lparr>il_message_id = imap_message_id mailbox_id uid_validity uid, il_mailbox_id = mailbox_id,
        il_uid_validity = uid_validity, il_uid = uid, il_modseq = None, il_updated_at = RFC3339_EPOCH\<rparr> \<and>
    decode_imap_message_location unhex (gmail_message_id g) = None"
proof
  let ?id = "imap_message_id mailbox_id uid_validity uid"
  have id: "?id = L ''imap:'' @ (show_nat (unat uid_validity) @ 58 # show_nat (unat uid) @ 58 # hex_encode (as_bytes mailbox_id))"
    by (simp add: imap_message_id_def)
  have colon: "split_once 58 (show_nat n @ 58 # r) = Some (show_nat n, r)" for n r
    by (simp add: split_once_Some show_nat_colon)
  show "decode_imap_message_location unhex ?id = Some \<lparr>il_message_id = ?id, il_mailbox_id = mailbox_id,
        il_uid_validity = uid_validity, il_uid = uid, il_modseq = None, il_updated_at = RFC3339_EPOCH\<rparr>"
    unfolding decode_imap_message_location_def id
    using assms by (simp add: colon parse_u32_show utf8_decode_as_bytes)
  have "split_once 58 (drop 5 (gmail_message_id g)) = Some (L ''gmail'', L ''msgid:'' @ show_nat (unat g))"
    by (simp add: gmail_message_id_def split_once_def)
  then show "decode_imap_message_location unhex (gmail_message_id g) = None"
    by (simp add: decode_imap_message_location_def parse_u32_def)
qed

theorem draft_ids_read_back_witness:
  "decode_imap_message_location (\<lambda>encoded. if encoded = hex_encode [68] then Some [68] else None)
     (imap_message_id (L ''D'') 42 7) =
   Some \<lparr>il_message_id = imap_message_id (L ''D'') 42 7, il_mailbox_id = L ''D'', il_uid_validity = 42,
     il_uid = 7, il_modseq = None, il_updated_at = RFC3339_EPOCH\<rparr>"
  using draft_ids_read_back [of "L ''D''" "\<lambda>encoded. if encoded = hex_encode [68] then Some [68] else None" 42 7]
  by (simp add: scalar_value_def as_bytes_def utf8_char_def)

subsection \<open>Nothing reaches another epoch\<close>

text \<open>
  C36. A coordinate of an old epoch is never acted on. When the server answers SELECT with another
  UIDVALIDITY than the coordinate has, then a keyword change, a copy, a move, a removal, and the
  removal the gateway builds from it all end right after that SELECT, with the mismatch as their error
  (the service resyncs on it), so no UID of the new epoch is touched; and no table changes.
\<close>

theorem stale_epoch_stops_mutations:
  assumes "cl_select (ev_client env) name n = (WireDone data, n')" and "sl_uid_validity data = Some v"
    and "v \<noteq> il_uid_validity location"
  defines "stopped \<equiv> (Inl (Failed (UidValidityMismatch name (il_uid_validity location) v)), n')"
  shows "apply_imap_keyword_delta_by_location (ev_client env) libs name location command n = stopped \<and>
    copy_imap_message_to_mailbox_by_location (ev_client env) hex name location target n = stopped \<and>
    move_imap_message_to_mailbox_by_location (ev_client env) hex name location target n = stopped \<and>
    mark_imap_message_deleted_by_location (ev_client env) hex name location n = stopped \<and>
    expunge_imap_message_by_location (ev_client env) hex name location n = stopped \<and>
    remove_imap_message_from_mailbox env name location (n, db) = (Inl (GwFailed StateMismatch), (n', db))"
proof -
  have select: "select_validated_mailbox (ev_client env) hex name location n =
      (Inl (Failed (UidValidityMismatch name (il_uid_validity location) v)), n')" for hex
    using assms(1-3) by (simp add: select_validated_mailbox_def with_deadline_def selected_mailbox_from_examine_def
        selected_mailbox_from_examine_state_def)
  show ?thesis
    by (simp add: stopped_def select apply_imap_keyword_delta_by_location_def copy_imap_message_to_mailbox_by_location_def
        move_imap_message_to_mailbox_by_location_def mark_imap_message_deleted_by_location_def
        expunge_imap_message_by_location_def on_validated_uid_def remove_imap_message_from_mailbox_def
        uid_already_gone_def gateway_fault_def imap_error_to_gateway_def Let_def)
qed

theorem stale_epoch_stops_mutations_witness:
  "move_imap_message_to_mailbox_by_location (example_imap_client []) id [7]
     ((example_location [2] [7] 9)\<lparr>il_uid_validity := 2\<rparr>) [8] () =
   (Inl (Failed (UidValidityMismatch [7] 2 1)), ())"
  using stale_epoch_stops_mutations [of "example_imap_env []" "[7]" "()"
      "select_data_default\<lparr>sl_uid_validity := Some 1\<rparr>" "()" 1 "(example_location [2] [7] 9)\<lparr>il_uid_validity := 2\<rparr>"
      "ev_libs (example_imap_env [])" _ id "[8]"]
  by (simp add: example_imap_client_def example_imap_env_def example_location_def)

subsection \<open>Replacing the mailboxes of a message\<close>

text \<open>
  What the commands do to one message on the server (RFC 3501, UIDPLUS, MOVE): \<open>current\<close> is the selected
  mailbox, \<open>holders\<close> the names of the mailboxes that hold the message, \<open>marked\<close> the UIDs flagged
  \<open>\Deleted\<close>, and \<open>K\<close> the known coordinates of the message, by mailbox name and UID. Only commands that
  complete are described. A command on a UID its mailbox no longer holds completes without effect
  (6.4.8), and with any command the server may take the message out of further mailboxes by itself, as
  Gmail does with its labels, except out of those in \<open>T\<close>.
\<close>

record 'n MessageView =
  current :: "'n \<Rightarrow> str"
  holders :: "'n \<Rightarrow> str set"
  marked :: "'n \<Rightarrow> (str \<times> ImapUid) set"

definition loses :: "str set \<Rightarrow> str set \<Rightarrow> str set \<Rightarrow> bool" where
  "loses T before after \<longleftrightarrow> after \<subseteq> before \<and> before \<inter> T \<subseteq> after"

definition serves_message ::
  "'n ImapClient \<Rightarrow> 'n MessageView \<Rightarrow> (str \<times> ImapUid) set \<Rightarrow> str set \<Rightarrow> bool" where
  "serves_message client view K T \<longleftrightarrow>
     (\<forall>name n data n'. cl_select client name n = (WireDone data, n') \<longrightarrow>
        current view n' = name \<and> loses T (holders view n) (holders view n')) \<and>
     (\<forall>u names n items n'. cl_uid_fetch_first client u names n = (WireDone items, n') \<longrightarrow>
        current view n' = current view n \<and> loses T (holders view n) (holders view n') \<and>
        ((current view n, u) \<in> K \<and> current view n \<in> holders view n \<longrightarrow> (\<exists>xs. items = Some xs \<and> MdUid u \<in> set xs))) \<and>
     (\<forall>u target n n'. cl_uid_copy client u target n = (WireDone (), n') \<longrightarrow> (current view n, u) \<in> K \<longrightarrow>
        loses T (if current view n \<in> holders view n then insert target (holders view n) else holders view n)
          (holders view n')) \<and>
     (\<forall>u target n n'. cl_uid_move client u target n = (WireDone (), n') \<longrightarrow> (current view n, u) \<in> K \<longrightarrow>
        loses T (if current view n \<in> holders view n then insert target (holders view n - {current view n})
          else holders view n) (holders view n')) \<and>
     (\<forall>u flags n n'. cl_uid_silent_store client u StoreAdd flags n = (WireDone (), n') \<longrightarrow>
        current view n' = current view n \<and> loses T (holders view n) (holders view n') \<and>
        (FlDeleted \<in> set flags \<and> current view n \<in> holders view n' \<longrightarrow> (current view n, u) \<in> marked view n')) \<and>
     (\<forall>u events n n'. cl_resolve client (CmdUidExpunge u) n = (WireDone (events, TagOk), n') \<longrightarrow>
        (current view n, u) \<in> K \<longrightarrow> (current view n \<in> holders view n \<longrightarrow> (current view n, u) \<in> marked view n) \<longrightarrow>
        loses T (holders view n - {current view n}) (holders view n'))"

lemma loses_trans: "loses T A B \<Longrightarrow> loses T B C \<Longrightarrow> loses T A C"
  by (auto simp: loses_def)

lemma serves:
  assumes "serves_message client view K T"
  shows "cl_select client name n = (WireDone data, n') \<Longrightarrow>
      current view n' = name \<and> loses T (holders view n) (holders view n')"
    and "cl_uid_fetch_first client u names n = (WireDone items, n') \<Longrightarrow>
      current view n' = current view n \<and> loses T (holders view n) (holders view n') \<and>
      ((current view n, u) \<in> K \<and> current view n \<in> holders view n \<longrightarrow> (\<exists>xs. items = Some xs \<and> MdUid u \<in> set xs))"
    and "cl_uid_copy client u target n = (WireDone (), n') \<Longrightarrow> (current view n, u) \<in> K \<Longrightarrow>
      loses T (if current view n \<in> holders view n then insert target (holders view n) else holders view n)
        (holders view n')"
    and "cl_uid_move client u target n = (WireDone (), n') \<Longrightarrow> (current view n, u) \<in> K \<Longrightarrow>
      loses T (if current view n \<in> holders view n then insert target (holders view n - {current view n})
        else holders view n) (holders view n')"
    and "cl_uid_silent_store client u StoreAdd [FlDeleted] n = (WireDone (), n') \<Longrightarrow>
      current view n' = current view n \<and> loses T (holders view n) (holders view n') \<and>
      (current view n \<in> holders view n' \<longrightarrow> (current view n, u) \<in> marked view n')"
    and "cl_resolve client (CmdUidExpunge u) n = (WireDone (events, TagOk), n') \<Longrightarrow> (current view n, u) \<in> K \<Longrightarrow>
      (current view n \<in> holders view n \<longrightarrow> (current view n, u) \<in> marked view n) \<Longrightarrow>
      loses T (holders view n - {current view n}) (holders view n')"
proof -
  note law = assms [unfolded serves_message_def]
  show "cl_select client name n = (WireDone data, n') \<Longrightarrow>
      current view n' = name \<and> loses T (holders view n) (holders view n')"
    using law [THEN conjunct1] by blast
  show "cl_uid_fetch_first client u names n = (WireDone items, n') \<Longrightarrow>
      current view n' = current view n \<and> loses T (holders view n) (holders view n') \<and>
      ((current view n, u) \<in> K \<and> current view n \<in> holders view n \<longrightarrow> (\<exists>xs. items = Some xs \<and> MdUid u \<in> set xs))"
    using law [THEN conjunct2, THEN conjunct1] by blast
  show "cl_uid_copy client u target n = (WireDone (), n') \<Longrightarrow> (current view n, u) \<in> K \<Longrightarrow>
      loses T (if current view n \<in> holders view n then insert target (holders view n) else holders view n)
        (holders view n')"
    using law [THEN conjunct2, THEN conjunct2, THEN conjunct1] by blast
  show "cl_uid_move client u target n = (WireDone (), n') \<Longrightarrow> (current view n, u) \<in> K \<Longrightarrow>
      loses T (if current view n \<in> holders view n then insert target (holders view n - {current view n})
        else holders view n) (holders view n')"
    using law [THEN conjunct2, THEN conjunct2, THEN conjunct2, THEN conjunct1] by blast
  show "cl_uid_silent_store client u StoreAdd [FlDeleted] n = (WireDone (), n') \<Longrightarrow>
      current view n' = current view n \<and> loses T (holders view n) (holders view n') \<and>
      (current view n \<in> holders view n' \<longrightarrow> (current view n, u) \<in> marked view n')"
    using law [THEN conjunct2, THEN conjunct2, THEN conjunct2, THEN conjunct2, THEN conjunct1] by simp
  show "cl_resolve client (CmdUidExpunge u) n = (WireDone (events, TagOk), n') \<Longrightarrow> (current view n, u) \<in> K \<Longrightarrow>
      (current view n \<in> holders view n \<longrightarrow> (current view n, u) \<in> marked view n) \<Longrightarrow>
      loses T (holders view n - {current view n}) (holders view n')"
    using law [THEN conjunct2, THEN conjunct2, THEN conjunct2, THEN conjunct2, THEN conjunct2] by blast
qed

lemma select_validated_ok:
  assumes "serves_message client view K T"
    and "select_validated_mailbox client hex name location n = (Inr (), n')"
  shows "current view n' = name \<and> loses T (holders view n) (holders view n')"
  using assms(2) serves(1) [OF assms(1)]
  by (auto simp: select_validated_mailbox_def with_deadline_Inr split: sum.splits if_splits elim!: and_then_InrE)

lemma uid_sequence_set_Inr: "uid_sequence_set l = Inr u \<longleftrightarrow> u = il_uid l \<and> il_uid l \<noteq> 0"
  by (auto simp: uid_sequence_set_def)

lemma probe:
  assumes law: "serves_message client view K T"
  shows "verify_uid_fetch_response client l n = (Inr (), n') \<Longrightarrow> current view n' = current view n \<and> loses T (holders view n) (holders view n')"
    and "verify_uid_fetch_response client l n = (Inl f, n') \<Longrightarrow> uid_already_gone f \<Longrightarrow> (current view n, il_uid l) \<in> K \<Longrightarrow>
      loses T (holders view n) (holders view n') \<and> current view n \<notin> holders view n"
proof -
  show "current view n' = current view n \<and> loses T (holders view n) (holders view n')"
    if "verify_uid_fetch_response client l n = (Inr (), n')"
    using that serves(2) [OF law]
    by (auto simp: verify_uid_fetch_response_def with_deadline_Inr split: sum.splits elim!: and_then_InrE)
  assume run: "verify_uid_fetch_response client l n = (Inl f, n')" and gone: "uid_already_gone f"
    and K: "(current view n, il_uid l) \<in> K"
  from gone obtain label where f: "f = Failed (MissingFetchData label)"
    by (auto simp: uid_already_gone_def split: fault.splits ImapAdapterError.splits)
  have not_uid: "uid_sequence_set l \<noteq> Inl (Failed (MissingFetchData label))" by (simp add: uid_sequence_set_def)
  then obtain u where u: "uid_sequence_set l = Inr u" using run f
    by (cases "uid_sequence_set l") (auto simp: verify_uid_fetch_response_def)
  then have u': "u = il_uid l" by (simp add: uid_sequence_set_Inr)
  obtain items n1 where fetch: "cl_uid_fetch_first client u [MnUid] n = (WireDone items, n1)"
    using run u f by (cases "cl_uid_fetch_first client u [MnUid] n"; cases "fst (cl_uid_fetch_first client u [MnUid] n)")
      (auto simp: verify_uid_fetch_response_def with_deadline_def)
  then have missing: "verify_message_data_contains_uid l (case items of Some items \<Rightarrow> items | None \<Rightarrow> [])
      (L ''matching UID FETCH response'') = Inl f" and n1: "n1 = n'"
    using run u by (simp_all add: verify_uid_fetch_response_def with_deadline_def)
  have "MdUid (il_uid l) \<notin> set xs" if "items = Some xs" for xs
    using missing that by (force simp: verify_message_data_contains_uid_def list_ex_iff split: if_splits)
  then show "loses T (holders view n) (holders view n') \<and> current view n \<notin> holders view n"
    using serves(2) [OF law fetch] K by (auto simp: u' n1)
qed

text \<open>An action behind the validation ran with its mailbox selected, or the UID was gone.\<close>

lemma validated_ok:
  assumes "serves_message client view K T" and "on_validated_uid client hex name l act n = (Inr x, n')"
  shows "\<exists>n2. current view n2 = name \<and> loses T (holders view n) (holders view n2) \<and> act (il_uid l) n2 = (Inr x, n')"
proof -
  from assms(2) obtain n1 n2 where selected: "select_validated_mailbox client hex name l n = (Inr (), n1)"
    and probed: "verify_uid_fetch_response client l n1 = (Inr (), n2)" and acted: "act (il_uid l) n2 = (Inr x, n')"
    by (auto simp: on_validated_uid_def uid_sequence_set_Inr split: sum.splits elim!: and_then_InrE)
  from select_validated_ok [OF assms(1) selected] probe(1) [OF assms(1) probed] loses_trans
  have "current view n2 = name \<and> loses T (holders view n) (holders view n2)" by metis
  with acted show ?thesis by blast
qed

lemma validated_gone:
  assumes law: "serves_message client view K T" and "on_validated_uid client hex name l act n = (Inl f, n')"
    and gone: "uid_already_gone f" and "(name, il_uid l) \<in> K"
    and act: "\<And>f n2 n3. act (il_uid l) n2 = (Inl f, n3) \<Longrightarrow> \<not> uid_already_gone f"
  shows "loses T (holders view n) (holders view n') \<and> name \<notin> holders view n'"
proof (cases "select_validated_mailbox client hex name l n")
  case (Pair r n1)
  have "\<not> uid_already_gone e" if "r = Inl e" for e
    using Pair that
    by (cases "cl_select client name n"; cases "fst (cl_select client name n)")
      (auto simp: select_validated_mailbox_def with_deadline_def selected_mailbox_from_examine_def
        selected_mailbox_from_examine_state_def uid_already_gone_def split: option.splits if_splits)
  then have r: "r = Inr ()" using assms(2) Pair gone by (cases r) (auto simp: on_validated_uid_def)
  with Pair select_validated_ok [OF law] have n1: "current view n1 = name \<and> loses T (holders view n) (holders view n1)" by blast
  show ?thesis
  proof (cases "verify_uid_fetch_response client l n1")
    case probed: (Pair q n2)
    show ?thesis
    proof (cases q)
      case (Inl e)
      then have "e = f" "n2 = n'" using assms(2) Pair r probed by (simp_all add: on_validated_uid_def)
      with probe(2) [OF law probed [unfolded Inl]] gone n1 assms(4) show ?thesis
        by (auto simp: loses_def)
    next
      case (Inr y)
      have "il_uid l \<noteq> 0" using probed Inr
        by (auto simp: verify_uid_fetch_response_def uid_sequence_set_def split: if_splits)
      then have "act (il_uid l) n2 = (Inl f, n')"
        using assms(2) Pair r probed Inr by (simp add: on_validated_uid_def uid_sequence_set_def)
      with act gone show ?thesis by blast
    qed
  qed
qed

lemma copy_ok:
  assumes "serves_message client view K T" and "(name, il_uid l) \<in> K"
    and "copy_imap_message_to_mailbox_by_location client hex name l target n = (Inr (), n')"
  shows "holders view n' \<subseteq> insert target (holders view n) \<and> holders view n \<inter> T \<subseteq> holders view n' \<and>
    (name \<in> holders view n \<inter> T \<and> target \<in> T \<longrightarrow> target \<in> holders view n')"
proof -
  from validated_ok [OF assms(1) assms(3) [unfolded copy_imap_message_to_mailbox_by_location_def]]
  obtain n2 where n2: "current view n2 = name" "loses T (holders view n) (holders view n2)"
    and "cl_uid_copy client (il_uid l) target n2 = (WireDone (), n')" by (auto simp: with_deadline_Inr)
  from serves(3) [OF assms(1) this(3)] assms(2) n2 show ?thesis
    by (auto simp: loses_def split: if_splits)
qed

lemma move_ok:
  assumes "serves_message client view K T" and "(name, il_uid l) \<in> K"
    and "move_imap_message_to_mailbox_by_location client hex name l target n = (Inr (), n')"
  shows "holders view n' \<subseteq> insert target (holders view n - {name}) \<and>
    (holders view n - {name}) \<inter> T \<subseteq> holders view n' \<and>
    (name \<in> holders view n \<inter> T \<and> target \<in> T \<longrightarrow> target \<in> holders view n')"
proof -
  from validated_ok [OF assms(1) assms(3) [unfolded move_imap_message_to_mailbox_by_location_def]]
  obtain n2 where n2: "current view n2 = name" "loses T (holders view n) (holders view n2)"
    and "cl_uid_move client (il_uid l) target n2 = (WireDone (), n')" by (auto simp: with_deadline_Inr)
  from serves(4) [OF assms(1) this(3)] assms(2) n2 show ?thesis
    by (auto simp: loses_def split: if_splits)
qed

lemma with_deadline_not_gone: "with_deadline operation r = (Inl f, n) \<Longrightarrow> \<not> uid_already_gone f"
  by (cases r; cases "fst r") (auto simp: with_deadline_def uid_already_gone_def)

lemma uid_expunge_not_gone: "uid_expunge client l n = (Inl f, n') \<Longrightarrow> \<not> uid_already_gone f"
  by (auto simp: uid_expunge_def uid_sequence_set_def with_deadline_resolve_def and_then_def uid_already_gone_def
      split: if_splits prod.splits sum.splits dest!: with_deadline_not_gone)

lemma expunge_ok:
  assumes law: "serves_message client view K T" and K: "(name, il_uid l) \<in> K"
    and run: "expunge_imap_message_by_location client hex name l n = (Inr (), n')"
  shows "loses T (holders view n - {name}) (holders view n')"
proof -
  from validated_ok [OF law run [unfolded expunge_imap_message_by_location_def]] obtain n2 n3 seqs where
    n2: "current view n2 = name" "loses T (holders view n) (holders view n2)"
    and stored: "store_flags client (il_uid l) StoreAdd [FlDeleted] n2 = (Inr (), n3)"
    and expunged: "uid_expunge client l n3 = (Inr seqs, n')"
    by (auto elim!: and_then_InrE)
  from stored have "cl_uid_silent_store client (il_uid l) StoreAdd [FlDeleted] n2 = (WireDone (), n3)"
    by (simp add: store_flags_def with_deadline_Inr)
  from serves(5) [OF law this] n2 have n3: "current view n3 = name" "loses T (holders view n2) (holders view n3)"
    "name \<in> holders view n3 \<longrightarrow> (name, il_uid l) \<in> marked view n3" by auto
  from expunged obtain events where "cl_resolve client (CmdUidExpunge (il_uid l)) n3 = (WireDone (events, TagOk), n')"
    by (auto simp: uid_expunge_def uid_sequence_set_def with_deadline_resolve_def with_deadline_Inr tagged_def
        split: if_splits sum.splits StatusKind.splits elim!: and_then_InrE)
  from serves(6) [OF law this] K n3 have "loses T (holders view n3 - {name}) (holders view n')" by simp
  with n2(2) n3(2) show ?thesis by (auto simp: loses_def)
qed

lemma remove_ok:
  assumes law: "serves_message (ev_client env) view K T" and K: "(name, il_uid l) \<in> K"
    and uidplus: "supports_uidplus (da_capabilities (ev_discovery env))"
    and run: "remove_imap_message_from_mailbox env name l w = (Inr (), w')"
  shows "loses T (holders view (fst w) - {name}) (holders view (fst w')) \<and> snd w' = snd w"
proof (cases "expunge_imap_message_by_location (ev_client env) (lb_hex (ev_libs env)) name l (fst w)")
  case (Pair r n)
  show ?thesis
  proof (cases r)
    case (Inr x)
    with Pair run uidplus have "w' = (n, snd w)" by (simp add: remove_imap_message_from_mailbox_def)
    with expunge_ok [OF law K] Pair Inr show ?thesis by simp
  next
    case (Inl f)
    with Pair run uidplus have w': "w' = (n, snd w)" and gone: "uid_already_gone f"
      by (auto simp: remove_imap_message_from_mailbox_def split: if_splits)
    have "loses T (holders view (fst w)) (holders view n) \<and> name \<notin> holders view n"
    proof (rule validated_gone [OF law _ gone K])
      show "on_validated_uid (ev_client env) (lb_hex (ev_libs env)) name l (\<lambda>uid w.
          and_then (store_flags (ev_client env) uid StoreAdd [FlDeleted] w) (\<lambda>_ w.
          and_then (uid_expunge (ev_client env) l w) (\<lambda>_ w. (Inr (), w)))) (fst w) = (Inl f, n)"
        using Pair Inl by (simp add: expunge_imap_message_by_location_def)
    qed (auto simp: and_then_def store_flags_def split: prod.splits sum.splits
        dest!: with_deadline_not_gone uid_expunge_not_gone)
    with w' show ?thesis by (auto simp: loses_def)
  qed
qed

lemma names_frame: "snd w' = snd w \<Longrightarrow> mailbox_name_for_id env a i w' = mailbox_name_for_id env a i w"
  by (simp add: mailbox_name_for_id_def)

lemma copy_to_each_ok:
  assumes law: "serves_message (ev_client env) view K T" and K: "(source_name, il_uid source) \<in> K"
    and "copy_to_each env a source_name source ids w = (Inr (), w')"
    and "\<forall>i \<in> set ids. mailbox_name_for_id env a i w = Inr (nm i)"
  shows "holders view (fst w') \<subseteq> holders view (fst w) \<union> nm ` set ids \<and>
    holders view (fst w) \<inter> T \<subseteq> holders view (fst w') \<and>
    (source_name \<in> holders view (fst w) \<inter> T \<longrightarrow> nm ` set ids \<inter> T \<subseteq> holders view (fst w')) \<and> snd w' = snd w"
  using assms(3,4)
proof (induction ids arbitrary: w)
  case (Cons i ids)
  then obtain w1 where copied: "copy_imap_message_to_mailbox_by_location (ev_client env) (lb_hex (ev_libs env))
      source_name source (nm i) (fst w) = (Inr (), fst w1)" and w1: "snd w1 = snd w"
    and rest: "copy_to_each env a source_name source ids w1 = (Inr (), w')"
    by (auto simp: on_net_Inr elim!: and_then_InrE)
  have "\<forall>i \<in> set ids. mailbox_name_for_id env a i w1 = Inr (nm i)"
    using Cons.prems(2) by (simp add: names_frame [OF w1])
  note Cons.IH [OF rest this]
  moreover note copy_ok [OF law K copied]
  ultimately show ?case using w1 by (auto simp: subset_iff)
qed simp

lemma remove_from_each_ok:
  assumes law: "serves_message (ev_client env) view K T"
    and uidplus: "supports_uidplus (da_capabilities (ev_discovery env))"
    and K: "\<forall>l \<in> set locations. (nm (il_mailbox_id l), il_uid l) \<in> K"
    and "remove_from_each env a locations ids w = (Inr (), w')"
    and "\<forall>i \<in> set ids. mailbox_name_for_id env a i w = Inr (nm i)"
  shows "loses T (holders view (fst w) - nm ` set ids) (holders view (fst w')) \<and> snd w' = snd w"
  using assms(4,5)
proof (induction ids arbitrary: w)
  case (Cons i ids)
  then obtain l where found: "find_location i locations = Inr l" by (cases "find_location i locations") auto
  then have l: "l \<in> set locations" "il_mailbox_id l = i"
    by (auto simp: find_location_def find_Some_iff split: option.splits)
  obtain w1 where removed: "remove_imap_message_from_mailbox env (nm i) l w = (Inr (), w1)"
    and rest: "remove_from_each env a locations ids w1 = (Inr (), w')"
    using Cons.prems found by (auto elim!: and_then_InrE)
  have 1: "loses T (holders view (fst w) - {nm i}) (holders view (fst w1)) \<and> snd w1 = snd w"
    by (rule remove_ok [OF law _ uidplus removed]) (use K l in auto)
  then have "\<forall>i \<in> set ids. mailbox_name_for_id env a i w1 = Inr (nm i)"
    using Cons.prems(2) by (simp add: names_frame [of w1 w])
  from Cons.IH [OF rest this] 1 show ?case by (auto simp: loses_def)
qed (simp add: loses_def)

lemma replacement_images:
  assumes "inj_on nm (C \<union> R)"
  shows "nm ` R = (nm ` C - nm ` (C - R)) \<union> nm ` (R - C)" and "nm ` (R - C) \<inter> nm ` C = {}"
  using assms by (auto simp: inj_on_def)

lemma moved_set:
  assumes "B = (A - {x}) \<union> {y}" "x \<in> A" "loses T A H" "H' \<subseteq> insert y (H - {x})" "(H - {x}) \<inter> T \<subseteq> H'"
    and "x \<in> H \<inter> T \<and> y \<in> T \<longrightarrow> y \<in> H'"
  shows "H' \<subseteq> B \<and> (B \<subseteq> T \<and> x \<in> T \<longrightarrow> H' = B)"
proof (intro conjI impI)
  show sub: "H' \<subseteq> B" using assms(1,3,4) unfolding loses_def by blast
  assume T: "B \<subseteq> T \<and> x \<in> T"
  have "y \<in> H'" using T assms(1-3,6) unfolding loses_def by blast
  moreover have "A - {x} \<subseteq> H'" using T assms(1,3,5) unfolding loses_def by blast
  ultimately show "H' = B" using sub assms(1) by blast
qed

lemma copied_set:
  assumes "B = (A - X) \<union> Y" "Y \<inter> A = {}" "X \<subseteq> A" "x \<in> A" "loses T A H"
    and "H1 \<subseteq> H \<union> Y" "H \<inter> T \<subseteq> H1" "x \<in> H \<inter> T \<longrightarrow> Y \<inter> T \<subseteq> H1" "loses T (H1 - X) H'"
  shows "H' \<subseteq> B \<and> (B \<subseteq> T \<and> x \<in> T \<longrightarrow> H' = B)"
proof (intro conjI impI)
  show sub: "H' \<subseteq> B" using assms(1,3,5,6,9) unfolding loses_def by blast
  assume T: "B \<subseteq> T \<and> x \<in> T"
  have "Y \<subseteq> H1" using T assms(1,4,5,8) unfolding loses_def by blast
  then have "Y \<subseteq> H'" using T assms(1-3,9) unfolding loses_def by blast
  moreover have "A - X \<subseteq> H1" using T assms(1,5,7) unfolding loses_def by blast
  then have "A - X \<subseteq> H'" using T assms(1,9) unfolding loses_def by blast
  ultimately show "H' = B" using sub assms(1) by blast
qed

text \<open>The coordinate that a replacement copies or moves from.\<close>

definition replacement_source ::
  "ImapCapabilities \<Rightarrow> ImapMessageLocation list \<Rightarrow> str list \<Rightarrow> str set" where
  "replacement_source capabilities locations target =
     (case simple_imap_move_mailboxes capabilities
             (imap_mailbox_replacement_delta (map il_mailbox_id locations) target) of
        Some (source, _) \<Rightarrow> {source}
      | None \<Rightarrow> set (take 1 (map il_mailbox_id locations)))"

text \<open>
  C33. A replacement does what it reports. On a UIDPLUS server, let the stored coordinates of a message
  be those the server knows, under distinct mailbox names, and cover the mailboxes that hold it; the
  server may have taken the message out of some of them and may do so during the run, and a command on
  a message that is gone completes without effect. When replacing the mailboxes of the message by a
  new set succeeds -- by one UID MOVE, or by copies and scoped expunges -- the message is in no
  mailbox outside the new set, and no table has changed: the coordinates are left to the next sync. It
  is in exactly the new set if the server itself leaves it in the mailboxes of that set and in the one
  that the program copies or moves it from, whatever else the server removes.
\<close>

theorem replacement_reaches_target:
  assumes law: "serves_message (ev_client env) view K T"
    and uidplus: "supports_uidplus (da_capabilities (ev_discovery env))"
    and locations: "locations_of env (L ''mailbox replacement state lookup'') a m w = Inr locations"
    and K: "\<forall>l \<in> set locations. (nm (il_mailbox_id l), il_uid l) \<in> K"
    and names: "\<forall>i \<in> il_mailbox_id ` set locations \<union> set target. mailbox_name_for_id env a i w = Inr (nm i)"
      "inj_on nm (il_mailbox_id ` set locations \<union> set target)"
    and before: "loses T (nm ` il_mailbox_id ` set locations) (holders view (fst w))"
    and run: "replace_message_mailboxes env a m target w = (Inr (), w')"
  shows "holders view (fst w') \<subseteq> nm ` set target \<and> snd w' = snd w \<and>
    (nm ` (set target \<union> replacement_source (da_capabilities (ev_discovery env)) locations target) \<subseteq> T \<longrightarrow>
       holders view (fst w') = nm ` set target)"
proof -
  let ?cur = "il_mailbox_id ` set locations"
  let ?change = "imap_mailbox_replacement_delta (map il_mailbox_id locations) target"
  let ?source = "replacement_source (da_capabilities (ev_discovery env)) locations target"
  have change: "set (rd_add ?change) = set target - ?cur" "set (rd_remove ?change) = ?cur - set target"
    by (simp_all add: imap_mailbox_replacement_delta_def)
  note images = replacement_images [OF names(2)]
  show ?thesis
  proof (cases "simple_imap_move_mailboxes (da_capabilities (ev_discovery env)) ?change")
    case (Some move)
    then obtain s t where st: "rd_remove ?change = [s]" "rd_add ?change = [t]" "move = (s, t)"
      by (auto simp: simple_imap_move_mailboxes_def split: if_splits list.splits)
    then have cur: "?cur - set target = {s}" "set target - ?cur = {t}" using change by simp_all
    then obtain source where source: "find_location s locations = Inr source"
      using run Some st(3) locations by (cases "find_location s locations") (auto simp: replace_message_mailboxes_def Let_def)
    then have l: "source \<in> set locations" "il_mailbox_id source = s"
      by (auto simp: find_location_def find_Some_iff split: option.splits)
    have "mailbox_name_for_id env a s w = Inr (nm s)" "mailbox_name_for_id env a t w = Inr (nm t)"
      using names(1) cur by blast+
    then have "on_net (move_imap_message_to_mailbox_by_location (ev_client env) (lb_hex (ev_libs env)) (nm s)
        source (nm t)) w = (Inr (), w')"
      using run Some st(3) locations source by (simp add: replace_message_mailboxes_def Let_def)
    then have ran: "move_imap_message_to_mailbox_by_location (ev_client env) (lb_hex (ev_libs env)) (nm s)
        source (nm t) (fst w) = (Inr (), fst w')" and frame: "snd w' = snd w" by (simp_all add: on_net_Inr)
    have "(nm s, il_uid source) \<in> K" using K l by blast
    note moved = move_ok [OF law this ran]
    have B: "nm ` set target = (nm ` ?cur - {nm s}) \<union> {nm t}" "nm s \<in> nm ` ?cur"
      using images(1) cur by auto
    have "nm ` (set target \<union> ?source) = insert (nm s) (nm ` set target)"
      by (simp add: replacement_source_def Some st(3))
    with moved_set [OF B before moved [THEN conjunct1] moved [THEN conjunct2, THEN conjunct1]
        moved [THEN conjunct2, THEN conjunct2]] frame show ?thesis by simp
  next
    case None
    then obtain source rest where ls: "locations = source # rest"
      using run locations by (cases locations) (auto simp: replace_message_mailboxes_def Let_def)
    let ?name = "nm (il_mailbox_id source)"
    have "mailbox_name_for_id env a (il_mailbox_id source) w = Inr ?name" using names(1) ls by simp
    then obtain w1 where copied: "copy_to_each env a ?name source (rd_add ?change) w = (Inr (), w1)"
      and removed: "remove_from_each env a locations (rd_remove ?change) w1 = (Inr (), w')"
      using run None locations ls by (auto simp: replace_message_mailboxes_def Let_def elim!: and_then_InrE)
    have w1: "holders view (fst w1) \<subseteq> holders view (fst w) \<union> nm ` (set target - ?cur)"
        "holders view (fst w) \<inter> T \<subseteq> holders view (fst w1)"
        "?name \<in> holders view (fst w) \<inter> T \<longrightarrow> nm ` (set target - ?cur) \<inter> T \<subseteq> holders view (fst w1)"
        "snd w1 = snd w"
      using copy_to_each_ok [OF law _ copied, of nm] K names(1) ls change by auto
    have "\<forall>i \<in> set (rd_remove ?change). mailbox_name_for_id env a i w1 = Inr (nm i)"
      using names(1) change names_frame [OF w1(4)] by auto
    from remove_from_each_ok [OF law uidplus K removed this] have
      gone: "loses T (holders view (fst w1) - nm ` (?cur - set target)) (holders view (fst w'))" "snd w' = snd w"
      using w1(4) change by auto
    have "?source = {il_mailbox_id source}" unfolding replacement_source_def None by (simp add: ls)
    then have src: "nm ` (set target \<union> ?source) = insert ?name (nm ` set target)" "?name \<in> nm ` ?cur"
      by (simp_all add: ls)
    have "nm ` (?cur - set target) \<subseteq> nm ` ?cur" by blast
    note copied_set [OF images this src(2) before w1(1-3) gone(1)]
    with gone(2) show ?thesis unfolding src(1) by simp
  qed
qed

text \<open>A server that keeps the selected mailbox, the holders of the message and the flagged UIDs.\<close>

type_synonym message_server = "str \<times> str set \<times> (str \<times> ImapUid) set"

definition message_server_client :: "message_server ImapClient" where
  "message_server_client =
     \<lparr>cl_resolve = (\<lambda>command (c, h, k). (WireDone ([], TagOk), case command of
        CmdUidExpunge u \<Rightarrow> (c, if (c, u) \<in> k then h - {c} else h, k) | _ \<Rightarrow> (c, h, k))),
      cl_uid_search_undeleted = (\<lambda>n. (WireDone [], n)),
      cl_uid_fetch = (\<lambda>us names n. (WireDone [], n)),
      cl_uid_fetch_first = (\<lambda>u names (c, h, k). (WireDone (if c \<in> h then Some [MdUid u] else None), (c, h, k))),
      cl_enable = (\<lambda>names n. (WireDone (Some names), n)),
      cl_select = (\<lambda>name (c, h, k). (WireDone (select_data_default\<lparr>sl_uid_validity := Some 1\<rparr>), (name, h, k))),
      cl_uid_silent_store = (\<lambda>u kind flags (c, h, k). (WireDone (), (c, h, insert (c, u) k))),
      cl_uid_copy = (\<lambda>u name (c, h, k). (WireDone (), (c, if c \<in> h then insert name h else h, k))),
      cl_uid_move = (\<lambda>u name (c, h, k). (WireDone (), (c, if c \<in> h then insert name (h - {c}) else h, k))),
      cl_append = (\<lambda>name flags bytes n. (WireDone None, n)),
      cl_refresh_capabilities = (\<lambda>n. (WireDone (), n)), cl_capabilities = (\<lambda>n. []),
      cl_mailbox_name_ok = (\<lambda>name. True), cl_validate_select = (\<lambda>data. Inr ()),
      cl_task_error_display = (\<lambda>e. []), cl_empty_sequence_error = []\<rparr>"

definition message_server_view :: "message_server MessageView" where
  "message_server_view = \<lparr>current = fst, holders = fst \<circ> snd, marked = snd \<circ> snd\<rparr>"

definition archive_env :: "message_server ImapEnv" where
  "archive_env = \<lparr>ev_client = message_server_client,
     ev_libs = \<lparr>lb_hex = (\<lambda>_. []), lb_parse = (\<lambda>_. None), lb_flag_of = example_flag_of, lb_flag_display = example_display\<rparr>,
     ev_discovery = \<lparr>da_capabilities = capabilities_from_tokens [L ''UIDPLUS''],
       da_mailboxes = map (\<lambda>i. \<lparr>dm_id = i, dm_name = i, dm_role = None, dm_selectable = True, dm_attributes = []\<rparr>) [[7], [8]]\<rparr>,
     ev_has_store = True, ev_now = Inr []\<rparr>"

lemma message_server_serves: "serves_message message_server_client message_server_view {([7], 9)} UNIV"
  by (auto simp: serves_message_def loses_def message_server_client_def message_server_view_def split: if_splits)

lemma archive_client: "ev_client archive_env = message_server_client"
  by (simp add: archive_env_def)

lemma archive_facts:
  "supports_uidplus (da_capabilities (ev_discovery archive_env))"
  "\<not> supports_move (da_capabilities (ev_discovery archive_env))"
  "locations_of archive_env operation [1] [2] (n, example_sync_db) = Inr [example_location [2] [7] 9]"
  "mailbox_name_for_id archive_env [1] [7] (n, example_sync_db) = Inr [7]"
  "mailbox_name_for_id archive_env [1] [8] (n, example_sync_db) = Inr [8]"
proof -
  have "ev_discovery archive_env = \<lparr>da_capabilities = capabilities_from_tokens [L ''UIDPLUS''],
      da_mailboxes = da_mailboxes (ev_discovery archive_env)\<rparr>" by (simp add: archive_env_def)
  moreover have "supports_uidplus (capabilities_from_tokens [L ''UIDPLUS''])"
    "\<not> supports_move (capabilities_from_tokens [L ''UIDPLUS''])" by code_simp+
  ultimately show "supports_uidplus (da_capabilities (ev_discovery archive_env))"
    "\<not> supports_move (da_capabilities (ev_discovery archive_env))" by (metis DiscoveredImapAccount.select_convs(1))+
qed (simp_all add: archive_env_def locations_of_def list_imap_message_locations_def example_sync_db_def
    mailbox_name_for_id_def get_imap_mailbox_state_def)

lemma archive_run:
  "\<exists>n. replace_message_mailboxes archive_env [1] [2] [[8]] (([], {[7]}, {}), example_sync_db) = (Inr (), (n, example_sync_db))"
proof -
  let ?l = "example_location [2] [7] 9"
  have change: "imap_mailbox_replacement_delta [[7]] [[8]] = \<lparr>rd_add = [[8]], rd_remove = [[7]]\<rparr>"
    by (simp add: imap_mailbox_replacement_delta_def bt_collect_def)
  have box: "il_mailbox_id ?l = [7]" by (simp add: example_location_def)
  have strategy: "plan_imap_move (da_capabilities (ev_discovery archive_env)) = CopyDeleteThenResync"
    by (simp add: plan_imap_move_def archive_facts)
  have selected: "select_validated_mailbox (ev_client archive_env) hex [7] ?l (c, h, k) = (Inr (), ([7], h, k))" for hex c h k
    by (simp add: select_validated_mailbox_def archive_env_def message_server_client_def with_deadline_def
        select_data_default_def selected_mailbox_from_examine_def selected_mailbox_from_examine_state_def example_location_def)
  have probed: "verify_uid_fetch_response (ev_client archive_env) ?l ([7], insert [7] h, k) = (Inr (), ([7], insert [7] h, k))" for h k
    by (simp add: verify_uid_fetch_response_def uid_sequence_set_def archive_env_def message_server_client_def
        with_deadline_def verify_message_data_contains_uid_def example_location_def)
  have copied: "copy_imap_message_to_mailbox_by_location (ev_client archive_env) hex [7] ?l t (c, insert [7] h, k) =
      (Inr (), ([7], insert t (insert [7] h), k))" for hex t c h k
    by (simp add: copy_imap_message_to_mailbox_by_location_def on_validated_uid_def selected probed uid_sequence_set_def)
      (simp add: archive_env_def message_server_client_def with_deadline_def example_location_def)
  have removed: "\<exists>n. expunge_imap_message_by_location (ev_client archive_env) hex [7] ?l (c, insert [7] h, k) = (Inr (), n)" for hex c h k
    by (simp add: expunge_imap_message_by_location_def on_validated_uid_def selected probed uid_sequence_set_def
        uid_expunge_def store_flags_def)
      (simp add: archive_env_def message_server_client_def with_deadline_def with_deadline_resolve_def tagged_def example_location_def)
  then obtain n where "expunge_imap_message_by_location (ev_client archive_env) (lb_hex (ev_libs archive_env)) [7] ?l
      ([7], insert [8] {[7]}, {}) = (Inr (), n)" by (metis insert_commute)
  then show ?thesis
    by (simp add: replace_message_mailboxes_def archive_facts change simple_imap_move_mailboxes_def strategy Let_def
        on_net_def copied find_location_def remove_imap_message_from_mailbox_def box del: One_nat_def)
      (cases n; simp)
qed

theorem replacement_reaches_target_witness:
  "\<exists>n. replace_message_mailboxes archive_env [1] [2] [[8]] (([], {[7]}, {}), example_sync_db) = (Inr (), (n, example_sync_db)) \<and>
   holders message_server_view n = {[8]}"
proof -
  obtain n where run: "replace_message_mailboxes archive_env [1] [2] [[8]] (([], {[7]}, {}), example_sync_db) =
      (Inr (), (n, example_sync_db))" using archive_run by blast
  have "loses UNIV (id ` il_mailbox_id ` set [example_location [2] [7] 9])
      (holders message_server_view (fst (([], {[7]}, {}) :: message_server, example_sync_db)))"
    by (simp add: loses_def message_server_view_def example_location_def)
  from replacement_reaches_target [OF message_server_serves [folded archive_client] archive_facts(1,3) _ _ _ this run]
  have "holders message_server_view n = {[8]}"
    using archive_facts(4,5) by (simp add: example_location_def)
  with run show ?thesis by simp
qed

end
