(* ===== verification/SyncCycle.thy ===== *)
theory SyncCycle
  imports OutboxFlush Mutation ImapStore
begin

text \<open>
  The sync cycle of the mail service (\<open>domain-service/src/service/sync_ops.rs\<close>): flush the log,
  apply the pull chunk by chunk, reconcile, run the late steps, flush again, sweep. The provider's
  streamed pull is a tree of chunks whose continuation sees the answer of the sink
  (\<open>SyncChunkSink::emit\<close> in \<open>ports/gateway.rs\<close>). The events of a base write and their publication,
  the progress reports and the two post-commit steps, body cache candidates and automation rules,
  are parameters or left out.
\<close>

subsection \<open>The state and the environment\<close>

record CycleDb =
  cy_sync :: SyncDb
  cy_snoozes :: "((str \<times> str) \<times> int) list"

abbreviation cy_mail :: "CycleDb \<Rightarrow> MailDb" where
  "cy_mail s \<equiv> sd_mail (cy_sync s)"

definition on_sync :: "(SyncDb \<Rightarrow> SyncDb) \<Rightarrow> CycleDb \<Rightarrow> CycleDb" where
  "on_sync f s = s\<lparr>cy_sync := f (cy_sync s)\<rparr>"

definition on_messages :: "(MailDb \<Rightarrow> 'a \<times> MailDb) \<Rightarrow> CycleDb \<Rightarrow> 'a \<times> CycleDb" where
  "on_messages f s = (case f (cy_mail s) of
     (result, mail) \<Rightarrow> (result, on_sync (\<lambda>db. db\<lparr>sd_mail := mail\<rparr>) s))"

definition on_mutations :: "(MutDb \<Rightarrow> 'a \<times> MutDb) \<Rightarrow> CycleDb \<Rightarrow> 'a \<times> CycleDb" where
  "on_mutations f s = (case f \<lparr>mu_mail = cy_mail s, mu_snoozes = cy_snoozes s\<rparr> of
     (result, m) \<Rightarrow> (result,
        (on_sync (\<lambda>db. db\<lparr>sd_mail := mu_mail m\<rparr>) s)\<lparr>cy_snoozes := mu_snoozes m\<rparr>))"

text \<open>A streamed pull: it ends with its outcome, or emits a chunk and reads the sink's answer.\<close>

datatype 'g Pull =
    PullEnd 'g "(gw_error, ImapSyncReconciliation option) result"
  | PullEmit ImapSyncBatch "gw_error option \<Rightarrow> 'g Pull"

text \<open>
  What the cycle calls: the provider, the store's commits, which can fail, the configuration and the
  two post-commit steps, the readings of the clock and the ids of new operations.
\<close>

record 'g CycleEnv =
  ce_gateway :: "'g Gateway"
  ce_sync :: "str \<Rightarrow> SyncCursor list \<Rightarrow> 'g \<Rightarrow> (gw_error, ImapSyncBatch) result \<times> 'g"
  ce_pull :: "str \<Rightarrow> SyncCursor list \<Rightarrow> 'g \<Rightarrow> 'g Pull"
  ce_apply_error :: "ImapSyncBatch \<Rightarrow> StoreError option"
  ce_reconcile_error :: "ImapSyncReconciliation \<Rightarrow> StoreError option"
  ce_candidates :: "str \<Rightarrow> MessageRecord list \<Rightarrow> (svc_error, svc_error option) result"
  ce_automation :: "str \<Rightarrow> MessageRecord list \<Rightarrow> 'g \<Rightarrow> CycleDb \<Rightarrow>
                    (svc_error, DomainEvent list) result \<times> 'g \<times> CycleDb"
  ce_entry_mono :: int
  ce_flush_clock :: Clock
  ce_settle_clock :: Clock
  ce_sweep_clock :: Clock
  ce_filing_id :: "str \<Rightarrow> str"
  ce_repair_id :: "str \<Rightarrow> str"

text \<open>The default streamed pull of a gateway: one self-reconciling chunk.\<close>

definition sync_streamed ::
  "'g CycleEnv \<Rightarrow> str \<Rightarrow> SyncCursor list \<Rightarrow> 'g \<Rightarrow> 'g Pull" where
  "sync_streamed env account_id cursors g =
     (case ce_sync env account_id cursors g of
        (Inl error, g) \<Rightarrow> PullEnd g (Inl error)
      | (Inr batch, g) \<Rightarrow> PullEmit batch (\<lambda>answer. case answer of
          Some error \<Rightarrow> PullEnd g (Inl error) | None \<Rightarrow> PullEnd g (Inr None)))"

subsection \<open>The sink\<close>

record Sink =
  sk_db :: CycleDb
  sk_messages :: "MessageRecord list"
  sk_mailbox_count :: nat
  sk_deleted_imap_location_count :: nat
  sk_deleted_message_count :: nat
  sk_error :: "svc_error option"

definition new_sink :: "CycleDb \<Rightarrow> Sink" where
  "new_sink s = \<lparr>sk_db = s, sk_messages = [], sk_mailbox_count = 0,
                 sk_deleted_imap_location_count = 0, sk_deleted_message_count = 0,
                 sk_error = None\<rparr>"

definition written_rows :: "ImapSyncBatch \<Rightarrow> str set" where
  "written_rows batch =
     set (map mr_id (sb_messages batch)) \<union> set (sb_deleted_message_ids batch) \<union>
     set (sb_absence_deleted_message_ids batch) \<union>
     set (map ik_message_id
       (ib_deleted_message_locations batch @ ib_absence_deleted_message_locations batch))"

definition emit_chunk ::
  "'g CycleEnv \<Rightarrow> str \<Rightarrow> ImapSyncBatch \<Rightarrow> Sink \<Rightarrow> (gw_error, unit) result \<times> Sink" where
  "emit_chunk env account_id batch sink = (case ce_apply_error env batch of
     Some error \<Rightarrow>
       (Inl (Rejected (L ''sync chunk could not be applied'')),
        sink\<lparr>sk_error := Some (SStore error)\<rparr>)
   | None \<Rightarrow>
       (case on_messages (\<lambda>db. store_result (replay_base_write account_id (written_rows batch) db))
               (on_sync (apply_imap_sync_batch account_id batch) (sk_db sink)) of
          (Inl error, s) \<Rightarrow>
            (Inl (Rejected (L ''post-chunk overlay replay failed'')),
             sink\<lparr>sk_db := s, sk_error := Some error\<rparr>)
        | (Inr _, s) \<Rightarrow>
            (Inr (),
             sink\<lparr>sk_db := s,
                  sk_mailbox_count := sk_mailbox_count sink + length (ib_mailboxes batch),
                  sk_deleted_imap_location_count := sk_deleted_imap_location_count sink +
                    length (ib_deleted_message_locations batch),
                  sk_deleted_message_count := sk_deleted_message_count sink +
                    length (sb_deleted_message_ids batch),
                  sk_messages := sk_messages sink @ sb_messages batch\<rparr>)))"

primrec run_pull ::
  "'g CycleEnv \<Rightarrow> str \<Rightarrow> 'g Pull \<Rightarrow> Sink \<Rightarrow>
   (gw_error, ImapSyncReconciliation option) result \<times> 'g \<times> Sink" where
  "run_pull env account_id (PullEnd g outcome) = (\<lambda>sink. (outcome, g, sink))"
| "run_pull env account_id (PullEmit batch continue_with) = (\<lambda>sink.
     case emit_chunk env account_id batch sink of
       (Inl error, sink) \<Rightarrow> run_pull env account_id (continue_with (Some error)) sink
     | (Inr _, sink) \<Rightarrow> run_pull env account_id (continue_with None) sink)"

subsection \<open>Adoption of sent copies\<close>

text \<open>
  \<open>find_base_message_id_by_rfc_prefix\<close> of \<open>store/src/overlay.rs\<close>: the escaped \<open>LIKE\<close> is a prefix
  test that ignores ASCII case.
\<close>

definition find_base_message_id_by_rfc_prefix :: "MailDb \<Rightarrow> str \<Rightarrow> str \<Rightarrow> str option" where
  "find_base_message_id_by_rfc_prefix db account_id prefix =
     map_option (\<lambda>row. snd (fst row))
       (List.find (\<lambda>row. fst (fst row) = account_id \<and>
          (case mr_rfc_message_id (snd row) of
             Some rfc \<Rightarrow> starts_with (to_ascii_lowercase rfc) (to_ascii_lowercase prefix)
           | None \<Rightarrow> False)) (db_base db))"

definition file_drafts_ghost ::
  "'g CycleEnv \<Rightarrow> str \<Rightarrow> str option \<Rightarrow> str option \<Rightarrow> str \<Rightarrow> MutDb \<Rightarrow>
   (svc_error, DomainEvent list) result \<times> MutDb" where
  "file_drafts_ghost env account_id sent_mailbox drafts_mailbox adopted_id s =
     (case (sent_mailbox, drafts_mailbox, read_base (mu_mail s) account_id adopted_id) of
        (Some sent, Some drafts, Some record) \<Rightarrow>
          (if drafts \<in> set (mr_mailbox_ids record) \<and> sent \<notin> set (mr_mailbox_ids record)
           then replace_mailboxes (ce_sweep_clock env) (ce_filing_id env adopted_id) account_id
                  adopted_id
                  \<lparr>rmc_mailbox_ids =
                     filter (\<lambda>mailbox_id. mailbox_id \<noteq> drafts) (mr_mailbox_ids record) @ [sent]\<rparr> s
           else (Inr [], s))
      | _ \<Rightarrow> (Inr [], s))"

definition adopt_one ::
  "'g CycleEnv \<Rightarrow> str \<Rightarrow> str option \<Rightarrow> str option \<Rightarrow> Operation \<Rightarrow> MutDb \<Rightarrow>
   (svc_error, DomainEvent list) result \<times> MutDb" where
  "adopt_one env account_id sent_mailbox drafts_mailbox operation s =
     (if op_kind operation \<noteq> KSend then (Inr [], s)
      else case find_base_message_id_by_rfc_prefix (mu_mail s) account_id
                  (send_identity_prefix (op_id operation)) of
        None \<Rightarrow> (Inr [], s)
      | Some adopted_id \<Rightarrow>
          (let send_row_id = en_id (op_entity operation);
               s = s\<lparr>mu_mail := (mu_mail s)\<lparr>db_send_alias :=
                     set_send_alias account_id send_row_id adopted_id (db_send_alias (mu_mail s))\<rparr>\<rparr>
           in and_then
                (on_mail (\<lambda>db. store_result (remove_op_and_derive account_id (op_id operation)
                   [send_row_id] (\<lambda>message_id snapshot. fold_overlay_row snapshot message_id) db)) s)
                (\<lambda>diff s. and_then
                  (case diff of
                     d # _ \<Rightarrow> (if retired d
                              then on_mail (\<lambda>db. with_echo
                                     (deleted_echo (ce_sweep_clock env) account_id send_row_id db)) s
                              else (Inr [], s))
                   | [] \<Rightarrow> (Inr [], s))
                  (\<lambda>echo s. and_then
                    (file_drafts_ghost env account_id sent_mailbox drafts_mailbox adopted_id s)
                    (\<lambda>filing s. (Inr (echo @ filing), s))))))"

fun adopt_loop ::
  "'g CycleEnv \<Rightarrow> str \<Rightarrow> str option \<Rightarrow> str option \<Rightarrow> Operation list \<Rightarrow> MutDb \<Rightarrow>
   (svc_error, DomainEvent list) result \<times> MutDb" where
  "adopt_loop env account_id sent drafts [] s = (Inr [], s)"
| "adopt_loop env account_id sent drafts (operation # rest) s =
     and_then (adopt_one env account_id sent drafts operation s)
       (\<lambda>events s. and_then (adopt_loop env account_id sent drafts rest s)
         (\<lambda>more s. (Inr (events @ more), s)))"

definition adopt_sent_copies ::
  "'g CycleEnv \<Rightarrow> str \<Rightarrow> MutDb \<Rightarrow> (svc_error, DomainEvent list) result \<times> MutDb" where
  "adopt_sent_copies env account_id s =
     adopt_loop env account_id
       (read_mailbox_id_by_role (mu_mail s) account_id (L ''sent''))
       (read_mailbox_id_by_role (mu_mail s) account_id (L ''drafts''))
       (map so_operation (list_settled_operations account_id (db_outbox (mu_mail s)))) s"

subsection \<open>The sweep\<close>

definition keyed_operation :: "str \<Rightarrow> str \<Rightarrow> outbox \<Rightarrow> bool" where
  "keyed_operation account_id message_id tbl =
     list_ex (\<lambda>operation. en_id (op_entity operation) = message_id)
       (list_pending_operations account_id tbl @ list_unsettled_operations account_id tbl)"

definition try_repair_lingering_tombstone ::
  "'g CycleEnv \<Rightarrow> str \<Rightarrow> str \<Rightarrow> MutDb \<Rightarrow>
   (svc_error, DomainEvent list option) result \<times> MutDb" where
  "try_repair_lingering_tombstone env account_id message_id s =
     (if read_overlay (mu_mail s) account_id message_id \<noteq> Some None then (Inr None, s)
      else if read_base (mu_mail s) account_id message_id = None then (Inr None, s)
      else if keyed_operation account_id message_id (db_outbox (mu_mail s)) then (Inr None, s)
      else and_then
        (on_mail (delete_draft (ce_sweep_clock env) (ce_repair_id env message_id) account_id message_id True) s)
        (\<lambda>(operation, events) s. (Inr (Some events), s)))"

fun sweep_rows ::
  "'g CycleEnv \<Rightarrow> str \<Rightarrow> str list \<Rightarrow> MutDb \<Rightarrow> (svc_error, DomainEvent list) result \<times> MutDb" where
  "sweep_rows env account_id [] s = (Inr [], s)"
| "sweep_rows env account_id (message_id # rest) s =
     and_then (try_repair_lingering_tombstone env account_id message_id s)
       (\<lambda>repaired s. and_then
         (case repaired of
            Some events \<Rightarrow> (Inr events, s)
          | None \<Rightarrow> and_then (on_mail (refresh account_id message_id) s) (\<lambda>_ s. (Inr [], s)))
         (\<lambda>events s. and_then (sweep_rows env account_id rest s)
           (\<lambda>more s. (Inr (events @ more), s))))"

definition sweep_message_overlay ::
  "'g CycleEnv \<Rightarrow> str \<Rightarrow> int \<Rightarrow> MutDb \<Rightarrow> (svc_error, DomainEvent list) result \<times> MutDb" where
  "sweep_message_overlay env account_id cycle_started_mono s =
     and_then (adopt_sent_copies env account_id s)
       (\<lambda>adopted s. and_then
         (on_mail (truncate_settled_operations (ce_sweep_clock env) account_id cycle_started_mono) s)
         (\<lambda>truncated s. and_then
           (on_mail (\<lambda>db. store_result (replay_inventory db account_id, db)) s)
           (\<lambda>inventory s. and_then (sweep_rows env account_id inventory s)
             (\<lambda>swept s. (Inr (adopted @ truncated @ swept), s)))))"

subsection \<open>The cycle\<close>

definition get_sync_cursors :: "str \<Rightarrow> MailDb \<Rightarrow> SyncCursor list" where
  "get_sync_cursors account_id db =
     List.map_filter (\<lambda>object. db_cursors db (account_id, object)) [SMailbox, SMessage]"

definition requires_full_message_metadata :: "SyncMode \<Rightarrow> bool" where
  "requires_full_message_metadata mode \<longleftrightarrow> mode = FullMetadata"

definition cycle_cursors :: "str \<Rightarrow> SyncMode \<Rightarrow> MailDb \<Rightarrow> SyncCursor list" where
  "cycle_cursors account_id mode db =
     (if requires_full_message_metadata mode
      then filter (\<lambda>cursor. cu_object_type cursor \<noteq> SMessage) (get_sync_cursors account_id db)
      else get_sync_cursors account_id db)"

definition flush_leg ::
  "'g CycleEnv \<Rightarrow> Clock \<Rightarrow> str \<Rightarrow> 'g \<times> CycleDb \<Rightarrow>
   (svc_error, DomainEvent list) result \<times> 'g \<times> CycleDb" where
  "flush_leg env clock account_id st = (case st of (g, s) \<Rightarrow>
     (case flush_account (ce_gateway env) clock account_id g (cy_mail s) of
        (result, g, mail, events) \<Rightarrow>
          (map_result (\<lambda>_. events) result, g, on_sync (\<lambda>db. db\<lparr>sd_mail := mail\<rparr>) s)))"

definition pull_leg ::
  "'g CycleEnv \<Rightarrow> str \<Rightarrow> SyncCursor list \<Rightarrow> 'g \<times> CycleDb \<Rightarrow>
   (svc_error, Sink \<times> ImapSyncReconciliation option) result \<times> 'g \<times> CycleDb" where
  "pull_leg env account_id cursors st = (case st of (g, s) \<Rightarrow>
     (case run_pull env account_id (ce_pull env account_id cursors g) (new_sink s) of
        (Inl error, g, sink) \<Rightarrow>
          (Inl (case sk_error sink of Some e \<Rightarrow> e | None \<Rightarrow> SGateway error), g, sk_db sink)
      | (Inr reconciliation, g, sink) \<Rightarrow> (Inr (sink, reconciliation), g, sk_db sink)))"

text \<open>The rows the reconciliation events name: those it deleted or took out of a mailbox.\<close>

definition pruned_rows :: "str \<Rightarrow> MailDb \<Rightarrow> MailDb \<Rightarrow> str set" where
  "pruned_rows account_id before after =
     set (filter (\<lambda>message_id. map_of (db_base after) (account_id, message_id) \<noteq>
                               map_of (db_base before) (account_id, message_id))
       (bt_collect (local_message_ids account_id before)))"

definition reconcile_leg ::
  "'g CycleEnv \<Rightarrow> str \<Rightarrow> ImapSyncReconciliation option \<Rightarrow> 'g \<times> CycleDb \<Rightarrow>
   (svc_error, unit) result \<times> 'g \<times> CycleDb" where
  "reconcile_leg env account_id outcome st = (case st of (g, s) \<Rightarrow> (case outcome of
     None \<Rightarrow> (Inr (), g, s)
   | Some reconciliation \<Rightarrow>
       (case ce_reconcile_error env reconciliation of
          Some error \<Rightarrow> (Inl (SStore error), g, s)
        | None \<Rightarrow>
            (let after = on_sync (reconcile_imap_sync account_id reconciliation) s
             in case on_messages (\<lambda>db. store_result (replay_base_write account_id
                       (pruned_rows account_id (cy_mail s) (cy_mail after)) db)) after of
                  (result, s) \<Rightarrow> (result, g, s)))))"

text \<open>The two post-commit steps and the second flush: a failure is recorded, not raised.\<close>

definition automation_leg ::
  "'g CycleEnv \<Rightarrow> str \<Rightarrow> MessageRecord list \<Rightarrow> 'g \<times> CycleDb \<Rightarrow>
   (DomainEvent list \<times> str list) \<times> 'g \<times> CycleDb" where
  "automation_leg env account_id messages st = (case st of (g, s) \<Rightarrow>
     (case ce_automation env account_id messages g s of
        (Inl error, st) \<Rightarrow> (([], [error_code error]), st)
      | (Inr events, st) \<Rightarrow> ((events, []), st)))"

definition settle_leg ::
  "'g CycleEnv \<Rightarrow> str \<Rightarrow> 'g \<times> CycleDb \<Rightarrow> (DomainEvent list \<times> str list) \<times> 'g \<times> CycleDb" where
  "settle_leg env account_id st =
     (case flush_leg env (ce_settle_clock env) account_id st of
        (Inl error, st) \<Rightarrow> (([], [error_code error]), st)
      | (Inr events, st) \<Rightarrow> ((events, []), st))"

definition EVENT_TOPIC_SYNC_COMPLETED :: str where
  "EVENT_TOPIC_SYNC_COMPLETED = L ''sync.completed''"

definition EVENT_TOPIC_SYNC_FAILED :: str where
  "EVENT_TOPIC_SYNC_FAILED = L ''sync.failed''"

definition on_cycle :: "(CycleDb \<Rightarrow> 'a \<times> CycleDb) \<Rightarrow> 'g \<times> CycleDb \<Rightarrow> 'a \<times> 'g \<times> CycleDb" where
  "on_cycle f st = (case st of (g, s) \<Rightarrow> (case f s of (result, s) \<Rightarrow> (result, g, s)))"

definition completed_payload ::
  "Sink \<Rightarrow> nat \<Rightarrow> SyncTrigger \<Rightarrow> SyncMode \<Rightarrow> str list \<Rightarrow> SyncCompleted" where
  "completed_payload sink action_count trigger mode errors =
     \<lparr>sy_mailbox_count = sk_mailbox_count sink,
      sy_message_count = length (sk_messages sink),
      sy_deleted_imap_location_count = sk_deleted_imap_location_count sink,
      sy_deleted_message_count = sk_deleted_message_count sink,
      sy_automation_event_count = action_count,
      sy_trigger = trigger, sy_mode = mode, sy_post_commit_errors = errors\<rparr>"

text \<open>Everything after the reconciliation.\<close>

definition finish_cycle ::
  "'g CycleEnv \<Rightarrow> str \<Rightarrow> SyncTrigger \<Rightarrow> SyncMode \<Rightarrow> Sink \<Rightarrow> 'g \<times> CycleDb \<Rightarrow>
   (svc_error, DomainEvent list) result \<times> 'g \<times> CycleDb" where
  "finish_cycle env account_id trigger mode sink st =
     (case ce_candidates env account_id (sk_messages sink) of
        Inl error \<Rightarrow> (Inl error, st)
      | Inr candidate_error \<Rightarrow>
          (case automation_leg env account_id (sk_messages sink) st of
             ((action_events, automation_errors), st) \<Rightarrow>
               (case settle_leg env account_id st of
                  ((settled_events, settle_errors), st) \<Rightarrow>
                    and_then
                      (on_cycle (on_mutations
                         (sweep_message_overlay env account_id (ce_entry_mono env))) st)
                      (\<lambda>sweep_events. on_cycle (on_messages (\<lambda>db.
                         case append_event (ce_sweep_clock env) account_id
                                EVENT_TOPIC_SYNC_COMPLETED None None
                                (PSyncCompleted (completed_payload sink (length action_events)
                                   trigger mode
                                   ((case candidate_error of
                                       Some error \<Rightarrow> [error_code error] | None \<Rightarrow> []) @
                                    automation_errors @ settle_errors))) db of
                           (event, db) \<Rightarrow>
                             (Inr (action_events @ settled_events @ sweep_events @ [event]), db)))))))"

definition sync_account_with_mode ::
  "'g CycleEnv \<Rightarrow> str \<Rightarrow> SyncTrigger \<Rightarrow> SyncMode \<Rightarrow> 'g \<times> CycleDb \<Rightarrow>
   (svc_error, DomainEvent list) result \<times> 'g \<times> CycleDb" where
  "sync_account_with_mode env account_id trigger mode st =
     (let cursors = cycle_cursors account_id mode (cy_mail (snd st))
      in and_then (flush_leg env (ce_flush_clock env) account_id st)
        (\<lambda>flush_events st. and_then (pull_leg env account_id cursors st)
          (\<lambda>(sink, reconciliation) st. and_then (reconcile_leg env account_id reconciliation st)
            (\<lambda>_ st. and_then (finish_cycle env account_id trigger mode sink st)
              (\<lambda>events st. (Inr (flush_events @ events), st))))))"

definition sync_account ::
  "'g CycleEnv \<Rightarrow> str \<Rightarrow> SyncTrigger \<Rightarrow> 'g \<times> CycleDb \<Rightarrow>
   (svc_error, DomainEvent list) result \<times> 'g \<times> CycleDb" where
  "sync_account env account_id trigger = sync_account_with_mode env account_id trigger Incremental"

definition flush_and_observe ::
  "'g CycleEnv \<Rightarrow> str \<Rightarrow> 'g \<times> CycleDb \<Rightarrow>
   (svc_error, DomainEvent list) result \<times> 'g \<times> CycleDb" where
  "flush_and_observe env account_id st =
     and_then (flush_leg env (ce_flush_clock env) account_id st)
       (\<lambda>flush_events st. case st of (g, s) \<Rightarrow>
         (case ce_sync env account_id (get_sync_cursors account_id (cy_mail s)) g of
            (Inl error, g) \<Rightarrow> (Inl (SGateway error), g, s)
          | (Inr batch, g) \<Rightarrow>
              (case ce_apply_error env batch of
                 Some error \<Rightarrow> (Inl (SStore error), g, s)
               | None \<Rightarrow>
                   and_then
                     (on_cycle (on_mutations
                        (sweep_message_overlay env account_id (ce_entry_mono env)))
                        (g, on_sync (apply_imap_sync_batch account_id batch) s))
                     (\<lambda>sweep_events st. (Inr (flush_events @ sweep_events), st)))))"

definition record_sync_failure ::
  "Clock \<Rightarrow> str \<Rightarrow> str \<Rightarrow> str \<Rightarrow> SyncTrigger \<Rightarrow> str \<Rightarrow> CycleDb \<Rightarrow> DomainEvent \<times> CycleDb" where
  "record_sync_failure clock account_id code message trigger stage =
     on_messages (append_event clock account_id EVENT_TOPIC_SYNC_FAILED None None
       (PSyncFailed code message trigger stage))"

subsection \<open>What a base write touches\<close>

text \<open>The log and the overlay stay, and so does every base row outside \<open>M\<close>.\<close>

definition touches_only :: "str \<Rightarrow> str set \<Rightarrow> MailDb \<Rightarrow> MailDb \<Rightarrow> bool" where
  "touches_only a M db db' \<longleftrightarrow>
     db_outbox db' = db_outbox db \<and> db_overlay db' = db_overlay db \<and>
     (\<forall>m. m \<notin> M \<longrightarrow> map_of (db_base db') (a, m) = map_of (db_base db) (a, m))"

named_theorems base_write \<open>what the steps of a batch touch\<close>

lemma touches_refl [base_write]: "touches_only a M db db"
  by (simp add: touches_only_def)

lemma touches_trans: "touches_only a M x y \<Longrightarrow> touches_only a M y z \<Longrightarrow> touches_only a M x z"
  by (simp add: touches_only_def)

lemma touches_fold:
  assumes "\<And>x db. x \<in> set xs \<Longrightarrow> touches_only a M (sd_mail db) (sd_mail (f x db))"
  shows "touches_only a M (sd_mail db) (sd_mail (fold f xs db))"
  using assms
proof (induction xs arbitrary: db)
  case (Cons x xs)
  have "touches_only a M (sd_mail db) (sd_mail (f x db))" by (rule Cons.prems) simp
  moreover have "touches_only a M (sd_mail (f x db)) (sd_mail (fold f xs (f x db)))"
    by (rule Cons.IH) (use Cons.prems in simp)
  ultimately show ?case by (simp add: touches_trans [of a M "sd_mail db" "sd_mail (f x db)"])
qed (simp add: touches_refl)

lemma touches_drop [base_write]:
  assumes "\<And>m. P (a, m) \<Longrightarrow> m \<in> M"
  shows "touches_only a M mail (drop_membership P i mail)"
proof -
  have "map_of (map (\<lambda>(key, row). (key, if P key then f row else row)) rows) (a, m) =
      map_of rows (a, m)" if "m \<notin> M" for m rows and f :: "MessageRecord \<Rightarrow> MessageRecord"
    using that assms by (induction rows) auto
  then show ?thesis by (simp add: touches_only_def drop_membership_def)
qed

lemma touches_apply [base_write]:
  "mr_id r \<in> M \<Longrightarrow> touches_only a M mail (apply_and_write_through a r mail)"
  by (auto simp: touches_only_def apply_and_write_through_def registry_on_upsert_def
      apply_message_record_def Let_def split: option.split)

lemma touches_delete [base_write]:
  "i \<in> M \<Longrightarrow> touches_only a M mail (delete_and_write_through a i mail)"
  by (auto simp: touches_only_def delete_and_write_through_def registry_on_delete_def
      delete_message_def)

lemma touches_cursor [base_write]: "touches_only a M mail (upsert_sync_cursor a c mail)"
  by (simp add: touches_only_def upsert_sync_cursor_def)

lemma touches_set_mailboxes [base_write]:
  "touches_only a M (sd_mail db) (sd_mail (set_mailboxes rows db))"
  by (simp add: touches_only_def set_mailboxes_def with_mail_def)

lemma touches_delete_mailbox:
  "touches_only a UNIV (sd_mail db) (sd_mail (delete_mailbox a i db))"
proof -
  have "touches_only a UNIV (sd_mail db) (drop_membership (\<lambda>key. fst key = a) i (sd_mail db))"
    by (rule touches_drop) simp
  then show ?thesis
    by (simp add: delete_mailbox_def Let_def touches_only_def set_mailboxes_def with_mail_def
        delete_imap_mailbox_state_def)
qed

lemma touches_delete_location [base_write]:
  assumes "ik_message_id key \<in> M"
  shows "touches_only a M (sd_mail db) (sd_mail (delete_imap_message_location a key db))"
proof -
  have "touches_only a M (sd_mail db)
      (drop_membership (\<lambda>k. k = (a, ik_message_id key)) (ik_mailbox_id key) (sd_mail db))"
    by (rule touches_drop) (use assms in simp)
  then show ?thesis
    by (simp add: delete_imap_message_location_def Let_def with_mail_def touches_refl)
qed

lemma touches_upsert_mailbox [base_write]:
  "touches_only a M (sd_mail db) (sd_mail (upsert_mailbox a x db))"
  by (simp add: upsert_mailbox_def touches_set_mailboxes)

lemma touches_prune_messages:
  "touches_only a UNIV (sd_mail db) (sd_mail (prune_messages a remote db))"
proof -
  have "touches_only a UNIV (sd_mail db) (sd_mail (fold (delete_message_and_locations a) ms db))" for ms
    by (rule touches_fold) (simp add: delete_message_facts touches_delete)
  then show ?thesis
    by (simp only: prune_messages_def Let_def split: if_split) (simp only: touches_refl simp_thms)
qed

lemma touches_prune_mailboxes:
  "touches_only a UNIV (sd_mail db) (sd_mail (prune_mailboxes_absent_from_remote a remote db))"
proof -
  have "touches_only a UNIV (sd_mail db) (sd_mail (fold (delete_mailbox a) is db))" for "is"
    by (rule touches_fold) (rule touches_delete_mailbox)
  then show ?thesis
    by (simp only: prune_mailboxes_absent_from_remote_def Let_def split: if_split)
      (simp only: touches_refl simp_thms)
qed

text \<open>The additions touch the rows they carry, the removals by name the rows they name.\<close>

lemma touches_additions:
  "touches_only a (written_rows batch) (sd_mail db) (sd_mail (batch_additions a batch db))"
proof -
  let ?T = "touches_only a (written_rows batch)"
  let ?d1 = "fold (upsert_mailbox a) (ib_mailboxes batch) db"
  let ?d2 = "fold (\<lambda>message. with_mail (apply_and_write_through a message)) (sb_messages batch) ?d1"
  let ?d3 = "fold (put_imap_mailbox_state a) (ib_mailbox_states batch)
    (fold (put_imap_message_location a) (ib_message_locations batch) ?d2)"
  have 1: "?T (sd_mail db) (sd_mail ?d1)" by (rule touches_fold) (rule touches_upsert_mailbox)
  have 2: "?T (sd_mail ?d1) (sd_mail ?d2)"
    by (rule touches_fold) (auto simp: with_mail_def written_rows_def intro!: touches_apply)
  have 3: "?T (sd_mail ?d3) (sd_mail (fold (\<lambda>cursor. with_mail (upsert_sync_cursor a cursor))
      (sb_cursors batch) ?d3))"
    by (rule touches_fold) (simp add: with_mail_def touches_cursor)
  have "sd_mail ?d3 = sd_mail ?d2" by (simp only: fold_put_locations)
  then show ?thesis unfolding batch_additions_def
    using touches_trans [OF touches_trans [OF 1 2]] 3 by simp
qed

lemma touches_named_removals:
  assumes "ib_deleted_mailbox_ids batch = []"
  shows "touches_only a (written_rows batch) (sd_mail db) (sd_mail (batch_removals a batch db))"
proof -
  let ?T = "touches_only a (written_rows batch)"
  let ?ls = "filter (\<lambda>key. ik_message_id key \<notin> batch_deleted a batch db)
    (ib_deleted_message_locations batch @
     (if imap_absence_prune_allowed a (length (sb_absence_deleted_message_ids batch)) (sd_mail db)
      then ib_absence_deleted_message_locations batch else []))"
  let ?d1 = "fold (delete_imap_message_location a) ?ls db"
  have 1: "?T (sd_mail db) (sd_mail ?d1)"
    by (rule touches_fold)
      (auto simp: written_rows_def split: if_splits intro!: touches_delete_location)
  have finite: "finite (batch_deleted a batch db)" by (simp add: batch_deleted_def)
  have "?T (sd_mail ?d1) (sd_mail (fold (delete_message_and_locations a)
      (bt_collect (batch_deleted a batch db)) ?d1))"
    by (rule touches_fold)
      (auto simp: finite sync_db_simps batch_deleted_def written_rows_def split: if_splits
        intro!: touches_delete)
  then show ?thesis
    using touches_trans [OF 1] assms by (simp add: batch_removals_def Let_def)
qed

text \<open>A chunk that removes nothing by absence: no prune, no deleted mailbox.\<close>

definition named_removals_only :: "ImapSyncBatch \<Rightarrow> bool" where
  "named_removals_only batch \<longleftrightarrow>
     \<not> sb_replace_all_messages batch \<and> \<not> ib_replace_all_mailboxes batch \<and>
     ib_deleted_mailbox_ids batch = []"

lemma touches_batch:
  assumes "named_removals_only batch"
  shows "touches_only a (written_rows batch) (sd_mail db) (sd_mail (apply_imap_sync_batch a batch db))"
  using assms touches_trans [OF touches_named_removals touches_additions, of batch a db]
  by (simp add: named_removals_only_def apply_batch_split)

lemma touches_mono: "touches_only a M x y \<Longrightarrow> M \<subseteq> N \<Longrightarrow> touches_only a N x y"
  by (auto simp: touches_only_def)

lemma touches_any_removals:
  "touches_only a UNIV (sd_mail db) (sd_mail (batch_removals a batch db))"
  unfolding batch_removals_def Let_def
  by (rule touches_trans [OF touches_trans]; rule touches_fold)
    (simp_all add: touches_delete_mailbox touches_delete_location sync_db_simps touches_delete)

lemma touches_apply_any:
  "touches_only a UNIV (sd_mail db) (sd_mail (apply_imap_sync_batch a batch db))"
proof -
  let ?db1 = "if ib_replace_all_mailboxes batch
    then prune_mailboxes_absent_from_remote a (set (map mb_id (ib_mailboxes batch))) db else db"
  let ?db2 = "if sb_replace_all_messages batch
    then prune_stale_imap_message_locations a (ib_message_locations batch)
      (prune_messages a (set (map mr_id (sb_messages batch))) ?db1) else ?db1"
  have "touches_only a UNIV (sd_mail db) (sd_mail ?db1)"
    by (simp add: touches_refl touches_prune_mailboxes)
  moreover have "touches_only a UNIV (sd_mail ?db1) (sd_mail ?db2)"
    by (simp only: if_distrib [where f = sd_mail] put_simps(8) split: if_split)
      (simp add: touches_refl touches_prune_messages)
  ultimately have "touches_only a UNIV (sd_mail db) (sd_mail ?db2)" by (rule touches_trans)
  moreover have "apply_imap_sync_batch a batch db = batch_additions a batch (batch_removals a batch ?db2)"
    by (simp add: apply_imap_sync_batch_def batch_additions_def batch_removals_def batch_deleted_def
        Let_def)
  ultimately show ?thesis
    using touches_trans [OF touches_trans [OF _ touches_any_removals]
        touches_mono [OF touches_additions]] by simp
qed

lemma touches_reconcile:
  "touches_only a UNIV (sd_mail db) (sd_mail (reconcile_imap_sync a rn db))"
proof -
  let ?db1 = "if ir_prune_mailboxes rn
    then prune_mailboxes_absent_from_remote a (set (ir_remote_mailbox_ids rn)) db else db"
  let ?db2 = "if rn_prune_messages rn
    then prune_messages a (set (rn_remote_message_ids rn)) ?db1 else ?db1"
  have 1: "touches_only a UNIV (sd_mail db) (sd_mail ?db1)"
    by (simp add: touches_refl touches_prune_mailboxes)
  have 2: "touches_only a UNIV (sd_mail ?db1) (sd_mail ?db2)"
    by (auto intro: touches_refl touches_prune_messages)
  have 3: "touches_only a UNIV (sd_mail ?db2) (sd_mail (fold (\<lambda>cursor. with_mail
      (upsert_sync_cursor a cursor)) (rn_cursors rn) ?db2))"
    by (rule touches_fold) (simp add: with_mail_def touches_cursor)
  show ?thesis unfolding reconcile_imap_sync_def Let_def
    by (rule touches_trans [OF touches_trans [OF 1 2] 3])
qed

end
