(* ===== verification/CycleView.thy ===== *)
theory CycleView
  imports SyncCycle
begin

text \<open>
  The view during a cycle: each chunk re-derives the rows it names, so the view stays the fold of
  the log over base while mail streams in, and an observation that breaks off leaves the log alone.
  A snapshot chunk prunes rows it does not name, and those keep their overrides until the sweep.
\<close>

subsection \<open>Replaying the rows of a base write\<close>

definition view_replayed :: "str \<Rightarrow> MailDb \<Rightarrow> bool" where
  "view_replayed a db \<longleftrightarrow> (\<forall>m. message_effective db a m = derived_row db a m)"

text \<open>An operation of the log touches the row.\<close>

definition touched_row :: "str \<Rightarrow> MailDb \<Rightarrow> str \<Rightarrow> bool" where
  "touched_row a db m \<longleftrightarrow>
     collect_ops (registry_resolve db a) m (list_unsettled_operations a (db_outbox db)) ([], [])
       \<noteq> Inr ([], [])"

lemma registry_is_snapshot: "registry_resolve db a = snapshot_resolve (derive_snapshot db a m)"
  by (rule ext) (simp add: registry_resolve_def snapshot_resolve_def read_draft_alias_map_def)

definition owned_tombstones :: "str \<Rightarrow> MailDb \<Rightarrow> bool" where
  "owned_tombstones a db \<longleftrightarrow> (\<forall>m. read_overlay db a m = Some None \<longrightarrow> touched_row a db m)"

lemma refresh_owned:
  assumes "refresh_message_overlay a m db = (Inr d, db')"
    and "hidden_base db a m \<longrightarrow> touched_row a db m"
  shows "message_effective db' a m = derived_row db a m"
proof (cases "hidden_base db a m")
  case False
  then show ?thesis by (rule refresh_derived [OF assms(1)])
next
  case True
  obtain mu where mu: "fold_overlay_row (derive_snapshot db a m) m = Inr mu"
    and e: "message_effective db' a m =
      row_after mu (read_base db a m) (message_effective db a m)"
    by (rule refresh_effective [OF assms(1)]) blast
  have "mutation_shape mu \<noteq> Keep"
    using fold_remove_base [OF mu] True assms(2) 
    by (auto simp: hidden_base_def touched_row_def registry_is_snapshot [where m = m])
  then have "row_after mu (read_base db a m) (message_effective db a m) =
      row_after (mutation_shape mu) (read_base db a m) (read_base db a m)"
    by (cases mu) (simp_all add: mutation_shape_def row_after_def)
  then show ?thesis by (simp add: e derived_row_def mu)
qed

lemma touched_row_inputs:
  assumes "same_inputs db ob" shows "touched_row a ob m = touched_row a db m"
  using same_inputs_registry [OF assms] assms by (simp add: touched_row_def same_inputs_def)

lemma refresh_rows_owned:
  assumes "refresh_rows a ids db = (Inr (), db')" and "distinct ids"
    and "\<forall>m \<in> set ids. hidden_base db a m \<longrightarrow> touched_row a db m"
  shows "same_inputs db db' \<and>
    (\<forall>m. message_effective db' a m =
       (if m \<in> set ids then derived_row db a m else message_effective db a m))"
  using assms
proof (induction ids arbitrary: db)
  case Nil
  then show ?case by (simp add: same_inputs_def)
next
  case (Cons m ids)
  obtain d db1 where r: "refresh_message_overlay a m db = (Inr d, db1)"
    and rest: "refresh_rows a ids db1 = (Inr (), db')"
    using Cons.prems(1) by (auto split: prod.splits sum.splits)
  have same: "same_inputs db db1" by (rule refresh_same_inputs [OF r])
  have keep: "map_of (db_overlay db1) (a, m') = map_of (db_overlay db) (a, m')" if "m' \<noteq> m" for m'
    by (rule refresh_other_overlay [OF r that])
  have vis: "hidden_base db1 a m' \<longrightarrow> touched_row a db1 m'" if "m' \<in> set ids" for m'
  proof -
    have "m' \<noteq> m" using that Cons.prems(2) by auto
    then have "read_overlay db1 a m' = read_overlay db a m'" by (simp add: read_overlay_def keep)
    then show ?thesis
      using Cons.prems(3) that same_inputs_base [OF same] touched_row_inputs [OF same]
      by (simp add: hidden_base_def)
  qed
  have ih: "same_inputs db1 db'" "\<And>m'. message_effective db' a m' =
       (if m' \<in> set ids then derived_row db1 a m' else message_effective db1 a m')"
    using Cons.IH [OF rest] Cons.prems(2) vis by auto
  have "message_effective db1 a m = derived_row db a m"
    by (rule refresh_owned [OF r]) (use Cons.prems(3) in simp)
  moreover have "message_effective db1 a m' = message_effective db a m'" if "m' \<noteq> m" for m'
    using effective_by_overlay [OF same keep [OF that]] .
  ultimately show ?case
    using ih Cons.prems(2) same_inputs_trans [OF same ih(1)] derived_row_inputs [OF same]
    by auto
qed

text \<open>
  A base write that leaves the draft keys and the role mailboxes, followed by the replay of the rows
  it wrote.
\<close>

lemma replayed_write:
  assumes wrote: "touches_only a W db0 db1"
    and keys: "db_draft_alias db1 = db_draft_alias db0" "db_role_mailbox db1 = db_role_mailbox db0"
    and replay: "replay_base_write a W db1 = (Inr (), db2)"
    and view: "view_replayed a db0" and owned: "owned_tombstones a db0"
  shows "view_replayed a db2 \<and> same_inputs db1 db2"
proof -
  obtain ids where inv: "replay_inventory db1 a = Inr ids" using inventory_total by blast
  have outbox: "db_outbox db1 = db_outbox db0" and overlay: "db_overlay db1 = db_overlay db0"
    and base: "\<And>m. m \<notin> W \<Longrightarrow> read_base db1 a m = read_base db0 a m"
    using wrote by (simp_all add: touches_only_def read_base_def)
  have ov: "read_overlay db1 a m = read_overlay db0 a m" for m
    by (simp add: read_overlay_def overlay)
  have touched: "touched_row a db1 m = touched_row a db0 m" for m
    
    by (simp add: touched_row_def outbox registry_resolve_def [abs_def] keys)
  have owned1: "hidden_base db1 a m \<longrightarrow> touched_row a db1 m" for m
    using owned by (simp add: hidden_base_def ov touched owned_tombstones_def)
  have refreshed: "same_inputs db1 db2 \<and> (\<forall>m. message_effective db2 a m =
      (if m \<in> W \<and> m \<in> set ids then derived_row db1 a m else message_effective db1 a m))"
  proof (cases "W = {}")
    case True
    then show ?thesis using replay by (simp add: replay_base_write_def same_inputs_def)
  next
    case False
    have "distinct ids"
      using inv by (auto simp: replay_inventory_def map_result_def bt_collect_def split: sum.splits)
    then show ?thesis
      using refresh_rows_owned [of a "filter (\<lambda>m. m \<in> W) ids" db1 db2] replay False owned1
      by (auto simp: replay_base_write_def inv)
  qed
  have unwritten: "message_effective db1 a m = derived_row db1 a m" if "m \<notin> W" for m
  proof -
    have snapshot: "derive_snapshot db1 a m = derive_snapshot db0 a m"
      by (simp add: derive_snapshot_def base [OF that] ov outbox keys read_mailbox_id_by_role_def
          read_draft_alias_map_def fun_eq_iff)
    have "derived_row db1 a m = derived_row db0 a m"
      unfolding derived_row_def snapshot base [OF that] by (rule refl)
    moreover have "message_effective db1 a m = message_effective db0 a m"
      unfolding message_effective_def overlay base [OF that] by (rule refl)
    ultimately show ?thesis using view by (simp add: view_replayed_def)
  qed
  have unlisted: "message_effective db1 a m = derived_row db1 a m" if "m \<notin> set ids" for m
  proof -
    have "m \<notin> set (list_overlay_message_ids a db1)"
      using that inv by (auto simp: replay_inventory_def map_result_def split: sum.splits)
    then have "map_of (db_overlay db1) (a, m) = None"
      by (force simp: list_overlay_message_ids_def map_of_eq_None_iff)
    then have "message_effective db1 a m = read_base db1 a m" by (simp add: message_effective_def)
    then show ?thesis using untouched_derived [OF inv that] by simp
  qed
  show ?thesis
    using refreshed unwritten unlisted derived_row_inputs [of db1 db2 a]
    by (auto simp: view_replayed_def)
qed

lemma emit_chunk_ok:
  assumes "emit_chunk env a batch sink = (Inr u, sink')"
  shows "replay_base_write a (written_rows batch)
      (sd_mail (apply_imap_sync_batch a batch (cy_sync (sk_db sink)))) = (Inr (), cy_mail (sk_db sink'))"
  using assms
  by (auto simp: emit_chunk_def on_messages_def on_sync_def store_result_def
      split: option.splits prod.splits sum.splits)

text \<open>
  C10. A chunk keeps the view replayed: when the sink accepts a chunk that removes rows by name
  only, moves no draft key and no role, then after the per-chunk replay every visible row of the
  account is again the fold of the log over the new base, with no sweep in between, if it was before
  and every tombstone belongs to an operation of the log.
\<close>

theorem chunk_keeps_view_replayed:
  assumes "emit_chunk env a batch sink = (Inr u, sink')"
    and "named_removals_only batch"
    and "db_draft_alias (sd_mail (apply_imap_sync_batch a batch (cy_sync (sk_db sink)))) =
         db_draft_alias (cy_mail (sk_db sink))"
    and "db_role_mailbox (sd_mail (apply_imap_sync_batch a batch (cy_sync (sk_db sink)))) =
         db_role_mailbox (cy_mail (sk_db sink))"
    and "view_replayed a (cy_mail (sk_db sink))"
    and "owned_tombstones a (cy_mail (sk_db sink))"
  shows "view_replayed a (cy_mail (sk_db sink'))"
  using replayed_write [OF touches_batch [OF assms(2)] assms(3,4) emit_chunk_ok [OF assms(1)] assms(5,6)]
  by simp

subsection \<open>An incomplete observation\<close>

lemma replay_base_write_outbox: "db_outbox (snd (replay_base_write a W db)) = db_outbox db"
proof -
  have "db_outbox (snd (refresh_rows a ids d)) = db_outbox d" for ids d
  proof (induction ids arbitrary: d)
    case (Cons m ids)
    obtain r d1 where r: "refresh_message_overlay a m d = (r, d1)"
      by (cases "refresh_message_overlay a m d")
    then show ?case using Cons.IH refresh_frame(1) [OF r] by (simp split: sum.split)
  qed simp
  then show ?thesis by (simp add: replay_base_write_def split: sum.split)
qed

lemma on_messages_outbox:
  assumes "\<And>db. db_outbox (snd (f db)) = db_outbox db"
  shows "db_outbox (cy_mail (snd (on_messages f s))) = db_outbox (cy_mail s)"
  using assms [of "cy_mail s"] by (auto simp: on_messages_def on_sync_def split: prod.split)

lemma replay_leg_outbox:
  "db_outbox (cy_mail (snd (on_messages (\<lambda>db. store_result (replay_base_write a W db)) s))) =
   db_outbox (cy_mail s)"
proof (rule on_messages_outbox)
  fix db
  show "db_outbox (snd (store_result (replay_base_write a W db))) = db_outbox db"
    using replay_base_write_outbox [of a W db] by (auto simp: store_result_def split: prod.split sum.split)
qed

lemma emit_chunk_outbox:
  "db_outbox (cy_mail (sk_db (snd (emit_chunk env a batch sink)))) = db_outbox (cy_mail (sk_db sink))"
proof -
  let ?s = "on_sync (apply_imap_sync_batch a batch) (sk_db sink)"
  have "db_outbox (cy_mail ?s) = db_outbox (cy_mail (sk_db sink))"
    using touches_apply_any [of a "cy_sync (sk_db sink)" batch]
    by (simp add: on_sync_def touches_only_def)
  then show ?thesis
    using replay_leg_outbox [of a "written_rows batch" ?s]
    by (auto simp: emit_chunk_def split: option.split prod.split sum.split)
qed

lemma run_pull_outbox:
  "db_outbox (cy_mail (sk_db (snd (snd (run_pull env a p sink))))) = db_outbox (cy_mail (sk_db sink))"
proof (induction p arbitrary: sink)
  case (PullEmit batch k)
  obtain r sink1 where e: "emit_chunk env a batch sink = (r, sink1)"
    by (cases "emit_chunk env a batch sink")
  then have "db_outbox (cy_mail (sk_db sink1)) = db_outbox (cy_mail (sk_db sink))"
    using emit_chunk_outbox [of env a batch sink] by simp
  then show ?case using PullEmit by (simp add: e split: sum.split)
qed simp

lemma pull_leg_outbox:
  "db_outbox (cy_mail (snd (snd (pull_leg env a cursors (g, s))))) = db_outbox (cy_mail s)"
  using run_pull_outbox [of env a "ce_pull env a cursors g" "new_sink s"]
  by (auto simp: pull_leg_def new_sink_def split: prod.split sum.split)

lemma reconcile_leg_outbox:
  "db_outbox (cy_mail (snd (snd (reconcile_leg env a outcome (g, s))))) = db_outbox (cy_mail s)"
proof (cases outcome)
  case (Some rn)
  let ?after = "on_sync (reconcile_imap_sync a rn) s"
  have "db_outbox (cy_mail ?after) = db_outbox (cy_mail s)"
    using touches_reconcile [of a "cy_sync s" rn] by (simp add: on_sync_def touches_only_def)
  then show ?thesis
    using replay_leg_outbox [of a "pruned_rows a (cy_mail s) (cy_mail ?after)" ?after] Some
    by (auto simp: reconcile_leg_def Let_def split: option.split prod.split)
qed (simp add: reconcile_leg_def)

text \<open>
  C11. Truncation never fires on an incomplete pull: when the pull breaks off, whatever chunks it
  delivered before, or the reconciliation fails, the cycle ends in exactly the error of that step (the
  sink's own error when a chunk could not be stored, otherwise the gateway's) and the log is exactly
  what the first flush left: no settled operation is retired, no send adopted, no repair
  queued.
\<close>

theorem incomplete_pull_truncates_nothing:
  assumes "flush_leg env (ce_flush_clock env) a st = (Inr flushed, st1)"
    and "pull_leg env a (cycle_cursors a mode (cy_mail (snd st))) st1 = (pulled, st2)"
    and "case pulled of Inl e \<Rightarrow> e = error
         | Inr (sink, reconciliation) \<Rightarrow> fst (reconcile_leg env a reconciliation st2) = Inl error"
  shows "fst (sync_account_with_mode env a trigger mode st) = Inl error \<and>
    db_outbox (cy_mail (snd (snd (sync_account_with_mode env a trigger mode st)))) =
    db_outbox (cy_mail (snd st1))"
proof -
  have p: "db_outbox (cy_mail (snd st2)) = db_outbox (cy_mail (snd st1))"
    using pull_leg_outbox [of env a "cycle_cursors a mode (cy_mail (snd st))" "fst st1" "snd st1"]
    by (simp add: assms(2))
  show ?thesis
  proof (cases pulled)
    case (Inl e)
    then show ?thesis using p assms(3) by (simp add: sync_account_with_mode_def Let_def assms(1,2))
  next
    case (Inr x)
    obtain sink rn where x: "x = (sink, rn)" by (cases x)
    obtain r st3 where r: "reconcile_leg env a rn st2 = (r, st3)"
      by (cases "reconcile_leg env a rn st2")
    have "db_outbox (cy_mail (snd st3)) = db_outbox (cy_mail (snd st2))"
      using reconcile_leg_outbox [of env a rn "fst st2" "snd st2"] by (simp add: r)
    then show ?thesis using p Inr x r assms
      by (cases r) (simp_all add: sync_account_with_mode_def Let_def)
  qed
qed


subsection \<open>What a pruning chunk leaves behind\<close>

lemma prune_allowed:
  "remote \<noteq> {} \<Longrightarrow>
   \<not> over_floor (card (local_message_ids a db - remote)) (card (local_message_ids a db)) \<Longrightarrow>
   local_message_ids a (prune_messages_absent_from_remote a remote False db) =
     local_message_ids a db \<inter> remote"
  by (auto simp: prune_messages_absent_from_remote_def Let_def bt_collect_length)

lemma refresh_rows_overlay:
  assumes "refresh_rows a ids db = (Inr (), db')" and "m \<notin> set ids"
  shows "map_of (db_overlay db') (a, m) = map_of (db_overlay db) (a, m)"
  using assms
proof (induction ids arbitrary: db)
  case (Cons m1 ids)
  obtain d db1 where r: "refresh_message_overlay a m1 db = (Inr d, db1)"
    and rest: "refresh_rows a ids db1 = (Inr (), db')"
    using Cons.prems(1) by (auto split: prod.splits sum.splits)
  show ?case
    using Cons.IH [OF rest] Cons.prems(2) refresh_other_overlay [OF r, of m] by simp
qed simp

lemma refresh_rows_base:
  "refresh_rows a ids db = (r, db') \<Longrightarrow> db_base db' = db_base db"
proof (induction ids arbitrary: db)
  case (Cons m ids)
  obtain q db1 where 1: "refresh_message_overlay a m db = (q, db1)"
    by (cases "refresh_message_overlay a m db")
  then show ?case using Cons refresh_frame(4) [OF 1] by (auto split: sum.splits)
qed simp

lemma snapshot_prunes:
  assumes "sb_replace_all_messages batch" and "sb_messages batch \<noteq> []"
    and "\<not> over_floor (card (local_ids a db - mr_id ` set (sb_messages batch))) (card (local_ids a db))"
    and "m \<notin> mr_id ` set (sb_messages batch)"
  shows "m \<notin> local_ids a (apply_imap_sync_batch a batch db)"
proof -
  let ?remote = "mr_id ` set (sb_messages batch)"
  let ?db1 = "if ib_replace_all_mailboxes batch
    then prune_mailboxes_absent_from_remote a (set (map mb_id (ib_mailboxes batch))) db else db"
  let ?db2 = "prune_stale_imap_message_locations a (ib_message_locations batch)
    (prune_messages a (set (map mr_id (sb_messages batch))) ?db1)"
  have ids1: "local_ids a ?db1 = local_ids a db" by (simp add: sync_db_simps)
  have "local_ids a ?db2 =
      local_message_ids a (prune_messages_absent_from_remote a ?remote False (sd_mail ?db1))"
    by (simp only: sync_db_simps set_map)
  also have "\<dots> = local_ids a db \<inter> ?remote"
    using prune_allowed [of ?remote a "sd_mail ?db1"] assms(2,3) unfolding ids1 by simp
  finally have ids2: "local_ids a ?db2 = local_ids a db \<inter> ?remote" .
  have "apply_imap_sync_batch a batch db = batch_additions a batch (batch_removals a batch ?db2)"
    using assms(1) by (simp add: apply_imap_sync_batch_def batch_additions_def batch_removals_def
        batch_deleted_def Let_def)
  then have "local_ids a (apply_imap_sync_batch a batch db) =
      mr_id ` set (sb_messages batch) \<union> (local_ids a db \<inter> mr_id ` set (sb_messages batch) -
        batch_deleted a batch ?db2)"
    by (simp only: additions_ids removals_ids ids2)
  then show ?thesis using assms(4) by blast
qed


text \<open>
  C40. A snapshot chunk leaves stale overrides: the rows the sink replays are those the batch names,
  and a complete snapshot deletes by absence rows it does not name. When it prunes a message that a
  pending change overlays, base has lost the message and the chunk's replay leaves the overlay row
  in place, so the deleted message stays visible in its old form until the sweep.
\<close>

theorem snapshot_leaves_stale_override:
  assumes "emit_chunk env a batch sink = (Inr u, sink')"
    and "sb_replace_all_messages batch" and "sb_messages batch \<noteq> []"
    and "\<not> over_floor
           (card (local_ids a (cy_sync (sk_db sink)) - mr_id ` set (sb_messages batch)))
           (card (local_ids a (cy_sync (sk_db sink))))"
    and "m \<notin> written_rows batch"
    and "map_of (db_overlay (cy_mail (sk_db sink))) (a, m) = Some row" and "\<not> ov_tombstone row"
  shows "read_base (cy_mail (sk_db sink')) a m = None \<and>
    message_effective (cy_mail (sk_db sink')) a m = Some (ov_record row)"
proof -
  let ?db = "cy_sync (sk_db sink)"
  let ?db1 = "sd_mail (apply_imap_sync_batch a batch ?db)"
  obtain ids where run: "refresh_rows a (filter (\<lambda>x. x \<in> written_rows batch) ids) ?db1 =
      (Inr (), cy_mail (sk_db sink'))"
    using emit_chunk_ok [OF assms(1)]
    by (cases "written_rows batch = {}")
      (force simp: replay_base_write_def split: sum.splits)+
  have "m \<notin> mr_id ` set (sb_messages batch)" using assms(5) by (auto simp: written_rows_def)
  then have "m \<notin> local_message_ids a ?db1" by (rule snapshot_prunes [OF assms(2-4)])
  then have base: "read_base (cy_mail (sk_db sink')) a m = None"
    using refresh_rows_base [OF run] by (simp add: read_base_def local_ids_iff)
  have "map_of (db_overlay (cy_mail (sk_db sink'))) (a, m) = map_of (db_overlay ?db1) (a, m)"
    by (rule refresh_rows_overlay [OF run]) (use assms(5) in simp)
  also have "db_overlay ?db1 = db_overlay (sd_mail ?db)"
    using touches_apply_any [of a ?db batch] by (simp add: touches_only_def)
  finally show ?thesis using base assms(6,7) by (simp add: message_effective_def)
qed

subsection \<open>Concrete cycles\<close>

declare L_simps [simp del]

definition example_cycle_db :: "MailDb \<Rightarrow> CycleDb" where
  "example_cycle_db mail =
     \<lparr>cy_sync = \<lparr>sd_mail = mail, sd_mailboxes = [], sd_role_overrides = [], sd_states = [],
                sd_locations = []\<rparr>, cy_snoozes = []\<rparr>"

definition example_chunk :: "str list \<Rightarrow> bool \<Rightarrow> ImapSyncBatch" where
  "example_chunk ids snapshot =
     \<lparr>sb_messages = map example_record ids, sb_deleted_message_ids = [],
      sb_absence_deleted_message_ids = [], sb_replace_all_messages = snapshot, sb_cursors = [],
      ib_mailboxes = [], ib_mailbox_states = [], ib_message_locations = [],
      ib_deleted_message_locations = [], ib_deleted_mailbox_ids = [],
      ib_absence_deleted_message_locations = [], ib_replace_all_mailboxes = False\<rparr>"

definition example_cycle_env :: "unit Pull \<Rightarrow> unit CycleEnv" where
  "example_cycle_env pull =
     \<lparr>ce_gateway = example_gateway, ce_sync = (\<lambda>a cursors g. (Inr (example_chunk [] False), g)),
      ce_pull = (\<lambda>a cursors g. pull), ce_apply_error = (\<lambda>batch. None),
      ce_reconcile_error = (\<lambda>rn. None), ce_candidates = (\<lambda>a messages. Inr None),
      ce_automation = (\<lambda>a messages g s. (Inr [], g, s)), ce_entry_mono = 100,
      ce_flush_clock = example_clock, ce_settle_clock = example_clock,
      ce_sweep_clock = example_clock, ce_filing_id = (\<lambda>m. L ''f'' @ m),
      ce_repair_id = (\<lambda>m. L ''r'' @ m)\<rparr>"

abbreviation quiet_env :: "unit CycleEnv" where
  "quiet_env \<equiv> example_cycle_env (PullEnd () (Inr None))"

lemma emit_chunk_total:
  assumes "ce_apply_error env batch = None"
    and "log_decodes (sd_mail (apply_imap_sync_batch a batch (cy_sync (sk_db sink)))) a"
  obtains sink' where "emit_chunk env a batch sink = (Inr (), sink')"
proof -
  let ?db = "sd_mail (apply_imap_sync_batch a batch (cy_sync (sk_db sink)))"
  obtain ids where "replay_inventory ?db a = Inr ids" using inventory_total by blast
  then obtain db' where "replay_base_write a (written_rows batch) ?db = (Inr (), db')"
    using refresh_rows_total [OF assms(2), of "filter (\<lambda>m. m \<in> written_rows batch) ids"]
    by (cases "written_rows batch = {}") (auto simp: replay_base_write_def)
  then show thesis using assms(1) that
    by (simp add: emit_chunk_def on_messages_def on_sync_def store_result_def)
qed

lemma example_apply:
  "sd_mail (apply_imap_sync_batch a (example_chunk ids False) (cy_sync (example_cycle_db mail))) =
   fold (apply_and_write_through a) (map example_record ids) mail"
  by (simp add: apply_imap_sync_batch_def Let_def example_chunk_def example_cycle_db_def with_mail_def
      sync_db_simps imap_absence_prune_allowed_def bt_collect_def)

theorem chunk_keeps_view_replayed_witness:
  "\<exists>sink'. emit_chunk quiet_env (L ''a'') (example_chunk [L ''m1''] False)
       (new_sink (example_cycle_db (example_db [example_destroy] example_tombstone))) = (Inr (), sink') \<and>
     view_replayed (L ''a'') (cy_mail (sk_db sink'))"
proof -
  let ?db = "example_db [example_destroy] example_tombstone"
  let ?sink = "new_sink (example_cycle_db ?db)"
  let ?after = "fold (apply_and_write_through (L ''a'')) (map example_record [L ''m1'']) ?db"
  have sink: "sk_db ?sink = example_cycle_db ?db" by (simp add: new_sink_def)
  have mail: "cy_mail (example_cycle_db ?db) = ?db" by (simp add: example_cycle_db_def)
  have after: "db_outbox ?after = db_outbox ?db" "db_draft_alias ?after = db_draft_alias ?db"
    "db_role_mailbox ?after = db_role_mailbox ?db"
    by (simp_all add: apply_and_write_through_def registry_on_upsert_def apply_message_record_def
        Let_def example_record_def)
  have "log_decodes ?after (L ''a'')" using example_decodes log_decodes_outbox [OF after(1)] by simp
  then obtain sink' where e: "emit_chunk quiet_env (L ''a'') (example_chunk [L ''m1''] False) ?sink =
      (Inr (), sink')"
    using emit_chunk_total [of quiet_env "example_chunk [L ''m1''] False" "L ''a''" ?sink]
    by (auto simp: sink example_apply example_cycle_env_def)
  have view: "view_replayed (L ''a'') ?db"
    unfolding view_replayed_def example_derived message_effective_def example_base
    by (simp add: example_db_def)
  have log: "list_unsettled_operations (L ''a'') (db_outbox ?db) = [example_destroy]"
    using example_unsettled by (simp add: example_db_def)
  have "m = L ''m1''" if "read_overlay ?db (L ''a'') m = Some None" for m
    using that by (auto simp: read_overlay_def example_db_def split: if_splits)
  then have owned: "owned_tombstones (L ''a'') ?db"
    unfolding owned_tombstones_def touched_row_def log example_collect by auto
  have "view_replayed (L ''a'') (cy_mail (sk_db sink'))"
    by (rule chunk_keeps_view_replayed [OF e])
      (simp_all only: sink mail example_apply after view owned named_removals_only_def,
       simp add: example_chunk_def)
  then show ?thesis using e by blast
qed

theorem incomplete_pull_truncates_nothing_witness:
  "\<exists>error st'. sync_account_with_mode
       (example_cycle_env (PullEmit (example_chunk [L ''m1''] False)
          (\<lambda>answer. PullEnd () (Inl (Network (L ''offline''))))))
       (L ''a'') Poll Incremental ((), example_cycle_db settled_db) = (Inl error, st') \<and>
     db_outbox (cy_mail (snd st')) = db_outbox settled_db"
proof -
  let ?env = "example_cycle_env (PullEmit (example_chunk [L ''m1''] False)
    (\<lambda>answer. PullEnd () (Inl (Network (L ''offline'')))))"
  let ?st = "((), example_cycle_db settled_db)"
  have flush: "flush_leg ?env (ce_flush_clock ?env) (L ''a'') ?st = (Inr [], ?st)"
    by (simp add: flush_leg_def flush_account_def ensure_drafts_for_held_sends_def Let_def
        example_cycle_db_def settled_db_def list_pending_operations_def list_flushable_operations_def
        ops_where_def settled_row_def flushable_row_def example_op_def on_sync_def map_result_def
        example_db_def)
  obtain r sink where e: "emit_chunk ?env (L ''a'') (example_chunk [L ''m1''] False)
      (new_sink (example_cycle_db settled_db)) = (r, sink)"
    by (cases "emit_chunk ?env (L ''a'') (example_chunk [L ''m1''] False)
      (new_sink (example_cycle_db settled_db))")
  obtain error st2 where pull: "pull_leg ?env (L ''a'')
      (cycle_cursors (L ''a'') Incremental (cy_mail (snd ?st))) ?st = (Inl error, st2)"
    using e by (cases r) (auto simp: pull_leg_def example_cycle_env_def)
  show ?thesis
    using incomplete_pull_truncates_nothing [OF flush pull, of error Poll]
    by (cases "sync_account_with_mode ?env (L ''a'') Poll Incremental ?st")
      (simp add: example_cycle_db_def)
qed

text \<open>Base holds two messages and the overlay the second; the snapshot names the first only.\<close>

definition pruned_db :: MailDb where
  "pruned_db = (example_db [] [((L ''a'', L ''m2''),
       \<lparr>ov_tombstone = False, ov_record = default_record (L ''m2'')\<rparr>)])
     \<lparr>db_base := [((L ''a'', L ''m1''), example_record (L ''m1'')),
                 ((L ''a'', L ''m2''), example_record (L ''m2''))]\<rparr>"

theorem snapshot_leaves_stale_override_witness:
  "\<exists>sink'. emit_chunk quiet_env (L ''a'') (example_chunk [L ''m1''] True)
       (new_sink (example_cycle_db pruned_db)) = (Inr (), sink') \<and>
     read_base (cy_mail (sk_db sink')) (L ''a'') (L ''m2'') = None \<and>
     message_effective (cy_mail (sk_db sink')) (L ''a'') (L ''m2'') = Some (default_record (L ''m2''))"
proof -
  let ?sink = "new_sink (example_cycle_db pruned_db)"
  let ?batch = "example_chunk [L ''m1''] True"
  have m: "L ''m1'' \<noteq> L ''m2''" by (simp add: L_simps)
  have ids: "local_ids (L ''a'') (cy_sync (sk_db ?sink)) = {L ''m1'', L ''m2''}"
    by (simp add: local_message_ids_def new_sink_def example_cycle_db_def pruned_db_def)
  have "db_outbox (sd_mail (apply_imap_sync_batch (L ''a'') ?batch (cy_sync (sk_db ?sink)))) = []"
    using touches_apply_any [of "L ''a''" "cy_sync (sk_db ?sink)" ?batch]
    by (simp add: touches_only_def new_sink_def example_cycle_db_def pruned_db_def example_db_def)
  then have "log_decodes (sd_mail (apply_imap_sync_batch (L ''a'') ?batch (cy_sync (sk_db ?sink)))) (L ''a'')"
    by (simp add: log_decodes_def list_unsettled_operations_def ops_where_def)
  then obtain sink' where e: "emit_chunk quiet_env (L ''a'') ?batch ?sink = (Inr (), sink')"
    using emit_chunk_total [of quiet_env ?batch "L ''a''" ?sink] by (auto simp: example_cycle_env_def)
  have "read_base (cy_mail (sk_db sink')) (L ''a'') (L ''m2'') = None \<and>
      message_effective (cy_mail (sk_db sink')) (L ''a'') (L ''m2'') =
        Some (ov_record \<lparr>ov_tombstone = False, ov_record = default_record (L ''m2'')\<rparr>)"
    by (rule snapshot_leaves_stale_override [OF e], unfold ids)
      (use m in \<open>auto simp: example_chunk_def example_record_def written_rows_def over_floor_def
        card_insert_if insert_Diff_if new_sink_def example_cycle_db_def pruned_db_def example_db_def\<close>)
  then show ?thesis using e by auto
qed

declare L_simps [simp]

end
