(* ===== verification/SentCopies.thy ===== *)
theory SentCopies
  imports CycleView
begin

text \<open>
  The sweep of a cycle on the log: settled sends whose provider copy arrived leave it, and the
  repair of a lingering tombstone adds at most one delete per row. One repair is wrong: the
  tombstone of a draft that an unsent message consumed is taken for a lost destroy.
\<close>

subsection \<open>Steps that write no base row\<close>

text \<open>Base and the aliases of sends stay, and only ids of \<open>I\<close> enter the log.\<close>

definition log_step :: "str set \<Rightarrow> MailDb \<Rightarrow> MailDb \<Rightarrow> bool" where
  "log_step I db db' \<longleftrightarrow>
     db_base db' = db_base db \<and> db_send_alias db' = db_send_alias db \<and>
     row_id ` set (db_outbox db') \<subseteq> row_id ` set (db_outbox db) \<union> I"

lemma log_step_refl [simp]: "log_step I db db"
  by (simp add: log_step_def)

lemma log_step_trans: "log_step I x y \<Longrightarrow> log_step I y z \<Longrightarrow> log_step I x z"
  unfolding log_step_def by (simp, blast)

lemma log_step_ids:
  "log_step I db db' \<Longrightarrow> row_id ` set (db_outbox db') \<subseteq> row_id ` set (db_outbox db) \<union> I"
  by (simp add: log_step_def)

lemma remove_ids:
  "row_id ` set (db_outbox (db\<lparr>db_outbox := remove_operation i tbl\<rparr>)) \<union> {} = row_id ` set tbl - {i}"
  by (auto simp: remove_operation_def)

lemma log_step_and_then:
  assumes "log_step I (mu_mail s) (mu_mail (snd r))"
    and "\<And>x s1. r = (Inr x, s1) \<Longrightarrow> log_step I (mu_mail s1) (mu_mail (snd (k x s1)))"
  shows "log_step I (mu_mail s) (mu_mail (snd (and_then r k)))"
proof (cases r)
  case (Pair v s1)
  then show ?thesis
    using assms log_step_trans [of I "mu_mail s" "mu_mail s1"] by (cases v) auto
qed

lemma log_step_on_mail:
  "log_step I (mu_mail s) (snd (f (mu_mail s))) \<Longrightarrow> log_step I (mu_mail s) (mu_mail (snd (on_mail f s)))"
  by (auto simp: on_mail_def split: prod.split)

lemma log_step_refresh: "log_step I db (snd (refresh a m db))"
proof -
  obtain r db' where r: "refresh_message_overlay a m db = (r, db')"
    by (cases "refresh_message_overlay a m db")
  show ?thesis using refresh_frame [OF r]
    by (simp add: refresh_def store_result_def r log_step_def split: sum.split)
qed

lemma log_step_event: "log_step I db (snd (append_event ck a tp mb m p db))"
  by (simp add: append_event_def Let_def log_step_def)

lemma log_step_echo: "log_step I db (snd (with_echo (deleted_echo ck a m db)))"
  using log_step_event [of I db ck a EVENT_TOPIC_MESSAGE_UPDATED None "Some m" "PDeleted m"]
  by (auto simp: deleted_echo_def with_echo_def split: prod.splits)

lemma log_step_derive: "log_step I db (snd (derive_rows a f ms db))"
proof (induction ms arbitrary: db)
  case (Cons m ms)
  obtain r db1 where d: "derive_overlay a m (f m) db = (r, db1)"
    by (cases "derive_overlay a m (f m) db")
  have "log_step I db db1"
    using d by (auto simp: derive_overlay_def Let_def log_step_def dest: apply_mutation_frame
        split: sum.splits prod.splits)
  then show ?case using Cons.IH [of db1] d log_step_trans [of I db db1]
    by (auto split: sum.split prod.split)
qed simp

lemma log_step_remove: "log_step I db (snd (store_result (remove_op_and_derive a i ms f db)))"
proof -
  let ?db = "db\<lparr>db_outbox := remove_operation i (db_outbox db)\<rparr>"
  have "log_step I db ?db" by (auto simp: log_step_def remove_operation_def)
  then have "log_step I db (snd (derive_rows a f ms ?db))"
    using log_step_derive [of I ?db] log_step_trans by blast
  then show ?thesis
    by (auto simp: remove_op_and_derive_def store_result_def split: prod.split sum.split)
qed

lemma log_step_coalesce: "log_step I db (snd (coalesce_superseded kind ops p db))"
proof (induction kind ops p db rule: coalesce_superseded.induct)
  case (2 kind existing rest p db)
  have "log_step I db (db\<lparr>db_outbox := remove_operation (op_id existing) (db_outbox db)\<rparr>)"
    by (auto simp: log_step_def remove_operation_def)
  then show ?case using 2 log_step_trans by (auto split: sum.split)
qed simp

lemma log_step_queue:
  "i \<in> I \<Longrightarrow> log_step I db (snd (queue_operation_with_id ck i a e kind p sa hm db))"
proof -
  assume i: "i \<in> I"
  let ?c = "if is_state_assertion kind then coalesce_pending_assertions a e kind p db else (Inr p, db)"
  have c: "log_step I db (snd ?c)"
    by (simp add: coalesce_pending_assertions_def log_step_coalesce)
  obtain r db1 where r: "?c = (r, db1)" by (cases ?c)
  show ?thesis
  proof (cases r)
    case (Inl e')
    then show ?thesis using c r by (simp add: queue_operation_with_id_def)
  next
    case (Inr p')
    have "snd (queue_operation_with_id ck i a e kind p sa hm db) =
      db1\<lparr>db_outbox := snd (enqueue_operation
         \<lparr>op_id = i, op_account_id = a, op_entity = e, op_kind = kind, op_payload = p',
          op_payload_version = 1, op_state = Pending, op_attempts = 0, op_last_error = None,
          op_send_at = sa, op_hold_until_mono = hm, op_created_at = ck_now ck,
          op_updated_at = ck_now ck\<rparr> (db_outbox db1))\<rparr>"
      using r Inr by (auto simp: queue_operation_with_id_def split: prod.split sum.split)
    moreover have "log_step I db1 \<dots>"
      using i by (auto simp: log_step_def enqueue_operation_def Let_def new_row_def row_id_def)
    ultimately show ?thesis using c r log_step_trans by simp
  qed
qed

lemma log_step_emit: "log_step I (mu_mail s) (mu_mail (snd (emit ck a scope m p s)))"
  unfolding emit_def
  by (rule log_step_on_mail)
    (use log_step_event [of I "mu_mail s" ck a EVENT_TOPIC_MESSAGE_UPDATED scope "Some m" p]
      in \<open>auto split: prod.split\<close>)

lemma log_step_missing:
  "log_step I (mu_mail s) (mu_mail (snd (effective_or_missing a m s)))"
  by (simp add: effective_or_missing_def split: option.split)

lemma log_step_assertion:
  "log_step I (mu_mail s) (mu_mail (snd (echo_assertion ck a m op previous s)))"
proof -
  have snooze: "mu_mail (delete_snooze a m s) = mu_mail s" by (simp add: delete_snooze_def)
  show ?thesis
    unfolding echo_assertion_def
    by (cases "op_kind op"; simp only: OperationKind.case)
      (auto simp: log_step_emit split: sum.split MailIntent.split
        intro!: log_step_and_then log_step_emit log_step_missing
          log_step_and_then [where s = s and r = "effective_or_missing a m (delete_snooze a m s)"]
          log_step_missing [of I "delete_snooze a m s", unfolded snooze])
qed

lemma log_step_replace:
  assumes "i \<in> I"
  shows "log_step I (mu_mail s) (mu_mail (snd (replace_mailboxes ck i a m command s)))"
proof -
  have fold: "log_step I (mu_mail s1) (mu_mail (snd (apply_assertion_to_overlay ck a m op s1)))"
    for op s1
    unfolding apply_assertion_to_overlay_def Let_def
    by (auto intro!: log_step_and_then log_step_on_mail log_step_refresh log_step_assertion)
  have drop: "log_step I (mu_mail s1) (mu_mail (remove_operation_after_local_failure op s1))" for op s1
    by (auto simp: remove_operation_after_local_failure_def log_step_def remove_operation_def)
  show ?thesis
    unfolding replace_mailboxes_def queue_then_emit_message_operation_def
  proof (rule log_step_and_then)
    show "log_step I (mu_mail s) (mu_mail (snd (queue_message_operation ck i a m KReplaceMailboxes
        (JReplaceMailboxes command) s)))"
      unfolding queue_message_operation_def by (rule log_step_on_mail) (rule log_step_queue [OF assms])
  next
    fix op s1
    obtain r s2 where r: "apply_assertion_to_overlay ck a m op s1 = (r, s2)"
      by (cases "apply_assertion_to_overlay ck a m op s1")
    have "log_step I (mu_mail s1) (mu_mail s2)" using fold [of s1 op] by (simp add: r)
    then show "log_step I (mu_mail s1) (mu_mail (snd (case apply_assertion_to_overlay ck a m op s1 of
          (Inl error, s) \<Rightarrow> (Inl error, remove_operation_after_local_failure op s)
        | (Inr events, s) \<Rightarrow> (Inr events, s))))"
      using drop [of s2 op] log_step_trans by (auto simp: r split: sum.split)
  qed
qed


subsection \<open>Adopted sends leave the log\<close>

abbreviation log_ids :: "MutDb \<Rightarrow> str set" where
  "log_ids s \<equiv> row_id ` set (db_outbox (mu_mail s))"

lemma log_step_filing:
  "log_step (range (ce_filing_id env)) (mu_mail s)
     (mu_mail (snd (file_drafts_ghost env a sent drafts x s)))"
  by (auto simp: file_drafts_ghost_def split: option.split intro!: log_step_replace)

text \<open>What follows the alias of one adoption: remove and derive, echo, file.\<close>

lemma adopt_one_send:
  assumes "op_kind op = KSend"
    and "find_base_message_id_by_rfc_prefix (mu_mail s) a (send_identity_prefix (op_id op)) = Some x"
    and "adopt_one env a sent drafts op s = (Inr events, s')"
  shows "db_base (mu_mail s') = db_base (mu_mail s)"
    and "db_send_alias (mu_mail s') =
      set_send_alias a (en_id (op_entity op)) x (db_send_alias (mu_mail s))"
    and "log_ids s' \<subseteq> (log_ids s - {op_id op}) \<union> range (ce_filing_id env)"
proof -
  let ?e = "en_id (op_entity op)"
  let ?s0 = "s\<lparr>mu_mail := (mu_mail s)\<lparr>db_send_alias := set_send_alias a ?e x (db_send_alias (mu_mail s))\<rparr>\<rparr>"
  let ?f = "\<lambda>row snapshot. fold_overlay_row snapshot row"
  obtain diff s1 where 1: "on_mail (\<lambda>db. store_result (remove_op_and_derive a (op_id op) [?e] ?f db)) ?s0
      = (Inr diff, s1)"
    and rest: "and_then
        (case diff of
           d # _ \<Rightarrow> (if retired d then on_mail (\<lambda>db. with_echo
                    (deleted_echo (ce_sweep_clock env) a ?e db)) s1 else (Inr [], s1))
         | [] \<Rightarrow> (Inr [], s1))
        (\<lambda>echo s. and_then (file_drafts_ghost env a sent drafts x s)
          (\<lambda>filing s. (Inr (echo @ filing), s))) = (Inr events, s')" (is "?rest = _")
    using assms by (auto simp: adopt_one_def Let_def elim!: and_then_InrE)
  let ?db = "(mu_mail ?s0)\<lparr>db_outbox := remove_operation (op_id op) (db_outbox (mu_mail s))\<rparr>"
  have "mu_mail s1 = snd (derive_rows a ?f [?e] ?db)"
    using 1 by (auto simp: on_mail_def store_result_def remove_op_and_derive_def
        split: prod.splits sum.splits)
  then have first: "log_step {} ?db (mu_mail s1)" by (simp only: log_step_derive)
  have "log_step (range (ce_filing_id env)) (mu_mail s1) (mu_mail (snd ?rest))"
    by (auto simp: log_step_filing split: list.split
        intro!: log_step_and_then log_step_on_mail log_step_echo)
  then have later: "log_step (range (ce_filing_id env)) (mu_mail s1) (mu_mail s')"
    unfolding rest snd_conv .
  show "db_base (mu_mail s') = db_base (mu_mail s)"
    and "db_send_alias (mu_mail s') = set_send_alias a ?e x (db_send_alias (mu_mail s))"
    using first later by (simp_all add: log_step_def)
  have "log_ids s1 \<subseteq> log_ids s - {op_id op}"
    using log_step_ids [OF first] by (simp only: remove_ids)
  moreover note log_step_ids [OF later]
  ultimately show "log_ids s' \<subseteq> (log_ids s - {op_id op}) \<union> range (ce_filing_id env)"
    by (meson Un_mono order_refl order_trans)
qed

lemma adopt_one_other:
  assumes "adopt_one env a sent drafts op s = (Inr events, s')"
    and "\<not> (op_kind op = KSend \<and>
      find_base_message_id_by_rfc_prefix (mu_mail s) a (send_identity_prefix (op_id op)) \<noteq> None)"
  shows "s' = s"
  using assms by (auto simp: adopt_one_def split: option.splits if_splits)

text \<open>What one adoption of the loop does to a send that is already out of the log.\<close>

definition adopted :: "str \<Rightarrow> Operation \<Rightarrow> str \<Rightarrow> MutDb \<Rightarrow> bool" where
  "adopted a op x s \<longleftrightarrow> op_id op \<notin> log_ids s \<and>
     db_send_alias (mu_mail s) (a, en_id (op_entity op)) = Some x"

lemma adopt_one_base:
  assumes "adopt_one env a sent drafts op s = (Inr events, s')"
  shows "db_base (mu_mail s') = db_base (mu_mail s)"
  using adopt_one_send(1) [OF _ _ assms] adopt_one_other [OF assms] by (metis option.exhaust)

lemma find_base_cong:
  "db_base db' = db_base db \<Longrightarrow>
   find_base_message_id_by_rfc_prefix db' = find_base_message_id_by_rfc_prefix db"
  by (simp add: find_base_message_id_by_rfc_prefix_def fun_eq_iff)

lemma adopt_loop_adopts:
  assumes "adopt_loop env a sent drafts ops s = (Inr events, s')"
    and "find_base_message_id_by_rfc_prefix (mu_mail s) a (send_identity_prefix (op_id op)) = Some x"
    and "op_kind op = KSend" and "op_id op \<notin> range (ce_filing_id env)"
    and "\<forall>other \<in> set ops. op_kind other = KSend \<and>
      en_id (op_entity other) = en_id (op_entity op) \<longrightarrow> op_id other = op_id op"
    and "op \<in> set ops \<or> adopted a op x s"
  shows "adopted a op x s' \<and> db_base (mu_mail s') = db_base (mu_mail s)"
  using assms
proof (induction ops arbitrary: s events)
  case (Cons o1 ops)
  obtain ev1 s1 more where 1: "adopt_one env a sent drafts o1 s = (Inr ev1, s1)"
    and rest: "adopt_loop env a sent drafts ops s1 = (Inr more, s')"
    using Cons.prems(1) by (auto elim!: and_then_InrE)
  have base: "db_base (mu_mail s1) = db_base (mu_mail s)" by (rule adopt_one_base [OF 1])
  have step: "op \<in> set ops \<or> adopted a op x s1"
  proof (cases "op_kind o1 = KSend \<and>
      find_base_message_id_by_rfc_prefix (mu_mail s) a (send_identity_prefix (op_id o1)) \<noteq> None")
    case False
    then have "s1 = s" by (rule adopt_one_other [OF 1])
    moreover have "o1 \<noteq> op" using False Cons.prems(2,3) by auto
    ultimately show ?thesis using Cons.prems(6) by auto
  next
    case True
    then obtain y where y: "op_kind o1 = KSend"
        "find_base_message_id_by_rfc_prefix (mu_mail s) a (send_identity_prefix (op_id o1)) = Some y"
      by auto
    note eff = adopt_one_send(2,3) [OF y 1]
    show ?thesis
    proof (cases "en_id (op_entity o1) = en_id (op_entity op)")
      case same: True
      then have id: "op_id o1 = op_id op" using Cons.prems(5) y(1) by simp
      then have "y = x" using y(2) Cons.prems(2) by simp
      then show ?thesis using eff same id Cons.prems(4)
        by (auto simp: adopted_def set_send_alias_def)
    next
      case False
      then show ?thesis using eff Cons.prems(4,6)
        by (auto simp: adopted_def set_send_alias_def)
    qed
  qed
  have "adopted a op x s' \<and> db_base (mu_mail s') = db_base (mu_mail s1)"
    using Cons.IH [OF rest] Cons.prems(2-5) step find_base_cong [OF base] by simp
  then show ?case using base by simp
qed simp

text \<open>
  C9. A delivered send leaves the log as soon as its provider copy is in base: after adoption every
  settled send whose transport token some base row carries is out of the log, and its provisional id
  resolves to that row, so later actions on the provisional row reach the real message; base itself
  is not written. The ids of the filing operations are fresh, and no two settled sends share a
  provisional id.
\<close>

theorem adopted_sends_leave_the_log:
  assumes "adopt_sent_copies env a s = (Inr events, s')"
    and "settled \<in> set (list_settled_operations a (db_outbox (mu_mail s)))"
    and "op_kind (so_operation settled) = KSend"
    and "find_base_message_id_by_rfc_prefix (mu_mail s) a
           (send_identity_prefix (op_id (so_operation settled))) = Some adopted_id"
    and "op_id (so_operation settled) \<notin> range (ce_filing_id env)"
    and "\<forall>other \<in> set (list_settled_operations a (db_outbox (mu_mail s))).
           op_kind (so_operation other) = KSend \<and>
           en_id (op_entity (so_operation other)) = en_id (op_entity (so_operation settled)) \<longrightarrow>
           op_id (so_operation other) = op_id (so_operation settled)"
  shows "get_operation (db_outbox (mu_mail s')) (op_id (so_operation settled)) = None \<and>
    resolve_send_alias (db_send_alias (mu_mail s')) a (en_id (op_entity (so_operation settled))) =
      Some adopted_id \<and>
    db_base (mu_mail s') = db_base (mu_mail s)"
proof -
  have "adopted a (so_operation settled) adopted_id s' \<and> db_base (mu_mail s') = db_base (mu_mail s)"
    by (rule adopt_loop_adopts [OF assms(1) [unfolded adopt_sent_copies_def] assms(4,3,5)])
      (use assms(2,6) in auto)
  then show ?thesis
    by (simp add: adopted_def get_operation_None_iff resolve_send_alias_def)
qed


subsection \<open>Repairs do not stack\<close>

abbreviation keyed_ops :: "str \<Rightarrow> str \<Rightarrow> outbox \<Rightarrow> SettledOperation list" where
  "keyed_ops a m tbl \<equiv>
     filter (\<lambda>r. op_account_id (row_op r) = a \<and> en_id (op_entity (row_op r)) = m) tbl"

lemma keyed_operation_iff: "keyed_operation a m tbl \<longleftrightarrow> keyed_ops a m tbl \<noteq> []"
proof -
  have "\<forall>op. op_state op \<noteq> Applied \<or> op_state op \<noteq> FailedState"
    by (metis OperationState.distinct)
  then show ?thesis
    by (auto simp: keyed_operation_def list_ex_iff list_pending_operations_def
        list_unsettled_operations_def ops_where_def unsettled_row_def filter_empty_conv)
qed

lemma delete_draft_table:
  "db_outbox (snd (delete_draft ck i a m redo db)) =
     (if i \<in> row_id ` set (db_outbox db) then db_outbox db
      else db_outbox db @ [new_row
        \<lparr>op_id = i, op_account_id = a, op_entity = draft_entity m, op_kind = KDraftDelete,
         op_payload = JDiscard redo, op_payload_version = 1, op_state = Pending, op_attempts = 0,
         op_last_error = None, op_send_at = None, op_hold_until_mono = None,
         op_created_at = ck_now ck, op_updated_at = ck_now ck\<rparr>])"
proof -
  define db0 where "db0 = (if resolve_draft_entity (db_draft_alias db) a m = None
    then reserve_key a m db else db)"
  have e: "db_outbox db0 = db_outbox db" by (simp add: db0_def)
  let ?q = "queue_operation_with_id ck i a (draft_entity m) KDraftDelete (JDiscard redo) None None db0"
  have echo: "db_outbox (snd (case append_event ck a tp mb mi p d of
      (event, d) \<Rightarrow> (Inr (op, [event]), d))) = db_outbox d" for tp mb mi p d op
    by (simp add: append_event_def Let_def)
  have "db_outbox (snd (delete_draft ck i a m redo db)) = db_outbox (snd ?q)"
    unfolding delete_draft_def Let_def db0_def [symmetric]
    by (rule and_then_outbox, rule refl, rule and_then_outbox)
      (simp_all only: refresh_outbox echo snd_conv split: if_split, simp)
  then show ?thesis by (simp add: queue_draft_table is_state_assertion_def e)
qed

lemma try_repair_table:
  "db_outbox (mu_mail (snd (try_repair_lingering_tombstone env a m s))) = db_outbox (mu_mail s) \<or>
   (\<exists>op. db_outbox (mu_mail (snd (try_repair_lingering_tombstone env a m s))) =
      db_outbox (mu_mail s) @ [new_row op] \<and> en_id (op_entity op) = m \<and>
      keyed_ops a m (db_outbox (mu_mail s)) = [])"
proof (cases "read_overlay (mu_mail s) a m \<noteq> Some None \<or> read_base (mu_mail s) a m = None \<or>
    keyed_operation a m (db_outbox (mu_mail s))")
  case True
  then show ?thesis by (auto simp: try_repair_lingering_tombstone_def)
next
  case False
  let ?d = "delete_draft (ce_sweep_clock env) (ce_repair_id env m) a m True (mu_mail s)"
  have "db_outbox (mu_mail (snd (try_repair_lingering_tombstone env a m s))) = db_outbox (snd ?d)"
    using False
    by (auto simp: try_repair_lingering_tombstone_def on_mail_def and_then_def
        split: prod.split sum.split)
  then show ?thesis
    using False by (auto simp: delete_draft_table keyed_operation_iff draft_entity_def)
qed

lemma sweep_rows_keyed:
  "length (keyed_ops a m (db_outbox (mu_mail (snd (sweep_rows env a ids s))))) \<le>
   max 1 (length (keyed_ops a m (db_outbox (mu_mail s))))"
proof (induction ids arbitrary: s)
  case (Cons m1 ids)
  let ?n = "\<lambda>s. length (keyed_ops a m (db_outbox (mu_mail s)))"
  obtain r s1 where r: "try_repair_lingering_tombstone env a m1 s = (r, s1)"
    by (cases "try_repair_lingering_tombstone env a m1 s")
  have n1: "?n s1 \<le> max 1 (?n s)"
    using try_repair_table [of env a m1 s] by (cases "m = m1") (auto simp: r new_row_def)
  show ?case
  proof (cases r)
    case (Inl e)
    then show ?thesis using n1 by (simp add: r)
  next
    case (Inr repaired)
    obtain q s2 where q: "(case repaired of
         Some events \<Rightarrow> (Inr events, s1)
       | None \<Rightarrow> and_then (on_mail (refresh a m1) s1) (\<lambda>_ s. (Inr [], s))) = (q, s2)"
      by (cases "case repaired of
         Some events \<Rightarrow> (Inr events, s1)
       | None \<Rightarrow> and_then (on_mail (refresh a m1) s1) (\<lambda>_ s. (Inr [], s))")
    have "db_outbox (mu_mail s2) = db_outbox (mu_mail s1)"
      using q refresh_outbox [of a m1 "mu_mail s1"]
      by (auto simp: on_mail_def and_then_def split: option.splits prod.splits sum.splits)
    then have n2: "?n s2 \<le> max 1 (?n s)" using n1 by simp
    obtain w s3 where w: "sweep_rows env a ids s2 = (w, s3)" by (cases "sweep_rows env a ids s2")
    have "?n s3 \<le> max 1 (?n s)" using Cons.IH [of s2] n2 by (simp add: w)
    then show ?thesis using n2 by (cases q; cases w) (simp_all add: r Inr q w)
  qed
qed simp

text \<open>
  C39. Repairs never stack: however often and in whatever order a sweep visits the rows of its
  inventory, it leaves at most one operation keyed to a row unless more were there before, in any
  state of the earlier ones, failed repairs included.
\<close>

theorem repairs_never_stack:
  "length (keyed_ops a m (db_outbox (mu_mail (snd
      (sweep_rows env a visits (snd (sweep_rows env a ids s))))))) \<le>
   max 1 (length (keyed_ops a m (db_outbox (mu_mail s))))"
  using sweep_rows_keyed [of a m env visits "snd (sweep_rows env a ids s)"]
    sweep_rows_keyed [of a m env ids s] by linarith


subsection \<open>The draft of an unsent message\<close>

text \<open>
  A send that is no longer held folds the draft it consumes away, whatever became of the dispatch:
  queued, in flight, uncertain or failed. Over a surviving base row that is a tombstone.
\<close>

lemma consumed_draft_derived:
  assumes "collect_ops (registry_resolve db a) m (list_unsettled_operations a (db_outbox db)) ([], []) =
      Inr ([], [(op, SendConsumedDraft)])"
    and "op_intent op = Inr (ISend request)" and "\<not> send_is_held op"
    and "read_base db a m \<noteq> None"
  shows "derived_row db a m = None"
proof -
  have effect: "intent_fold_effect op = Inr (Some (SendEffects (compose_key request) request))"
    using assms(2) by (simp add: intent_fold_effect_def)
  have "collect_ops (snapshot_resolve (derive_snapshot db a m)) m
      (sn_ops (derive_snapshot db a m)) ([], []) = Inr ([], [(op, SendConsumedDraft)])"
    using assms(1) by (simp add: registry_is_snapshot [where m = m])
  then have "fold_overlay_row (derive_snapshot db a m) m = Inr Tombstone"
    using effect assms(3,4)
    by (simp add: fold_overlay_row_def fold_touching_def fold_verdict_def)
  then show ?thesis by (simp add: derived_row_def mutation_shape_def row_after_def)
qed

lemma delete_draft_run:
  assumes "delete_draft ck i a key redo db = (Inr r, db')"
  shows "db_base db' = db_base db"
    and "db_draft_alias db' (a, k) = (if k = key \<and> db_draft_alias db (a, key) = None then Some key
      else db_draft_alias db (a, k))"
    and "m \<noteq> (case db_draft_alias db (a, key) of Some live \<Rightarrow> live | None \<Rightarrow> key) \<Longrightarrow>
      map_of (db_overlay db') (a, m) = map_of (db_overlay db) (a, m)"
proof -
  define db0 where "db0 = (if db_draft_alias db (a, key) = None then reserve_key a key db else db)"
  obtain op db1 where q: "queue_operation_with_id ck i a (draft_entity key) KDraftDelete (JDiscard redo)
      None None db0 = (Inr op, db1)"
    and rest: "and_then (refresh a (live_draft_id db0 a key) db1)
      (\<lambda>_ d. if message_effective db0 a (live_draft_id db0 a key) = None then (Inr (op, []), d)
        else case append_event ck a EVENT_TOPIC_MESSAGE_UPDATED
               (first_of (message_mailbox_effective db0 a (live_draft_id db0 a key)))
               (Some (live_draft_id db0 a key)) (PDeleted (live_draft_id db0 a key)) d of
             (event, d) \<Rightarrow> (Inr (op, [event]), d)) = (Inr r, db')"
    using assms unfolding delete_draft_def Let_def resolve_draft_entity_def db0_def [symmetric]
    by (auto elim!: and_then_InrE)
  have db1: "db1 = db0\<lparr>db_outbox := db_outbox db1\<rparr>"
    using q by (auto simp: queue_operation_with_id_def is_state_assertion_def split: prod.splits sum.splits)
  obtain d db2 where ref: "refresh_message_overlay a (live_draft_id db0 a key) db1 = (Inr d, db2)"
    and end_: "db_base db' = db_base db2" "db_draft_alias db' = db_draft_alias db2"
      "db_overlay db' = db_overlay db2"
    using rest by (auto simp: refresh_def store_result_def append_event_def Let_def and_then_def
        split: prod.splits sum.splits if_splits)
  have live: "live_draft_id db0 a key = (case db_draft_alias db (a, key) of Some l \<Rightarrow> l | None \<Rightarrow> key)"
    by (auto simp: live_draft_id_def db0_def resolve_draft_entity_def reserve_key_def
        set_draft_alias_def split: option.splits)
  have db0: "db_base db0 = db_base db" "db_overlay db0 = db_overlay db"
    by (simp_all add: db0_def reserve_key_def)
  show "db_base db' = db_base db" using end_ refresh_frame(4) [OF ref] db1 db0
    by (metis MailDb.select_convs(4) MailDb.surjective MailDb.update_convs(1))
  have "db_base db1 = db_base db0" "db_draft_alias db1 = db_draft_alias db0" "db_overlay db1 = db_overlay db0"
    by (subst db1, simp)+
  note frame = this
  show "db_draft_alias db' (a, k) = (if k = key \<and> db_draft_alias db (a, key) = None then Some key
      else db_draft_alias db (a, k))"
    using end_ refresh_frame(2) [OF ref] frame
    by (simp add: db0_def reserve_key_def set_draft_alias_def)
  show "map_of (db_overlay db') (a, m) = map_of (db_overlay db) (a, m)"
    if "m \<noteq> (case db_draft_alias db (a, key) of Some live \<Rightarrow> live | None \<Rightarrow> key)"
    using refresh_other_overlay [OF ref] that end_ frame db0 live by simp
qed

lemma delete_draft_grown:
  assumes "delete_draft ck i a m redo db = (Inr r, db')" and "i \<notin> row_id ` set (db_outbox db)"
  shows "\<exists>op. db_outbox db' = db_outbox db @ [new_row op] \<and> op_id op = i \<and> op_account_id op = a \<and>
    op_state op = Pending \<and> op_entity op = draft_entity m \<and> op_intent op = Inr (IDiscardDraft redo)"
    (is "\<exists>op. ?P op")
proof
  show "?P \<lparr>op_id = i, op_account_id = a, op_entity = draft_entity m, op_kind = KDraftDelete,
         op_payload = JDiscard redo, op_payload_version = 1, op_state = Pending, op_attempts = 0,
         op_last_error = None, op_send_at = None, op_hold_until_mono = None,
         op_created_at = ck_now ck, op_updated_at = ck_now ck\<rparr>"
    using delete_draft_table [of ck i a m redo db] assms by (simp add: op_intent_def from_parts_def)
qed

text \<open>The tombstone a sweep will repair, and the repair once it is in the log.\<close>

definition repairable :: "str \<Rightarrow> str \<Rightarrow> MutDb \<Rightarrow> bool" where
  "repairable a m s \<longleftrightarrow>
     (\<exists>row. map_of (db_overlay (mu_mail s)) (a, m) = Some row \<and> ov_tombstone row) \<and>
     map_of (db_base (mu_mail s)) (a, m) \<noteq> None \<and>
     \<not> keyed_operation a m (db_outbox (mu_mail s)) \<and> db_draft_alias (mu_mail s) (a, m) = None"

definition repair_in_log :: "str \<Rightarrow> str \<Rightarrow> MutDb \<Rightarrow> bool" where
  "repair_in_log a m s \<longleftrightarrow>
     (\<exists>r \<in> set (db_outbox (mu_mail s)). op_account_id (row_op r) = a \<and> op_state (row_op r) = Pending \<and>
        op_entity (row_op r) = draft_entity m \<and> op_intent (row_op r) = Inr (IDiscardDraft True)) \<and>
     db_draft_alias (mu_mail s) (a, m) = Some m"

text \<open>One row of the sweep.\<close>

definition swept_row ::
  "'g CycleEnv \<Rightarrow> str \<Rightarrow> str \<Rightarrow> MutDb \<Rightarrow> (svc_error, DomainEvent list) result \<times> MutDb" where
  "swept_row env a m s = and_then (try_repair_lingering_tombstone env a m s)
     (\<lambda>repaired s. case repaired of
        Some events \<Rightarrow> (Inr events, s)
      | None \<Rightarrow> and_then (on_mail (refresh a m) s) (\<lambda>_ s. (Inr [], s)))"

lemma swept_row_run:
  assumes "swept_row env a m1 s = (Inr events, s')"
  obtains (repaired) r where "delete_draft (ce_sweep_clock env) (ce_repair_id env m1) a m1 True (mu_mail s) =
        (Inr r, mu_mail s')" "read_overlay (mu_mail s) a m1 = Some None"
        "read_base (mu_mail s) a m1 \<noteq> None" "\<not> keyed_operation a m1 (db_outbox (mu_mail s))"
    | (refreshed) d where "refresh_message_overlay a m1 (mu_mail s) = (Inr d, mu_mail s')"
        "read_overlay (mu_mail s) a m1 \<noteq> Some None \<or> read_base (mu_mail s) a m1 = None \<or>
         keyed_operation a m1 (db_outbox (mu_mail s))"
proof (cases "read_overlay (mu_mail s) a m1 \<noteq> Some None \<or> read_base (mu_mail s) a m1 = None \<or>
    keyed_operation a m1 (db_outbox (mu_mail s))")
  case True
  then have "try_repair_lingering_tombstone env a m1 s = (Inr None, s)"
    by (auto simp: try_repair_lingering_tombstone_def)
  then have "\<exists>d. refresh_message_overlay a m1 (mu_mail s) = (Inr d, mu_mail s')"
    using assms by (auto simp: swept_row_def on_mail_def refresh_def store_result_def and_then_def
        split: prod.splits sum.splits)
  with True refreshed show thesis by blast
next
  case False
  then have "\<exists>r. delete_draft (ce_sweep_clock env) (ce_repair_id env m1) a m1 True (mu_mail s) =
      (Inr r, mu_mail s')"
    using assms by (auto simp: swept_row_def try_repair_lingering_tombstone_def on_mail_def and_then_def
        split: prod.splits sum.splits)
  with False repaired show thesis by blast
qed

lemma swept_row_outbox:
  assumes "swept_row env a m1 s = (Inr events, s')"
  shows "db_outbox (mu_mail s') = db_outbox (mu_mail s) \<or>
    (\<exists>op. db_outbox (mu_mail s') = db_outbox (mu_mail s) @ [new_row op] \<and>
      en_id (op_entity op) = m1 \<and> op_id op = ce_repair_id env m1)"
  using assms
proof (rule swept_row_run)
  fix r
  assume d: "delete_draft (ce_sweep_clock env) (ce_repair_id env m1) a m1 True (mu_mail s) = (Inr r, mu_mail s')"
  show ?thesis
  proof (cases "ce_repair_id env m1 \<in> log_ids s")
    case True
    with delete_draft_table [of "ce_sweep_clock env" "ce_repair_id env m1" a m1 True "mu_mail s"] d
    show ?thesis by simp
  next
    case False
    from delete_draft_grown [OF d False] show ?thesis by (auto simp: draft_entity_def)
  qed
qed (auto dest: refresh_frame(1))

lemma swept_row_other:
  assumes "swept_row env a m1 s = (Inr events, s')" and "m1 \<noteq> m"
    and "db_draft_alias (mu_mail s) (a, m1) \<noteq> Some m" and "repairable a m s"
  shows "repairable a m s'" and "k \<noteq> m1 \<Longrightarrow>
    db_draft_alias (mu_mail s') (a, k) = db_draft_alias (mu_mail s) (a, k)"
proof -
  have keyed: "\<not> keyed_operation a m (db_outbox (mu_mail s'))"
    using swept_row_outbox [OF assms(1)] assms(2,4)
    by (auto simp: repairable_def keyed_operation_iff new_row_def)
  have "map_of (db_overlay (mu_mail s')) (a, m) = map_of (db_overlay (mu_mail s)) (a, m) \<and>
      db_base (mu_mail s') = db_base (mu_mail s) \<and>
      (\<forall>k. k \<noteq> m1 \<longrightarrow> db_draft_alias (mu_mail s') (a, k) = db_draft_alias (mu_mail s) (a, k))"
    using assms(1)
  proof (rule swept_row_run)
    fix r
    assume d: "delete_draft (ce_sweep_clock env) (ce_repair_id env m1) a m1 True (mu_mail s) =
      (Inr r, mu_mail s')"
    have "m \<noteq> (case db_draft_alias (mu_mail s) (a, m1) of Some live \<Rightarrow> live | None \<Rightarrow> m1)"
      using assms(2,3) by (auto split: option.split)
    from delete_draft_run(3) [OF d this] show ?thesis
      using delete_draft_run(1) [OF d] delete_draft_run(2) [OF d] by auto
  next
    fix d
    assume d: "refresh_message_overlay a m1 (mu_mail s) = (Inr d, mu_mail s')"
    show ?thesis
      using refresh_frame(2,4) [OF d] refresh_other_overlay [OF d, of m] assms(2) by auto
  qed
  then show "repairable a m s'" and "k \<noteq> m1 \<Longrightarrow>
      db_draft_alias (mu_mail s') (a, k) = db_draft_alias (mu_mail s) (a, k)"
    using assms(2,4) keyed by (auto simp: repairable_def)
qed

lemma swept_row_repairs:
  assumes "swept_row env a m s = (Inr events, s')" and "repairable a m s"
    and "ce_repair_id env m \<notin> row_id ` set (db_outbox (mu_mail s))"
  shows "repair_in_log a m s'"
  using assms(1)
proof (rule swept_row_run)
  fix r
  assume d: "delete_draft (ce_sweep_clock env) (ce_repair_id env m) a m True (mu_mail s) =
    (Inr r, mu_mail s')"
  obtain op where "db_outbox (mu_mail s') = db_outbox (mu_mail s) @ [new_row op]"
      "op_account_id op = a" "op_state op = Pending" "op_entity op = draft_entity m"
      "op_intent op = Inr (IDiscardDraft True)"
    using delete_draft_grown [OF d assms(3)] by blast
  moreover have "db_draft_alias (mu_mail s') (a, m) = Some m"
    using delete_draft_run(2) [OF d, of m] assms(2) by (simp add: repairable_def)
  ultimately show ?thesis by (simp add: repair_in_log_def new_row_def)
qed (use assms(2) in \<open>auto simp: repairable_def read_overlay_def read_base_def\<close>)

lemma swept_row_keeps_repair:
  assumes "swept_row env a m1 s = (Inr events, s')" and "repair_in_log a m s"
  shows "repair_in_log a m s'"
proof -
  have "db_draft_alias (mu_mail s') (a, m) = Some m"
    using assms(1)
  proof (rule swept_row_run)
    fix r
    assume "delete_draft (ce_sweep_clock env) (ce_repair_id env m1) a m1 True (mu_mail s) =
      (Inr r, mu_mail s')"
    from delete_draft_run(2) [OF this, of m] assms(2) show ?thesis
      by (auto simp: repair_in_log_def)
  qed (use assms(2) in \<open>auto simp: repair_in_log_def dest: refresh_frame(2)\<close>)
  then show ?thesis
    using swept_row_outbox [OF assms(1)] assms(2) by (auto simp: repair_in_log_def)
qed

lemma sweep_rows_step:
  assumes "sweep_rows env a (m1 # ids) s = (Inr events, s')"
  obtains ev1 s1 more where "swept_row env a m1 s = (Inr ev1, s1)"
    "sweep_rows env a ids s1 = (Inr more, s')"
  using assms by (auto simp: swept_row_def and_then_def split: prod.splits sum.splits option.splits)

lemma sweep_keeps_repair:
  "\<lbrakk>sweep_rows env a ids s = (Inr events, s'); repair_in_log a m s\<rbrakk> \<Longrightarrow> repair_in_log a m s'"
proof (induction ids arbitrary: s events)
  case (Cons m1 ids)
  from Cons.prems(1) show ?case
    by (rule sweep_rows_step) (blast intro: Cons.IH swept_row_keeps_repair Cons.prems(2))
qed simp

lemma sweep_repairs:
  assumes "sweep_rows env a ids s = (Inr events, s')" and "m \<in> set ids" and "repairable a m s"
    and "\<forall>k. k \<noteq> m \<longrightarrow> db_draft_alias (mu_mail s) (a, k) = Some m \<longrightarrow> k \<notin> set ids"
    and "distinct ids" and "inj (ce_repair_id env)"
    and "ce_repair_id env m \<notin> row_id ` set (db_outbox (mu_mail s))"
  shows "repair_in_log a m s'"
  using assms(1-5,7)
proof (induction ids arbitrary: s events)
  case (Cons m1 ids)
  obtain ev1 s1 more where row: "swept_row env a m1 s = (Inr ev1, s1)"
    and rest: "sweep_rows env a ids s1 = (Inr more, s')"
    by (rule sweep_rows_step [OF Cons.prems(1)])
  show ?case
  proof (cases "m1 = m")
    case True
    then show ?thesis
      using swept_row_repairs [of env a m s] row Cons.prems(3,6) sweep_keeps_repair [OF rest] by blast
  next
    case False
    have apart: "db_draft_alias (mu_mail s) (a, m1) \<noteq> Some m" using Cons.prems(4) False by auto
    have fresh: "ce_repair_id env m \<notin> row_id ` set (db_outbox (mu_mail s1))"
      using swept_row_outbox [OF row] Cons.prems(6) injD [OF assms(6)] False
      by (auto simp: row_id_def new_row_def)
    note other = swept_row_other [OF row False apart Cons.prems(3)]
    have "\<forall>k. k \<noteq> m \<longrightarrow> db_draft_alias (mu_mail s1) (a, k) = Some m \<longrightarrow> k \<notin> set ids"
      using Cons.prems(4,5) other(2) by (metis distinct.simps(2) list.set_intros(2))
    then show ?thesis
      by (intro Cons.IH [OF rest]) (use Cons.prems(2,5) False fresh other(1) in auto)
  qed
qed simp


lemma delete_draft_total:
  assumes "log_decodes db a"
  shows "\<exists>r db'. delete_draft ck i a m redo db = (Inr r, db') \<and> log_decodes db' a"
proof -
  define db0 where "db0 = (if resolve_draft_entity (db_draft_alias db) a m = None
    then reserve_key a m db else db)"
  let ?q = "queue_operation_with_id ck i a (draft_entity m) KDraftDelete (JDiscard redo) None None db0"
  have o: "db_outbox db0 = db_outbox db" by (simp add: db0_def reserve_key_def)
  obtain op where op: "fst ?q = Inr op"
    using enqueue_total by (cases "fst ?q")
      (auto simp: queue_operation_with_id_def is_state_assertion_def split: prod.splits sum.splits)
  have "decodes \<lparr>op_id = i, op_account_id = a, op_entity = draft_entity m, op_kind = KDraftDelete,
      op_payload = JDiscard redo, op_payload_version = 1, op_state = Pending, op_attempts = 0,
      op_last_error = None, op_send_at = None, op_hold_until_mono = None,
      op_created_at = ck_now ck, op_updated_at = ck_now ck\<rparr>"
    by (simp add: decodes_def op_intent_def from_parts_def)
  then have dec: "log_decodes (snd ?q) a"
    using assms by (auto simp: log_decodes_def queue_draft_table is_state_assertion_def o
        list_unsettled_operations_def ops_where_def new_row_def)
  obtain d db2 where ref: "refresh_message_overlay a (live_draft_id db0 a m) (snd ?q) = (Inr d, db2)"
    using refresh_total [OF dec] by blast
  have dec2: "log_decodes db2 a" using dec refresh_frame(1) [OF ref] by (simp add: log_decodes_def)
  have q: "?q = (Inr op, snd ?q)" using op by (metis prod.collapse)
  have r: "refresh a (live_draft_id db0 a m) (snd ?q) = (Inr d, db2)"
    by (simp add: refresh_def store_result_def ref)
  show ?thesis
    unfolding delete_draft_def Let_def db0_def [symmetric]
    by (subst q) (auto simp: r dec2 append_event_def Let_def log_decodes_outbox [of _ db2])
qed

lemma swept_row_total:
  assumes "log_decodes (mu_mail s) a"
  shows "\<exists>events s'. swept_row env a m s = (Inr events, s') \<and> log_decodes (mu_mail s') a"
proof (cases "read_overlay (mu_mail s) a m \<noteq> Some None \<or> read_base (mu_mail s) a m = None \<or>
    keyed_operation a m (db_outbox (mu_mail s))")
  case True
  then have none: "try_repair_lingering_tombstone env a m s = (Inr None, s)"
    by (auto simp: try_repair_lingering_tombstone_def)
  obtain d db' where r: "refresh_message_overlay a m (mu_mail s) = (Inr d, db')"
    using refresh_total [OF assms] by blast
  then show ?thesis
    using refresh_frame(1) [OF r] assms
    by (simp add: swept_row_def none on_mail_def refresh_def store_result_def log_decodes_def)
next
  case False
  obtain r db' where d: "delete_draft (ce_sweep_clock env) (ce_repair_id env m) a m True (mu_mail s) =
      (Inr r, db')" "log_decodes db' a"
    using delete_draft_total [OF assms] by blast
  then show ?thesis
    using False by (cases r) (auto simp: swept_row_def try_repair_lingering_tombstone_def on_mail_def)
qed

lemma sweep_rows_total:
  "log_decodes (mu_mail s) a \<Longrightarrow> \<exists>events s'. sweep_rows env a ids s = (Inr events, s')"
proof (induction ids arbitrary: s)
  case (Cons m ids)
  obtain ev s1 where row: "swept_row env a m s = (Inr ev, s1)" "log_decodes (mu_mail s1) a"
    using swept_row_total [OF Cons.prems] by blast
  obtain more s' where "sweep_rows env a ids s1 = (Inr more, s')" using Cons.IH [OF row(2)] by blast
  then show ?case
    using row(1) by (auto simp: swept_row_def and_then_def split: prod.splits sum.splits option.splits)
qed simp

lemma sweep_total:
  assumes "log_decodes (mu_mail s) a" and "list_settled_operations a (db_outbox (mu_mail s)) = []"
  shows "\<exists>events s'. sweep_message_overlay env a started s = (Inr events, s')"
proof -
  obtain ids where inv: "replay_inventory (mu_mail s) a = Inr ids" using inventory_total by blast
  obtain swept s' where "sweep_rows env a ids s = (Inr swept, s')"
    using sweep_rows_total [OF assms(1)] by blast
  then show ?thesis
    using assms(2) by (simp add: sweep_message_overlay_def adopt_sent_copies_def on_mail_def
        truncate_settled_operations_def inv store_result_def)
qed

lemma tombstone_in_inventory:
  assumes "replay_inventory db a = Inr ids" and "map_of (db_overlay db) (a, m) = Some row"
  shows "m \<in> set ids" and "distinct ids"
proof -
  have "(a, m) \<in> fst ` set (db_overlay db)" using assms(2) by (force dest: map_of_SomeD)
  then have "m \<in> set (list_overlay_message_ids a db)"
    by (force simp: list_overlay_message_ids_def)
  then show "m \<in> set ids" and "distinct ids"
    using assms(1) by (auto simp: replay_inventory_def map_result_def bt_collect_def split: sum.splits)
qed

text \<open>
  C12. The sweep deletes the draft of a message that was never sent. A send that left its hold, be
  it failed for good or of unknown delivery, keeps folding its draft row away while base still holds
  the draft. When it is the only operation that touches the row, the shown row is the replayed one, no
  operation is keyed to that row (the send is keyed to its provisional sent row), the row's own id is no draft key and no other swept row is a draft key of it, a sweep that
  succeeds with nothing settled to adopt or truncate leaves a pending idempotent discard of the row
  in the log, and dispatching that discard asks the provider to delete the draft. The ids of new
  repairs are fresh.
\<close>

theorem unsent_send_loses_its_draft:
  assumes "sweep_message_overlay env a started s = (Inr events, s')"
    and "list_settled_operations a (db_outbox (mu_mail s)) = []"
    and "collect_ops (registry_resolve (mu_mail s) a) m
        (list_unsettled_operations a (db_outbox (mu_mail s))) ([], []) =
      Inr ([], [(op, SendConsumedDraft)])"
    and "op_intent op = Inr (ISend request)" and "\<not> send_is_held op"
    and "read_base (mu_mail s) a m \<noteq> None"
    and "message_effective (mu_mail s) a m = derived_row (mu_mail s) a m"
    and "\<not> keyed_operation a m (db_outbox (mu_mail s))"
    and "db_draft_alias (mu_mail s) (a, m) = None"
    and "\<forall>ids k. replay_inventory (mu_mail s) a = Inr ids \<longrightarrow> k \<in> set ids \<longrightarrow> k \<noteq> m \<longrightarrow>
      db_draft_alias (mu_mail s) (a, k) \<noteq> Some m"
    and "inj (ce_repair_id env)" and "ce_repair_id env m \<notin> row_id ` set (db_outbox (mu_mail s))"
  shows "\<exists>repair \<in> set (db_outbox (mu_mail s')).
    op_account_id (row_op repair) = a \<and> op_state (row_op repair) = Pending \<and>
    op_entity (row_op repair) = draft_entity m \<and>
    push_operation gateway a (row_op repair) (mu_mail s') g =
      entity_pushed (gw_delete_draft gateway a m True g) (\<lambda>_. PushedEntity None (Some m) None None)"
proof -
  have adopt: "adopt_sent_copies env a s = (Inr [], s)"
    using assms(2) by (simp add: adopt_sent_copies_def)
  have truncate: "truncate_settled_operations (ce_sweep_clock env) a started (mu_mail s) = (Inr [], mu_mail s)"
    using assms(2) by (simp add: truncate_settled_operations_def)
  obtain ids where inv: "replay_inventory (mu_mail s) a = Inr ids" using inventory_total by blast
  obtain swept where rows: "sweep_rows env a ids s = (Inr swept, s')"
    using assms(1) by (auto simp: sweep_message_overlay_def adopt truncate on_mail_def inv
        store_result_def split: sum.splits elim!: and_then_InrE)
  have "message_effective (mu_mail s) a m = None"
    using consumed_draft_derived [OF assms(3-6)] assms(7) by simp
  then obtain row where row: "map_of (db_overlay (mu_mail s)) (a, m) = Some row" "ov_tombstone row"
    using assms(6) by (auto simp: message_effective_def split: option.splits if_splits)
  have "repairable a m s"
    using row assms(6,8,9) by (auto simp: repairable_def read_base_def)
  then have "repair_in_log a m s'"
    using sweep_repairs [OF rows tombstone_in_inventory(1) [OF inv row(1)]]
      tombstone_in_inventory(2) [OF inv row(1)] assms(10-12) inv by blast
  then obtain r where r: "r \<in> set (db_outbox (mu_mail s'))" "op_account_id (row_op r) = a"
      "op_state (row_op r) = Pending" "op_entity (row_op r) = draft_entity m"
      "op_intent (row_op r) = Inr (IDiscardDraft True)" "db_draft_alias (mu_mail s') (a, m) = Some m"
    by (auto simp: repair_in_log_def)
  moreover have "push_operation gateway a (row_op r) (mu_mail s') g =
      entity_pushed (gw_delete_draft gateway a m True g) (\<lambda>_. PushedEntity None (Some m) None None)"
    using r(4-6) by (simp add: push_operation_def resolve_draft_flush_target_def
        resolve_draft_entity_def draft_entity_def)
  ultimately show ?thesis by blast
qed

subsection \<open>Concrete sends\<close>

declare L_simps [simp del]

definition sent_op :: "OperationState \<Rightarrow> Operation" where
  "sent_op state =
     (example_op (L ''o'') KSend (JRequest (example_request\<lparr>rq_draft_id := Some (L ''k'')\<rparr>)) state)
       \<lparr>op_entity := \<lparr>en_kind = EMessage, en_id = L ''send-o''\<rparr>\<rparr>"

definition delivered_db :: MutDb where
  "delivered_db =
     \<lparr>mu_mail = (example_db [] [])
        \<lparr>db_outbox := [\<lparr>so_operation = sent_op Applied, so_settled_at_mono = Some 5, so_watermark = None\<rparr>],
         db_base := [((L ''a'', L ''m1''), (example_record (L ''m1''))
            \<lparr>mr_rfc_message_id := Some (send_identity_prefix (L ''o'') @ L ''host'')\<rparr>)]\<rparr>,
      mu_snoozes = []\<rparr>"

lemma starts_with_prefix: "starts_with (to_ascii_lowercase (p @ q)) (to_ascii_lowercase p)"
  by (simp add: starts_with_def to_ascii_lowercase_def)

theorem adopted_sends_leave_the_log_witness:
  "\<exists>events s'. adopt_sent_copies quiet_env (L ''a'') delivered_db = (Inr events, s') \<and>
     get_operation (db_outbox (mu_mail s')) (L ''o'') = None \<and>
     resolve_send_alias (db_send_alias (mu_mail s')) (L ''a'') (L ''send-o'') = Some (L ''m1'')"
proof -
  let ?op = "sent_op Applied"
  let ?row = "\<lparr>so_operation = ?op, so_settled_at_mono = Some 5, so_watermark = None\<rparr>"
  have op: "op_id ?op = L ''o''" "op_kind ?op = KSend" "op_state ?op = Applied"
      "op_account_id ?op = L ''a''" "op_entity ?op = \<lparr>en_kind = EMessage, en_id = L ''send-o''\<rparr>"
    by (simp_all add: sent_op_def example_op_def)
  have settled: "list_settled_operations (L ''a'') (db_outbox (mu_mail delivered_db)) = [?row]"
    by (simp add: list_settled_operations_def delivered_db_def op)
  have found: "find_base_message_id_by_rfc_prefix (mu_mail delivered_db) (L ''a'')
      (send_identity_prefix (L ''o'')) = Some (L ''m1'')"
    by (simp add: find_base_message_id_by_rfc_prefix_def delivered_db_def starts_with_prefix)
  have roles: "read_mailbox_id_by_role (mu_mail delivered_db) a role = None" for a role
    by (simp add: read_mailbox_id_by_role_def delivered_db_def example_db_def)
  let ?db = "(mu_mail delivered_db)\<lparr>db_send_alias := set_send_alias (L ''a'') (L ''send-o'') (L ''m1'')
    (db_send_alias (mu_mail delivered_db))\<rparr>"
  let ?db1 = "?db\<lparr>db_outbox := remove_operation (L ''o'') (db_outbox (mu_mail delivered_db))\<rparr>"
  have "log_decodes ?db1 (L ''a'')"
    by (simp add: log_decodes_def list_unsettled_operations_def ops_where_def remove_operation_def
        delivered_db_def row_id_def op)
  then obtain d db2 where r: "refresh_message_overlay (L ''a'') (L ''send-o'') ?db1 = (Inr d, db2)"
    using refresh_total by blast
  then have derived: "remove_op_and_derive (L ''a'') (L ''o'') [L ''send-o'']
      (\<lambda>row snapshot. fold_overlay_row snapshot row) ?db = (Inr [d], db2)"
    by (simp add: remove_op_and_derive_def refresh_message_overlay_def)
  obtain events s' where run: "adopt_sent_copies quiet_env (L ''a'') delivered_db = (Inr events, s')"
    by (cases "retired d")
      (simp_all add: adopt_sent_copies_def settled roles adopt_one_def op found Let_def on_mail_def
        derived store_result_def with_echo_def deleted_echo_def append_event_def
        file_drafts_ghost_def)
  have fresh: "L ''o'' \<noteq> ce_filing_id quiet_env m" for m
    by (simp add: example_cycle_env_def L_simps)
  have "get_operation (db_outbox (mu_mail s')) (op_id (so_operation ?row)) = None \<and>
    resolve_send_alias (db_send_alias (mu_mail s')) (L ''a'') (en_id (op_entity (so_operation ?row))) =
      Some (L ''m1'') \<and> db_base (mu_mail s') = db_base (mu_mail delivered_db)"
    by (rule adopted_sends_leave_the_log [OF run])
      (auto simp: settled op found fresh)
  then show ?thesis using run by (auto simp: op)
qed

text \<open>A send the provider refused for good, whose draft \<open>m1\<close> is still in base.\<close>

definition refused_db :: MutDb where
  "refused_db =
     \<lparr>mu_mail = (example_db [sent_op FailedState] example_tombstone)
        \<lparr>db_draft_alias := [(L ''a'', L ''k'') \<mapsto> L ''m1'']\<rparr>, mu_snoozes = []\<rparr>"

theorem unsent_send_loses_its_draft_witness:
  "\<exists>events s'. sweep_message_overlay quiet_env (L ''a'') 0 refused_db = (Inr events, s') \<and>
     (\<exists>repair \<in> set (db_outbox (mu_mail s')). op_state (row_op repair) = Pending \<and>
        op_entity (row_op repair) = draft_entity (L ''m1'') \<and>
        push_operation example_gateway (L ''a'') (row_op repair) (mu_mail s') () =
          (Inr (PushedEntity None (Some (L ''m1'')) None None), ()))"
proof -
  let ?op = "sent_op FailedState" and ?db = "mu_mail refused_db"
  let ?request = "example_request\<lparr>rq_draft_id := Some (L ''k'')\<rparr>"
  have op: "op_id ?op = L ''o''" "op_kind ?op = KSend" "op_state ?op = FailedState"
      "op_account_id ?op = L ''a''" "op_entity ?op = \<lparr>en_kind = EMessage, en_id = L ''send-o''\<rparr>"
      "op_payload ?op = JRequest ?request" "op_payload_version ?op = 1"
    by (simp_all add: sent_op_def example_op_def)
  have intent: "op_intent ?op = Inr (ISend ?request)"
    by (simp add: op_intent_def from_parts_def op decode_request_def)
  have key: "compose_key ?request = Some (L ''k'')"
    by (simp add: compose_key_def trim_def trim_start_def trim_end_def is_whitespace_def L_simps)
  have m: "L ''m1'' \<noteq> L ''send-o''" "L ''m1'' \<noteq> L ''k''" "L ''send-o'' \<noteq> L ''k''"
    by (simp_all add: L_simps)
  have log: "list_unsettled_operations (L ''a'') (db_outbox ?db) = [?op]"
    by (simp add: refused_db_def example_db_def list_unsettled_operations_def ops_where_def new_row_def
        unsettled_row_def op content_op_kinds_in_sql_def operation_kind_str_def kind_class_defs)
  have resolved: "registry_resolve ?db (L ''a'') (L ''k'') = Inr (Some (L ''m1''))"
    by (simp add: registry_resolve_def refused_db_def resolve_draft_entity_def)
  have effect: "intent_fold_effect ?op = Inr (Some (SendEffects (Some (L ''k'')) ?request))"
    by (simp add: intent_fold_effect_def intent key)
  have replayable: "is_replayable ?op"
    by (simp add: is_replayable_def op is_content_op_def kind_class_defs)
  have touches: "op_row_touches_with ?op (registry_resolve ?db (L ''a'')) =
      Inr [(L ''send-o'', REntity SendRow), (L ''m1'', REntity SendConsumedDraft)]"
    using m by (simp add: op_row_touches_with_def op effect resolved Let_def)
  have touched: "collect_ops (registry_resolve ?db (L ''a'')) (L ''m1'')
      (list_unsettled_operations (L ''a'') (db_outbox ?db)) ([], []) = Inr ([], [(?op, SendConsumedDraft)])"
    using m by (simp add: log replayable touches)
  have held: "\<not> send_is_held ?op" by (simp add: send_is_held_def op)
  have base: "read_base ?db (L ''a'') (L ''m1'') \<noteq> None"
    by (simp add: read_base_def refused_db_def example_db_def)
  have "message_effective ?db (L ''a'') (L ''m1'') = None"
    by (simp add: message_effective_def refused_db_def example_db_def)
  then have view: "message_effective ?db (L ''a'') (L ''m1'') = derived_row ?db (L ''a'') (L ''m1'')"
    using consumed_draft_derived [OF touched intent held base] by simp
  have settled: "list_settled_operations (L ''a'') (db_outbox ?db) = []"
    by (simp add: list_settled_operations_def refused_db_def example_db_def new_row_def op)
  have decodes: "log_decodes ?db (L ''a'')"
    by (simp add: log_decodes_def log decodes_def intent)
  obtain events s' where run: "sweep_message_overlay quiet_env (L ''a'') 0 refused_db = (Inr events, s')"
    using sweep_total [OF decodes settled] by blast
  have ids: "set ids = {L ''send-o'', L ''m1''}" if "replay_inventory ?db (L ''a'') = Inr ids" for ids
  proof -
    have "set (list_overlay_message_ids (L ''a'') ?db) = {L ''m1''}"
      by (simp add: list_overlay_message_ids_def refused_db_def example_db_def)
    moreover have "touched_rows ?db (L ''a'') [?op] = Inr [L ''send-o'', L ''m1'']"
      by (simp add: op_touched_row_ids_def touches map_result_def)
    ultimately have "replay_inventory ?db (L ''a'') = Inr (bt_collect ({L ''send-o'', L ''m1''} \<union> {L ''m1''}))"
      by (simp add: replay_inventory_def log replayable map_result_def)
    with that have "ids = bt_collect ({L ''send-o'', L ''m1''} \<union> {L ''m1''})" by simp
    moreover have "set (bt_collect ({L ''send-o'', L ''m1''} \<union> {L ''m1''})) = {L ''send-o'', L ''m1''}"
      by (subst set_bt_collect) auto
    ultimately show ?thesis by simp
  qed
  have "\<exists>repair \<in> set (db_outbox (mu_mail s')).
    op_account_id (row_op repair) = L ''a'' \<and> op_state (row_op repair) = Pending \<and>
    op_entity (row_op repair) = draft_entity (L ''m1'') \<and>
    push_operation example_gateway (L ''a'') (row_op repair) (mu_mail s') () =
      entity_pushed (gw_delete_draft example_gateway (L ''a'') (L ''m1'') True ())
        (\<lambda>_. PushedEntity None (Some (L ''m1'')) None None)"
  proof (rule unsent_send_loses_its_draft [OF run settled touched intent held base view])
    show "\<not> keyed_operation (L ''a'') (L ''m1'') (db_outbox ?db)"
      using m by (simp add: keyed_operation_iff refused_db_def example_db_def new_row_def op)
    show "db_draft_alias ?db (L ''a'', L ''m1'') = None"
      using m by (simp add: refused_db_def)
    show "\<forall>ids k. replay_inventory ?db (L ''a'') = Inr ids \<longrightarrow> k \<in> set ids \<longrightarrow> k \<noteq> L ''m1'' \<longrightarrow>
        db_draft_alias ?db (L ''a'', k) \<noteq> Some (L ''m1'')"
      using ids m by (fastforce simp: refused_db_def)
    show "inj (ce_repair_id quiet_env)"
      by (simp add: example_cycle_env_def inj_def)
    show "ce_repair_id quiet_env (L ''m1'') \<notin> row_id ` set (db_outbox ?db)"
      by (simp add: example_cycle_env_def refused_db_def example_db_def new_row_def row_id_def op)
        (simp add: L_simps)
  qed
  moreover have "gw_delete_draft example_gateway (L ''a'') (L ''m1'') True () = (Inr (), ())"
    by (simp add: example_gateway_def)
  ultimately show ?thesis using run by (auto simp: entity_pushed_def)
qed

declare L_simps [simp]

end
