(* ===== verification/Automation.thy ===== *)
theory Automation
  imports CycleView MailQuery
begin

text \<open>
  Automation rules: the query of an action and its application to one message, the run over the
  messages of a sync (\<open>service/automation/apply.rs\<close>, \<open>helpers.rs\<close>), the bounded backfill of existing
  mail (\<open>backfill.rs\<close>) and its durable jobs (\<open>jobs.rs\<close>, \<open>store/src/automation.rs\<close>). The page query, the
  configuration and the JSON encoding of the rules are parameters; a summary is the record it is
  read from, whose read and flagged columns are the keywords \<open>$seen\<close> and \<open>$flagged\<close>.
\<close>

subsection \<open>Rules and their queries\<close>

datatype AutomationTrigger = MessageArrived | MessageChanged | ManualTrigger

datatype AutomationAction =
    ApplyTag str | RemoveTag str | MarkRead | MarkUnread | Flag | Unflag | MoveToMailbox str

record AutomationRule =
  ar_id :: str
  ar_name :: str
  ar_enabled :: bool
  ar_triggers :: "AutomationTrigger list"
  ar_condition :: MailQueryRule
  ar_actions :: "AutomationAction list"
  ar_backfill :: bool

definition condition_node ::
  "MailQueryField \<Rightarrow> MailQueryOperator \<Rightarrow> MailQueryValue \<Rightarrow> MailQueryRuleNode" where
  "condition_node field operator value =
     NCondition \<lparr>qc_field = field, qc_operator = operator, qc_negated = False, qc_value = value\<rparr>"

definition negated_condition_node ::
  "MailQueryField \<Rightarrow> MailQueryOperator \<Rightarrow> MailQueryValue \<Rightarrow> MailQueryRuleNode" where
  "negated_condition_node field operator value =
     NCondition \<lparr>qc_field = field, qc_operator = operator, qc_negated = True, qc_value = value\<rparr>"

fun automation_action_precondition :: "AutomationAction \<Rightarrow> MailQueryRuleNode option" where
  "automation_action_precondition (ApplyTag tag) =
     Some (negated_condition_node FKeyword QEquals (VString tag))"
| "automation_action_precondition (RemoveTag tag) =
     Some (condition_node FKeyword QEquals (VString tag))"
| "automation_action_precondition MarkRead = Some (condition_node FIsRead QEquals (VBool False))"
| "automation_action_precondition MarkUnread = Some (condition_node FIsRead QEquals (VBool True))"
| "automation_action_precondition Flag = Some (condition_node FIsFlagged QEquals (VBool False))"
| "automation_action_precondition Unflag = Some (condition_node FIsFlagged QEquals (VBool True))"
| "automation_action_precondition (MoveToMailbox mailbox_id) =
     Some (negated_condition_node FMailboxId QEquals (VString mailbox_id))"

definition automation_query_rule ::
  "str \<Rightarrow> AutomationRule \<Rightarrow> AutomationAction \<Rightarrow> str list \<Rightarrow> MailQueryRule" where
  "automation_query_rule account_id rule action message_ids =
     \<lparr>qr_root = MailQueryGroup QAll False
        ([condition_node FSourceId QEquals (VString account_id),
          NGroup (qr_root (ar_condition rule))] @
         (if message_ids \<noteq> [] then [condition_node FMessageId QIn (VStrings message_ids)] else []) @
         (case automation_action_precondition action of
            Some precondition \<Rightarrow> [precondition] | None \<Rightarrow> []))\<rparr>"

subsection \<open>One action on one message\<close>

definition is_read :: "MessageRecord \<Rightarrow> bool" where
  "is_read message \<longleftrightarrow> L ''$seen'' \<in> set (mr_keywords message)"

definition is_flagged :: "MessageRecord \<Rightarrow> bool" where
  "is_flagged message \<longleftrightarrow> L ''$flagged'' \<in> set (mr_keywords message)"

definition add_keyword ::
  "Clock \<Rightarrow> str \<Rightarrow> str \<Rightarrow> str \<Rightarrow> str \<Rightarrow> MutDb \<Rightarrow> (svc_error, DomainEvent list) result \<times> MutDb" where
  "add_keyword clock operation_id account_id message_id keyword =
     set_keywords clock operation_id account_id message_id \<lparr>skc_add = [keyword], skc_remove = []\<rparr>"

definition remove_keyword ::
  "Clock \<Rightarrow> str \<Rightarrow> str \<Rightarrow> str \<Rightarrow> str \<Rightarrow> MutDb \<Rightarrow> (svc_error, DomainEvent list) result \<times> MutDb" where
  "remove_keyword clock operation_id account_id message_id keyword =
     set_keywords clock operation_id account_id message_id \<lparr>skc_add = [], skc_remove = [keyword]\<rparr>"

definition apply_automation_action ::
  "Clock \<Rightarrow> str \<Rightarrow> str \<Rightarrow> MessageRecord \<Rightarrow> AutomationAction \<Rightarrow> MutDb \<Rightarrow>
   (svc_error, DomainEvent list) result \<times> MutDb" where
  "apply_automation_action clock operation_id account_id message action s =
     (case action of
        ApplyTag tag \<Rightarrow>
          (if tag \<in> set (mr_keywords message) then (Inr [], s)
           else add_keyword clock operation_id account_id (mr_id message) tag s)
      | RemoveTag tag \<Rightarrow>
          (if tag \<notin> set (mr_keywords message) then (Inr [], s)
           else remove_keyword clock operation_id account_id (mr_id message) tag s)
      | MarkRead \<Rightarrow>
          (if is_read message then (Inr [], s)
           else add_keyword clock operation_id account_id (mr_id message) (L ''$seen'') s)
      | MarkUnread \<Rightarrow>
          (if \<not> is_read message then (Inr [], s)
           else remove_keyword clock operation_id account_id (mr_id message) (L ''$seen'') s)
      | Flag \<Rightarrow>
          (if is_flagged message then (Inr [], s)
           else add_keyword clock operation_id account_id (mr_id message) (L ''$flagged'') s)
      | Unflag \<Rightarrow>
          (if \<not> is_flagged message then (Inr [], s)
           else remove_keyword clock operation_id account_id (mr_id message) (L ''$flagged'') s)
      | MoveToMailbox mailbox_id \<Rightarrow>
          (if length (mr_mailbox_ids message) = 1 \<and> mailbox_id \<in> set (mr_mailbox_ids message)
           then (Inr [], s)
           else replace_mailboxes clock operation_id account_id (mr_id message)
                  \<lparr>rmc_mailbox_ids = [mailbox_id]\<rparr> s))"

subsection \<open>The environment\<close>

text \<open>
  The page query of the store (rule, limit), the configuration: whether an account exists and is
  enabled, the accounts and the rules of the settings, the JSON of a rule list, and the ids of new
  operations, drawn from a supply the loops advance.
\<close>

record 'g AutoEnv =
  ae_cycle :: "'g CycleEnv"
  ae_query :: "MailQueryRule \<Rightarrow> nat \<Rightarrow> MutDb \<Rightarrow> (StoreError, MessageRecord list) result"
  ae_source :: "str \<Rightarrow> (svc_error, bool option) result"
  ae_sources :: "(svc_error, (str \<times> bool) list) result"
  ae_rules :: "(svc_error, AutomationRule list) result"
  ae_json :: "AutomationRule list \<Rightarrow> (str, str) result"
  ae_clock :: Clock
  ae_ids :: "nat \<Rightarrow> str"

type_synonym id_supply = "nat \<times> MutDb"

definition act ::
  "'g AutoEnv \<Rightarrow> str \<Rightarrow> AutomationAction \<Rightarrow> MessageRecord \<Rightarrow> id_supply \<Rightarrow>
   (svc_error, DomainEvent list) result \<times> id_supply" where
  "act env account_id action message st = (case st of (n, s) \<Rightarrow>
     (case apply_automation_action (ae_clock env) (ae_ids env n) account_id message action s of
        (result, s) \<Rightarrow> (result, Suc n, s)))"

definition page_of ::
  "'g AutoEnv \<Rightarrow> MailQueryRule \<Rightarrow> nat \<Rightarrow> id_supply \<Rightarrow> (svc_error, MessageRecord list) result \<times> id_supply" where
  "page_of env rule limit st = (case ae_query env rule limit (snd st) of
     Inl error \<Rightarrow> (Inl (SStore error), st) | Inr items \<Rightarrow> (Inr items, st))"

subsection \<open>Rules on the messages of a sync\<close>

fun act_on_all ::
  "'g AutoEnv \<Rightarrow> str \<Rightarrow> AutomationAction \<Rightarrow> MessageRecord list \<Rightarrow> id_supply \<Rightarrow>
   (svc_error, DomainEvent list) result \<times> id_supply" where
  "act_on_all env account_id action [] st = (Inr [], st)"
| "act_on_all env account_id action (message # rest) st =
     and_then (act env account_id action message st)
       (\<lambda>events st. and_then (act_on_all env account_id action rest st)
         (\<lambda>later st. (Inr (events @ later), st)))"

fun run_actions ::
  "'g AutoEnv \<Rightarrow> str \<Rightarrow> AutomationRule \<Rightarrow> str list \<Rightarrow> nat \<Rightarrow> AutomationAction list \<Rightarrow> id_supply \<Rightarrow>
   (svc_error, DomainEvent list) result \<times> id_supply" where
  "run_actions env account_id rule message_ids limit [] st = (Inr [], st)"
| "run_actions env account_id rule message_ids limit (action # rest) st =
     and_then (page_of env (automation_query_rule account_id rule action message_ids) limit st)
       (\<lambda>items st. and_then (act_on_all env account_id action items st)
         (\<lambda>events st. and_then (run_actions env account_id rule message_ids limit rest st)
           (\<lambda>later st. (Inr (events @ later), st))))"

fun run_rules ::
  "'g AutoEnv \<Rightarrow> str \<Rightarrow> str list \<Rightarrow> nat \<Rightarrow> AutomationRule list \<Rightarrow> id_supply \<Rightarrow>
   (svc_error, DomainEvent list) result \<times> id_supply" where
  "run_rules env account_id message_ids limit [] st = (Inr [], st)"
| "run_rules env account_id message_ids limit (rule # rest) st =
     and_then (run_actions env account_id rule message_ids limit (ar_actions rule) st)
       (\<lambda>events st. and_then (run_rules env account_id message_ids limit rest st)
         (\<lambda>later st. (Inr (events @ later), st)))"

definition apply_automation_rules ::
  "'g AutoEnv \<Rightarrow> str \<Rightarrow> MessageRecord list \<Rightarrow> id_supply \<Rightarrow>
   (svc_error, DomainEvent list) result \<times> id_supply" where
  "apply_automation_rules env account_id messages st = (case ae_source env account_id of
     Inl error \<Rightarrow> (Inl error, st)
   | Inr None \<Rightarrow> (Inr [], st)
   | Inr (Some _) \<Rightarrow> (case ae_rules env of
       Inl error \<Rightarrow> (Inl error, st)
     | Inr rules \<Rightarrow>
         (if rules = [] \<or> messages = [] then (Inr [], st)
          else run_rules env account_id (map mr_id messages) (length messages)
                 (filter (\<lambda>rule. ar_enabled rule \<and> MessageArrived \<in> set (ar_triggers rule)) rules)
                 st)))"

subsection \<open>One batch of a backfill\<close>

text \<open>The budget left and the flag that asks for another batch travel with the events.\<close>

type_synonym progress = "DomainEvent list \<times> bool \<times> nat"

fun backfill_page ::
  "'g AutoEnv \<Rightarrow> str \<Rightarrow> AutomationAction \<Rightarrow> MessageRecord list \<Rightarrow> bool \<Rightarrow> nat \<Rightarrow> id_supply \<Rightarrow>
   (svc_error, progress) result \<times> id_supply" where
  "backfill_page env account_id action [] has_more remaining st = (Inr ([], has_more, remaining), st)"
| "backfill_page env account_id action (message # rest) has_more remaining st =
     and_then (act env account_id action message st)
       (\<lambda>events st.
          let remaining = (if events \<noteq> [] then remaining - 1 else remaining) in
          if remaining = 0 then (Inr (events, True, 0), st)
          else and_then (backfill_page env account_id action rest has_more remaining st)
                 (\<lambda>(later, has_more, remaining) st. (Inr (events @ later, has_more, remaining), st)))"

fun backfill_actions ::
  "'g AutoEnv \<Rightarrow> str \<Rightarrow> AutomationRule \<Rightarrow> AutomationAction list \<Rightarrow> bool \<Rightarrow> nat \<Rightarrow> id_supply \<Rightarrow>
   (svc_error, progress) result \<times> id_supply" where
  "backfill_actions env account_id rule [] has_more remaining st = (Inr ([], has_more, remaining), st)"
| "backfill_actions env account_id rule (action # rest) has_more remaining st =
     (if remaining = 0 then (Inr ([], True, 0), st)
      else and_then (page_of env (automation_query_rule account_id rule action []) remaining st)
        (\<lambda>items st. and_then
          (backfill_page env account_id action items (has_more \<or> length items = remaining) remaining st)
          (\<lambda>(events, has_more, remaining) st. and_then
            (backfill_actions env account_id rule rest has_more remaining st)
            (\<lambda>(later, has_more, remaining) st. (Inr (events @ later, has_more, remaining), st)))))"

fun backfill_rules ::
  "'g AutoEnv \<Rightarrow> str \<Rightarrow> AutomationRule list \<Rightarrow> bool \<Rightarrow> nat \<Rightarrow> id_supply \<Rightarrow>
   (svc_error, progress) result \<times> id_supply" where
  "backfill_rules env account_id [] has_more remaining st = (Inr ([], has_more, remaining), st)"
| "backfill_rules env account_id (rule # rest) has_more remaining st =
     (if remaining = 0 then (Inr ([], True, 0), st)
      else and_then
        (backfill_actions env account_id rule (ar_actions rule) has_more remaining st)
        (\<lambda>(events, has_more, remaining) st. and_then
          (backfill_rules env account_id rest has_more remaining st)
          (\<lambda>(later, has_more, remaining) st. (Inr (events @ later, has_more, remaining), st))))"

definition wants_backfill :: "AutomationRule \<Rightarrow> bool" where
  "wants_backfill rule \<longleftrightarrow> ar_enabled rule \<and> ar_backfill rule"

definition on_supply ::
  "(id_supply \<Rightarrow> 'a \<times> id_supply) \<Rightarrow> nat \<times> 'g \<times> CycleDb \<Rightarrow> 'a \<times> nat \<times> 'g \<times> CycleDb" where
  "on_supply f st = (case st of (n, g, s) \<Rightarrow>
     (case f (n, \<lparr>mu_mail = cy_mail s, mu_snoozes = cy_snoozes s\<rparr>) of
        (result, n, m) \<Rightarrow>
          (result, n, g, (on_sync (\<lambda>db. db\<lparr>sd_mail := mu_mail m\<rparr>) s)\<lparr>cy_snoozes := mu_snoozes m\<rparr>)))"

definition backfill_automation_rules_batch_with_settings ::
  "'g AutoEnv \<Rightarrow> str \<Rightarrow> nat \<Rightarrow> AutomationRule list \<Rightarrow> nat \<times> 'g \<times> CycleDb \<Rightarrow>
   (svc_error, DomainEvent list \<times> bool) result \<times> nat \<times> 'g \<times> CycleDb" where
  "backfill_automation_rules_batch_with_settings env account_id batch_size rules st =
     (if rules = [] \<or> batch_size = 0 then (Inr ([], False), st)
      else and_then
        (on_supply (backfill_rules env account_id (filter wants_backfill rules) False batch_size) st)
        (\<lambda>(events, has_more, remaining) (n, st).
           case flush_and_observe (ae_cycle env) account_id st of
             (Inl error, st) \<Rightarrow> (Inl error, n, st)
           | (Inr later, st) \<Rightarrow> (Inr (events @ later, has_more), n, st)))"

definition backfill_automation_rules_batch ::
  "'g AutoEnv \<Rightarrow> str \<Rightarrow> nat \<Rightarrow> nat \<times> 'g \<times> CycleDb \<Rightarrow>
   (svc_error, DomainEvent list \<times> bool) result \<times> nat \<times> 'g \<times> CycleDb" where
  "backfill_automation_rules_batch env account_id batch_size st = (case ae_source env account_id of
     Inl error \<Rightarrow> (Inl error, st)
   | Inr None \<Rightarrow> (Inr ([], False), st)
   | Inr (Some _) \<Rightarrow> (case ae_rules env of
       Inl error \<Rightarrow> (Inl error, st)
     | Inr rules \<Rightarrow>
         backfill_automation_rules_batch_with_settings env account_id batch_size rules st))"

subsection \<open>Durable jobs\<close>

datatype AutomationBackfillJobStatus = JobPending | JobCompleted

definition parse_automation_backfill_status ::
  "str \<Rightarrow> (StoreError, AutomationBackfillJobStatus) result" where
  "parse_automation_backfill_status text =
     (if text = L ''pending'' then Inr JobPending
      else if text = L ''completed'' then Inr JobCompleted
      else Inl (StFailure (L ''unknown automation backfill job status: '' @ text)))"

text \<open>A row of the table, its status as the stored text.\<close>

record JobRow =
  jr_status :: str
  jr_attempts :: int
  jr_last_error :: "str option"
  jr_updated_at :: str

record AutomationBackfillJob =
  jb_account_id :: str
  jb_rule_fingerprint :: str
  jb_status :: AutomationBackfillJobStatus
  jb_attempts :: int
  jb_last_error :: "str option"
  jb_updated_at :: str

type_synonym job_table = "((str \<times> str) \<times> JobRow) list"

definition fetch_automation_backfill_job ::
  "str \<Rightarrow> str \<Rightarrow> job_table \<Rightarrow> (StoreError, AutomationBackfillJob option) result" where
  "fetch_automation_backfill_job account_id rule_fingerprint jobs =
     (case map_of jobs (account_id, rule_fingerprint) of
        None \<Rightarrow> Inr None
      | Some row \<Rightarrow> map_result (\<lambda>status. Some
          \<lparr>jb_account_id = account_id, jb_rule_fingerprint = rule_fingerprint, jb_status = status,
           jb_attempts = jr_attempts row, jb_last_error = jr_last_error row,
           jb_updated_at = jr_updated_at row\<rparr>) (parse_automation_backfill_status (jr_status row)))"

definition created_job ::
  "str \<Rightarrow> (StoreError, AutomationBackfillJob option) result \<Rightarrow> (StoreError, AutomationBackfillJob) result" where
  "created_job message found = (case found of
     Inl error \<Rightarrow> Inl error
   | Inr (Some job) \<Rightarrow> Inr job
   | Inr None \<Rightarrow> Inl (StFailure message))"

definition new_job :: "str \<Rightarrow> JobRow" where
  "new_job timestamp = \<lparr>jr_status = L ''pending'', jr_attempts = 0, jr_last_error = None,
                        jr_updated_at = timestamp\<rparr>"

text \<open>A failed read-back rolls the transaction back.\<close>

definition ensure_automation_backfill_job ::
  "str \<Rightarrow> str \<Rightarrow> str \<Rightarrow> job_table \<Rightarrow> (StoreError, AutomationBackfillJob) result \<times> job_table" where
  "ensure_automation_backfill_job timestamp account_id rule_fingerprint jobs =
     (let after = (if map_of jobs (account_id, rule_fingerprint) = None
                   then AList.update (account_id, rule_fingerprint) (new_job timestamp) jobs else jobs)
      in case created_job (L ''automation backfill job was not created'')
                (fetch_automation_backfill_job account_id rule_fingerprint after) of
           Inl error \<Rightarrow> (Inl error, jobs) | Inr job \<Rightarrow> (Inr job, after))"

definition update_job ::
  "str \<Rightarrow> str \<Rightarrow> (JobRow \<Rightarrow> JobRow) \<Rightarrow> job_table \<Rightarrow> job_table" where
  "update_job account_id rule_fingerprint f jobs =
     map (\<lambda>(key, row). (key, if key = (account_id, rule_fingerprint) then f row else row)) jobs"

definition complete_automation_backfill_job :: "str \<Rightarrow> str \<Rightarrow> str \<Rightarrow> job_table \<Rightarrow> job_table" where
  "complete_automation_backfill_job timestamp account_id rule_fingerprint =
     update_job account_id rule_fingerprint
       (\<lambda>row. row\<lparr>jr_status := L ''completed'', jr_last_error := None, jr_updated_at := timestamp\<rparr>)"

definition record_automation_backfill_failure ::
  "str \<Rightarrow> str \<Rightarrow> str \<Rightarrow> str \<Rightarrow> job_table \<Rightarrow> job_table" where
  "record_automation_backfill_failure timestamp account_id rule_fingerprint error =
     update_job account_id rule_fingerprint
       (\<lambda>row. row\<lparr>jr_status := L ''pending'', jr_attempts := jr_attempts row + 1,
                  jr_last_error := Some error, jr_updated_at := timestamp\<rparr>)"

definition reset_automation_backfill_job ::
  "str \<Rightarrow> str \<Rightarrow> str \<Rightarrow> job_table \<Rightarrow> (StoreError, AutomationBackfillJob) result \<times> job_table" where
  "reset_automation_backfill_job timestamp account_id rule_fingerprint jobs =
     (let after = AList.update (account_id, rule_fingerprint) (new_job timestamp) jobs
      in case created_job (L ''automation backfill job was not reset'')
                (fetch_automation_backfill_job account_id rule_fingerprint after) of
           Inl error \<Rightarrow> (Inl error, jobs) | Inr job \<Rightarrow> (Inr job, after))"

definition automation_backfill_fingerprint ::
  "'g AutoEnv \<Rightarrow> AutomationRule list \<Rightarrow> (svc_error, str option) result" where
  "automation_backfill_fingerprint env rules =
     (let rules = filter wants_backfill rules in
      if rules = [] then Inr None
      else case ae_json env rules of
        Inl error \<Rightarrow>
          Inl (SStore (StFailure (L ''failed to fingerprint automation rules: '' @ error)))
      | Inr text \<Rightarrow> Inr (Some text))"

definition current_fingerprint :: "'g AutoEnv \<Rightarrow> (svc_error, str option) result" where
  "current_fingerprint env = (case ae_rules env of
     Inl error \<Rightarrow> Inl error | Inr rules \<Rightarrow> automation_backfill_fingerprint env rules)"

fun each_job ::
  "(str \<Rightarrow> job_table \<Rightarrow> (StoreError, AutomationBackfillJob) result \<times> job_table) \<Rightarrow> str list \<Rightarrow>
   job_table \<Rightarrow> (svc_error, AutomationBackfillJob list) result \<times> job_table" where
  "each_job f [] jobs = (Inr [], jobs)"
| "each_job f (account_id # rest) jobs =
     and_then (store_result (f account_id jobs))
       (\<lambda>job jobs. and_then (each_job f rest jobs) (\<lambda>later jobs. (Inr (job # later), jobs)))"

definition jobs_for_current_rules ::
  "(str \<Rightarrow> str \<Rightarrow> job_table \<Rightarrow> (StoreError, AutomationBackfillJob) result \<times> job_table) \<Rightarrow>
   'g AutoEnv \<Rightarrow> job_table \<Rightarrow> (svc_error, AutomationBackfillJob list) result \<times> job_table" where
  "jobs_for_current_rules f env jobs = (case current_fingerprint env of
     Inl error \<Rightarrow> (Inl error, jobs)
   | Inr None \<Rightarrow> (Inr [], jobs)
   | Inr (Some rule_fingerprint) \<Rightarrow> (case ae_sources env of
       Inl error \<Rightarrow> (Inl error, jobs)
     | Inr sources \<Rightarrow>
         each_job (\<lambda>account_id. f account_id rule_fingerprint) (map fst (filter snd sources)) jobs))"

definition ensure_automation_backfills_for_current_rules ::
  "'g AutoEnv \<Rightarrow> job_table \<Rightarrow> (svc_error, AutomationBackfillJob list) result \<times> job_table" where
  "ensure_automation_backfills_for_current_rules env =
     jobs_for_current_rules (ensure_automation_backfill_job (ck_now (ae_clock env))) env"

definition reset_automation_backfills_for_current_rules ::
  "'g AutoEnv \<Rightarrow> job_table \<Rightarrow> (svc_error, AutomationBackfillJob list) result \<times> job_table" where
  "reset_automation_backfills_for_current_rules env =
     jobs_for_current_rules (reset_automation_backfill_job (ck_now (ae_clock env))) env"

definition automation_backfill_job_for_current_rules ::
  "'g AutoEnv \<Rightarrow> str \<Rightarrow> job_table \<Rightarrow> (svc_error, AutomationBackfillJob option) result" where
  "automation_backfill_job_for_current_rules env account_id jobs = (case current_fingerprint env of
     Inl error \<Rightarrow> Inl error
   | Inr None \<Rightarrow> Inr None
   | Inr (Some rule_fingerprint) \<Rightarrow>
       (case fetch_automation_backfill_job account_id rule_fingerprint jobs of
          Inl error \<Rightarrow> Inl (SStore error) | Inr job \<Rightarrow> Inr job))"

record AutomationBackfillBatchOutcome =
  bo_ran :: bool
  bo_events :: "DomainEvent list"
  bo_has_more :: bool

definition not_run :: AutomationBackfillBatchOutcome where
  "not_run = \<lparr>bo_ran = False, bo_events = [], bo_has_more = False\<rparr>"

text \<open>Once the job is pending: one batch, then its bookkeeping.\<close>

definition run_job_batch ::
  "'g AutoEnv \<Rightarrow> str \<Rightarrow> nat \<Rightarrow> str \<Rightarrow> AutomationRule list \<Rightarrow> job_table \<times> nat \<times> 'g \<times> CycleDb \<Rightarrow>
   (svc_error, AutomationBackfillBatchOutcome) result \<times> job_table \<times> nat \<times> 'g \<times> CycleDb" where
  "run_job_batch env account_id batch_size rule_fingerprint rules st = (case st of (jobs, st) \<Rightarrow>
     (case backfill_automation_rules_batch_with_settings env account_id batch_size rules st of
        (Inr (events, has_more), st) \<Rightarrow>
          (Inr \<lparr>bo_ran = True, bo_events = events, bo_has_more = has_more\<rparr>,
           if has_more then jobs
           else complete_automation_backfill_job (ck_now (ae_clock env)) account_id rule_fingerprint jobs,
           st)
      | (Inl error, st) \<Rightarrow>
          (Inl error,
           record_automation_backfill_failure (ck_now (ae_clock env)) account_id rule_fingerprint
             (service_display error) jobs,
           st)))"

definition process_automation_backfill_job_batch ::
  "'g AutoEnv \<Rightarrow> str \<Rightarrow> nat \<Rightarrow> job_table \<times> nat \<times> 'g \<times> CycleDb \<Rightarrow>
   (svc_error, AutomationBackfillBatchOutcome) result \<times> job_table \<times> nat \<times> 'g \<times> CycleDb" where
  "process_automation_backfill_job_batch env account_id batch_size st =
     (if batch_size = 0 then (Inr not_run, st)
      else case ae_source env account_id of
        Inl error \<Rightarrow> (Inl error, st)
      | Inr None \<Rightarrow> (Inr not_run, st)
      | Inr (Some False) \<Rightarrow> (Inr not_run, st)
      | Inr (Some True) \<Rightarrow> (case ae_rules env of
          Inl error \<Rightarrow> (Inl error, st)
        | Inr rules \<Rightarrow> (case automation_backfill_fingerprint env rules of
            Inl error \<Rightarrow> (Inl error, st)
          | Inr None \<Rightarrow> (Inr not_run, st)
          | Inr (Some rule_fingerprint) \<Rightarrow>
              (case ensure_automation_backfill_job (ck_now (ae_clock env)) account_id
                      rule_fingerprint (fst st) of
                 (Inl error, jobs) \<Rightarrow> (Inl (SStore error), jobs, snd st)
               | (Inr job, jobs) \<Rightarrow>
                   (if jb_status job \<noteq> JobPending then (Inr not_run, jobs, snd st)
                    else run_job_batch env account_id batch_size rule_fingerprint rules
                           (jobs, snd st))))))"

subsection \<open>Actions are idempotent\<close>

lemma keyword_added:
  assumes "add_keyword ck i a m k s = (Inr events, s')" and "i \<notin> row_id ` set (db_outbox (mu_mail s))"
  obtains after where "message_effective (mu_mail s') a m = Some after" "k \<in> set (mr_keywords after)"
  using keywords_shown [OF assms(1) [unfolded add_keyword_def] assms(2)] by auto

lemma keyword_removed:
  assumes "remove_keyword ck i a m k s = (Inr events, s')" and "i \<notin> row_id ` set (db_outbox (mu_mail s))"
  obtains after where "message_effective (mu_mail s') a m = Some after" "k \<notin> set (mr_keywords after)"
  using keywords_shown [OF assms(1) [unfolded remove_keyword_def] assms(2)] by auto

text \<open>
  C24. An automation action is idempotent: once it succeeded on a message, the row everyone reads
  already satisfies it, so running the rule on that row again queues nothing and changes nothing.
\<close>

theorem automation_actions_are_idempotent:
  assumes "apply_automation_action ck i a message action s = (Inr events, s')"
    and "message_effective (mu_mail s) a (mr_id message) = Some message"
    and "i \<notin> row_id ` set (db_outbox (mu_mail s))"
  shows "\<exists>after. message_effective (mu_mail s') a (mr_id message) = Some after \<and>
    apply_automation_action ck j a after action s' = (Inr [], s')"
proof (cases action)
  case (ApplyTag tag)
  then show ?thesis using assms
    by (auto simp: apply_automation_action_def split: if_splits elim!: keyword_added)
next
  case (RemoveTag tag)
  then show ?thesis using assms
    by (auto simp: apply_automation_action_def split: if_splits elim!: keyword_removed)
next
  case MarkRead
  then show ?thesis using assms
    by (auto simp: apply_automation_action_def is_read_def split: if_splits elim!: keyword_added)
next
  case MarkUnread
  then show ?thesis using assms
    by (auto simp: apply_automation_action_def is_read_def split: if_splits elim!: keyword_removed)
next
  case Flag
  then show ?thesis using assms
    by (auto simp: apply_automation_action_def is_flagged_def split: if_splits elim!: keyword_added)
next
  case Unflag
  then show ?thesis using assms
    by (auto simp: apply_automation_action_def is_flagged_def split: if_splits elim!: keyword_removed)
next
  case (MoveToMailbox mailbox_id)
  show ?thesis
  proof (cases "length (mr_mailbox_ids message) = 1 \<and> mailbox_id \<in> set (mr_mailbox_ids message)")
    case True
    then show ?thesis using assms MoveToMailbox by (simp add: apply_automation_action_def)
  next
    case False
    then have "replace_mailboxes ck i a (mr_id message) \<lparr>rmc_mailbox_ids = [mailbox_id]\<rparr> s = (Inr events, s')"
      using assms(1) MoveToMailbox by (simp add: apply_automation_action_def split: if_splits)
    from mailbox_shown [OF this assms(3)] MoveToMailbox show ?thesis
      by (auto simp: apply_automation_action_def bt_collect_def)
  qed
qed

subsection \<open>A batch queues no more than its budget\<close>

abbreviation log_size :: "MutDb \<Rightarrow> nat" where
  "log_size s \<equiv> length (db_outbox (mu_mail s))"

lemma coalesce_shrinks:
  "length (db_outbox (snd (coalesce_superseded kind ops p db))) \<le> length (db_outbox db)"
proof (induction kind ops p db rule: coalesce_superseded.induct)
  case (2 kind existing rest p db)
  have "length (remove_operation i tbl) \<le> length tbl" for i tbl by (simp add: remove_operation_def)
  then show ?case using 2 order_trans by (fastforce split: sum.split)
qed simp

lemma enqueue_size:
  assumes "enqueue_operation op tbl = (r, tbl')"
  shows "length tbl' \<le> Suc (length tbl)"
    and "\<lbrakk>r = Inr stored; stored \<noteq> op\<rbrakk> \<Longrightarrow> tbl' = tbl"
proof -
  show "length tbl' \<le> Suc (length tbl)"
    using assms by (auto simp: enqueue_operation_def Let_def split: if_splits)
  assume r: "r = Inr stored" "stored \<noteq> op"
  show "tbl' = tbl"
  proof (cases "op_id op \<in> row_id ` set tbl")
    case False
    then have "get_operation tbl (op_id op) = None" by (simp add: get_operation_None_iff)
    with r assms enqueue_get [of op tbl] show ?thesis by simp
  qed (use assms in \<open>simp add: enqueue_operation_def\<close>)
qed

lemma queue_grows:
  assumes "queue_message_operation ck i a m kind p s = (r, s1)" and "is_state_assertion kind"
  shows "log_size s1 \<le> Suc (log_size s)"
    and "\<lbrakk>r = Inr op; op_kind op \<noteq> kind\<rbrakk> \<Longrightarrow> log_size s1 \<le> log_size s"
proof -
  obtain c db1 where c: "coalesce_pending_assertions a (message_entity m) kind p (mu_mail s) = (c, db1)"
    by (cases "coalesce_pending_assertions a (message_entity m) kind p (mu_mail s)")
  have le: "length (db_outbox db1) \<le> log_size s"
    using coalesce_shrinks c by (metis coalesce_pending_assertions_def snd_conv)
  show "log_size s1 \<le> Suc (log_size s)"
  proof (cases c)
    case (Inl e)
    with assms c le show ?thesis
      by (auto simp: queue_message_operation_def on_mail_def queue_operation_with_id_def)
  next
    case (Inr q)
    with assms c le show ?thesis
      by (auto simp: queue_message_operation_def on_mail_def queue_operation_with_id_def
          split: sum.splits prod.splits dest!: enqueue_size(1))
  qed
  assume r: "r = Inr op" and other: "op_kind op \<noteq> kind"
  show "log_size s1 \<le> log_size s"
  proof (cases c)
    case (Inl e)
    with assms c le show ?thesis
      by (auto simp: queue_message_operation_def on_mail_def queue_operation_with_id_def)
  next
    case (Inr q)
    with assms c le r other show ?thesis
      by (auto simp: queue_message_operation_def on_mail_def queue_operation_with_id_def
          split: sum.splits prod.splits dest!: enqueue_size(2) [OF _ refl])
  qed
qed


lemma refresh_keeps_log [simp]: "db_outbox (snd (refresh a m db)) = db_outbox db"
  by (simp add: outbox_frame)

lemma echo_keeps_log:
  assumes "echo_assertion ck a m op previous s = (r, s')"
  shows "log_size s' = log_size s" and "r \<noteq> Inr []"
proof -
  have "log_size s' = log_size s \<and> r \<noteq> Inr []"
    using assms
    by (auto simp: echo_assertion_def and_then_def effective_or_missing_def emit_def on_mail_def
        append_event_def Let_def delete_snooze_def
        split: OperationKind.splits option.splits sum.splits MailIntent.splits if_splits)
  then show "log_size s' = log_size s" and "r \<noteq> Inr []" by simp_all
qed

lemma overlay_keeps_log:
  assumes "apply_assertion_to_overlay ck a m op s = (r, s')"
  shows "log_size s' = log_size s" and "is_state_assertion (op_kind op) \<Longrightarrow> r \<noteq> Inr []"
proof -
  have "log_size s' = log_size s \<and> (is_state_assertion (op_kind op) \<longrightarrow> r \<noteq> Inr [])"
  proof (cases "\<not> is_state_assertion (op_kind op) \<or>
      (op_kind op = KDestroy \<and> message_effective (mu_mail s) a m = None)")
    case True
    then show ?thesis using assms by (auto simp: apply_assertion_to_overlay_def Let_def split: if_splits)
  next
    case False
    obtain q db1 where q: "refresh a m (mu_mail s) = (q, db1)" by (cases "refresh a m (mu_mail s)")
    have log: "db_outbox db1 = db_outbox (mu_mail s)" using refresh_keeps_log [of a m "mu_mail s"] q by simp
    show ?thesis
    proof (cases q)
      case (Inl e)
      with assms False q log show ?thesis
        by (auto simp: apply_assertion_to_overlay_def Let_def on_mail_def split: if_splits)
    next
      case (Inr u)
      with assms False q have "echo_assertion ck a m op (message_effective (mu_mail s) a m)
          (s\<lparr>mu_mail := db1\<rparr>) = (r, s')"
        by (auto simp: apply_assertion_to_overlay_def Let_def on_mail_def split: if_splits)
      from echo_keeps_log [OF this] log show ?thesis by simp
    qed
  qed
  then show "log_size s' = log_size s" and "is_state_assertion (op_kind op) \<Longrightarrow> r \<noteq> Inr []"
    by simp_all
qed

text \<open>What a step may add to the log: a reported change one operation, an unreported one none.\<close>

definition charged :: "(svc_error, DomainEvent list) result \<Rightarrow> nat" where
  "charged r = (if r = Inr [] then 0 else 1)"

lemma command_grows:
  assumes "queue_then_emit_message_operation ck i a m kind p s = (r, s')" and "is_state_assertion kind"
  shows "log_size s' \<le> log_size s + charged r"
proof -
  obtain q s1 where q: "queue_message_operation ck i a m kind p s = (q, s1)"
    by (cases "queue_message_operation ck i a m kind p s")
  show ?thesis
  proof (cases q)
    case (Inl e)
    with assms(1) q have "r = Inl e" "s' = s1"
      by (simp_all add: queue_then_emit_message_operation_def)
    with queue_grows(1) [OF q assms(2)] show ?thesis by (simp add: charged_def)
  next
    case (Inr op)
    obtain r2 s2 where e: "apply_assertion_to_overlay ck a m op s1 = (r2, s2)"
      by (cases "apply_assertion_to_overlay ck a m op s1")
    have le: "log_size s' \<le> log_size s2 \<and> r = r2"
      using assms(1) q Inr e
      by (auto simp: queue_then_emit_message_operation_def remove_operation_after_local_failure_def
          remove_operation_def split: sum.splits)
    show ?thesis
    proof (cases "r2 = Inr []")
      case True
      with overlay_keeps_log [OF e] assms(2) have "op_kind op \<noteq> kind" by auto
      with queue_grows(2) [OF q assms(2) Inr] overlay_keeps_log(1) [OF e] le show ?thesis
        by simp
    next
      case False
      with queue_grows(1) [OF q assms(2)] overlay_keeps_log(1) [OF e] le show ?thesis
        by (simp add: charged_def)
    qed
  qed
qed

lemma keywords_grow:
  "set_keywords ck i a m command s = (r, s') \<Longrightarrow> log_size s' \<le> log_size s + charged r"
  unfolding set_keywords_def by (erule command_grows) (simp add: is_state_assertion_def)

lemma mailboxes_grow:
  "replace_mailboxes ck i a m command s = (r, s') \<Longrightarrow> log_size s' \<le> log_size s + charged r"
  unfolding replace_mailboxes_def by (erule command_grows) (simp add: is_state_assertion_def)

lemma action_grows:
  assumes "apply_automation_action ck i a message action s = (r, s')"
  shows "log_size s' \<le> log_size s + charged r"
  using assms
  by (cases action) (auto simp: apply_automation_action_def add_keyword_def remove_keyword_def
      split: if_splits dest: keywords_grow mailboxes_grow)


text \<open>The budget a run leaves: what it queued and what is left never exceed what it was given.\<close>

definition within_budget :: "nat \<Rightarrow> (svc_error, progress) result \<times> id_supply \<Rightarrow> bool" where
  "within_budget budget out \<longleftrightarrow> (case out of
     (Inr (events, has_more, remaining), n, s) \<Rightarrow> log_size s + remaining \<le> budget
   | (Inl error, n, s) \<Rightarrow> log_size s \<le> budget)"

lemma act_grows:
  "act env a action message st = (r, st') \<Longrightarrow>
   log_size (snd st') \<le> log_size (snd st) + charged r"
  by (auto simp: act_def split: prod.splits dest: action_grows)

lemma within_mono:
  "\<lbrakk>within_budget b out; b \<le> b'\<rbrakk> \<Longrightarrow> within_budget b' out"
  by (auto simp: within_budget_def split: prod.splits sum.splits)

lemma within_append:
  "within_budget b out \<Longrightarrow>
   within_budget b (and_then out (\<lambda>(later, more, rem) st. (Inr (events @ later, more, rem), st)))"
  by (auto simp: within_budget_def and_then_def split: prod.splits sum.splits)

lemma page_within:
  "0 < remaining \<Longrightarrow> within_budget (log_size (snd st) + remaining)
     (backfill_page env a action items has_more remaining st)"
proof (induction items arbitrary: has_more remaining st)
  case Nil
  then show ?case by (cases st) (simp add: within_budget_def)
next
  case (Cons message rest)
  obtain r st' where a: "act env a action message st = (r, st')"
    by (cases "act env a action message st")
  note le = act_grows [OF a]
  show ?case
  proof (cases r)
    case (Inl e)
    with a le Cons.prems show ?thesis
      by (cases st') (simp add: within_budget_def charged_def)
  next
    case (Inr events)
    define left where "left = (if events \<noteq> [] then remaining - 1 else remaining)"
    have le': "log_size (snd st') + left \<le> log_size (snd st) + remaining"
      using le Inr Cons.prems by (auto simp: charged_def left_def)
    show ?thesis
    proof (cases "left = 0")
      case True
      with a Inr le' show ?thesis
        by (cases st') (simp add: Let_def left_def [symmetric] within_budget_def)
    next
      case False
      then have "within_budget (log_size (snd st') + left) (backfill_page env a action rest has_more left st')"
        by (intro Cons.IH) simp
      then have "within_budget (log_size (snd st) + remaining)
          (backfill_page env a action rest has_more left st')"
        using le' by (rule within_mono)
      from within_append [OF this, of events] a Inr False show ?thesis
        by (simp add: Let_def left_def [symmetric])
    qed
  qed
qed

lemma within_then:
  assumes "within_budget b out"
    and "\<And>events more rem st. \<lbrakk>out = (Inr (events, more, rem), st); log_size (snd st) + rem \<le> b\<rbrakk> \<Longrightarrow>
      within_budget b (k more rem st)"
  shows "within_budget b (and_then out (\<lambda>(events, more, rem) st.
    and_then (k more rem st) (\<lambda>(later, more, rem) st. (Inr (events @ later, more, rem), st))))"
proof -
  obtain r st where Pair: "out = (r, st)" by (cases out)
  show ?thesis
  proof (cases r)
    case (Inl e)
    with assms(1) Pair show ?thesis by (cases st) (simp add: within_budget_def)
  next
    case (Inr x)
    obtain events more rem where x: "x = (events, more, rem)" by (cases x)
    from assms(1) Pair Inr x have "log_size (snd st) + rem \<le> b"
      by (cases st) (simp add: within_budget_def)
    from assms(2) [OF _ this] Pair Inr x have "within_budget b (k more rem st)" by simp
    from within_append [OF this] Pair Inr x show ?thesis by simp
  qed
qed

lemma actions_within:
  "within_budget (log_size (snd st) + remaining)
     (backfill_actions env a rule actions has_more remaining st)"
proof (induction actions arbitrary: has_more remaining st)
  case Nil
  then show ?case by (cases st) (simp add: within_budget_def)
next
  case (Cons action rest)
  show ?case
  proof (cases "remaining = 0")
    case True
    then show ?thesis by (cases st) (simp add: within_budget_def)
  next
    case False
    obtain q where q: "page_of env (automation_query_rule a rule action []) remaining st = (q, st)"
      by (cases "ae_query env (automation_query_rule a rule action []) remaining (snd st)")
        (auto simp: page_of_def)
    show ?thesis
    proof (cases q)
      case (Inl e)
      with q False show ?thesis by (cases st) (simp add: within_budget_def)
    next
      case (Inr items)
      have "within_budget (log_size (snd st) + remaining) (and_then
          (backfill_page env a action items (has_more \<or> length items = remaining) remaining st)
          (\<lambda>(events, more, rem) st. and_then (backfill_actions env a rule rest more rem st)
            (\<lambda>(later, more, rem) st. (Inr (events @ later, more, rem), st))))"
        using False by (intro within_then page_within) (auto intro: within_mono [OF Cons.IH])
      with q Inr False show ?thesis by simp
    qed
  qed
qed

lemma rules_within:
  "within_budget (log_size (snd st) + remaining) (backfill_rules env a rules has_more remaining st)"
proof (induction rules arbitrary: has_more remaining st)
  case Nil
  then show ?case by (cases st) (simp add: within_budget_def)
next
  case (Cons rule rest)
  have "within_budget (log_size (snd st) + remaining) (and_then
      (backfill_actions env a rule (ar_actions rule) has_more remaining st)
      (\<lambda>(events, more, rem) st. and_then (backfill_rules env a rest more rem st)
        (\<lambda>(later, more, rem) st. (Inr (events @ later, more, rem), st))))"
    by (intro within_then actions_within) (auto intro: within_mono [OF Cons.IH])
  then show ?case by (cases st) (auto simp: within_budget_def)
qed

text \<open>
  C25. The rules of one backfill batch are bounded: whatever rules are configured and whatever
  pages the query returns, running them over their pages adds at most \<open>batch_size\<close> operations to the
  log, on failure too. The flush, pull and sweep that end the batch are not part of this bound: the
  sweep may queue repairs of its own.
\<close>

theorem backfill_rules_are_bounded:
  "log_size (snd (snd (backfill_rules env a rules has_more batch_size (n, s)))) \<le>
   log_size s + batch_size"
  using rules_within [of "(n, s)" batch_size env a rules has_more]
  by (cases "backfill_rules env a rules has_more batch_size (n, s)")
    (auto simp: within_budget_def split: sum.splits)


subsection \<open>Jobs\<close>

text \<open>
  C26. A completed backfill rests: while the configured rules keep their fingerprint, processing the
  account's job runs no batch and changes neither the job, the log nor the provider, until a reset.
\<close>

theorem completed_backfill_rests:
  assumes "ae_rules env = Inr rules"
    and "automation_backfill_fingerprint env rules = Inr (Some fp)"
    and "map_of jobs (a, fp) = Some row" and "jr_status row = L ''completed''"
  shows "\<exists>r. process_automation_backfill_job_batch env a batch_size (jobs, n, g, s) =
      (r, jobs, n, g, s) \<and> (\<forall>outcome. r = Inr outcome \<longrightarrow> \<not> bo_ran outcome)"
proof -
  have f: "fetch_automation_backfill_job a fp jobs = Inr (Some
      \<lparr>jb_account_id = a, jb_rule_fingerprint = fp, jb_status = JobCompleted,
       jb_attempts = jr_attempts row, jb_last_error = jr_last_error row,
       jb_updated_at = jr_updated_at row\<rparr>)" (is "_ = Inr (Some ?job)")
    using assms(3,4)
    by (simp add: fetch_automation_backfill_job_def parse_automation_backfill_status_def map_result_def)
  have "ensure_automation_backfill_job (ck_now (ae_clock env)) a fp jobs = (Inr ?job, jobs)"
    using assms(3) f by (simp add: ensure_automation_backfill_job_def created_job_def)
  then show ?thesis
    using assms(1,2)
    by (auto simp: process_automation_backfill_job_batch_def not_run_def split: sum.split option.split bool.split)
qed


subsection \<open>Witnesses\<close>

lemma example_automation_run:
  "\<not> isl (fst (apply_automation_action queue_clock (L ''i'') (L ''a'') (example_record (L ''m1''))
     MarkRead (example_mut [] [])))"
  by code_simp

lemma example_row_shown:
  "message_effective (mu_mail (example_mut [] [])) (L ''a'') (L ''m1'') = Some (example_record (L ''m1''))"
  by code_simp

theorem automation_actions_are_idempotent_witness:
  "\<exists>s' after. s' = snd (apply_automation_action queue_clock (L ''i'') (L ''a'')
        (example_record (L ''m1'')) MarkRead (example_mut [] [])) \<and>
     message_effective (mu_mail s') (L ''a'') (L ''m1'') = Some after \<and>
     apply_automation_action queue_clock (L ''j'') (L ''a'') after MarkRead s' = (Inr [], s')"
proof -
  obtain events s' where r: "apply_automation_action queue_clock (L ''i'') (L ''a'')
      (example_record (L ''m1'')) MarkRead (example_mut [] []) = (Inr events, s')"
    using example_automation_run by (metis isl_def prod.collapse sum.exhaust)
  have id: "mr_id (example_record (L ''m1'')) = L ''m1''" by (simp add: example_record_def)
  have fresh: "L ''i'' \<notin> row_id ` set (db_outbox (mu_mail (example_mut [] [])))"
    by (simp add: example_mut_def example_db_def)
  have shown: "message_effective (mu_mail (example_mut [] [])) (L ''a'')
      (mr_id (example_record (L ''m1''))) = Some (example_record (L ''m1''))"
    unfolding id by (rule example_row_shown)
  from automation_actions_are_idempotent [OF r shown fresh, of "L ''j''"] r id show ?thesis by auto
qed

definition example_rule :: AutomationRule where
  "example_rule =
     \<lparr>ar_id = L ''r'', ar_name = L ''n'', ar_enabled = True, ar_triggers = [MessageArrived],
      ar_condition = \<lparr>qr_root = MailQueryGroup QAll False []\<rparr>, ar_actions = [MarkRead],
      ar_backfill = True\<rparr>"

definition example_auto_env :: "unit AutoEnv" where
  "example_auto_env =
     \<lparr>ae_cycle = quiet_env, ae_query = (\<lambda>_ _ s. Inr (map snd (db_base (mu_mail s)))),
      ae_source = (\<lambda>_. Inr (Some True)), ae_sources = Inr [(L ''a'', True)],
      ae_rules = Inr [example_rule], ae_json = (\<lambda>_. Inr (L ''fp'')), ae_clock = queue_clock,
      ae_ids = (\<lambda>n. replicate n 105)\<rparr>"

theorem completed_backfill_rests_witness:
  "\<exists>r. process_automation_backfill_job_batch example_auto_env (L ''a'') 5
      ([((L ''a'', L ''fp''), (new_job (L ''t''))\<lparr>jr_status := L ''completed''\<rparr>)], 0, (),
       example_cycle_db (example_db [] []))
    = (r, [((L ''a'', L ''fp''), (new_job (L ''t''))\<lparr>jr_status := L ''completed''\<rparr>)], 0, (),
       example_cycle_db (example_db [] []))"
  using completed_backfill_rests [of example_auto_env "[example_rule]" "L ''fp''"
      "[((L ''a'', L ''fp''), (new_job (L ''t''))\<lparr>jr_status := L ''completed''\<rparr>)]" "L ''a''"
      "(new_job (L ''t''))\<lparr>jr_status := L ''completed''\<rparr>" 5 0 "()" "example_cycle_db (example_db [] [])"]
  by (auto simp: example_auto_env_def automation_backfill_fingerprint_def wants_backfill_def
      example_rule_def)

end
