(* ===== verification/Spec2Isabelle.thy ===== *)
theory Spec2Isabelle
  imports Prelude MessageFold Replica TextLib OutboxModel OutboxStore Errors Replay Overlay SyncStore
    OutboxQueue OutboxFlush AuthoredRows MailQuery QueryGrammar QuerySql ProviderCall
    Mutation UndoLog ApplyLedger ImapPlan Unsubscribe ImapProject ImapStore ImapFetch ImapSync ImapStream ImapCycle
    ImapMutate SyncCycle CycleView SentCopies Automation
begin

text \<open>
  Posthaste is a mail client built around a local store: every user action is appended to a durable
  log of operations (the outbox), the screen shows the provider's last known state with that log
  replayed over it (the overlay), a flush sends the log to the provider, and a sync brings the
  provider's state back and retires what it already contains. This development models that core and
  the parts it leans on, from the Rust sources under \<open>src/crates\<close>.

  \<^bold>\<open>How the parts interact.\<close> A command queues operations (OutboxQueue) into the outbox table
  (OutboxStore). Every queued or settled operation names the rows it touches; for each of them the
  replay engine (Replay) folds the account's operations over the synced base row and the overlay
  plane (Overlay) stores the difference, so that the merged views show base and overrides together.
  The flush (OutboxFlush) claims operations in order, pushes them through the provider gateway,
  classifies failures (Errors), settles successes, parks what is uncertain, and later truncates what
  the base has absorbed. The sync write path (SyncStore) applies a provider's batch to the base
  rows, with guards against mass deletion. The client-side replica (Replica) is the same idea for
  one key and one predictor, the message fold (MessageFold). Queries typed by the user become a query
  tree (QueryGrammar), which is also the condition of a stored rule and of a smart mailbox (MailQuery)
  and which the store compiles to SQL (QuerySql). Outbound HTTP calls go through a retry loop and a
  circuit breaker (ProviderCall). One sync cycle (SyncCycle) flushes, pulls the provider's batches
  through the write path chunk by chunk, replays the log over the rows each chunk wrote, and sweeps:
  adopts sent copies, truncates, repairs lost destroys. For IMAP accounts the gateway (ImapSync) plans
  each mailbox (ImapPlan), fetches headers (ImapFetch), maps them (ImapProject) and hands batches to
  the transaction (ImapStore). Automation runs rules on what arrived and on the backlog.

  \<^bold>\<open>Theories and sources.\<close>
  Prelude: results as sums (\<open>Inl\<close> an error), state-passing steps, list lemmas, \<open>find_map\<close> and the
  collections of the other theories.
  TextLib: strings as lists of Unicode code points, trimming, ASCII case, substring search, numbers.
  MessageFold: \<open>replica-core/message.rs\<close> -- the foldable state of a message, assertions, the change
  diff with its inverse, and the coalescer of the pending log.
  Replica: \<open>replica-core/convergence.rs\<close> -- the replica over any predictor; the \<open>Convergence\<close> trait is
  a record of functions, its laws a locale interpreted on MessageFold.
  OutboxModel: \<open>domain-model/model/outbox.rs\<close>, \<open>commands.rs\<close> -- operations, kinds, states, intents; a
  JSON payload is one of the document shapes the code writes, or an undecodable document.
  OutboxStore: \<open>store/outbox.rs\<close> -- each SQL statement as a function on the list of rows.
  Errors: \<open>domain-model/model/errors.rs\<close> -- the error enums, their codes and presentation.
  Replay: \<open>domain-service/service/replay.rs\<close>, \<open>message_queries.rs\<close> -- the fold of one row.
  Overlay: \<open>store/overlay.rs\<close> and \<open>replay.rs\<close> -- override derivation, writes, merged views.
  SyncStore: \<open>store/mutations\<close> -- upserts, deletions, floor guards, the draft registry.
  OutboxQueue: \<open>service/outbox/queue.rs\<close>, \<open>draft.rs\<close>, \<open>schedule.rs\<close>.
  OutboxFlush: \<open>service/outbox/flush.rs\<close>, \<open>push.rs\<close>, \<open>settle.rs\<close>, \<open>classify.rs\<close>, \<open>draft.rs\<close>.
  AuthoredRows: what the outbox statements of a flush leave of a row the user wrote (no code of its own).
  MailQuery: \<open>model/mail_query.rs\<close>, \<open>query_schema.rs\<close>, \<open>rules.rs\<close>.
  QueryGrammar: \<open>posthaste-query-grammar/src\<close>.
  QuerySql: \<open>store/smart_mailboxes/rule_compiler.rs\<close>, \<open>field_compilers.rs\<close>.
  ProviderCall: \<open>posthaste-call-policy/src\<close>, \<open>posthaste-provider-call/src\<close>.
  Mutation: \<open>service/mutation.rs\<close>, \<open>store/snooze.rs\<close> -- the commands that queue, fold and echo a change.
  UndoLog: \<open>store/rev_log.rs\<close>, \<open>api/rev_log.rs\<close>, \<open>api/mail_mutations.rs\<close> of the client backend.
  ApplyLedger: \<open>store/apply_ledger.rs\<close> -- at-most-once decisions under an idempotency key.
  ImapPlan: \<open>domain-model/imap\<close>, \<open>provider/imap_policy.rs\<close>, \<open>domain-service/imap\<close>,
  \<open>posthaste-imap/discovery.rs\<close> -- IMAP value types, provider policy, identities and sync planning.
  ImapProject: \<open>posthaste-imap/message.rs\<close>, \<open>provider/\<close>, \<open>sync.rs\<close>, \<open>sync/\<close> -- headers to records,
  Gmail canonicalization, keywords and flags, deletions by origin, the batch builders.
  ImapStore: \<open>store/imap.rs\<close>, \<open>commands.rs\<close>, \<open>mutations/mailbox_cleanup.rs\<close>, \<open>sync_batch.rs\<close> -- mailboxes,
  role overrides, IMAP sync states and coordinates, and the whole batch transaction.
  ImapFetch: \<open>posthaste-imap/timeout.rs\<close>, \<open>mailbox.rs\<close>, \<open>fetch/\<close>, \<open>mutation.rs\<close>, \<open>mutation/\<close> -- commands
  under a deadline, header fetches and the mutations of one validated UID, over a protocol client.
  ImapSync: \<open>posthaste-imap/gateway/\<close> -- planning and executing the mailboxes of a cycle, the streamed
  initial snapshot, mailbox replacement and drafts.
  ImapStream, ImapCycle, ImapMutate: theorems about ImapSync (the streamed snapshot; what a cycle
  accumulates and deletes; epochs, replacements and draft ids).
  SyncCycle: \<open>service/sync_ops.rs\<close> -- the whole cycle from flush to sweep.
  CycleView, SentCopies: theorems about SyncCycle (the view during a pull; adoption and repair).
  Automation: \<open>service/automation/\<close>, \<open>store/automation.rs\<close> -- rules on arriving messages, the idempotent
  actions, the backfill and its durable jobs.
  Unsubscribe: \<open>model/unsubscribe.rs\<close>, \<open>domain-service/message_metadata.rs\<close> -- List-Unsubscribe targets.

  \<^bold>\<open>State.\<close> A table is a list of rows in insertion order or a map from its key; a transaction is one
  function on the database record; a service operation passes the database through every call it
  makes and returns either an error or a value with the new database. Rust structs are records
  with a field prefix, enums are datatypes with the source's constructors (suffixed where two clash),
  \<open>u16\<close>, \<open>u32\<close> and \<open>u64\<close> are words where wrap-around matters and numbers elsewhere.

  \<^bold>\<open>What the lemmas show.\<close> For the log: mail the user wrote is never lost by a flush, a send leaves at
  most once and is parked rather than repeated when its fate is unknown, cancelling and flushing race
  to one winner, coalescing keeps what replay shows, and only operations the base has seen are
  truncated. For the view: a row equals the log folded over its base, a failed intent disappears and
  failed content stays, a wiped overlay is rebuilt to the same view, and the reported difference is
  the difference. For sync: no batch can wipe an account by omission and the draft registry never
  names a missing row. For the replica: settling a confirmed operation does not change what is
  shown, retirement respects its version gate and completes. For queries: what is printed with quotes reads back,
  every query that parses passes validation and compiles, the compiler binds exactly one parameter
  per placeholder and lets no user text into the statement. For calls: the retry loop ends within its
  budget and the breaker opens exactly at its threshold. For commands: a mailbox or keyword change shows
  at once in the row everyone reads; undo and redo walk the history as a zipper and restore what the
  undone action changed; a reserved idempotency key executes once while its decision is retained.
  For the cycle: after each chunk the written rows show the log replayed over the new base, an
  incomplete pull truncates nothing and returns its error, an adopted send leaves the log, and repairs
  never stack. For IMAP: deletions are told apart by origin and inferred ones are bounded, no batch
  makes a coordinate dangle, an interrupted initial snapshot resumes without losing a message that
  stays in the mailbox, a replacement leaves the message in its target mailboxes only, a stale epoch
  stops every UID mutation before it acts, draft ids read back. For automation: an action queues
  nothing the second time, the rules of a backfill batch stay within its size, a completed backfill
  rests.

  Several theorems state how the code falls short of its documents: a second destroy that cancels the
  first; the draft of a send that never left, deleted by the sweep; a cancelled send without a compose
  key that is kept nowhere; a snapshot chunk that leaves overrides of rows it removed; a resumed
  snapshot whose prefix stays stale; a streamed cycle that deletes a message moved into the mailbox it
  has just streamed. What servers do is assumed only as far as the protocol promises it, by predicates
  that example servers meet: \<open>answers_uid_fetch\<close> (a fetch answers the UIDs that stay in the mailbox,
  and may ignore the others) and \<open>serves_message\<close> (a command on a message that is gone has no effect,
  and the server may remove a message by itself).

  \<^bold>\<open>Termination.\<close> Every function is total: loops over lists are structural, the tokenizer shrinks its
  input at every token, and the retry loop counts up to \<open>max_attempts\<close>. No fuel is used.

  \<^bold>\<open>Parameters.\<close> The mail provider is a record of functions (its answers arbitrary), and so is the IMAP
  protocol client under the IMAP gateway; clocks, fresh identifiers, timestamp parsing, the calendar,
  the mail parser, Unicode case tables, the regular expression engine and floating-point backoff are
  arguments of the definitions that use them.

  \<^bold>\<open>Not modelled.\<close> SQL failures and the text of queries around the compiled predicates; projections and
  full-text indices, which are SQL; the scores of the body cache, which are floating point; the JMAP
  engine and the IMAP session, IDLE, body and SMTP code, which wrap third-party protocol crates; the
  configuration files, which are serde and the file system, and the checks of the settings forms;
  logging, benchmarks and the user interfaces.
\<close>

end
